(* ===== verification/Prelude.thy ===== *)
theory Prelude
  imports Main "HOL-Library.Word"
begin

text \<open>
  Shared vocabulary of the development: the machine integers and byte strings of Go, the error
  values every fallible Go function returns, sequencing of fallible computations, the part of
  the Go standard library on strings, numbers and sorting that the sources use, and the generic
  lemmas the component theories rely on.
\<close>

unbundle bit_operations_syntax

section \<open>Machine types\<close>

type_synonym u8 = "8 word"
type_synonym u16 = "16 word"
type_synonym u32 = "32 word"
type_synonym u64 = "64 word"
type_synonym byte = "8 word"
type_synonym bytes = "byte list"

text \<open>Go strings are byte sequences; HOL characters are exactly the 256 byte values.\<close>

definition bytes_of :: "string \<Rightarrow> bytes" where
  "bytes_of s = map of_char s"

definition string_of :: "bytes \<Rightarrow> string" where
  "string_of bs = map (\<lambda>b. char_of (unat b)) bs"

lemma unat_of_char: "unat (of_char c :: byte) = (of_char c :: nat)"
proof -
  have lt: "(of_char c :: nat) < 256" by simp
  have "(of_char c :: byte) = of_nat (of_char c)" by (simp only: of_nat_of_char)
  then show ?thesis using lt by (simp only: unat_of_nat) simp
qed

lemma string_of_bytes_of [simp]: "string_of (bytes_of s) = s"
  unfolding string_of_def bytes_of_def
  by (simp add: unat_of_char comp_def map_idI)

lemma length_bytes_of [simp]: "length (bytes_of s) = length s"
  by (simp add: bytes_of_def)

lemma bytes_of_append [simp]: "bytes_of (s @ t) = bytes_of s @ bytes_of t"
  by (simp add: bytes_of_def)

section \<open>Errors and fallible computations\<close>

text \<open>
  A Go error value. \<open>Errorf\<close> carries the constant text of a \<open>fmt.Errorf\<close> call (not its
  formatted arguments), \<open>Wrapf\<close> an error that embeds the text of another one, \<open>Multi\<close>
  the list kept by a \<open>multierror.Error\<close>, \<open>FlagBreakCode\<close> the sentinel of the CBOR
  library, which callers compare with \<open>==\<close>. \<open>Panic\<close> is not an error value of Go: it marks
  a run-time panic (nil dereference, failed type assertion, slice bounds), so that no partial
  operation of the sources is hidden behind a total HOL function. \<open>Diverges\<close> is no error value either: it
  marks a loop that has not returned, so that a theorem that a loop ends excludes it.
\<close>

datatype err =
    Errorf string
  | Wrapf string err
  | Multi "err list"
  | FlagBreakCode
  | Panic string
  | Diverges

type_synonym 'a res = "err + 'a"

definition bindR :: "'e + 'a \<Rightarrow> ('a \<Rightarrow> 'e + 'b) \<Rightarrow> 'e + 'b" where
  "bindR m k = (case m of Inl e \<Rightarrow> Inl e | Inr x \<Rightarrow> k x)"

definition mapErr :: "('e \<Rightarrow> 'f) \<Rightarrow> 'e + 'a \<Rightarrow> 'f + 'a" where
  "mapErr f m = (case m of Inl e \<Rightarrow> Inl (f e) | Inr x \<Rightarrow> Inr x)"

lemma bindR_simps [simp]:
  "bindR (Inl e) k = Inl e"
  "bindR (Inr x) k = k x"
  by (simp_all add: bindR_def)

lemma mapErr_simps [simp]:
  "mapErr f (Inl e) = Inl (f e)"
  "mapErr f (Inr x) = Inr x"
  by (simp_all add: mapErr_def)

lemma bindR_InrE:
  assumes "bindR m k = Inr y"
  obtains x where "m = Inr x" "k x = Inr y"
  using assms by (cases m) auto

lemma bindR_Inr_iff: "bindR m k = Inr y \<longleftrightarrow> (\<exists>x. m = Inr x \<and> k x = Inr y)"
  by (cases m) auto

lemma mapErr_Inr_iff [simp]: "mapErr f m = Inr y \<longleftrightarrow> m = Inr y"
  by (cases m) auto

lemma mapErr_Inl_iff: "mapErr f m = Inl y \<longleftrightarrow> (\<exists>e. m = Inl e \<and> y = f e)"
  by (cases m) auto

lemma map_sum_InrD: "map_sum id f m = Inr y \<Longrightarrow> \<exists>x. m = Inr x \<and> f x = y"
  by (cases m) auto

text \<open>Return a value after a check that reports a list of errors.\<close>

definition checked :: "err list \<Rightarrow> 'a \<Rightarrow> 'a res" where
  "checked es x = (case es of [] \<Rightarrow> Inr x | e # _ \<Rightarrow> Inl e)"

lemma checked_Nil [simp]: "checked [] x = Inr x"
  by (simp add: checked_def)

lemma checked_Inr_iff [simp]: "checked es x = Inr y \<longleftrightarrow> es = [] \<and> y = x"
  by (auto simp: checked_def split: list.splits)

lemma checked_Inl: "checked es x = Inl e \<Longrightarrow> e \<in> set es"
  by (auto simp: checked_def split: list.splits)

text \<open>No return, by a run-time panic or by a loop that does not end, as opposed to a returned error.\<close>

fun is_panic :: "err \<Rightarrow> bool" where
  "is_panic (Panic _) = True"
| "is_panic Diverges = True"
| "is_panic _ = False"

section \<open>Strings and numbers of the Go standard library\<close>

definition digit_char :: "nat \<Rightarrow> char" where
  "digit_char d = char_of (48 + d)"

text \<open>\<open>fmt\<close>'s verb \<open>%d\<close> on an unsigned integer.\<close>

fun dec :: "nat \<Rightarrow> string" where
  "dec n = (if n < 10 then [digit_char n] else dec (n div 10) @ [digit_char (n mod 10)])"

declare dec.simps [simp del]

definition fmt_d :: "u64 \<Rightarrow> string" where
  "fmt_d n = dec (unat n)"

definition is_digit :: "char \<Rightarrow> bool" where
  "is_digit c \<longleftrightarrow> 48 \<le> (of_char c :: nat) \<and> (of_char c :: nat) \<le> 57"

definition digit_val :: "char \<Rightarrow> nat" where
  "digit_val c = of_char c - 48"

definition err_syntax :: err where
  "err_syntax = Errorf ''invalid syntax''"

definition err_range :: err where
  "err_range = Errorf ''value out of range''"

text \<open>\<open>strconv.ParseUint(s, 10, 64)\<close>: the loop over the characters with its overflow check.\<close>

fun parse_digits :: "nat \<Rightarrow> string \<Rightarrow> nat res" where
  "parse_digits n [] = Inr n"
| "parse_digits n (c # cs) =
     (if \<not> is_digit c then Inl err_syntax
      else if 2 ^ 64 \<le> n * 10 + digit_val c then Inl err_range
      else parse_digits (n * 10 + digit_val c) cs)"

definition ParseUint :: "string \<Rightarrow> u64 res" where
  "ParseUint s = (if s = [] then Inl err_syntax
                  else bindR (parse_digits 0 s) (\<lambda>n. Inr (of_nat n)))"

lemma of_char_digit_char [simp]: "d < 10 \<Longrightarrow> (of_char (digit_char d) :: nat) = 48 + d"
  by (simp add: digit_char_def)

lemma is_digit_digit_char [simp]: "d < 10 \<Longrightarrow> is_digit (digit_char d)"
  by (simp add: is_digit_def)

lemma digit_val_digit_char [simp]: "d < 10 \<Longrightarrow> digit_val (digit_char d) = d"
  by (simp add: digit_val_def)

lemma dec_nonempty [simp]: "dec n \<noteq> []"
  by (subst dec.simps) simp

lemma dec_digits: "c \<in> set (dec n) \<Longrightarrow> is_digit c"
proof (induction n rule: dec.induct)
  case (1 n)
  show ?case
  proof (cases "n < 10")
    case True
    then show ?thesis using "1.prems" by (simp add: dec.simps [of n])
  next
    case False
    then show ?thesis using "1.prems" "1.IH" by (auto simp: dec.simps [of n])
  qed
qed

lemma parse_digits_append:
  "parse_digits n (xs @ ys) = bindR (parse_digits n xs) (\<lambda>m. parse_digits m ys)"
  by (induction xs arbitrary: n) auto

lemma parse_digits_dec: "n < 2 ^ 64 \<Longrightarrow> parse_digits 0 (dec n) = Inr n"
proof (induction n rule: dec.induct)
  case (1 n)
  show ?case
  proof (cases "n < 10")
    case True
    then show ?thesis by (simp add: dec.simps [of n])
  next
    case False
    have "n div 10 < 2 ^ 64" using "1.prems" by simp
    then have "parse_digits 0 (dec (n div 10)) = Inr (n div 10)" using False "1.IH" by blast
    moreover have "n div 10 * 10 + n mod 10 = n" by simp
    ultimately show ?thesis using False "1.prems"
      by (simp add: dec.simps [of n] parse_digits_append del: div_mult_mod_eq)
  qed
qed

lemma ParseUint_fmt_d [simp]: "ParseUint (fmt_d n) = Inr n"
proof -
  have "unat n < 2 ^ 64" using unsigned_less [of n] by simp
  then show ?thesis by (simp add: ParseUint_def fmt_d_def parse_digits_dec)
qed

lemma fmt_d_inj [simp]: "fmt_d m = fmt_d n \<longleftrightarrow> m = n"
  by (metis ParseUint_fmt_d sum.inject(2))

lemma fmt_d_nonempty [simp]: "fmt_d n \<noteq> []"
  by (simp add: fmt_d_def)

lemma fmt_d_digits: "c \<in> set (fmt_d n) \<Longrightarrow> is_digit c"
  by (simp add: fmt_d_def dec_digits)

text \<open>\<open>strings.Split\<close> and \<open>strings.SplitN(_, _, 2)\<close> on a one-byte separator.\<close>

fun Split :: "char \<Rightarrow> string \<Rightarrow> string list" where
  "Split sep [] = [[]]"
| "Split sep (c # cs) =
     (if c = sep then [] # Split sep cs
      else (case Split sep cs of [] \<Rightarrow> [[c]] | w # ws \<Rightarrow> (c # w) # ws))"

definition SplitN2 :: "char \<Rightarrow> string \<Rightarrow> string list" where
  "SplitN2 sep s =
     (case dropWhile (\<lambda>c. c \<noteq> sep) s of
        [] \<Rightarrow> [s]
      | _ # rest \<Rightarrow> [takeWhile (\<lambda>c. c \<noteq> sep) s, rest])"

definition HasPrefix :: "string \<Rightarrow> string \<Rightarrow> bool" where
  "HasPrefix s p \<longleftrightarrow> take (length p) s = p"

lemma Split_nonempty [simp]: "Split sep s \<noteq> []"
  by (induction s) (auto split: list.splits)

lemma Split_no_sep: "sep \<notin> set s \<Longrightarrow> Split sep s = [s]"
  by (induction s) auto

lemma Split_append_sep: "sep \<notin> set s \<Longrightarrow> Split sep (s @ sep # t) = s # Split sep t"
  by (induction s) auto

lemma length_Split: "length (Split sep s) = Suc (count_list s sep)"
  by (induction s) (auto split: list.splits)

lemma SplitN2_append: "sep \<notin> set s \<Longrightarrow> SplitN2 sep (s @ sep # t) = [s, t]"
proof -
  assume a: "sep \<notin> set s"
  have "dropWhile (\<lambda>c. c \<noteq> sep) (s @ sep # t) = sep # t" using a by (induction s) auto
  moreover have "takeWhile (\<lambda>c. c \<noteq> sep) (s @ sep # t) = s" using a by (induction s) auto
  ultimately show ?thesis by (simp add: SplitN2_def)
qed

text \<open>
  \<open>sort.Sort\<close> and \<open>sort.Slice\<close>: insertion sort, the routine the Go library runs on the short
  slices that occur here. Only the order of elements that compare equal depends on this choice.
\<close>

fun insert_less :: "('a \<Rightarrow> 'a \<Rightarrow> bool) \<Rightarrow> 'a \<Rightarrow> 'a list \<Rightarrow> 'a list" where
  "insert_less lt x [] = [x]"
| "insert_less lt x (y # ys) = (if lt y x then y # insert_less lt x ys else x # y # ys)"

definition sort_less :: "('a \<Rightarrow> 'a \<Rightarrow> bool) \<Rightarrow> 'a list \<Rightarrow> 'a list" where
  "sort_less lt xs = foldr (insert_less lt) xs []"

lemma set_insert_less [simp]: "set (insert_less lt x xs) = insert x (set xs)"
  by (induction xs) auto

lemma length_insert_less [simp]: "length (insert_less lt x xs) = Suc (length xs)"
  by (induction xs) auto

lemma sort_less_simps [simp]:
  "sort_less lt [] = []"
  "sort_less lt (x # xs) = insert_less lt x (sort_less lt xs)"
  by (simp_all add: sort_less_def)

lemma set_sort_less [simp]: "set (sort_less lt xs) = set xs"
  by (induction xs) auto

lemma length_sort_less [simp]: "length (sort_less lt xs) = length xs"
  by (induction xs) auto

lemma distinct_insert_less [simp]:
  "distinct (map f (insert_less lt x xs)) \<longleftrightarrow> f x \<notin> f ` set xs \<and> distinct (map f xs)"
  by (induction xs) auto

lemma distinct_sort_less [simp]: "distinct (map f (sort_less lt xs)) \<longleftrightarrow> distinct (map f xs)"
  by (induction xs) auto

lemma distinct_map_finer:
  assumes "distinct (map f xs)" "\<And>x y. g x = g y \<Longrightarrow> f x = f y"
  shows "distinct (map g xs)"
  using assms(1)
proof (induction xs)
  case (Cons x xs)
  have "g x \<notin> g ` set xs"
  proof
    assume "g x \<in> g ` set xs"
    then obtain y where "y \<in> set xs" "g x = g y" by blast
    then have "f x \<in> f ` set xs" using assms(2) by blast
    then show False using Cons.prems by simp
  qed
  then show ?case using Cons by simp
qed simp

text \<open>A slice that is already in order is left alone.\<close>

lemma sort_less_sorted:
  assumes "sorted_wrt (\<lambda>x y. \<not> lt y x) xs"
  shows "sort_less lt xs = xs"
  using assms
proof (induction xs)
  case Nil
  show ?case by simp
next
  case (Cons x xs)
  then show ?case by (cases xs) auto
qed

section \<open>Signed 64-bit arithmetic\<close>

text \<open>Go's \<open>int64\<close> values as mathematical integers; every operation wraps.\<close>

definition int64 :: "int \<Rightarrow> int" where
  "int64 x = signed_take_bit 63 x"

lemma int64_id: "- (2 ^ 63) \<le> x \<Longrightarrow> x < 2 ^ 63 \<Longrightarrow> int64 x = x"
  by (simp add: int64_def signed_take_bit_int_eq_self)

lemma int64_eq: "- 9223372036854775808 \<le> x \<Longrightarrow> x < 9223372036854775808 \<Longrightarrow> int64 x = x"
  by (rule int64_id) simp_all

definition u64_of_int :: "int \<Rightarrow> u64" where
  "u64_of_int x = word_of_int x"

text \<open>Go's integer division truncates towards zero.\<close>

definition quot :: "int \<Rightarrow> int \<Rightarrow> int" where
  "quot a b = sgn a * sgn b * (\<bar>a\<bar> div \<bar>b\<bar>)"

lemma quot_nonneg: "0 \<le> a \<Longrightarrow> 0 < b \<Longrightarrow> quot a b = a div b"
  by (cases "a = 0") (simp_all add: quot_def)

section \<open>Simulations\<close>

text \<open>
  A detailed and an abstract system that take the same steps: a relation that every admissible step
  keeps is kept by every sequence of steps.
\<close>

locale simulation =
  fixes cstep :: "'op \<Rightarrow> 's \<Rightarrow> 's" and astep :: "'op \<Rightarrow> 'a \<Rightarrow> 'a" and ok :: "'op \<Rightarrow> bool" and R :: "'s \<Rightarrow> 'a \<Rightarrow> bool"
  assumes step: "R s a \<Longrightarrow> ok op \<Longrightarrow> R (cstep op s) (astep op a)"
begin

lemma steps: "R s a \<Longrightarrow> list_all ok ops \<Longrightarrow> R (fold cstep ops s) (fold astep ops a)"
  by (induction ops arbitrary: s a) (auto intro: step)

end

end
