(* ===== verification/Cbor_Lib.thy ===== *)
theory Cbor_Lib
  imports Prelude
begin

text \<open>
  The third-party packages the bundle code serialises with, \<open>github.com/dtn7/cboring\<close> and
  \<open>github.com/howeyc/crc16\<close>, are not part of the repository. They are a parameter of the model:
  the record \<open>cboring\<close> of the functions and constants the sources call. What the sources rely on
  is stated once as the laws of the locale \<open>cboring_lib\<close>. The last section gives the encoding
  of RFC 8949 (shortest definite-length heads) as an instance of the record and proves the laws
  for it, so that they can hold and witnesses can be evaluated.
\<close>

section \<open>The interface\<close>

datatype MajorType = MajorUInt | MajorTextString | MajorOther byte

record cboring =
  IndefiniteArray :: byte
  BreakCode :: byte
  WriteUInt :: "u64 \<Rightarrow> bytes"
  WriteArrayLength :: "u64 \<Rightarrow> bytes"
  WriteByteStringLen :: "u64 \<Rightarrow> bytes"
  WriteByteString :: "bytes \<Rightarrow> bytes"
  WriteTextString :: "string \<Rightarrow> bytes"
  WriteBoolean :: "bool \<Rightarrow> bytes"
  ReadMajors :: "bytes \<Rightarrow> (MajorType \<times> u64 \<times> bytes) res"
  ReadUInt :: "bytes \<Rightarrow> (u64 \<times> bytes) res"
  ReadArrayLength :: "bytes \<Rightarrow> (u64 \<times> bytes) res"
  ReadByteStringLen :: "bytes \<Rightarrow> (u64 \<times> bytes) res"
  ReadByteString :: "bytes \<Rightarrow> (bytes \<times> bytes) res"
  ReadRawBytes :: "u64 \<Rightarrow> bytes \<Rightarrow> (bytes \<times> bytes) res"
  ReadBoolean :: "bytes \<Rightarrow> (bool \<times> bytes) res"
  ReadExpect :: "byte \<Rightarrow> bytes \<Rightarrow> bytes res"
  crc16_Checksum :: "bytes \<Rightarrow> u16"
  WriteMapPairLength :: "u64 \<Rightarrow> bytes"
  WriteFloat64 :: "u64 \<Rightarrow> bytes"
  ReadMapPairLength :: "bytes \<Rightarrow> (u64 \<times> bytes) res"
  ReadFloat64 :: "bytes \<Rightarrow> (u64 \<times> bytes) res"

text \<open>
  Writers append to an in-memory buffer and return the bytes they append; readers consume a
  prefix of their input and return the rest. Every reader is a left inverse of its writer, a
  reader that succeeds has consumed something, and the byte that ends an indefinite-length array
  is reported as \<open>FlagBreakCode\<close> by the reader of an array head. Heads have the shortest form, so
  that a larger number never has a shorter head. Floating point numbers are given by their bits.
\<close>

locale cboring_lib =
  fixes L :: cboring
  assumes read_uint: "ReadUInt L (WriteUInt L n @ r) = Inr (n, r)"
    and read_majors_uint: "ReadMajors L (WriteUInt L n @ r) = Inr (MajorUInt, n, r)"
    and read_majors_text: "length s < 2 ^ 64 \<Longrightarrow>
      ReadMajors L (WriteTextString L s @ r) = Inr (MajorTextString, of_nat (length s), bytes_of s @ r)"
    and read_raw: "length d = unat n \<Longrightarrow> ReadRawBytes L n (d @ r) = Inr (d, r)"
    and read_array: "ReadArrayLength L (WriteArrayLength L n @ r) = Inr (n, r)"
    and read_bslen: "ReadByteStringLen L (WriteByteStringLen L n @ r) = Inr (n, r)"
    and read_bs: "length d < 2 ^ 64 \<Longrightarrow> ReadByteString L (WriteByteString L d @ r) = Inr (d, r)"
    and write_bs: "length d < 2 ^ 64 \<Longrightarrow>
      WriteByteString L d = WriteByteStringLen L (of_nat (length d)) @ d"
    and read_bool: "ReadBoolean L (WriteBoolean L b @ r) = Inr (b, r)"
    and read_expect: "ReadExpect L c (c # r) = Inr r"
    and read_break: "ReadArrayLength L (BreakCode L # r) = Inl FlagBreakCode"
    and array_progress: "ReadArrayLength L r = Inr (n, r') \<Longrightarrow> length r' < length r"
    and uint_progress: "ReadUInt L r = Inr (n, r') \<Longrightarrow> length r' < length r"
    and bs_progress: "ReadByteString L r = Inr (d, r') \<Longrightarrow> length r' < length r"
    and bslen_progress: "ReadByteStringLen L r = Inr (n, r') \<Longrightarrow> length r' < length r"
    and size_uint: "length (WriteUInt L n) \<le> 9"
    and size_array: "length (WriteArrayLength L n) \<le> 9"
    and size_text: "length s < 2 ^ 64 \<Longrightarrow> length (WriteTextString L s) \<le> 9 + length s"
    and size_uint_mono: "m \<le> n \<Longrightarrow> length (WriteUInt L m) \<le> length (WriteUInt L n)"
    and size_array_mono: "m \<le> n \<Longrightarrow> length (WriteArrayLength L m) \<le> length (WriteArrayLength L n)"
    and size_bslen_mono: "m \<le> n \<Longrightarrow> length (WriteByteStringLen L m) \<le> length (WriteByteStringLen L n)"
    and size_bslen_zero: "length (WriteByteStringLen L 0) = 1"
    and majors_progress: "ReadMajors L r = Inr (t, n, r') \<Longrightarrow> length r' < length r"
    and raw_progress: "ReadRawBytes L n r = Inr (d, r') \<Longrightarrow> length r' \<le> length r"
    and expect_progress: "ReadExpect L c r = Inr r' \<Longrightarrow> length r' < length r"
    and read_pairs: "ReadMapPairLength L (WriteMapPairLength L n @ r) = Inr (n, r)"
    and read_float: "ReadFloat64 L (WriteFloat64 L x @ r) = Inr (x, r)"
    and pairs_progress: "ReadMapPairLength L r = Inr (n, r') \<Longrightarrow> length r' < length r"
    and float_progress: "ReadFloat64 L r = Inr (x, r') \<Longrightarrow> length r' < length r"
begin

lemmas cbor = read_uint read_array read_bool read_expect read_break read_majors_uint

end

section \<open>The encoding of RFC 8949 as an instance\<close>

text \<open>Big-endian numbers, computed on binary integers so that evaluation is fast.\<close>

fun be :: "nat \<Rightarrow> int \<Rightarrow> bytes" where
  "be 0 n = []"
| "be (Suc k) n = be k (n div 256) @ [word_of_int (n mod 256)]"

definition unbe :: "bytes \<Rightarrow> int" where
  "unbe bs = foldl (\<lambda>a b. a * 256 + uint b) 0 bs"

definition head :: "nat \<Rightarrow> u64 \<Rightarrow> bytes" where
  "head m n =
     (let v = uint n in
      if v < 24 then [of_nat (m * 32 + unat n)]
      else if v < 256 then of_nat (m * 32 + 24) # be 1 v
      else if v < 65536 then of_nat (m * 32 + 25) # be 2 v
      else if v < 4294967296 then of_nat (m * 32 + 26) # be 4 v
      else of_nat (m * 32 + 27) # be 8 v)"

definition eof :: err where
  "eof = Errorf ''EOF''"

definition read_arg :: "nat \<Rightarrow> nat \<Rightarrow> bytes \<Rightarrow> (nat \<times> u64 \<times> bytes) res" where
  "read_arg k m r = (if length r < k then Inl eof
                     else Inr (m, word_of_int (unbe (take k r)), drop k r))"

fun read_head :: "bytes \<Rightarrow> (nat \<times> u64 \<times> bytes) res" where
  "read_head [] = Inl eof"
| "read_head (b # r) =
     (let m = unat b div 32; a = unat b mod 32 in
      if b = 255 then Inl FlagBreakCode
      else if a < 24 then Inr (m, of_nat a, r)
      else if a = 24 then read_arg 1 m r
      else if a = 25 then read_arg 2 m r
      else if a = 26 then read_arg 4 m r
      else if a = 27 then read_arg 8 m r
      else Inl (Errorf ''unsupported additional information''))"

definition expect_major :: "nat \<Rightarrow> bytes \<Rightarrow> (u64 \<times> bytes) res" where
  "expect_major m r = bindR (read_head r)
     (\<lambda>(m', n, r'). if m' = m then Inr (n, r') else Inl (Errorf ''unexpected major type''))"

definition read_raw_bytes :: "u64 \<Rightarrow> bytes \<Rightarrow> (bytes \<times> bytes) res" where
  "read_raw_bytes n r = (if length r < unat n then Inl eof else Inr (take (unat n) r, drop (unat n) r))"

definition crc16_step :: "u16 \<Rightarrow> u16" where
  "crc16_step c = (if c AND 1 = 0 then drop_bit 1 c else drop_bit 1 c XOR 0x8408)"

definition crc16_x25 :: "bytes \<Rightarrow> u16" where
  "crc16_x25 bs = NOT (foldl (\<lambda>c b. (crc16_step ^^ 8) (c XOR ucast b)) 0xFFFF bs)"

definition rfc8949 :: cboring where
  "rfc8949 = \<lparr>
     IndefiniteArray = 159,
     BreakCode = 255,
     WriteUInt = head 0,
     WriteArrayLength = head 4,
     WriteByteStringLen = head 2,
     WriteByteString = (\<lambda>d. head 2 (of_nat (length d)) @ d),
     WriteTextString = (\<lambda>s. head 3 (of_nat (length s)) @ bytes_of s),
     WriteBoolean = (\<lambda>b. [if b then 245 else 244]),
     ReadMajors = (\<lambda>r. bindR (read_head r) (\<lambda>(m, n, r').
        Inr (if m = 0 then MajorUInt else if m = 3 then MajorTextString else MajorOther (of_nat m), n, r'))),
     ReadUInt = expect_major 0,
     ReadArrayLength = expect_major 4,
     ReadByteStringLen = expect_major 2,
     ReadByteString = (\<lambda>r. bindR (expect_major 2 r) (\<lambda>(n, r'). read_raw_bytes n r')),
     ReadRawBytes = read_raw_bytes,
     ReadBoolean = (\<lambda>r. case r of [] \<Rightarrow> Inl eof | b # r' \<Rightarrow>
        if b = 245 then Inr (True, r') else if b = 244 then Inr (False, r')
        else Inl (Errorf ''not a boolean'')),
     ReadExpect = (\<lambda>b r. case r of [] \<Rightarrow> Inl eof | c # r' \<Rightarrow>
        if c = b then Inr r' else Inl (Errorf ''unexpected byte'')),
     crc16_Checksum = crc16_x25,
     WriteMapPairLength = head 5,
     WriteFloat64 = (\<lambda>x. 251 # be 8 (uint x)),
     ReadMapPairLength = expect_major 5,
     ReadFloat64 = (\<lambda>r. case r of [] \<Rightarrow> Inl eof | b # r' \<Rightarrow>
        if b \<noteq> 251 then Inl (Errorf ''not a float64'')
        else if length r' < 8 then Inl eof else Inr (word_of_int (unbe (take 8 r')), drop 8 r'))\<rparr>"

lemma length_be [simp]: "length (be k n) = k"
  by (induction k arbitrary: n) auto

lemma unbe_snoc: "unbe (xs @ [b]) = unbe xs * 256 + uint b"
  by (simp add: unbe_def)

lemma uint_byte_mod [simp]: "uint (word_of_int (n mod 256) :: byte) = n mod 256"
  by (simp add: uint_word_of_int)

lemma unbe_be: "0 \<le> n \<Longrightarrow> n < 256 ^ k \<Longrightarrow> unbe (be k n) = n"
proof (induction k arbitrary: n)
  case 0
  then show ?case by (simp add: unbe_def)
next
  case (Suc k)
  have "n div 256 < 256 ^ k"
  proof (rule ccontr)
    assume "\<not> n div 256 < 256 ^ k"
    moreover have "256 * (n div 256) \<le> n" by (simp add: minus_mod_eq_mult_div [symmetric])
    ultimately show False using Suc.prems by simp
  qed
  then have "unbe (be k (n div 256)) = n div 256" using Suc.prems by (intro Suc.IH) simp_all
  then show ?case by (simp add: unbe_snoc)
qed

lemma read_arg_be: "uint n < 256 ^ k \<Longrightarrow> read_arg k m (be k (uint n) @ r) = Inr (m, n, r)"
  by (simp add: read_arg_def unbe_be)

lemma read_head_head:
  assumes "m < 7"
  shows "read_head (head m n @ r) = Inr (m, n, r)"
proof -
  have lead: "unat (of_nat (m * 32 + a) :: byte) div 32 = m"
    "unat (of_nat (m * 32 + a) :: byte) mod 32 = a"
    "(of_nat (m * 32 + a) :: byte) \<noteq> 255" if "a < 32" for a
  proof -
    have u: "unat (of_nat (m * 32 + a) :: byte) = m * 32 + a"
      using assms that by (simp only: unat_of_nat) simp
    show "unat (of_nat (m * 32 + a) :: byte) div 32 = m" "unat (of_nat (m * 32 + a) :: byte) mod 32 = a"
      using that by (simp_all only: u) simp_all
    show "(of_nat (m * 32 + a) :: byte) \<noteq> 255"
    proof
      assume "(of_nat (m * 32 + a) :: byte) = 255"
      then have "unat (of_nat (m * 32 + a) :: byte) = 255" by simp
      then have "m * 32 + a = 255" by (simp only: u)
      then show False using assms that by simp
    qed
  qed
  have "uint n < 2 ^ 64" using uint_lt2p [of n] by simp
  moreover have "uint n < 24 \<Longrightarrow> unat n < 24" by (simp only: unat_eq_nat_uint)
  ultimately show ?thesis
    unfolding head_def Let_def
    using read_arg_be [of n 1 m r] read_arg_be [of n 2 m r] read_arg_be [of n 4 m r] read_arg_be [of n 8 m r]
    by (auto simp: Let_def lead simp del: of_nat_add of_nat_mult of_nat_numeral)
qed

lemma length_head: "length (head m n) \<le> 9"
  by (simp add: head_def Let_def)

lemma length_head_mono: "m \<le> n \<Longrightarrow> length (head k m) \<le> length (head k n)"
  by (simp add: head_def Let_def word_le_def)

lemma expect_major_head: "m < 7 \<Longrightarrow> expect_major m (head m n @ r) = Inr (n, r)"
  by (simp add: expect_major_def read_head_head)

lemma read_head_progress: "read_head r = Inr (m, n, r') \<Longrightarrow> length r' < length r"
  by (cases r) (auto simp: Let_def read_arg_def split: if_splits)

lemma expect_major_progress: "expect_major m r = Inr (n, r') \<Longrightarrow> length r' < length r"
  by (auto simp: expect_major_def bindR_Inr_iff split: if_splits dest: read_head_progress)

lemma read_raw_bytes_append: "length d = unat n \<Longrightarrow> read_raw_bytes n (d @ r) = Inr (d, r)"
  by (simp add: read_raw_bytes_def)

lemma unat_length: "length d < 2 ^ 64 \<Longrightarrow> unat (of_nat (length d) :: u64) = length d"
  by (simp add: unat_of_nat)

lemma rfc8949_simps:
  "WriteUInt rfc8949 = head 0" "WriteArrayLength rfc8949 = head 4" "WriteByteStringLen rfc8949 = head 2"
  "WriteByteString rfc8949 d = head 2 (of_nat (length d)) @ d"
  by (simp_all add: rfc8949_def)

interpretation rfc: cboring_lib rfc8949
proof (unfold_locales, goal_cases)
  case (3 s r)
  then show ?case by (simp add: rfc8949_def read_head_head)
next
  case (7 d r)
  then show ?case
    by (simp add: rfc8949_def expect_major_head read_raw_bytes_append unat_length)
next
  case (14 r d r')
  then show ?case
    by (auto simp: rfc8949_def bindR_Inr_iff read_raw_bytes_def split: if_splits dest: expect_major_progress)
next
  case (23 r t n r')
  then show ?case by (auto simp: rfc8949_def bindR_Inr_iff dest: read_head_progress)
next
  case (27 x r)
  have "unbe (be 8 (uint x)) = uint x" using uint_lt2p [of x] by (intro unbe_be) simp_all
  then show ?case by (simp add: rfc8949_def)
qed (auto simp: rfc8949_def expect_major_head read_head_head read_raw_bytes_append expect_major_def read_raw_bytes_def
     length_head length_head_mono head_def [of 2 0] split: list.splits if_splits
     dest: expect_major_progress [unfolded expect_major_def])

end
