(* ===== verification/Endpoint.thy ===== *)
theory Endpoint
  imports Cbor_Lib
begin

text \<open>
  Endpoint identifiers (\<open>pkg/bpv7/endpoint.go\<close>, \<open>endpoint_dtn.go\<close>, \<open>endpoint_ipn.go\<close>): the
  \<open>dtn\<close> and \<open>ipn\<close> URI schemes, parsing and printing of URIs, the validity checks and the CBOR
  representation. The regular expressions of the sources are the recognisers below; they work on
  bytes, which is exact because the only characters they single out are ASCII.
\<close>

section \<open>Data\<close>

record DtnEndpoint =
  NodeName :: string
  Demux :: string
  IsDtnNone :: bool

record IpnEndpoint =
  Node :: u64
  Service :: u64

text \<open>The interface value \<open>EndpointType\<close>; \<open>None\<close> in an \<open>EndpointID\<close> is the nil interface.\<close>

datatype EndpointType = Dtn DtnEndpoint | Ipn IpnEndpoint

type_synonym EndpointID = "EndpointType option"

definition DtnEndpointSchemeName :: string where "DtnEndpointSchemeName = ''dtn''"
definition DtnEndpointSchemeNo :: u64 where "DtnEndpointSchemeNo = 1"
definition DtnEndpointDtnNone :: string where "DtnEndpointDtnNone = ''dtn:none''"
definition DtnEndpointDtnNoneSsp :: string where "DtnEndpointDtnNoneSsp = ''none''"
definition ipnEndpointSchemeName :: string where "ipnEndpointSchemeName = ''ipn''"
definition ipnEndpointSchemeNo :: u64 where "ipnEndpointSchemeNo = 2"

section \<open>Regular expressions\<close>

definition newline :: char where "newline = CHR 0x0A"

definition is_alnum :: "char \<Rightarrow> bool" where
  "is_alnum c \<longleftrightarrow> (let n = (of_char c :: nat) in
     48 \<le> n \<and> n \<le> 57 \<or> 65 \<le> n \<and> n \<le> 90 \<or> 97 \<le> n \<and> n \<le> 122)"

text \<open>The character class of a node name in \<open>DtnEndpointRegexpSsp\<close>.\<close>

definition is_node_char :: "char \<Rightarrow> bool" where
  "is_node_char c \<longleftrightarrow> is_alnum c \<or> c = CHR ''_'' \<or> c \<in> set ''-.~!$&()*+,;='' \<or> c = CHR 0x27"

text \<open>
  \<open>//((^$)|([\w-._~!$&'()*+,;=]+))/(.*)\<close> matched at the start of a string: the first alternative
  of the group can never match behind the two slashes.
\<close>

definition ssp_prefix :: "string \<Rightarrow> bool" where
  "ssp_prefix s \<longleftrightarrow> take 2 s = ''//'' \<and>
     takeWhile is_node_char (drop 2 s) \<noteq> [] \<and>
     take 1 (dropWhile is_node_char (drop 2 s)) = ''/''"

text \<open>The same expression anchored at both ends, as in \<open>parseDtnSsp\<close>; the dot excludes a newline.\<close>

definition ssp_full :: "string \<Rightarrow> bool" where
  "ssp_full s \<longleftrightarrow> ssp_prefix s \<and> newline \<notin> set (dropWhile is_node_char (drop 2 s))"

text \<open>The unanchored search of \<open>DtnEndpoint.CheckValid\<close>.\<close>

fun ssp_search :: "string \<Rightarrow> bool" where
  "ssp_search [] = ssp_prefix []"
| "ssp_search (c # cs) = (ssp_prefix (c # cs) \<or> ssp_search cs)"

section \<open>The dtn scheme\<close>

definition parseDtnSsp :: "string \<Rightarrow> (string \<times> string \<times> bool) res" where
  "parseDtnSsp ssp =
     (if ssp = DtnEndpointDtnNoneSsp then Inr ([], [], True)
      else if \<not> ssp_full ssp then Inl (Errorf ''ssp does not match a dtn endpoint'')
      else (case SplitN2 (CHR ''/'') (drop 2 ssp) of
              [nodeName, demux] \<Rightarrow> Inr (nodeName, demux, False)
            | _ \<Rightarrow> Inl (Panic ''index out of range'')))"

definition dtn_ssp :: "DtnEndpoint \<Rightarrow> string" where
  "dtn_ssp e = ''//'' @ NodeName e @ ''/'' @ Demux e"

definition DtnEndpoint_CheckValid :: "DtnEndpoint \<Rightarrow> err list" where
  "DtnEndpoint_CheckValid e =
     (if IsDtnNone e then []
      else if \<not> ssp_search (dtn_ssp e) then [Errorf ''malformed ssp''] else [])"

definition NewDtnEndpoint :: "string \<Rightarrow> EndpointType res" where
  "NewDtnEndpoint uri =
     (if \<not> HasPrefix uri (DtnEndpointSchemeName @ '':'')
      then Inl (Errorf ''URI does not start with the dtn URI prefix'')
      else bindR (parseDtnSsp (drop (length DtnEndpointSchemeName + 1) uri))
        (\<lambda>(nodeName, demux, isDtnNode).
           let e = (if isDtnNode then \<lparr>NodeName = [], Demux = [], IsDtnNone = True\<rparr>
                    else \<lparr>NodeName = nodeName, Demux = demux, IsDtnNone = False\<rparr>)
           in checked (DtnEndpoint_CheckValid e) (Dtn e)))"

definition DtnEndpoint_Authority :: "DtnEndpoint \<Rightarrow> string" where
  "DtnEndpoint_Authority e = (if IsDtnNone e then DtnEndpointDtnNoneSsp else NodeName e)"

definition DtnEndpoint_Path :: "DtnEndpoint \<Rightarrow> string" where
  "DtnEndpoint_Path e = (if IsDtnNone e then ''/'' else ''/'' @ Demux e)"

definition DtnEndpoint_IsSingleton :: "DtnEndpoint \<Rightarrow> bool" where
  "DtnEndpoint_IsSingleton e \<longleftrightarrow> \<not> HasPrefix (Demux e) ''~'' \<and> \<not> IsDtnNone e"

definition DtnEndpoint_String :: "DtnEndpoint \<Rightarrow> string" where
  "DtnEndpoint_String e =
     (if IsDtnNone e then DtnEndpointDtnNone
      else DtnEndpointSchemeName @ ''://'' @ NodeName e @ ''/'' @ Demux e)"

definition DtnEndpoint_MarshalCbor :: "cboring \<Rightarrow> DtnEndpoint \<Rightarrow> bytes" where
  "DtnEndpoint_MarshalCbor L e =
     (if IsDtnNone e then WriteUInt L 0 else WriteTextString L (dtn_ssp e))"

definition DtnEndpoint_UnmarshalCbor :: "cboring \<Rightarrow> bytes \<Rightarrow> (DtnEndpoint \<times> bytes) res" where
  "DtnEndpoint_UnmarshalCbor L r =
     bindR (ReadMajors L r) (\<lambda>(m, n, r).
       case m of
         MajorUInt \<Rightarrow> Inr (\<lparr>NodeName = [], Demux = [], IsDtnNone = True\<rparr>, r)
       | MajorTextString \<Rightarrow>
           bindR (ReadRawBytes L n r) (\<lambda>(ssp, r).
           bindR (parseDtnSsp (string_of ssp)) (\<lambda>(nodeName, demux, isDtnNode).
             if isDtnNode then Inl (Errorf ''DtnEndpoint: byte based SSP represents dtn:none'')
             else Inr (\<lparr>NodeName = nodeName, Demux = demux, IsDtnNone = False\<rparr>, r)))
       | MajorOther _ \<Rightarrow> Inl (Errorf ''DtnEndpoint: wrong major type for unmarshalling''))"

definition DtnNone :: EndpointID where
  "DtnNone = Some (Dtn \<lparr>NodeName = [], Demux = [], IsDtnNone = True\<rparr>)"

section \<open>The ipn scheme\<close>

definition IpnEndpoint_CheckValid :: "IpnEndpoint \<Rightarrow> err list" where
  "IpnEndpoint_CheckValid e =
     (if Node e < 1 \<or> Service e < 1 then [Errorf ''ipn's node and Service number must be >= 1''] else [])"

text \<open>\<open>^ipn:(\d+)\.(\d+)$\<close> and its two submatches.\<close>

definition ipn_match :: "string \<Rightarrow> (string \<times> string) option" where
  "ipn_match uri =
     (let body = drop 4 uri; d1 = takeWhile is_digit body; rest = dropWhile is_digit body
      in if take 4 uri = ''ipn:'' \<and> d1 \<noteq> [] \<and> take 1 rest = ''.'' \<and>
            drop 1 rest \<noteq> [] \<and> list_all is_digit (drop 1 rest)
         then Some (d1, drop 1 rest) else None)"

definition NewIpnEndpoint :: "string \<Rightarrow> EndpointType res" where
  "NewIpnEndpoint uri =
     (case ipn_match uri of
        None \<Rightarrow> Inl (Errorf ''uri does not match an ipn endpoint'')
      | Some (m1, m2) \<Rightarrow>
          bindR (ParseUint m1) (\<lambda>node.
          bindR (ParseUint m2) (\<lambda>service.
            let e = \<lparr>Node = node, Service = service\<rparr>
            in checked (IpnEndpoint_CheckValid e) (Ipn e))))"

definition IpnEndpoint_String :: "IpnEndpoint \<Rightarrow> string" where
  "IpnEndpoint_String e = ipnEndpointSchemeName @ '':'' @ fmt_d (Node e) @ ''.'' @ fmt_d (Service e)"

definition IpnEndpoint_MarshalCbor :: "cboring \<Rightarrow> IpnEndpoint \<Rightarrow> bytes" where
  "IpnEndpoint_MarshalCbor L e =
     WriteArrayLength L 2 @ WriteUInt L (Node e) @ WriteUInt L (Service e)"

definition IpnEndpoint_UnmarshalCbor :: "cboring \<Rightarrow> bytes \<Rightarrow> (IpnEndpoint \<times> bytes) res" where
  "IpnEndpoint_UnmarshalCbor L r =
     bindR (ReadArrayLength L r) (\<lambda>(n, r).
     if n \<noteq> 2 then Inl (Errorf ''ipn uri expected array of 2 elements'') else
     bindR (ReadUInt L r) (\<lambda>(node, r).
     bindR (ReadUInt L r) (\<lambda>(service, r). Inr (\<lparr>Node = node, Service = service\<rparr>, r))))"

section \<open>Endpoint identifiers\<close>

definition EndpointType_SchemeName :: "EndpointType \<Rightarrow> string" where
  "EndpointType_SchemeName t = (case t of Dtn _ \<Rightarrow> DtnEndpointSchemeName | Ipn _ \<Rightarrow> ipnEndpointSchemeName)"

definition EndpointType_SchemeNo :: "EndpointType \<Rightarrow> u64" where
  "EndpointType_SchemeNo t = (case t of Dtn _ \<Rightarrow> DtnEndpointSchemeNo | Ipn _ \<Rightarrow> ipnEndpointSchemeNo)"

definition EndpointType_Authority :: "EndpointType \<Rightarrow> string" where
  "EndpointType_Authority t = (case t of Dtn e \<Rightarrow> DtnEndpoint_Authority e | Ipn e \<Rightarrow> fmt_d (Node e))"

definition EndpointType_CheckValid :: "EndpointType \<Rightarrow> err list" where
  "EndpointType_CheckValid t = (case t of Dtn e \<Rightarrow> DtnEndpoint_CheckValid e | Ipn e \<Rightarrow> IpnEndpoint_CheckValid e)"

definition EndpointType_String :: "EndpointType \<Rightarrow> string" where
  "EndpointType_String t = (case t of Dtn e \<Rightarrow> DtnEndpoint_String e | Ipn e \<Rightarrow> IpnEndpoint_String e)"

text \<open>\<open>^([[:alnum:]]+):.+$\<close> and its submatch.\<close>

definition scheme_match :: "string \<Rightarrow> string option" where
  "scheme_match uri =
     (let scheme = takeWhile is_alnum uri; rest = dropWhile is_alnum uri
      in if scheme \<noteq> [] \<and> take 1 rest = '':'' \<and> drop 1 rest \<noteq> [] \<and> newline \<notin> set (drop 1 rest)
         then Some scheme else None)"

definition NewEndpointID :: "string \<Rightarrow> EndpointID res" where
  "NewEndpointID uri =
     (case scheme_match uri of
        None \<Rightarrow> Inl (Errorf ''given URI does not match URI regexp'')
      | Some scheme \<Rightarrow>
          if scheme = DtnEndpointSchemeName then bindR (NewDtnEndpoint uri) (\<lambda>et. Inr (Some et))
          else if scheme = ipnEndpointSchemeName then bindR (NewIpnEndpoint uri) (\<lambda>et. Inr (Some et))
          else Inl (Errorf ''no handler registered for URI scheme''))"

text \<open>\<open>MustNewEndpointID\<close> panics with the error.\<close>

definition MustNewEndpointID :: "string \<Rightarrow> EndpointID res" where
  "MustNewEndpointID uri = (case NewEndpointID uri of Inl _ \<Rightarrow> Inl (Panic ''panic(err)'') | Inr ep \<Rightarrow> Inr ep)"

definition EndpointID_CheckValid :: "EndpointID \<Rightarrow> err list" where
  "EndpointID_CheckValid eid =
     (case eid of None \<Rightarrow> [Errorf ''internal EndpointType is nil''] | Some t \<Rightarrow> EndpointType_CheckValid t)"

definition EndpointID_String :: "EndpointID \<Rightarrow> string" where
  "EndpointID_String eid = (case eid of None \<Rightarrow> DtnEndpointDtnNone | Some t \<Rightarrow> EndpointType_String t)"

definition SameNode :: "EndpointID \<Rightarrow> EndpointID \<Rightarrow> bool" where
  "SameNode eid other =
     (if eid = None \<and> other = None \<or> eid = None \<and> other = DtnNone \<or> eid = DtnNone \<and> other = None
      then True
      else (case (eid, other) of
              (Some et1, Some et2) \<Rightarrow>
                EndpointType_SchemeName et1 = EndpointType_SchemeName et2 \<and>
                EndpointType_Authority et1 = EndpointType_Authority et2
            | _ \<Rightarrow> False))"

definition EndpointID_MarshalCbor :: "cboring \<Rightarrow> EndpointID \<Rightarrow> bytes res" where
  "EndpointID_MarshalCbor L eid =
     (case EndpointID_CheckValid eid of
        e # es \<Rightarrow> Inl e
      | [] \<Rightarrow> (case eid of
           None \<Rightarrow> Inl (Panic ''nil pointer dereference'')
         | Some t \<Rightarrow> Inr (WriteArrayLength L 2 @ WriteUInt L (EndpointType_SchemeNo t) @
             (case t of Dtn e \<Rightarrow> DtnEndpoint_MarshalCbor L e | Ipn e \<Rightarrow> IpnEndpoint_MarshalCbor L e))))"

definition EndpointID_UnmarshalCbor :: "cboring \<Rightarrow> bytes \<Rightarrow> (EndpointID \<times> bytes) res" where
  "EndpointID_UnmarshalCbor L r =
     bindR (ReadArrayLength L r) (\<lambda>(l, r).
     if l \<noteq> 2 then Inl (Errorf ''EndpointID expects array of 2 elements'') else
     bindR (ReadUInt L r) (\<lambda>(scheme, r).
     if scheme = DtnEndpointSchemeNo then
       bindR (DtnEndpoint_UnmarshalCbor L r) (\<lambda>(e, r). Inr (Some (Dtn e), r))
     else if scheme = ipnEndpointSchemeNo then
       bindR (IpnEndpoint_UnmarshalCbor L r) (\<lambda>(e, r). Inr (Some (Ipn e), r))
     else Inl (Errorf ''no URI scheme registered for scheme number'')))"

section \<open>Well-formed endpoints\<close>

text \<open>
  The endpoints the two parsers produce: the null endpoint carries no names, a \<open>dtn\<close> node name is
  a non-empty word over the character class, a demultiplexing token has no newline, and the numbers
  of an \<open>ipn\<close> endpoint are positive.
\<close>

definition wf_dtn :: "DtnEndpoint \<Rightarrow> bool" where
  "wf_dtn e \<longleftrightarrow> (if IsDtnNone e then NodeName e = [] \<and> Demux e = []
     else NodeName e \<noteq> [] \<and> list_all is_node_char (NodeName e) \<and> newline \<notin> set (Demux e))"

definition wf_ipn :: "IpnEndpoint \<Rightarrow> bool" where
  "wf_ipn e \<longleftrightarrow> Node e \<noteq> 0 \<and> Service e \<noteq> 0"

definition wf_eid :: "EndpointID \<Rightarrow> bool" where
  "wf_eid eid = (case eid of None \<Rightarrow> False | Some (Dtn e) \<Rightarrow> wf_dtn e | Some (Ipn e) \<Rightarrow> wf_ipn e)"

text \<open>Lengths a CBOR text string can carry.\<close>

definition short_eid :: "EndpointID \<Rightarrow> bool" where
  "short_eid eid = (case eid of Some (Dtn e) \<Rightarrow> length (dtn_ssp e) < 2 ^ 62 | _ \<Rightarrow> True)"

section \<open>Lemmas\<close>

lemma not_node_char [simp]: "\<not> is_node_char (CHR ''/'')" "\<not> is_node_char newline"
  by (simp_all add: is_node_char_def is_alnum_def newline_def)

lemma newline_chars [simp]: "newline \<noteq> CHR ''/''" "newline \<noteq> CHR ''.''" "newline \<noteq> CHR '':''"
  by (simp_all add: newline_def)

lemma takeWhile_append_all:
  "list_all P xs \<Longrightarrow> \<not> P y \<Longrightarrow> takeWhile P (xs @ y # ys) = xs"
  "list_all P xs \<Longrightarrow> \<not> P y \<Longrightarrow> dropWhile P (xs @ y # ys) = y # ys"
  by (induction xs) auto

lemma takeWhile_decompose:
  assumes "take 1 (dropWhile P s) = [c]"
  shows "s = takeWhile P s @ c # drop 1 (dropWhile P s)"
  using assms takeWhile_dropWhile_id [of P s] by (cases "dropWhile P s") auto

lemma list_all_takeWhile [simp]: "list_all P (takeWhile P s)"
  by (auto simp: list_all_iff dest: set_takeWhileD)

lemma ssp_search_prefix: "ssp_prefix s \<Longrightarrow> ssp_search s"
  by (cases s) auto

lemma newline_node: "list_all is_node_char n \<Longrightarrow> newline \<notin> set n"
  by (auto simp: list_all_iff)

lemma dtn_ssp_not_none: "dtn_ssp e \<noteq> DtnEndpointDtnNoneSsp"
  by (simp add: dtn_ssp_def DtnEndpointDtnNoneSsp_def)

lemma ssp_full_dtn_ssp:
  assumes "wf_dtn e" "\<not> IsDtnNone e"
  shows "ssp_full (dtn_ssp e)"
proof -
  have "list_all is_node_char (NodeName e)" "NodeName e \<noteq> []" "newline \<notin> set (Demux e)"
    using assms by (auto simp: wf_dtn_def)
  then show ?thesis
    by (simp add: ssp_full_def ssp_prefix_def dtn_ssp_def takeWhile_append_all)
qed

lemma parseDtnSsp_dtn_ssp:
  assumes "wf_dtn e" "\<not> IsDtnNone e"
  shows "parseDtnSsp (dtn_ssp e) = Inr (NodeName e, Demux e, False)"
proof -
  have "CHR ''/'' \<notin> set (NodeName e)"
    using assms by (auto simp: wf_dtn_def list_all_iff)
  then have "SplitN2 (CHR ''/'') (drop 2 (dtn_ssp e)) = [NodeName e, Demux e]"
    by (simp add: dtn_ssp_def SplitN2_append)
  then show ?thesis
    using ssp_full_dtn_ssp [OF assms] by (simp add: parseDtnSsp_def dtn_ssp_not_none)
qed

lemma parseDtnSsp_sound:
  assumes "parseDtnSsp s = Inr (n, d, False)"
  shows "wf_dtn \<lparr>NodeName = n, Demux = d, IsDtnNone = False\<rparr> \<and> s = ''//'' @ n @ ''/'' @ d"
proof -
  have f: "ssp_full s"
    using assms by (auto simp: parseDtnSsp_def split: if_splits)
  let ?t = "drop 2 s"
  let ?n = "takeWhile is_node_char ?t" and ?d = "drop 1 (dropWhile is_node_char ?t)"
  have t: "?t = ?n @ CHR ''/'' # ?d"
    using f by (intro takeWhile_decompose) (auto simp: ssp_full_def ssp_prefix_def)
  have "CHR ''/'' \<notin> set ?n" by (auto dest: set_takeWhileD)
  then have "SplitN2 (CHR ''/'') (?n @ CHR ''/'' # ?d) = [?n, ?d]" by (rule SplitN2_append)
  then have "SplitN2 (CHR ''/'') ?t = [?n, ?d]" by (simp only: t [symmetric])
  then have nd: "n = ?n" "d = ?d"
    using assms f by (auto simp: parseDtnSsp_def split: if_splits)
  have "newline \<notin> set ?d"
    using f by (auto simp: ssp_full_def dest: in_set_dropD)
  moreover have "s = ''//'' @ ?t"
    using f append_take_drop_id [of 2 s] by (simp add: ssp_full_def ssp_prefix_def)
  ultimately show ?thesis
    using f t unfolding nd by (auto simp: wf_dtn_def ssp_full_def ssp_prefix_def)
qed

lemma parseDtnSsp_none: "parseDtnSsp s = Inr (n, d, True) \<Longrightarrow> n = [] \<and> d = [] \<and> s = DtnEndpointDtnNoneSsp"
  by (auto simp: parseDtnSsp_def split: if_splits list.splits)

lemma parseDtnSsp_no_panic: "parseDtnSsp s = Inl e \<Longrightarrow> \<not> is_panic e"
proof -
  assume a: "parseDtnSsp s = Inl e"
  show ?thesis
  proof (cases "ssp_full s")
    case True
    let ?t = "drop 2 s"
    have "?t = takeWhile is_node_char ?t @ CHR ''/'' # drop 1 (dropWhile is_node_char ?t)"
      using True by (intro takeWhile_decompose) (auto simp: ssp_full_def ssp_prefix_def)
    moreover have "CHR ''/'' \<notin> set (takeWhile is_node_char ?t)" by (auto dest: set_takeWhileD)
    ultimately have "\<exists>x y. SplitN2 (CHR ''/'') ?t = [x, y]"
      by (metis SplitN2_append)
    then show ?thesis using a True by (auto simp: parseDtnSsp_def split: if_splits)
  next
    case False
    then show ?thesis using a by (auto simp: parseDtnSsp_def split: if_splits)
  qed
qed

lemma wf_dtn_CheckValid: "wf_dtn e \<Longrightarrow> DtnEndpoint_CheckValid e = []"
  using ssp_full_dtn_ssp [of e] ssp_search_prefix [of "dtn_ssp e"]
  by (auto simp: DtnEndpoint_CheckValid_def ssp_full_def)

lemma wf_ipn_CheckValid: "IpnEndpoint_CheckValid e = [] \<longleftrightarrow> wf_ipn e"
  by (auto simp: IpnEndpoint_CheckValid_def wf_ipn_def not_less)

lemma wf_eid_CheckValid: "wf_eid eid \<Longrightarrow> EndpointID_CheckValid eid = []"
  by (auto simp: wf_eid_def EndpointID_CheckValid_def EndpointType_CheckValid_def
      wf_dtn_CheckValid wf_ipn_CheckValid split: option.splits EndpointType.splits)

lemma wf_DtnNone [simp]: "wf_eid DtnNone"
  by (simp add: wf_eid_def DtnNone_def wf_dtn_def)

lemma scheme_match_string:
  assumes "list_all is_alnum scheme" "scheme \<noteq> []" "rest \<noteq> []" "newline \<notin> set rest"
  shows "scheme_match (scheme @ CHR '':'' # rest) = Some scheme"
proof -
  have "\<not> is_alnum (CHR '':'')" by (simp add: is_alnum_def)
  then show ?thesis using assms by (simp add: scheme_match_def Let_def takeWhile_append_all)
qed

lemma NewDtnEndpoint_String:
  assumes "wf_dtn e"
  shows "NewDtnEndpoint (DtnEndpoint_String e) = Inr (Dtn e)"
proof (cases "IsDtnNone e")
  case True
  then show ?thesis
    using assms by (simp add: NewDtnEndpoint_def DtnEndpoint_String_def wf_dtn_def HasPrefix_def
        DtnEndpointSchemeName_def DtnEndpointDtnNone_def parseDtnSsp_def DtnEndpointDtnNoneSsp_def
        DtnEndpoint_CheckValid_def)
next
  case False
  have s: "DtnEndpoint_String e = ''dtn:'' @ dtn_ssp e"
    using False by (simp add: DtnEndpoint_String_def DtnEndpointSchemeName_def dtn_ssp_def)
  have e: "\<lparr>NodeName = NodeName e, Demux = Demux e, IsDtnNone = False\<rparr> = e" using False by simp
  show ?thesis
    using parseDtnSsp_dtn_ssp [OF assms False] wf_dtn_CheckValid [OF assms] e
    by (simp add: NewDtnEndpoint_def s HasPrefix_def DtnEndpointSchemeName_def)
qed

lemma fmt_d_list_all: "list_all is_digit (fmt_d n)"
  by (simp add: list_all_iff fmt_d_digits)

lemma newline_not_digit: "\<not> is_digit newline" "\<not> is_digit (CHR ''.'')"
  by (simp_all add: is_digit_def newline_def)

lemma ipn_match_String: "ipn_match (IpnEndpoint_String e) = Some (fmt_d (Node e), fmt_d (Service e))"
  by (simp add: ipn_match_def IpnEndpoint_String_def ipnEndpointSchemeName_def Let_def
      takeWhile_append_all fmt_d_list_all newline_not_digit)

lemma NewIpnEndpoint_String: "wf_ipn e \<Longrightarrow> NewIpnEndpoint (IpnEndpoint_String e) = Inr (Ipn e)"
  by (cases e) (simp add: NewIpnEndpoint_def ipn_match_String wf_ipn_CheckValid [symmetric] Let_def)

lemma newline_fmt_d [simp]: "newline \<notin> set (fmt_d n)"
  using fmt_d_digits newline_not_digit by blast

lemma EndpointID_parse_print:
  assumes "wf_eid eid"
  shows "NewEndpointID (EndpointID_String eid) = Inr eid"
proof -
  consider (dtn) e where "eid = Some (Dtn e)" "wf_dtn e" | (ipn) e where "eid = Some (Ipn e)" "wf_ipn e"
    using assms by (auto simp: wf_eid_def split: option.splits EndpointType.splits)
  then show ?thesis
  proof cases
    case dtn
    have "\<exists>rest. DtnEndpoint_String e = ''dtn'' @ CHR '':'' # rest \<and> rest \<noteq> [] \<and> newline \<notin> set rest"
    proof (cases "IsDtnNone e")
      case True
      then show ?thesis by (simp add: DtnEndpoint_String_def DtnEndpointDtnNone_def newline_def)
    next
      case False
      then show ?thesis using dtn newline_node [of "NodeName e"]
        by (simp add: DtnEndpoint_String_def DtnEndpointSchemeName_def wf_dtn_def)
    qed
    then obtain rest where "DtnEndpoint_String e = ''dtn'' @ CHR '':'' # rest"
      "rest \<noteq> []" "newline \<notin> set rest" by blast
    then have "scheme_match (DtnEndpoint_String e) = Some ''dtn''"
      by (simp only:) (rule scheme_match_string, simp_all add: is_alnum_def)
    then show ?thesis using dtn NewDtnEndpoint_String [of e]
      by (simp add: NewEndpointID_def EndpointID_String_def EndpointType_String_def DtnEndpointSchemeName_def)
  next
    case ipn
    have "scheme_match (IpnEndpoint_String e) = Some ''ipn''"
      using scheme_match_string [of "''ipn''" "fmt_d (Node e) @ ''.'' @ fmt_d (Service e)"]
      by (simp add: IpnEndpoint_String_def ipnEndpointSchemeName_def is_alnum_def)
    then show ?thesis using ipn NewIpnEndpoint_String [of e]
      by (simp add: NewEndpointID_def EndpointID_String_def EndpointType_String_def
          ipnEndpointSchemeName_def DtnEndpointSchemeName_def)
  qed
qed

lemma NewDtnEndpoint_wf:
  assumes "NewDtnEndpoint uri = Inr t"
  shows "\<exists>e. t = Dtn e \<and> wf_dtn e \<and> DtnEndpoint_String e = uri"
proof -
  obtain n d b where p: "parseDtnSsp (drop 4 uri) = Inr (n, d, b)" and u: "take 4 uri = ''dtn:''"
    and t: "t = Dtn (if b then \<lparr>NodeName = [], Demux = [], IsDtnNone = True\<rparr>
                       else \<lparr>NodeName = n, Demux = d, IsDtnNone = False\<rparr>)"
    using assms by (auto simp: NewDtnEndpoint_def HasPrefix_def DtnEndpointSchemeName_def bindR_Inr_iff
        Let_def eval_nat_numeral split: if_splits)
  have uri: "uri = ''dtn:'' @ drop 4 uri" using u append_take_drop_id [of 4 uri] by simp
  show ?thesis
  proof (cases b)
    case True
    then have "drop 4 uri = ''none''" using p parseDtnSsp_none by (auto simp: DtnEndpointDtnNoneSsp_def)
    then have "uri = ''dtn:none''" using uri by simp
    then show ?thesis using t True
      by (simp add: wf_dtn_def DtnEndpoint_String_def DtnEndpointDtnNone_def)
  next
    case False
    then have "wf_dtn \<lparr>NodeName = n, Demux = d, IsDtnNone = False\<rparr> \<and> drop 4 uri = ''//'' @ n @ ''/'' @ d"
      using p parseDtnSsp_sound by simp
    then show ?thesis using t False uri
      by (simp add: DtnEndpoint_String_def DtnEndpointSchemeName_def)
  qed
qed

lemma NewIpnEndpoint_wf: "NewIpnEndpoint uri = Inr t \<Longrightarrow> \<exists>e. t = Ipn e \<and> wf_ipn e"
  by (auto simp: NewIpnEndpoint_def bindR_Inr_iff Let_def wf_ipn_CheckValid split: option.splits)

lemma NewEndpointID_wf: "NewEndpointID uri = Inr eid \<Longrightarrow> wf_eid eid"
  by (auto simp: NewEndpointID_def bindR_Inr_iff wf_eid_def split: option.splits if_splits
      dest!: NewDtnEndpoint_wf NewIpnEndpoint_wf)

text \<open>Distinct well-formed endpoints print as distinct URIs.\<close>

lemma EndpointID_String_inj:
  "wf_eid a \<Longrightarrow> wf_eid b \<Longrightarrow> EndpointID_String a = EndpointID_String b \<longleftrightarrow> a = b"
  by (metis EndpointID_parse_print sum.inject(2))

context cboring_lib
begin

lemma DtnEndpoint_progress: "DtnEndpoint_UnmarshalCbor L r = Inr (e, r') \<Longrightarrow> length r' < length r"
proof -
  assume *: "DtnEndpoint_UnmarshalCbor L r = Inr (e, r')"
  then obtain m n r1 where m: "ReadMajors L r = Inr (m, n, r1)" by (auto simp: DtnEndpoint_UnmarshalCbor_def bindR_Inr_iff)
  have "length r1 < length r" by (rule majors_progress [OF m])
  then show ?thesis using * m
    by (cases m) (auto simp: DtnEndpoint_UnmarshalCbor_def bindR_Inr_iff split: if_splits dest!: raw_progress)
qed

lemma IpnEndpoint_progress: "IpnEndpoint_UnmarshalCbor L r = Inr (e, r') \<Longrightarrow> length r' < length r"
  by (auto simp: IpnEndpoint_UnmarshalCbor_def bindR_Inr_iff split: if_splits dest!: array_progress uint_progress)

lemma EndpointID_progress: "EndpointID_UnmarshalCbor L r = Inr (e, r') \<Longrightarrow> length r' < length r"
  by (auto simp: EndpointID_UnmarshalCbor_def bindR_Inr_iff split: if_splits
      dest!: array_progress uint_progress DtnEndpoint_progress IpnEndpoint_progress)

lemma DtnEndpoint_roundtrip:
  assumes "wf_dtn e" "length (dtn_ssp e) < 2 ^ 64"
  shows "DtnEndpoint_UnmarshalCbor L (DtnEndpoint_MarshalCbor L e @ r) = Inr (e, r)"
proof (cases "IsDtnNone e")
  case True
  then show ?thesis using assms
    by (simp add: DtnEndpoint_UnmarshalCbor_def DtnEndpoint_MarshalCbor_def read_majors_uint wf_dtn_def)
next
  case False
  have e: "\<lparr>NodeName = NodeName e, Demux = Demux e, IsDtnNone = False\<rparr> = e" using False by simp
  have "length (bytes_of (dtn_ssp e)) = unat (of_nat (length (dtn_ssp e)) :: u64)"
    using assms(2) by (simp add: unat_of_nat)
  then have "ReadRawBytes L (of_nat (length (dtn_ssp e))) (bytes_of (dtn_ssp e) @ r) = Inr (bytes_of (dtn_ssp e), r)"
    by (rule read_raw)
  then show ?thesis using False parseDtnSsp_dtn_ssp [OF assms(1) False] e
    by (simp add: DtnEndpoint_UnmarshalCbor_def DtnEndpoint_MarshalCbor_def read_majors_text [OF assms(2)])
qed

lemma IpnEndpoint_roundtrip:
  "IpnEndpoint_UnmarshalCbor L (IpnEndpoint_MarshalCbor L e @ r) = Inr (e, r)"
  by (simp add: IpnEndpoint_UnmarshalCbor_def IpnEndpoint_MarshalCbor_def cbor)

lemma EndpointID_roundtrip:
  assumes "wf_eid eid" "short_eid eid"
  shows "\<exists>bs. EndpointID_MarshalCbor L eid = Inr bs \<and>
           (\<forall>r. EndpointID_UnmarshalCbor L (bs @ r) = Inr (eid, r))"
proof -
  obtain t where t: "eid = Some t" using assms by (auto simp: wf_eid_def split: option.splits)
  show ?thesis
  proof (cases t)
    case (Dtn e)
    then show ?thesis using assms t DtnEndpoint_roundtrip [of e]
      by (simp add: EndpointID_MarshalCbor_def EndpointID_UnmarshalCbor_def wf_eid_CheckValid cbor
          EndpointType_SchemeNo_def DtnEndpointSchemeNo_def wf_eid_def short_eid_def)
  next
    case (Ipn e)
    then show ?thesis using assms t IpnEndpoint_roundtrip [of e]
      by (simp add: EndpointID_MarshalCbor_def EndpointID_UnmarshalCbor_def wf_eid_CheckValid cbor
          EndpointType_SchemeNo_def DtnEndpointSchemeNo_def ipnEndpointSchemeNo_def)
  qed
qed

lemma EndpointID_marshal_size:
  assumes "short_eid eid" "EndpointID_MarshalCbor L eid = Inr bs"
  shows "length bs < 2 ^ 63"
proof -
  obtain t where t: "eid = Some t" and bs: "bs = WriteArrayLength L 2 @ WriteUInt L (EndpointType_SchemeNo t) @
      (case t of Dtn e \<Rightarrow> DtnEndpoint_MarshalCbor L e | Ipn e \<Rightarrow> IpnEndpoint_MarshalCbor L e)"
    using assms(2) by (auto simp: EndpointID_MarshalCbor_def split: list.splits option.splits)
  note sz = size_array [of 2] size_uint [of 0] size_uint [of "EndpointType_SchemeNo t"]
  show ?thesis
  proof (cases t)
    case (Dtn e)
    then have "length (dtn_ssp e) < 2 ^ 62" using assms(1) t by (simp add: short_eid_def)
    then show ?thesis using sz size_text [of "dtn_ssp e"] bs Dtn
      by (auto simp: DtnEndpoint_MarshalCbor_def)
  next
    case (Ipn e)
    then show ?thesis using sz size_uint [of "Node e"] size_uint [of "Service e"] bs
      by (auto simp: IpnEndpoint_MarshalCbor_def)
  qed
qed

lemma EndpointID_marshal_read:
  assumes "wf_eid eid" "short_eid eid" "EndpointID_MarshalCbor L eid = Inr bs"
  shows "EndpointID_UnmarshalCbor L (bs @ r) = Inr (eid, r)"
  using EndpointID_roundtrip [OF assms(1,2)] assms(3) by auto

end

section \<open>Correctness\<close>

text \<open>
  C35. What the parser accepts is well-formed and passes the validity check, and printing it and
  parsing the text again gives back the same endpoint.
\<close>

theorem NewEndpointID_parse_print:
  assumes "NewEndpointID uri = Inr eid"
  shows "wf_eid eid \<and> EndpointID_CheckValid eid = [] \<and> NewEndpointID (EndpointID_String eid) = Inr eid"
  using NewEndpointID_wf [OF assms] wf_eid_CheckValid EndpointID_parse_print by blast

theorem NewEndpointID_parse_print_witness:
  "NewEndpointID (EndpointID_String (Some (Dtn \<lparr>NodeName = ''foo'', Demux = ''bar'', IsDtnNone = False\<rparr>))) =
     Inr (Some (Dtn \<lparr>NodeName = ''foo'', Demux = ''bar'', IsDtnNone = False\<rparr>))"
proof -
  have "NewEndpointID ''dtn://foo/bar'' = Inr (Some (Dtn \<lparr>NodeName = ''foo'', Demux = ''bar'', IsDtnNone = False\<rparr>))"
    by code_simp
  from NewEndpointID_parse_print [OF this] show ?thesis by blast
qed

text \<open>
  The validity check of \<open>dtn\<close> endpoints searches the scheme specific part for the expression
  instead of matching all of it: an endpoint without a node name passes it, although its URI is
  rejected by the parser.
\<close>

lemma DtnEndpoint_CheckValid_unanchored:
  "DtnEndpoint_CheckValid \<lparr>NodeName = [], Demux = ''/a/'', IsDtnNone = False\<rparr> = [] \<and>
   (\<exists>e. NewDtnEndpoint (DtnEndpoint_String \<lparr>NodeName = [], Demux = ''/a/'', IsDtnNone = False\<rparr>) = Inl e)"
proof -
  have "DtnEndpoint_CheckValid \<lparr>NodeName = [], Demux = ''/a/'', IsDtnNone = False\<rparr> = []" by code_simp
  moreover have "NewDtnEndpoint (DtnEndpoint_String \<lparr>NodeName = [], Demux = ''/a/'', IsDtnNone = False\<rparr>) =
      Inl (Errorf ''ssp does not match a dtn endpoint'')" by code_simp
  ultimately show ?thesis by blast
qed

end
