(* ===== verification/Dtn_Time.thy ===== *)
theory Dtn_Time
  imports Cbor_Lib
begin

text \<open>
  DTN time and creation timestamps (\<open>pkg/bpv7/time.go\<close>). A Go \<open>time.Time\<close> is the number of
  nanoseconds since the Unix epoch, a mathematical integer; the \<open>int64\<close> arithmetic of the sources
  is kept with its wrap-around.
\<close>

type_synonym DtnTime = u64
type_synonym CreationTimestamp = "u64 \<times> u64"
type_synonym time = int

definition milliseconds1970To2k :: int where "milliseconds1970To2k = 946684800000"
definition milliToSec :: int where "milliToSec = 1000"
definition nanoToMilli :: int where "nanoToMilli = 1000000"
definition DtnTimeEpoch :: DtnTime where "DtnTimeEpoch = 0"

definition unixMilliseconds :: "DtnTime \<Rightarrow> int" where
  "unixMilliseconds t = int64 (sint t + milliseconds1970To2k)"

definition DtnTime_Time :: "DtnTime \<Rightarrow> time" where
  "DtnTime_Time t =
     (let unixSec = quot (unixMilliseconds t) milliToSec;
          unixNano = int64 (int64 (unixMilliseconds t - int64 (unixSec * milliToSec)) * nanoToMilli)
      in unixSec * 1000000000 + unixNano)"

definition DtnTimeFromTime :: "time \<Rightarrow> DtnTime" where
  "DtnTimeFromTime t = u64_of_int (quot (int64 t) nanoToMilli - milliseconds1970To2k)"

definition NewCreationTimestamp :: "DtnTime \<Rightarrow> u64 \<Rightarrow> CreationTimestamp" where
  "NewCreationTimestamp t sequence = (t, sequence)"

definition CreationTimestamp_DtnTime :: "CreationTimestamp \<Rightarrow> DtnTime" where
  "CreationTimestamp_DtnTime ct = fst ct"

definition IsZeroTime :: "CreationTimestamp \<Rightarrow> bool" where
  "IsZeroTime ct \<longleftrightarrow> CreationTimestamp_DtnTime ct = DtnTimeEpoch"

definition SequenceNumber :: "CreationTimestamp \<Rightarrow> u64" where
  "SequenceNumber ct = snd ct"

definition CreationTimestamp_MarshalCbor :: "cboring \<Rightarrow> CreationTimestamp \<Rightarrow> bytes" where
  "CreationTimestamp_MarshalCbor L ct =
     WriteArrayLength L 2 @ WriteUInt L (fst ct) @ WriteUInt L (snd ct)"

definition CreationTimestamp_UnmarshalCbor ::
    "cboring \<Rightarrow> bytes \<Rightarrow> (CreationTimestamp \<times> bytes) res" where
  "CreationTimestamp_UnmarshalCbor L r =
     bindR (ReadArrayLength L r) (\<lambda>(l, r).
     if l \<noteq> 2 then Inl (Errorf ''expected array with length 2'') else
     bindR (ReadUInt L r) (\<lambda>(f0, r).
     bindR (ReadUInt L r) (\<lambda>(f1, r). Inr ((f0, f1), r))))"

text \<open>A lifetime in milliseconds as a \<open>time.Duration\<close>: \<open>time.Duration(l) * time.Millisecond\<close>.\<close>

definition lifetime_duration :: "u64 \<Rightarrow> int" where
  "lifetime_duration l = int64 (sint l * 1000000)"

section \<open>Properties\<close>

context cboring_lib
begin

lemma CreationTimestamp_roundtrip:
  "CreationTimestamp_UnmarshalCbor L (CreationTimestamp_MarshalCbor L ct @ r) = Inr (ct, r)"
  by (simp add: CreationTimestamp_UnmarshalCbor_def CreationTimestamp_MarshalCbor_def cbor)

lemma CreationTimestamp_progress:
  "CreationTimestamp_UnmarshalCbor L r = Inr (ct, r') \<Longrightarrow> length r' < length r"
  by (auto simp: CreationTimestamp_UnmarshalCbor_def bindR_Inr_iff split: if_splits
      dest!: uint_progress array_progress)

end

lemma quot_mod_small: "\<bar>a - quot a 1000 * 1000\<bar> < 1000"
proof -
  have m: "\<bar>a\<bar> - \<bar>a\<bar> div 1000 * 1000 = \<bar>a\<bar> mod 1000" by (simp add: minus_div_mult_eq_mod)
  consider "a > 0" | "a = 0" | "a < 0" by linarith
  then show ?thesis
  proof cases
    case 1
    then have "a - quot a 1000 * 1000 = \<bar>a\<bar> mod 1000" using m by (simp add: quot_def)
    then show ?thesis by simp
  next
    case 2
    then show ?thesis by (simp add: quot_def)
  next
    case 3
    then have "a - quot a 1000 * 1000 = - (\<bar>a\<bar> mod 1000)" using m by (simp add: quot_def)
    then show ?thesis by simp
  qed
qed

lemma quot_between:
  "(quot a 1000 * 1000 \<le> 0 \<and> a \<le> quot a 1000 * 1000) \<or> (0 \<le> quot a 1000 * 1000 \<and> quot a 1000 * 1000 \<le> a)"
proof (cases "a \<ge> 0")
  case True
  have "a div 1000 * 1000 \<le> a" by (simp add: minus_mod_eq_div_mult [symmetric])
  then show ?thesis using True by (simp add: quot_nonneg)
next
  case False
  then have q: "quot a 1000 = - ((- a) div 1000)" by (simp add: quot_def)
  have "(- a) div 1000 * 1000 \<le> - a" by (simp add: minus_mod_eq_div_mult [symmetric])
  moreover have "0 \<le> (- a) div 1000" using False by simp
  ultimately show ?thesis unfolding q by linarith
qed

lemma sint_small:
  fixes t :: u64
  assumes "uint t < 2 ^ 63"
  shows "sint t = uint t"
proof -
  have "- 9223372036854775808 \<le> uint t" using uint_ge_0 [of t] by linarith
  then have "int64 (uint t) = uint t" using assms by (intro int64_eq) simp_all
  then show ?thesis by (simp add: sint_uint int64_def)
qed

lemma int64_range: "- (2 ^ 63) \<le> int64 x \<and> int64 x < 2 ^ 63"
  unfolding int64_def
  by (metis signed_take_bit_int_greater_eq_minus_exp signed_take_bit_int_less_exp)

text \<open>
  The split into seconds and nanoseconds loses nothing: the instant is the number of milliseconds,
  scaled, for every DTN time.
\<close>

lemma DtnTime_Time_eq: "DtnTime_Time t = unixMilliseconds t * 1000000"
proof -
  let ?m = "unixMilliseconds t"
  have r: "- (2 ^ 63) \<le> ?m" "?m < 2 ^ 63"
    using int64_range by (auto simp: unixMilliseconds_def)
  have d: "\<bar>?m - quot ?m 1000 * 1000\<bar> < 1000" by (rule quot_mod_small)
  have sg: "(quot ?m 1000 * 1000 \<le> 0 \<and> ?m \<le> quot ?m 1000 * 1000) \<or> (0 \<le> quot ?m 1000 * 1000 \<and> quot ?m 1000 * 1000 \<le> ?m)"
    by (rule quot_between)
  have e1: "int64 (quot ?m 1000 * 1000) = quot ?m 1000 * 1000"
    using sg r by (intro int64_id) auto
  have e2: "int64 (?m - quot ?m 1000 * 1000) = ?m - quot ?m 1000 * 1000"
    using d by (intro int64_id) auto
  have e3: "int64 ((?m - quot ?m 1000 * 1000) * 1000000) = (?m - quot ?m 1000 * 1000) * 1000000"
    using d by (intro int64_id) (auto simp: abs_less_iff)
  have "DtnTime_Time t = quot ?m 1000 * 1000000000 + (?m - quot ?m 1000 * 1000) * 1000000"
    by (simp only: DtnTime_Time_def Let_def milliToSec_def nanoToMilli_def e1 e2 e3)
  then show ?thesis by (simp add: algebra_simps)
qed

lemma unixMilliseconds_small:
  assumes "uint t < 2 ^ 62"
  shows "unixMilliseconds t = uint t + 946684800000"
proof -
  have s: "sint t = uint t" using assms by (intro sint_small) simp
  have "0 \<le> uint t" "uint t < 4611686018427387904" using assms by simp_all
  then show ?thesis
    unfolding unixMilliseconds_def milliseconds1970To2k_def s by (intro int64_eq) linarith+
qed

text \<open>DTN times up to the year 2262, the range of a nanosecond \<open>int64\<close>, survive the round trip.\<close>

lemma DtnTimeFromTime_Time:
  assumes "uint t < 8276687236854"
  shows "DtnTimeFromTime (DtnTime_Time t) = t"
proof -
  have p: "0 \<le> uint t" by simp
  have u: "unixMilliseconds t = uint t + 946684800000"
    using assms by (intro unixMilliseconds_small) simp
  have i: "int64 (DtnTime_Time t) = unixMilliseconds t * 1000000"
    unfolding DtnTime_Time_eq using assms p u by (intro int64_eq) linarith+
  have "quot (unixMilliseconds t * 1000000) 1000000 = unixMilliseconds t"
    using p by (simp add: u quot_nonneg)
  then have "DtnTimeFromTime (DtnTime_Time t) = word_of_int (uint t)"
    by (simp add: DtnTimeFromTime_def i nanoToMilli_def u milliseconds1970To2k_def u64_of_int_def)
  then show ?thesis by simp
qed

lemma lifetime_duration_small:
  assumes "uint l < 9223372036854"
  shows "lifetime_duration l = uint l * 1000000"
proof -
  have s: "sint l = uint l" using assms by (intro sint_small) simp
  have "0 \<le> uint l" by simp
  then show ?thesis
    unfolding lifetime_duration_def s using assms by (intro int64_eq) linarith+
qed

section \<open>Correctness\<close>

text \<open>
  Converting a DTN time to wall-clock time and back is the identity for all times up to the
  year 2262, the last that fits into 64-bit nanoseconds.
\<close>

lemma DtnTimeFromTime_inverse:
  assumes "uint t < 8276687236854"
  shows "DtnTimeFromTime (DtnTime_Time t) = t"
  using assms by (rule DtnTimeFromTime_Time)

end
