(* ===== verification/Control_Flags.thy ===== *)
theory Control_Flags
  imports Prelude
begin

text \<open>
  The bundle and block processing control flags (\<open>pkg/bpv7/bundle_control_flags.go\<close>,
  \<open>pkg/bpv7/block_control_flags.go\<close>): 64-bit masks, membership tests, the consistency check of
  the bundle flags and the textual listing both types share.
\<close>

type_synonym BlockControlFlags = u64
type_synonym BundleControlFlags = u64

definition ReplicateBlock :: BlockControlFlags where "ReplicateBlock = 0x01"
definition StatusReportBlock :: BlockControlFlags where "StatusReportBlock = 0x02"
definition DeleteBundle :: BlockControlFlags where "DeleteBundle = 0x04"
definition RemoveBlock :: BlockControlFlags where "RemoveBlock = 0x10"

definition IsFragment :: BundleControlFlags where "IsFragment = 0x000001"
definition AdministrativeRecordPayload :: BundleControlFlags where "AdministrativeRecordPayload = 0x000002"
definition MustNotFragmented :: BundleControlFlags where "MustNotFragmented = 0x000004"
definition RequestUserApplicationAck :: BundleControlFlags where "RequestUserApplicationAck = 0x000020"
definition RequestStatusTime :: BundleControlFlags where "RequestStatusTime = 0x000040"
definition StatusRequestReception :: BundleControlFlags where "StatusRequestReception = 0x004000"
definition StatusRequestForward :: BundleControlFlags where "StatusRequestForward = 0x010000"
definition StatusRequestDelivery :: BundleControlFlags where "StatusRequestDelivery = 0x020000"
definition StatusRequestDeletion :: BundleControlFlags where "StatusRequestDeletion = 0x040000"

lemmas block_flag_defs = ReplicateBlock_def StatusReportBlock_def DeleteBundle_def RemoveBlock_def

lemmas bundle_flag_defs = IsFragment_def AdministrativeRecordPayload_def MustNotFragmented_def
  RequestUserApplicationAck_def RequestStatusTime_def StatusRequestReception_def
  StatusRequestForward_def StatusRequestDelivery_def StatusRequestDeletion_def

definition BlockControlFlags_Has :: "BlockControlFlags \<Rightarrow> BlockControlFlags \<Rightarrow> bool" where
  "BlockControlFlags_Has bcf flag \<longleftrightarrow> bcf AND flag \<noteq> 0"

definition BlockControlFlags_CheckValid :: "BlockControlFlags \<Rightarrow> err list" where
  "BlockControlFlags_CheckValid bcf = []"

definition BundleControlFlags_Has :: "BundleControlFlags \<Rightarrow> BundleControlFlags \<Rightarrow> bool" where
  "BundleControlFlags_Has bcf flag \<longleftrightarrow> bcf AND flag \<noteq> 0"

definition block_flag_checks :: "(BlockControlFlags \<times> string) list" where
  "block_flag_checks =
     [(DeleteBundle, ''DELETE_BUNDLE''),
      (StatusReportBlock, ''REQUEST_STATUS_REPORT''),
      (RemoveBlock, ''REMOVE_BLOCK''),
      (ReplicateBlock, ''REPLICATE_BLOCK'')]"

definition BlockControlFlags_Strings :: "BlockControlFlags \<Rightarrow> string list" where
  "BlockControlFlags_Strings bcf =
     map snd (filter (\<lambda>(field, text). BlockControlFlags_Has bcf field) block_flag_checks)"

definition bundle_flag_checks :: "(BundleControlFlags \<times> string) list" where
  "bundle_flag_checks =
     [(StatusRequestDeletion, ''REQUESTED_DELETION_STATUS_REPORT''),
      (StatusRequestDelivery, ''REQUESTED_DELIVERY_STATUS_REPORT''),
      (StatusRequestForward, ''REQUESTED_FORWARD_STATUS_REPORT''),
      (StatusRequestReception, ''REQUESTED_RECEPTION_STATUS_REPORT''),
      (RequestStatusTime, ''REQUESTED_TIME_IN_STATUS_REPORT''),
      (RequestUserApplicationAck, ''REQUESTED_APPLICATION_ACK''),
      (MustNotFragmented, ''MUST_NOT_BE_FRAGMENTED''),
      (AdministrativeRecordPayload, ''ADMINISTRATIVE_PAYLOAD''),
      (IsFragment, ''IS_FRAGMENT'')]"

definition BundleControlFlags_Strings :: "BundleControlFlags \<Rightarrow> string list" where
  "BundleControlFlags_Strings bcf =
     map snd (filter (\<lambda>(field, text). BundleControlFlags_Has bcf field) bundle_flag_checks)"

definition BundleControlFlags_CheckValid :: "BundleControlFlags \<Rightarrow> err list" where
  "BundleControlFlags_CheckValid bcf =
     (if BundleControlFlags_Has bcf IsFragment \<and> BundleControlFlags_Has bcf MustNotFragmented
      then [Errorf ''BundleControlFlags: both fragment and must-not-be-fragmented flags are set''] else []) @
     (let adminRecCheck = \<not> BundleControlFlags_Has bcf AdministrativeRecordPayload \<or>
        (\<not> BundleControlFlags_Has bcf StatusRequestReception \<and>
         \<not> BundleControlFlags_Has bcf StatusRequestForward \<and>
         \<not> BundleControlFlags_Has bcf StatusRequestDelivery \<and>
         \<not> BundleControlFlags_Has bcf StatusRequestDeletion)
      in if \<not> adminRecCheck
         then [Errorf ''BundleControlFlags: payload is administrative record => no status report request flags failed'']
         else [])"

section \<open>Single flags as bits\<close>

text \<open>Every flag is a single bit, so a membership test reads that bit.\<close>

lemma has_bit: "(w :: u64) AND push_bit n 1 \<noteq> 0 \<longleftrightarrow> bit w n \<and> n < 64"
  using bit_imp_le_length [of w n] by (auto simp: push_bit_eq_mult and_exp_eq_0_iff_not_bit)

lemma flag_bits:
  "IsFragment = push_bit 0 1" "AdministrativeRecordPayload = push_bit 1 1"
  "MustNotFragmented = push_bit 2 1" "RequestUserApplicationAck = push_bit 5 1"
  "RequestStatusTime = push_bit 6 1" "StatusRequestReception = push_bit 14 1"
  "StatusRequestForward = push_bit 16 1" "StatusRequestDelivery = push_bit 17 1"
  "StatusRequestDeletion = push_bit 18 1"
  by (simp_all add: bundle_flag_defs push_bit_eq_mult)

lemma block_flag_bits:
  "ReplicateBlock = push_bit 0 1" "StatusReportBlock = push_bit 1 1"
  "DeleteBundle = push_bit 2 1" "RemoveBlock = push_bit 4 1"
  by (simp_all add: block_flag_defs push_bit_eq_mult)

lemma Has_bit_simps:
  "BundleControlFlags_Has f IsFragment \<longleftrightarrow> bit f 0"
  "BundleControlFlags_Has f AdministrativeRecordPayload \<longleftrightarrow> bit f 1"
  "BundleControlFlags_Has f MustNotFragmented \<longleftrightarrow> bit f 2"
  "BundleControlFlags_Has f RequestUserApplicationAck \<longleftrightarrow> bit f 5"
  "BundleControlFlags_Has f RequestStatusTime \<longleftrightarrow> bit f 6"
  "BundleControlFlags_Has f StatusRequestReception \<longleftrightarrow> bit f 14"
  "BundleControlFlags_Has f StatusRequestForward \<longleftrightarrow> bit f 16"
  "BundleControlFlags_Has f StatusRequestDelivery \<longleftrightarrow> bit f 17"
  "BundleControlFlags_Has f StatusRequestDeletion \<longleftrightarrow> bit f 18"
  by (simp_all only: BundleControlFlags_Has_def flag_bits has_bit) simp_all

lemma block_Has_bit_simps:
  "BlockControlFlags_Has f ReplicateBlock \<longleftrightarrow> bit f 0"
  "BlockControlFlags_Has f StatusReportBlock \<longleftrightarrow> bit f 1"
  "BlockControlFlags_Has f DeleteBundle \<longleftrightarrow> bit f 2"
  "BlockControlFlags_Has f RemoveBlock \<longleftrightarrow> bit f 4"
  by (simp_all only: BlockControlFlags_Has_def block_flag_bits has_bit) simp_all

lemma bit_OR_IsFragment: "bit (f OR IsFragment) n \<longleftrightarrow> bit f n \<or> n = 0"
  by (auto simp: flag_bits bit_or_iff bit_push_bit_iff bit_1_iff)

lemma bit_ANDNOT_IsFragment: "bit (f AND NOT IsFragment) n \<longleftrightarrow> bit f n \<and> n \<noteq> 0"
  by (auto simp: flag_bits bit_and_iff bit_not_iff bit_push_bit_iff bit_1_iff dest: bit_imp_le_length)

text \<open>Setting the fragment flag and clearing it again gives back the flags of a non-fragment.\<close>

lemma fragment_flag_roundtrip:
  assumes "\<not> BundleControlFlags_Has f IsFragment"
  shows "(f OR IsFragment) AND NOT IsFragment = f"
proof (rule bit_eqI)
  fix n
  have "\<not> bit f 0" using assms by (simp add: Has_bit_simps)
  then show "bit ((f OR IsFragment) AND NOT IsFragment) n = bit f n"
    by (cases "n = 0") (simp_all add: bit_ANDNOT_IsFragment bit_OR_IsFragment)
qed

lemma BundleControlFlags_CheckValid_iff:
  "BundleControlFlags_CheckValid f = [] \<longleftrightarrow>
     \<not> (bit f 0 \<and> bit f 2) \<and>
     (bit f 1 \<longrightarrow> \<not> bit f 14 \<and> \<not> bit f 16 \<and> \<not> bit f 17 \<and> \<not> bit f 18)"
  by (auto simp: BundleControlFlags_CheckValid_def Has_bit_simps Let_def)

end
