(* ===== verification/Crc.thy ===== *)
theory Crc
  imports Cbor_Lib
begin

text \<open>
  The checksums of blocks (\<open>pkg/bpv7/crc.go\<close>). CRC-32C comes from the Go standard library and is
  computed bit by bit here; CRC-16 comes from a third-party package and is a field of the library
  parameter.
\<close>

type_synonym CRCType = u64

definition CRCNo :: CRCType where "CRCNo = 0"
definition CRC16 :: CRCType where "CRC16 = 1"
definition CRC32 :: CRCType where "CRC32 = 2"

lemmas crc_type_defs = CRCNo_def CRC16_def CRC32_def

definition CRCType_String :: "CRCType \<Rightarrow> string" where
  "CRCType_String c =
     (if c = CRCNo then ''no'' else if c = CRC16 then ''16'' else if c = CRC32 then ''32'' else ''unknown'')"

definition crc32_step :: "u32 \<Rightarrow> u32" where
  "crc32_step c = (if c AND 1 = 0 then drop_bit 1 c else drop_bit 1 c XOR 0x82F63B78)"

definition crc32_Checksum :: "bytes \<Rightarrow> u32" where
  "crc32_Checksum bs = NOT (foldl (\<lambda>c b. (crc32_step ^^ 8) (c XOR ucast b)) 0xFFFFFFFF bs)"

definition emptyCRC :: "CRCType \<Rightarrow> bytes res" where
  "emptyCRC crcType =
     (if crcType = CRCNo then Inr []
      else if crcType = CRC16 then Inr (replicate 2 0)
      else if crcType = CRC32 then Inr (replicate 4 0)
      else Inl (Errorf ''unknown CRCType''))"

definition PutUint16 :: "u16 \<Rightarrow> bytes" where
  "PutUint16 v = [ucast (drop_bit 8 v), ucast v]"

definition PutUint32 :: "u32 \<Rightarrow> bytes" where
  "PutUint32 v = [ucast (drop_bit 24 v), ucast (drop_bit 16 v), ucast (drop_bit 8 v), ucast v]"

text \<open>The checksum of a buffer to which the all-zero checksum field has been appended.\<close>

definition calculateCRCBuff :: "cboring \<Rightarrow> bytes \<Rightarrow> CRCType \<Rightarrow> bytes res" where
  "calculateCRCBuff L buff crcType =
     bindR (emptyCRC crcType) (\<lambda>data.
       let buff = buff @ WriteByteString L data
       in if crcType = CRCNo then Inr data
          else if crcType = CRC16 then Inr (PutUint16 (crc16_Checksum L buff))
          else if crcType = CRC32 then Inr (PutUint32 (crc32_Checksum buff))
          else Inl (Errorf ''unknown CRCType''))"

section \<open>Properties\<close>

definition known_crc :: "CRCType \<Rightarrow> bool" where
  "known_crc c \<longleftrightarrow> c = CRCNo \<or> c = CRC16 \<or> c = CRC32"

lemma calculateCRCBuff_known:
  "known_crc c \<Longrightarrow> \<exists>d. calculateCRCBuff L buff c = Inr d \<and> length d \<le> 4"
  by (auto simp: known_crc_def calculateCRCBuff_def emptyCRC_def crc_type_defs Let_def
      PutUint16_def PutUint32_def)

lemma calculateCRCBuff_unknown: "\<not> known_crc c \<Longrightarrow> \<exists>e. calculateCRCBuff L buff c = Inl e \<and> \<not> is_panic e"
  by (auto simp: known_crc_def calculateCRCBuff_def emptyCRC_def)

lemma calculateCRCBuff_length:
  "calculateCRCBuff L buff c = Inr d \<Longrightarrow> length d \<le> 4"
  by (auto simp: calculateCRCBuff_def emptyCRC_def Let_def PutUint16_def PutUint32_def split: if_splits)

end
