(* ===== verification/Primary_Block.thy ===== *)
theory Primary_Block
  imports Endpoint Dtn_Time Control_Flags Crc
begin

text \<open>
  The primary block of a bundle (\<open>pkg/bpv7/primary_block.go\<close>): construction, checksum, CBOR
  representation and validity check. Marshalling stores the checksum it computes in the block, so
  it returns the block together with the bytes.
\<close>

definition dtnVersion :: u64 where "dtnVersion = 7"

record PrimaryBlock =
  pb_Version :: u64
  pb_BundleControlFlags :: BundleControlFlags
  pb_CRCType :: CRCType
  pb_Destination :: EndpointID
  pb_SourceNode :: EndpointID
  pb_ReportTo :: EndpointID
  pb_CreationTimestamp :: CreationTimestamp
  pb_Lifetime :: u64
  pb_FragmentOffset :: u64
  pb_TotalDataLength :: u64
  pb_CRC :: bytes

definition PrimaryBlock_HasFragmentation :: "PrimaryBlock \<Rightarrow> bool" where
  "PrimaryBlock_HasFragmentation pb \<longleftrightarrow> BundleControlFlags_Has (pb_BundleControlFlags pb) IsFragment"

definition PrimaryBlock_HasCRC :: "PrimaryBlock \<Rightarrow> bool" where
  "PrimaryBlock_HasCRC pb \<longleftrightarrow> pb_CRCType pb \<noteq> CRCNo"

definition PrimaryBlock_blockLen :: "PrimaryBlock \<Rightarrow> u64" where
  "PrimaryBlock_blockLen pb =
     (let frag = PrimaryBlock_HasFragmentation pb; crc = PrimaryBlock_HasCRC pb in
      if \<not> frag \<and> \<not> crc then 8 else if \<not> frag \<and> crc then 9 else if frag \<and> \<not> crc then 10 else 11)"

text \<open>The bytes written before the checksum field, which are also the buffer it is computed on.\<close>

definition PrimaryBlock_fields :: "cboring \<Rightarrow> PrimaryBlock \<Rightarrow> bytes res" where
  "PrimaryBlock_fields L pb =
     bindR (mapErr (Wrapf ''EndpointID failed'') (EndpointID_MarshalCbor L (pb_Destination pb))) (\<lambda>dst.
     bindR (mapErr (Wrapf ''EndpointID failed'') (EndpointID_MarshalCbor L (pb_SourceNode pb))) (\<lambda>src.
     bindR (mapErr (Wrapf ''EndpointID failed'') (EndpointID_MarshalCbor L (pb_ReportTo pb))) (\<lambda>rpt.
       Inr (WriteArrayLength L (PrimaryBlock_blockLen pb) @
            WriteUInt L dtnVersion @ WriteUInt L (pb_BundleControlFlags pb) @ WriteUInt L (pb_CRCType pb) @
            dst @ src @ rpt @
            CreationTimestamp_MarshalCbor L (pb_CreationTimestamp pb) @
            WriteUInt L (pb_Lifetime pb) @
            (if PrimaryBlock_HasFragmentation pb
             then WriteUInt L (pb_FragmentOffset pb) @ WriteUInt L (pb_TotalDataLength pb) else [])))))"

definition PrimaryBlock_MarshalCbor :: "cboring \<Rightarrow> PrimaryBlock \<Rightarrow> (bytes \<times> PrimaryBlock) res" where
  "PrimaryBlock_MarshalCbor L pb =
     bindR (PrimaryBlock_fields L pb) (\<lambda>buff.
       if PrimaryBlock_HasCRC pb then
         bindR (calculateCRCBuff L buff (pb_CRCType pb)) (\<lambda>crcVal.
           Inr (buff @ WriteByteString L crcVal, pb\<lparr>pb_CRC := crcVal\<rparr>))
       else Inr (buff, pb))"

definition PrimaryBlock_calculateCRC :: "cboring \<Rightarrow> PrimaryBlock \<Rightarrow> PrimaryBlock" where
  "PrimaryBlock_calculateCRC L pb =
     (let pb = pb\<lparr>pb_CRC := []\<rparr>
      in case PrimaryBlock_MarshalCbor L pb of Inl _ \<Rightarrow> pb | Inr (_, pb') \<Rightarrow> pb')"

definition NewPrimaryBlock ::
    "cboring \<Rightarrow> BundleControlFlags \<Rightarrow> EndpointID \<Rightarrow> EndpointID \<Rightarrow> CreationTimestamp \<Rightarrow> u64 \<Rightarrow> PrimaryBlock" where
  "NewPrimaryBlock L bundleControlFlags destination sourceNode creationTimestamp lifetime =
     PrimaryBlock_calculateCRC L
       \<lparr>pb_Version = dtnVersion, pb_BundleControlFlags = bundleControlFlags, pb_CRCType = CRC32,
        pb_Destination = destination, pb_SourceNode = sourceNode, pb_ReportTo = sourceNode,
        pb_CreationTimestamp = creationTimestamp, pb_Lifetime = lifetime,
        pb_FragmentOffset = 0, pb_TotalDataLength = 0, pb_CRC = []\<rparr>"

definition PrimaryBlock_SetCRCType :: "cboring \<Rightarrow> CRCType \<Rightarrow> PrimaryBlock \<Rightarrow> PrimaryBlock" where
  "PrimaryBlock_SetCRCType L crcType pb =
     PrimaryBlock_calculateCRC L (pb\<lparr>pb_CRCType := (if crcType = CRCNo then CRC32 else crcType)\<rparr>)"

definition PrimaryBlock_UnmarshalCbor :: "cboring \<Rightarrow> bytes \<Rightarrow> (PrimaryBlock \<times> bytes) res" where
  "PrimaryBlock_UnmarshalCbor L r0 =
     bindR (ReadArrayLength L r0) (\<lambda>(bl, r).
     if \<not> (8 \<le> bl \<and> bl \<le> 11) then Inl (Errorf ''expected array with 8 to 11 elements'') else
     bindR (ReadUInt L r) (\<lambda>(version, r).
     if version \<noteq> dtnVersion then Inl (Errorf ''expected version 7'') else
     bindR (ReadUInt L r) (\<lambda>(bcf, r).
     bindR (ReadUInt L r) (\<lambda>(crcT, r).
     bindR (mapErr (Wrapf ''EndpointID failed'') (EndpointID_UnmarshalCbor L r)) (\<lambda>(dst, r).
     bindR (mapErr (Wrapf ''EndpointID failed'') (EndpointID_UnmarshalCbor L r)) (\<lambda>(src, r).
     bindR (mapErr (Wrapf ''EndpointID failed'') (EndpointID_UnmarshalCbor L r)) (\<lambda>(rpt, r).
     bindR (mapErr (Wrapf ''CreationTimestamp failed'') (CreationTimestamp_UnmarshalCbor L r)) (\<lambda>(ts, r).
     bindR (ReadUInt L r) (\<lambda>(lt, r).
     bindR (if bl = 10 \<or> bl = 11
            then bindR (ReadUInt L r) (\<lambda>(off, r).
                 bindR (ReadUInt L r) (\<lambda>(total, r). Inr (off, total, r)))
            else Inr (0, 0, r)) (\<lambda>(off, total, r).
     bindR (if bl = 9 \<or> bl = 11
            then bindR (calculateCRCBuff L (take (length r0 - length r) r0) crcT) (\<lambda>crcCalc.
                 bindR (ReadByteString L r) (\<lambda>(crcVal, r).
                   if crcCalc \<noteq> crcVal then Inl (Errorf ''invalid CRC value'') else Inr (crcVal, r)))
            else Inr ([], r)) (\<lambda>(crc, r).
       Inr (\<lparr>pb_Version = dtnVersion, pb_BundleControlFlags = bcf, pb_CRCType = crcT,
             pb_Destination = dst, pb_SourceNode = src, pb_ReportTo = rpt,
             pb_CreationTimestamp = ts, pb_Lifetime = lt,
             pb_FragmentOffset = off, pb_TotalDataLength = total, pb_CRC = crc\<rparr>, r))))))))))))"

definition PrimaryBlock_CheckValid :: "PrimaryBlock \<Rightarrow> err list" where
  "PrimaryBlock_CheckValid pb =
     (if pb_Version pb \<noteq> dtnVersion then [Errorf ''PrimaryBlock: Wrong Version''] else []) @
     BundleControlFlags_CheckValid (pb_BundleControlFlags pb) @
     EndpointID_CheckValid (pb_Destination pb) @
     EndpointID_CheckValid (pb_SourceNode pb) @
     EndpointID_CheckValid (pb_ReportTo pb) @
     (let bpcfImpl = \<not> (pb_SourceNode pb = DtnNone) \<or>
        (BundleControlFlags_Has (pb_BundleControlFlags pb) MustNotFragmented \<and>
         \<not> BundleControlFlags_Has (pb_BundleControlFlags pb) StatusRequestReception \<and>
         \<not> BundleControlFlags_Has (pb_BundleControlFlags pb) StatusRequestForward \<and>
         \<not> BundleControlFlags_Has (pb_BundleControlFlags pb) StatusRequestDelivery \<and>
         \<not> BundleControlFlags_Has (pb_BundleControlFlags pb) StatusRequestDeletion)
      in if \<not> bpcfImpl
         then [Errorf ''PrimaryBlock: Source Node is dtn:none, but Bundle could be fragmented or status report flags are not zero'']
         else [])"

section \<open>Properties\<close>

text \<open>
  A block as the package builds and decodes it: well-formed endpoints, a known checksum type, and
  zero values in the fields that are not transmitted.
\<close>

definition wf_primary :: "PrimaryBlock \<Rightarrow> bool" where
  "wf_primary pb \<longleftrightarrow>
     pb_Version pb = dtnVersion \<and> known_crc (pb_CRCType pb) \<and>
     list_all (\<lambda>e. wf_eid e \<and> short_eid e) [pb_Destination pb, pb_SourceNode pb, pb_ReportTo pb] \<and>
     (\<not> PrimaryBlock_HasFragmentation pb \<longrightarrow> pb_FragmentOffset pb = 0 \<and> pb_TotalDataLength pb = 0) \<and>
     (\<not> PrimaryBlock_HasCRC pb \<longrightarrow> pb_CRC pb = [])"

lemma blockLen_cases:
  "PrimaryBlock_blockLen pb = (if PrimaryBlock_HasFragmentation pb
     then (if PrimaryBlock_HasCRC pb then 11 else 10) else (if PrimaryBlock_HasCRC pb then 9 else 8))"
  by (simp add: PrimaryBlock_blockLen_def Let_def)

lemma PrimaryBlock_MarshalCbor_frame:
  "PrimaryBlock_MarshalCbor L pb = Inr (bs, pb') \<Longrightarrow> pb' = pb\<lparr>pb_CRC := pb_CRC pb'\<rparr>"
  by (auto simp: PrimaryBlock_MarshalCbor_def bindR_Inr_iff split: if_splits)

lemma PrimaryBlock_calculateCRC_frame:
  "PrimaryBlock_calculateCRC L pb = pb\<lparr>pb_CRC := pb_CRC (PrimaryBlock_calculateCRC L pb)\<rparr>"
  by (auto simp: PrimaryBlock_calculateCRC_def Let_def PrimaryBlock_MarshalCbor_def bindR_def
      split: sum.splits if_splits)

lemma PrimaryBlock_calculateCRC_CRCType:
  "pb_CRCType (PrimaryBlock_calculateCRC L pb) = pb_CRCType pb"
  by (subst PrimaryBlock_calculateCRC_frame) simp

lemma PrimaryBlock_SetCRCType_HasCRC: "PrimaryBlock_HasCRC (PrimaryBlock_SetCRCType L c pb)"
  by (simp add: PrimaryBlock_HasCRC_def PrimaryBlock_SetCRCType_def PrimaryBlock_calculateCRC_CRCType
      crc_type_defs)

context cboring_lib
begin

lemma PrimaryBlock_progress: "PrimaryBlock_UnmarshalCbor L r = Inr (pb, r') \<Longrightarrow> length r' < length r"
  unfolding PrimaryBlock_UnmarshalCbor_def
  by (auto simp: bindR_Inr_iff split: if_splits
      dest!: array_progress uint_progress bs_progress EndpointID_progress CreationTimestamp_progress)

lemma PrimaryBlock_fields_read:
  assumes "wf_primary pb"
  obtains dst src rpt where
    "EndpointID_MarshalCbor L (pb_Destination pb) = Inr dst"
    "EndpointID_MarshalCbor L (pb_SourceNode pb) = Inr src"
    "EndpointID_MarshalCbor L (pb_ReportTo pb) = Inr rpt"
    "\<And>r. EndpointID_UnmarshalCbor L (dst @ r) = Inr (pb_Destination pb, r)"
    "\<And>r. EndpointID_UnmarshalCbor L (src @ r) = Inr (pb_SourceNode pb, r)"
    "\<And>r. EndpointID_UnmarshalCbor L (rpt @ r) = Inr (pb_ReportTo pb, r)"
  using assms EndpointID_roundtrip [of "pb_Destination pb"] EndpointID_roundtrip [of "pb_SourceNode pb"]
    EndpointID_roundtrip [of "pb_ReportTo pb"]
  by (auto simp: wf_primary_def)

lemma PrimaryBlock_roundtrip:
  assumes wf: "wf_primary pb"
  shows "\<exists>bs crc. PrimaryBlock_MarshalCbor L pb = Inr (bs, pb\<lparr>pb_CRC := crc\<rparr>) \<and>
           (\<forall>r. PrimaryBlock_UnmarshalCbor L (bs @ r) = Inr (pb\<lparr>pb_CRC := crc\<rparr>, r))"
proof -
  obtain dst src rpt where m: "EndpointID_MarshalCbor L (pb_Destination pb) = Inr dst"
    "EndpointID_MarshalCbor L (pb_SourceNode pb) = Inr src"
    "EndpointID_MarshalCbor L (pb_ReportTo pb) = Inr rpt"
    and u: "\<And>r. EndpointID_UnmarshalCbor L (dst @ r) = Inr (pb_Destination pb, r)"
    "\<And>r. EndpointID_UnmarshalCbor L (src @ r) = Inr (pb_SourceNode pb, r)"
    "\<And>r. EndpointID_UnmarshalCbor L (rpt @ r) = Inr (pb_ReportTo pb, r)"
    using PrimaryBlock_fields_read [OF wf] by metis
  obtain buff where b: "PrimaryBlock_fields L pb = Inr buff"
    by (simp add: PrimaryBlock_fields_def m)
  obtain crc where c: "calculateCRCBuff L buff (pb_CRCType pb) = Inr crc" "length crc < 2 ^ 64"
    using calculateCRCBuff_known [of "pb_CRCType pb" L buff] wf by (auto simp: wf_primary_def)
  have v: "pb_Version pb = dtnVersion" using wf by (simp add: wf_primary_def)
  have eta: "pb\<lparr>pb_CRC := x\<rparr> = \<lparr>pb_Version = pb_Version pb, pb_BundleControlFlags = pb_BundleControlFlags pb,
      pb_CRCType = pb_CRCType pb, pb_Destination = pb_Destination pb, pb_SourceNode = pb_SourceNode pb,
      pb_ReportTo = pb_ReportTo pb, pb_CreationTimestamp = pb_CreationTimestamp pb,
      pb_Lifetime = pb_Lifetime pb, pb_FragmentOffset = pb_FragmentOffset pb,
      pb_TotalDataLength = pb_TotalDataLength pb, pb_CRC = x\<rparr>" for x by simp
  note b' = b [unfolded PrimaryBlock_fields_def m, simplified]
  have nofrag: "\<not> PrimaryBlock_HasFragmentation pb \<Longrightarrow> pb_FragmentOffset pb = 0 \<and> pb_TotalDataLength pb = 0"
    using wf by (simp add: wf_primary_def)
  show ?thesis
  proof (cases "PrimaryBlock_HasCRC pb")
    case True
    have "PrimaryBlock_UnmarshalCbor L ((buff @ WriteByteString L crc) @ r) = Inr (pb\<lparr>pb_CRC := crc\<rparr>, r)" for r
      using c nofrag True unfolding eta v
      by (cases "PrimaryBlock_HasFragmentation pb")
         (simp_all add: PrimaryBlock_UnmarshalCbor_def b' [symmetric] blockLen_cases cbor u
           CreationTimestamp_roundtrip read_bs)
    then show ?thesis using True b c by (auto simp: PrimaryBlock_MarshalCbor_def)
  next
    case False
    have "PrimaryBlock_UnmarshalCbor L (buff @ r) = Inr (pb\<lparr>pb_CRC := []\<rparr>, r)" for r
      using nofrag False unfolding eta v
      by (cases "PrimaryBlock_HasFragmentation pb")
         (simp_all add: PrimaryBlock_UnmarshalCbor_def b' [symmetric] blockLen_cases cbor u
           CreationTimestamp_roundtrip)
    moreover have "pb\<lparr>pb_CRC := []\<rparr> = pb" using wf False by (cases pb) (simp add: wf_primary_def)
    ultimately show ?thesis using False b
      by (intro exI [of _ buff] exI [of _ "[]"]) (simp add: PrimaryBlock_MarshalCbor_def)
  qed
qed

end

end
