(* ===== verification/Canonical_Block.thy ===== *)
theory Canonical_Block
  imports Primary_Block
begin

text \<open>
  Extension blocks, their manager, and canonical blocks (\<open>pkg/bpv7/extension_block*.go\<close>,
  \<open>payload_block.go\<close>, \<open>canonical_block.go\<close>, \<open>canonical_block_sort.go\<close>). The interface value
  \<open>ExtensionBlock\<close> is a datatype with one constructor per implementing type; a \<open>reflect.Type\<close>
  in the manager's table is a value of \<open>ext_kind\<close>.
\<close>

section \<open>Extension blocks\<close>

datatype ExtensionBlock =
    PayloadBlock bytes
  | PreviousNodeBlock EndpointID
  | BundleAgeBlock u64
  | HopCountBlock u8 u8
  | BinarySprayBlock u64
  | RECBundleTypeBlock u64
  | GenericExtensionBlock bytes u64

definition BlockTypePayloadBlock :: u64 where "BlockTypePayloadBlock = 1"
definition BlockTypePreviousNodeBlock :: u64 where "BlockTypePreviousNodeBlock = 6"
definition BlockTypeBundleAgeBlock :: u64 where "BlockTypeBundleAgeBlock = 7"
definition BlockTypeHopCountBlock :: u64 where "BlockTypeHopCountBlock = 10"
definition BlockTypeBinarySprayBlock :: u64 where "BlockTypeBinarySprayBlock = 192"
definition BlockTypeRECBundleType :: u64 where "BlockTypeRECBundleType = 1000"

lemmas block_type_defs = BlockTypePayloadBlock_def BlockTypePreviousNodeBlock_def
  BlockTypeBundleAgeBlock_def BlockTypeHopCountBlock_def BlockTypeBinarySprayBlock_def
  BlockTypeRECBundleType_def

fun BlockTypeCode :: "ExtensionBlock \<Rightarrow> u64" where
  "BlockTypeCode (PayloadBlock _) = BlockTypePayloadBlock"
| "BlockTypeCode (PreviousNodeBlock _) = BlockTypePreviousNodeBlock"
| "BlockTypeCode (BundleAgeBlock _) = BlockTypeBundleAgeBlock"
| "BlockTypeCode (HopCountBlock _ _) = BlockTypeHopCountBlock"
| "BlockTypeCode (BinarySprayBlock _) = BlockTypeBinarySprayBlock"
| "BlockTypeCode (RECBundleTypeBlock _) = BlockTypeRECBundleType"
| "BlockTypeCode (GenericExtensionBlock _ typeCode) = typeCode"

subsection \<open>Payload and generic blocks\<close>

definition NewPayloadBlock :: "bytes \<Rightarrow> ExtensionBlock" where
  "NewPayloadBlock data = PayloadBlock data"

definition PayloadBlock_MarshalBinary :: "bytes \<Rightarrow> bytes res" where
  "PayloadBlock_MarshalBinary pb = Inr pb"

definition PayloadBlock_UnmarshalBinary :: "bytes \<Rightarrow> ExtensionBlock res" where
  "PayloadBlock_UnmarshalBinary data = Inr (NewPayloadBlock data)"

definition NewGenericExtensionBlock :: "bytes \<Rightarrow> u64 \<Rightarrow> ExtensionBlock" where
  "NewGenericExtensionBlock data typeCode = GenericExtensionBlock data typeCode"

definition GenericExtensionBlock_MarshalBinary :: "bytes \<Rightarrow> bytes res" where
  "GenericExtensionBlock_MarshalBinary data = Inr data"

text \<open>\<open>UnmarshalBinary\<close> keeps the type code that \<open>createBlock\<close> has put into the block.\<close>

definition GenericExtensionBlock_UnmarshalBinary :: "u64 \<Rightarrow> bytes \<Rightarrow> ExtensionBlock res" where
  "GenericExtensionBlock_UnmarshalBinary typeCode data = Inr (GenericExtensionBlock data typeCode)"

subsection \<open>Previous node\<close>

definition NewPreviousNodeBlock :: "EndpointID \<Rightarrow> ExtensionBlock" where
  "NewPreviousNodeBlock prev = PreviousNodeBlock prev"

definition PreviousNodeBlock_MarshalCbor :: "cboring \<Rightarrow> EndpointID \<Rightarrow> bytes res" where
  "PreviousNodeBlock_MarshalCbor L eid = EndpointID_MarshalCbor L eid"

definition PreviousNodeBlock_UnmarshalCbor :: "cboring \<Rightarrow> bytes \<Rightarrow> (ExtensionBlock \<times> bytes) res" where
  "PreviousNodeBlock_UnmarshalCbor L r =
     bindR (EndpointID_UnmarshalCbor L r) (\<lambda>(eid, r). Inr (NewPreviousNodeBlock eid, r))"

definition PreviousNodeBlock_CheckValid :: "EndpointID \<Rightarrow> err list" where
  "PreviousNodeBlock_CheckValid eid = EndpointID_CheckValid eid"

subsection \<open>Hop count\<close>

definition NewHopCountBlock :: "u8 \<Rightarrow> ExtensionBlock" where
  "NewHopCountBlock limit = HopCountBlock limit 0"

definition HopCount_IsExceeded :: "u8 \<Rightarrow> u8 \<Rightarrow> bool" where
  "HopCount_IsExceeded limit count \<longleftrightarrow> count > limit"

text \<open>\<open>Increment\<close> returns the new counter and whether the limit is exceeded afterwards.\<close>

definition HopCount_Increment :: "u8 \<Rightarrow> u8 \<Rightarrow> u8 \<times> bool" where
  "HopCount_Increment limit count = (count + 1, HopCount_IsExceeded limit (count + 1))"

definition HopCount_Decrement :: "u8 \<Rightarrow> u8" where
  "HopCount_Decrement count = count - 1"

definition HopCount_MarshalCbor :: "cboring \<Rightarrow> u8 \<Rightarrow> u8 \<Rightarrow> bytes res" where
  "HopCount_MarshalCbor L limit count =
     Inr (WriteArrayLength L 2 @ WriteUInt L (ucast limit) @ WriteUInt L (ucast count))"

definition HopCount_UnmarshalCbor :: "cboring \<Rightarrow> bytes \<Rightarrow> ((u8 \<times> u8) \<times> bytes) res" where
  "HopCount_UnmarshalCbor L r =
     bindR (ReadArrayLength L r) (\<lambda>(l, r).
     if l \<noteq> 2 then Inl (Errorf ''expected array with length 2'') else
     bindR (ReadUInt L r) (\<lambda>(x, r).
     if x > 255 then Inl (Errorf ''Hop Count fields must be within a range to 255'') else
     bindR (ReadUInt L r) (\<lambda>(y, r).
     if y > 255 then Inl (Errorf ''Hop Count fields must be within a range to 255'') else
     Inr ((ucast x, ucast y), r))))"

definition HopCount_CheckValid :: "u8 \<Rightarrow> u8 \<Rightarrow> err list" where
  "HopCount_CheckValid limit count =
     (if HopCount_IsExceeded limit count then [Errorf ''HopCountBlock is exceeded''] else [])"

subsection \<open>Bundle age\<close>

definition NewBundleAgeBlock :: "u64 \<Rightarrow> ExtensionBlock" where
  "NewBundleAgeBlock ms = BundleAgeBlock ms"

definition BundleAge_Increment :: "u64 \<Rightarrow> u64 \<Rightarrow> u64" where
  "BundleAge_Increment age offset = age + offset"

definition BundleAge_MarshalCbor :: "cboring \<Rightarrow> u64 \<Rightarrow> bytes res" where
  "BundleAge_MarshalCbor L age = Inr (WriteUInt L age)"

definition BundleAge_UnmarshalCbor :: "cboring \<Rightarrow> bytes \<Rightarrow> (ExtensionBlock \<times> bytes) res" where
  "BundleAge_UnmarshalCbor L r = bindR (ReadUInt L r) (\<lambda>(us, r). Inr (NewBundleAgeBlock us, r))"

subsection \<open>Binary spray\<close>

definition NewBinarySprayBlock :: "u64 \<Rightarrow> ExtensionBlock" where
  "NewBinarySprayBlock copies = BinarySprayBlock copies"

definition BinarySpray_MarshalCbor :: "cboring \<Rightarrow> u64 \<Rightarrow> bytes res" where
  "BinarySpray_MarshalCbor L copies = Inr (WriteUInt L copies)"

definition BinarySpray_UnmarshalCbor :: "cboring \<Rightarrow> bytes \<Rightarrow> (ExtensionBlock \<times> bytes) res" where
  "BinarySpray_UnmarshalCbor L r = bindR (ReadUInt L r) (\<lambda>(us, r). Inr (NewBinarySprayBlock us, r))"

subsection \<open>REC bundle type\<close>

definition NewRECBundleTypeBlock :: "u8 \<Rightarrow> ExtensionBlock" where
  "NewRECBundleTypeBlock btype = RECBundleTypeBlock (ucast btype)"

definition RECBundleType_MarshalCbor :: "cboring \<Rightarrow> u64 \<Rightarrow> bytes res" where
  "RECBundleType_MarshalCbor L t = Inr (WriteArrayLength L 1 @ WriteUInt L t)"

definition RECBundleType_UnmarshalCbor :: "cboring \<Rightarrow> bytes \<Rightarrow> (u64 \<times> bytes) res" where
  "RECBundleType_UnmarshalCbor L r =
     bindR (ReadArrayLength L r) (\<lambda>(l, r).
     if l \<noteq> 1 then Inl (Errorf ''expected 1 field'') else ReadUInt L r)"

subsection \<open>Dispatch on the block type\<close>

text \<open>The methods \<open>MarshalBinary\<close> or \<open>MarshalCbor\<close> and \<open>CheckValid\<close> of the interface value.\<close>

fun ExtensionBlock_data :: "cboring \<Rightarrow> ExtensionBlock \<Rightarrow> bytes res" where
  "ExtensionBlock_data L (PayloadBlock d) = PayloadBlock_MarshalBinary d"
| "ExtensionBlock_data L (GenericExtensionBlock d _) = GenericExtensionBlock_MarshalBinary d"
| "ExtensionBlock_data L (PreviousNodeBlock eid) = PreviousNodeBlock_MarshalCbor L eid"
| "ExtensionBlock_data L (BundleAgeBlock a) = BundleAge_MarshalCbor L a"
| "ExtensionBlock_data L (HopCountBlock limit count) = HopCount_MarshalCbor L limit count"
| "ExtensionBlock_data L (BinarySprayBlock c) = BinarySpray_MarshalCbor L c"
| "ExtensionBlock_data L (RECBundleTypeBlock t) = RECBundleType_MarshalCbor L t"

fun ExtensionBlock_CheckValid :: "ExtensionBlock \<Rightarrow> err list" where
  "ExtensionBlock_CheckValid (PreviousNodeBlock eid) = PreviousNodeBlock_CheckValid eid"
| "ExtensionBlock_CheckValid (HopCountBlock limit count) = HopCount_CheckValid limit count"
| "ExtensionBlock_CheckValid _ = []"

lemmas ext_codec_defs [simp] = PayloadBlock_MarshalBinary_def PayloadBlock_UnmarshalBinary_def
  GenericExtensionBlock_MarshalBinary_def GenericExtensionBlock_UnmarshalBinary_def
  PreviousNodeBlock_MarshalCbor_def PreviousNodeBlock_UnmarshalCbor_def PreviousNodeBlock_CheckValid_def
  BundleAge_MarshalCbor_def BundleAge_UnmarshalCbor_def BinarySpray_MarshalCbor_def BinarySpray_UnmarshalCbor_def
  HopCount_MarshalCbor_def RECBundleType_MarshalCbor_def NewPayloadBlock_def NewPreviousNodeBlock_def
  NewBundleAgeBlock_def NewBinarySprayBlock_def

subsection \<open>The extension block manager\<close>

datatype ext_kind = KPayload | KPreviousNode | KBundleAge | KHopCount | KBinarySpray | KREC | KGeneric

fun kind_of :: "ExtensionBlock \<Rightarrow> ext_kind" where
  "kind_of (PayloadBlock _) = KPayload"
| "kind_of (PreviousNodeBlock _) = KPreviousNode"
| "kind_of (BundleAgeBlock _) = KBundleAge"
| "kind_of (HopCountBlock _ _) = KHopCount"
| "kind_of (BinarySprayBlock _) = KBinarySpray"
| "kind_of (RECBundleTypeBlock _) = KREC"
| "kind_of (GenericExtensionBlock _ _) = KGeneric"

type_synonym ExtensionBlockManager = "u64 \<rightharpoonup> ext_kind"

definition ebm_Register :: "ExtensionBlockManager \<Rightarrow> ExtensionBlock \<Rightarrow> ExtensionBlockManager res" where
  "ebm_Register ebm eb =
     (if kind_of eb = KGeneric then Inl (Errorf ''not allowed to register a GenericExtensionBlock'')
      else if ebm (BlockTypeCode eb) \<noteq> None then Inl (Errorf ''block type code is already registered'')
      else Inr (ebm(BlockTypeCode eb \<mapsto> kind_of eb)))"

definition ebm_Unregister :: "ExtensionBlockManager \<Rightarrow> ExtensionBlock \<Rightarrow> ExtensionBlockManager" where
  "ebm_Unregister ebm eb = ebm(BlockTypeCode eb := None)"

definition ebm_IsKnown :: "ExtensionBlockManager \<Rightarrow> u64 \<Rightarrow> bool" where
  "ebm_IsKnown ebm typeCode \<longleftrightarrow> ebm typeCode \<noteq> None"

definition ebm_register_all :: "ExtensionBlockManager \<Rightarrow> ExtensionBlock list \<Rightarrow> ExtensionBlockManager" where
  "ebm_register_all ebm ebs =
     foldl (\<lambda>m eb. case ebm_Register m eb of Inl _ \<Rightarrow> m | Inr m' \<Rightarrow> m') ebm ebs"

text \<open>\<open>GetExtensionBlockManager\<close>: the singleton with its five registrations.\<close>

definition GetExtensionBlockManager :: ExtensionBlockManager where
  "GetExtensionBlockManager =
     ebm_register_all Map.empty
       [PayloadBlock [], PreviousNodeBlock DtnNone, BundleAgeBlock 0, NewHopCountBlock 0,
        RECBundleTypeBlock 0]"

definition ebm_WriteBlock :: "cboring \<Rightarrow> ExtensionBlock \<Rightarrow> bytes res" where
  "ebm_WriteBlock L b =
     bindR (mapErr (Wrapf ''marshalling for Block erred'') (ExtensionBlock_data L b))
       (\<lambda>data. Inr (WriteByteString L data))"

text \<open>\<open>UnmarshalBinary\<close> or \<open>UnmarshalCbor\<close> of the type found for a type code; bytes behind the value are ignored.\<close>

definition read_kind :: "cboring \<Rightarrow> u64 \<Rightarrow> ext_kind \<Rightarrow> bytes \<Rightarrow> ExtensionBlock res" where
  "read_kind L typeCode k data =
     (case k of
        KPayload \<Rightarrow> PayloadBlock_UnmarshalBinary data
      | KGeneric \<Rightarrow> GenericExtensionBlock_UnmarshalBinary typeCode data
      | KPreviousNode \<Rightarrow> bindR (PreviousNodeBlock_UnmarshalCbor L data) (\<lambda>(b, _). Inr b)
      | KBundleAge \<Rightarrow> bindR (BundleAge_UnmarshalCbor L data) (\<lambda>(b, _). Inr b)
      | KHopCount \<Rightarrow> bindR (HopCount_UnmarshalCbor L data) (\<lambda>((l, c), _). Inr (HopCountBlock l c))
      | KBinarySpray \<Rightarrow> bindR (BinarySpray_UnmarshalCbor L data) (\<lambda>(b, _). Inr b)
      | KREC \<Rightarrow> bindR (RECBundleType_UnmarshalCbor L data) (\<lambda>(t, _). Inr (RECBundleTypeBlock t)))"

definition ebm_createBlock :: "ExtensionBlockManager \<Rightarrow> u64 \<Rightarrow> ext_kind" where
  "ebm_createBlock ebm typeCode = (case ebm typeCode of Some k \<Rightarrow> k | None \<Rightarrow> KGeneric)"

definition ebm_ReadBlock ::
    "cboring \<Rightarrow> ExtensionBlockManager \<Rightarrow> u64 \<Rightarrow> bytes \<Rightarrow> (ExtensionBlock \<times> bytes) res" where
  "ebm_ReadBlock L ebm typeCode r =
     bindR (ReadByteString L r) (\<lambda>(data, r).
     bindR (read_kind L typeCode (ebm_createBlock ebm typeCode) data) (\<lambda>b. Inr (b, r)))"

section \<open>Canonical blocks\<close>

record CanonicalBlock =
  cb_BlockNumber :: u64
  cb_BlockControlFlags :: BlockControlFlags
  cb_CRCType :: CRCType
  cb_CRC :: bytes
  cb_Value :: ExtensionBlock

definition NewCanonicalBlock :: "u64 \<Rightarrow> BlockControlFlags \<Rightarrow> ExtensionBlock \<Rightarrow> CanonicalBlock" where
  "NewCanonicalBlock no bcf value =
     \<lparr>cb_BlockNumber = no, cb_BlockControlFlags = bcf, cb_CRCType = CRCNo, cb_CRC = [], cb_Value = value\<rparr>"

definition TypeCode :: "CanonicalBlock \<Rightarrow> u64" where
  "TypeCode cb = BlockTypeCode (cb_Value cb)"

definition CanonicalBlock_HasCRC :: "CanonicalBlock \<Rightarrow> bool" where
  "CanonicalBlock_HasCRC cb \<longleftrightarrow> cb_CRCType cb \<noteq> CRCNo"

definition CanonicalBlock_SetCRCType :: "CRCType \<Rightarrow> CanonicalBlock \<Rightarrow> CanonicalBlock" where
  "CanonicalBlock_SetCRCType crcType cb = cb\<lparr>cb_CRCType := crcType\<rparr>"

definition CanonicalBlock_fields :: "cboring \<Rightarrow> CanonicalBlock \<Rightarrow> bytes res" where
  "CanonicalBlock_fields L cb =
     bindR (mapErr (Wrapf ''marshalling value failed'') (ebm_WriteBlock L (cb_Value cb))) (\<lambda>val.
       Inr (WriteArrayLength L (if CanonicalBlock_HasCRC cb then 6 else 5) @
            WriteUInt L (TypeCode cb) @ WriteUInt L (cb_BlockNumber cb) @
            WriteUInt L (cb_BlockControlFlags cb) @ WriteUInt L (cb_CRCType cb) @ val))"

definition CanonicalBlock_MarshalCbor :: "cboring \<Rightarrow> CanonicalBlock \<Rightarrow> (bytes \<times> CanonicalBlock) res" where
  "CanonicalBlock_MarshalCbor L cb =
     bindR (CanonicalBlock_fields L cb) (\<lambda>buff.
       if CanonicalBlock_HasCRC cb then
         bindR (calculateCRCBuff L buff (cb_CRCType cb)) (\<lambda>crcVal.
           Inr (buff @ WriteByteString L crcVal, cb\<lparr>cb_CRC := crcVal\<rparr>))
       else Inr (buff, cb))"

definition CanonicalBlock_UnmarshalCbor ::
    "cboring \<Rightarrow> ExtensionBlockManager \<Rightarrow> bytes \<Rightarrow> (CanonicalBlock \<times> bytes) res" where
  "CanonicalBlock_UnmarshalCbor L ebm r0 =
     bindR (ReadArrayLength L r0) (\<lambda>(bl, r1).
     if bl \<noteq> 5 \<and> bl \<noteq> 6 then Inl (Errorf ''expected array with length 5 or 6'') else
     bindR (ReadUInt L r1) (\<lambda>(blockType, r).
     bindR (ReadUInt L r) (\<lambda>(bn, r).
     bindR (ReadUInt L r) (\<lambda>(bcf, r).
     bindR (ReadUInt L r) (\<lambda>(crcT, r).
     bindR (mapErr (Wrapf ''unmarshalling block type failed'') (ebm_ReadBlock L ebm blockType r)) (\<lambda>(b, r).
     bindR (if bl = 6
            then bindR (calculateCRCBuff L (WriteArrayLength L bl @ take (length r1 - length r) r1) crcT) (\<lambda>crcCalc.
                 bindR (ReadByteString L r) (\<lambda>(crcVal, r).
                   if crcCalc \<noteq> crcVal then Inl (Errorf ''invalid CRC value'') else Inr (crcVal, r)))
            else Inr ([], r)) (\<lambda>(crc, r).
       Inr (\<lparr>cb_BlockNumber = bn, cb_BlockControlFlags = bcf, cb_CRCType = crcT, cb_CRC = crc,
             cb_Value = b\<rparr>, r))))))))"

definition CanonicalBlock_CheckValid :: "CanonicalBlock \<Rightarrow> err list" where
  "CanonicalBlock_CheckValid cb =
     BlockControlFlags_CheckValid (cb_BlockControlFlags cb) @
     ExtensionBlock_CheckValid (cb_Value cb) @
     (if TypeCode cb = BlockTypePayloadBlock \<and> cb_BlockNumber cb \<noteq> 1
      then [Errorf ''CanonicalBlock is a PayloadBlock with a block number != 1''] else [])"

text \<open>\<open>canonicalBlockNumberSort.Less\<close>: ascending block numbers, number 1 last.\<close>

definition canonicalBlockNumberSort_Less :: "CanonicalBlock \<Rightarrow> CanonicalBlock \<Rightarrow> bool" where
  "canonicalBlockNumberSort_Less a b =
     (if cb_BlockNumber a = BlockTypePayloadBlock then False
      else if cb_BlockNumber b = BlockTypePayloadBlock then True
      else cb_BlockNumber a < cb_BlockNumber b)"

section \<open>Properties\<close>

subsection \<open>The manager\<close>

lemma ebm_Register_keeps:
  assumes "ebm_Register ebm eb = Inr ebm'" "ebm c = Some k"
  shows "ebm' c = Some k"
  using assms by (auto simp: ebm_Register_def split: if_splits)

lemma ebm_Register_known:
  assumes "ebm_Register ebm eb = Inr ebm'"
  shows "ebm' (BlockTypeCode eb) = Some (kind_of eb)"
  using assms by (auto simp: ebm_Register_def split: if_splits)

lemma default_manager:
  "GetExtensionBlockManager =
     [1 \<mapsto> KPayload, 6 \<mapsto> KPreviousNode, 7 \<mapsto> KBundleAge, 10 \<mapsto> KHopCount, 1000 \<mapsto> KREC]"
  by (simp add: GetExtensionBlockManager_def ebm_register_all_def ebm_Register_def block_type_defs
      NewHopCountBlock_def)

lemma kind_codes [simp]:
  "GetExtensionBlockManager BlockTypePayloadBlock = Some KPayload"
  "GetExtensionBlockManager BlockTypeBundleAgeBlock = Some KBundleAge"
  "GetExtensionBlockManager BlockTypeHopCountBlock = Some KHopCount"
  "GetExtensionBlockManager BlockTypePreviousNodeBlock = Some KPreviousNode"
  by (simp_all add: default_manager block_type_defs)

subsection \<open>Well-formed blocks\<close>

text \<open>
  A block the manager \<open>ebm\<close> can read back: its type is registered under its code, or it is a
  generic block under a code that nobody registered; its data is small enough for a length field.
\<close>

definition wf_ext :: "ExtensionBlockManager \<Rightarrow> ExtensionBlock \<Rightarrow> bool" where
  "wf_ext ebm eb \<longleftrightarrow>
     (if kind_of eb = KGeneric then ebm (BlockTypeCode eb) = None
      else ebm (BlockTypeCode eb) = Some (kind_of eb)) \<and>
     (case eb of PayloadBlock d \<Rightarrow> length d < 2 ^ 63
      | GenericExtensionBlock d _ \<Rightarrow> length d < 2 ^ 63
      | PreviousNodeBlock eid \<Rightarrow> wf_eid eid \<and> short_eid eid
      | _ \<Rightarrow> True)"

definition wf_canonical :: "ExtensionBlockManager \<Rightarrow> CanonicalBlock \<Rightarrow> bool" where
  "wf_canonical ebm cb \<longleftrightarrow>
     wf_ext ebm (cb_Value cb) \<and> known_crc (cb_CRCType cb) \<and>
     (\<not> CanonicalBlock_HasCRC cb \<longrightarrow> cb_CRC cb = [])"

lemma wf_ext_createBlock: "wf_ext ebm eb \<Longrightarrow> ebm_createBlock ebm (BlockTypeCode eb) = kind_of eb"
  by (auto simp: wf_ext_def ebm_createBlock_def split: if_splits)

lemma CanonicalBlock_MarshalCbor_frame:
  "CanonicalBlock_MarshalCbor L cb = Inr (bs, cb') \<Longrightarrow> cb' = cb\<lparr>cb_CRC := cb_CRC cb'\<rparr>"
  by (auto simp: CanonicalBlock_MarshalCbor_def bindR_Inr_iff split: if_splits)

lemma unat_u8_u64 [simp]: "unat (ucast (x :: u8) :: u64) = unat x"
  by (simp add: unsigned_ucast_eq take_bit_nat_eq_self_iff order_less_trans [OF unsigned_less [of x]])

lemma unat_u8_less: "unat (x :: u8) < 256"
  using unsigned_less [of x] by simp

lemma ucast_u8_u64 [simp]: "ucast (ucast (x :: u8) :: u64) = x"
  by (rule word_unat_eq_iff [THEN iffD2])
     (simp add: unsigned_ucast_eq [of "ucast x :: u64"] take_bit_nat_eq_self_iff unat_u8_less)

lemma ucast_u8_le [simp]: "\<not> (255 :: u64) < ucast (x :: u8)"
  using unat_u8_less [of x] by (simp add: word_less_nat_alt)

subsection \<open>Round trip\<close>

context cboring_lib
begin

lemma HopCount_roundtrip:
  "HopCount_UnmarshalCbor L (WriteArrayLength L 2 @ WriteUInt L (ucast l) @ WriteUInt L (ucast c) @ r) =
     Inr ((l, c), r)"
  by (simp add: HopCount_UnmarshalCbor_def cbor)

lemma ExtensionBlock_data_read:
  assumes "wf_ext ebm eb"
  obtains d where "ExtensionBlock_data L eb = Inr d" "length d < 2 ^ 63"
    "read_kind L (BlockTypeCode eb) (kind_of eb) d = Inr eb"
proof (cases eb)
  case (PreviousNodeBlock eid)
  then have wf: "wf_eid eid" "short_eid eid" using assms by (simp_all add: wf_ext_def)
  obtain bs where bs: "EndpointID_MarshalCbor L eid = Inr bs"
    "EndpointID_UnmarshalCbor L (bs @ []) = Inr (eid, [])"
    using EndpointID_roundtrip [OF wf] by blast
  then have "length bs < 2 ^ 63" using EndpointID_marshal_size wf(2) by blast
  then show thesis using that [of bs] bs PreviousNodeBlock by (simp add: read_kind_def)
next
  case (BundleAgeBlock a)
  then show thesis using that size_uint [of a] read_uint [of a "[]"] by (simp add: read_kind_def)
next
  case (BinarySprayBlock c)
  then show thesis using that size_uint [of c] read_uint [of c "[]"] by (simp add: read_kind_def)
next
  case (HopCountBlock l c)
  then show thesis
    using that size_array [of 2] size_uint [of "ucast l"] size_uint [of "ucast c"] HopCount_roundtrip [of l c "[]"]
    by (simp add: read_kind_def)
next
  case (RECBundleTypeBlock t)
  then show thesis using that size_array [of 1] size_uint [of t] read_uint [of t "[]"]
    by (simp add: read_kind_def RECBundleType_UnmarshalCbor_def cbor)
qed (use assms that in \<open>auto simp: read_kind_def wf_ext_def\<close>)

lemma ebm_roundtrip:
  assumes "wf_ext ebm eb"
  shows "\<exists>bs. ebm_WriteBlock L eb = Inr bs \<and>
           (\<forall>r. ebm_ReadBlock L ebm (BlockTypeCode eb) (bs @ r) = Inr (eb, r))"
proof -
  obtain d where "ExtensionBlock_data L eb = Inr d" "length d < 2 ^ 63"
    "read_kind L (BlockTypeCode eb) (kind_of eb) d = Inr eb"
    using ExtensionBlock_data_read [OF assms] .
  then show ?thesis
    by (simp add: ebm_WriteBlock_def ebm_ReadBlock_def read_bs wf_ext_createBlock [OF assms])
qed

lemma CanonicalBlock_roundtrip:
  assumes wf: "wf_canonical ebm cb"
  shows "\<exists>bs crc. CanonicalBlock_MarshalCbor L cb = Inr (bs, cb\<lparr>cb_CRC := crc\<rparr>) \<and>
           (\<forall>r. CanonicalBlock_UnmarshalCbor L ebm (bs @ r) = Inr (cb\<lparr>cb_CRC := crc\<rparr>, r))"
proof -
  obtain val where v: "ebm_WriteBlock L (cb_Value cb) = Inr val"
    and u: "\<And>r. ebm_ReadBlock L ebm (BlockTypeCode (cb_Value cb)) (val @ r) = Inr (cb_Value cb, r)"
    using ebm_roundtrip wf unfolding wf_canonical_def by blast
  obtain buff where b: "CanonicalBlock_fields L cb = Inr buff" by (simp add: CanonicalBlock_fields_def v)
  note b' = b [unfolded CanonicalBlock_fields_def v TypeCode_def, simplified]
  obtain crc where c: "calculateCRCBuff L buff (cb_CRCType cb) = Inr crc" "length crc < 2 ^ 64"
    using calculateCRCBuff_known [of "cb_CRCType cb" L buff] wf by (auto simp: wf_canonical_def)
  have eta: "cb\<lparr>cb_CRC := x\<rparr> = \<lparr>cb_BlockNumber = cb_BlockNumber cb, cb_BlockControlFlags = cb_BlockControlFlags cb,
      cb_CRCType = cb_CRCType cb, cb_CRC = x, cb_Value = cb_Value cb\<rparr>" for x by simp
  show ?thesis
  proof (cases "CanonicalBlock_HasCRC cb")
    case True
    have "CanonicalBlock_UnmarshalCbor L ebm ((buff @ WriteByteString L crc) @ r) = Inr (cb\<lparr>cb_CRC := crc\<rparr>, r)" for r
      using c True unfolding eta
      by (simp add: CanonicalBlock_UnmarshalCbor_def b' [symmetric] cbor u read_bs)
    then show ?thesis using True b c by (auto simp: CanonicalBlock_MarshalCbor_def)
  next
    case False
    have "CanonicalBlock_UnmarshalCbor L ebm (buff @ r) = Inr (cb\<lparr>cb_CRC := []\<rparr>, r)" for r
      using False unfolding eta
      by (simp add: CanonicalBlock_UnmarshalCbor_def b' [symmetric] cbor u)
    moreover have "cb\<lparr>cb_CRC := []\<rparr> = cb" using wf False by (cases cb) (simp add: wf_canonical_def)
    ultimately show ?thesis using False b
      by (intro exI [of _ buff] exI [of _ "[]"]) (simp add: CanonicalBlock_MarshalCbor_def)
  qed
qed

lemma ebm_ReadBlock_progress:
  "ebm_ReadBlock L ebm c r = Inr (b, r') \<Longrightarrow> length r' < length r"
  by (auto simp: ebm_ReadBlock_def bindR_Inr_iff dest: bs_progress)

lemma CanonicalBlock_progress:
  assumes "CanonicalBlock_UnmarshalCbor L ebm r = Inr (cb, r')"
  shows "length r' < length r"
  using assms
  by (fastforce simp: CanonicalBlock_UnmarshalCbor_def bindR_Inr_iff split: if_splits prod.splits
      dest!: array_progress uint_progress bs_progress ebm_ReadBlock_progress)

text \<open>The size of a serialised block, and that a checksum of 32 bits and a larger number only make it longer.\<close>

lemma CanonicalBlock_marshal_length:
  assumes "CanonicalBlock_MarshalCbor L cb = Inr (bs, cb')"
  obtains d where "ExtensionBlock_data L (cb_Value cb) = Inr d"
    "length bs = length (WriteArrayLength L (if CanonicalBlock_HasCRC cb then 6 else 5)) +
       length (WriteUInt L (TypeCode cb)) + length (WriteUInt L (cb_BlockNumber cb)) +
       length (WriteUInt L (cb_BlockControlFlags cb)) + length (WriteUInt L (cb_CRCType cb)) +
       length (WriteByteString L d) +
       (if CanonicalBlock_HasCRC cb then length (WriteByteStringLen L (if cb_CRCType cb = CRC16 then 2 else 4)) +
          (if cb_CRCType cb = CRC16 then 2 else 4) else 0)"
proof -
  obtain d where d: "ExtensionBlock_data L (cb_Value cb) = Inr d"
    using assms by (auto simp: CanonicalBlock_MarshalCbor_def CanonicalBlock_fields_def bindR_Inr_iff ebm_WriteBlock_def)
  note w2 = write_bs [of "[x, y]" for x y, simplified] and w4 = write_bs [of "[x, y, z, u]" for x y z u, simplified]
  show thesis
    by (rule that [OF d])
       (use assms in \<open>auto simp: CanonicalBlock_MarshalCbor_def CanonicalBlock_fields_def bindR_Inr_iff ebm_WriteBlock_def d
         calculateCRCBuff_def emptyCRC_def Let_def PutUint16_def PutUint32_def CanonicalBlock_HasCRC_def
         crc_type_defs w2 w4 split: if_splits\<close>)
qed

lemma CanonicalBlock_marshal_known:
  assumes "CanonicalBlock_MarshalCbor L cb = Inr (bs, cb')"
  shows "known_crc (cb_CRCType cb)"
proof (rule ccontr)
  assume u: "\<not> known_crc (cb_CRCType cb)"
  then have "CanonicalBlock_HasCRC cb" by (auto simp: CanonicalBlock_HasCRC_def known_crc_def)
  then obtain buff crc where "calculateCRCBuff L buff (cb_CRCType cb) = Inr crc"
    using assms by (auto simp: CanonicalBlock_MarshalCbor_def bindR_Inr_iff)
  then show False using calculateCRCBuff_unknown [OF u, of L buff] by auto
qed

lemma CanonicalBlock_marshal_crc32:
  assumes "CanonicalBlock_MarshalCbor L (cb\<lparr>cb_BlockNumber := m\<rparr>) = Inr (bs, x)"
    "CanonicalBlock_MarshalCbor L (cb\<lparr>cb_CRCType := CRC32\<rparr>) = Inr (bs32, y)" "m \<le> cb_BlockNumber cb"
  shows "length bs \<le> length bs32"
proof -
  have known: "known_crc (cb_CRCType cb)"
    using CanonicalBlock_marshal_known [OF assms(1)] by simp
  then have t: "length (WriteUInt L (cb_CRCType cb)) \<le> length (WriteUInt L CRC32)"
    by (intro size_uint_mono) (auto simp: known_crc_def crc_type_defs)
  note mono = size_array_mono [of 5 6] size_uint_mono [OF assms(3)] size_bslen_mono [of 2 4] t
  have tc: "TypeCode (cb\<lparr>cb_BlockNumber := m\<rparr>) = TypeCode cb" "TypeCode (cb\<lparr>cb_CRCType := c\<rparr>) = TypeCode cb" for c
    by (simp_all add: TypeCode_def)
  show ?thesis
    by (rule CanonicalBlock_marshal_length [OF assms(1)], rule CanonicalBlock_marshal_length [OF assms(2)])
       (use known mono in \<open>auto simp: tc CanonicalBlock_HasCRC_def known_crc_def crc_type_defs split: if_splits\<close>)
qed

end

section \<open>Correctness\<close>

text \<open>
  The binary spray block is not among the registered block types: whatever data a received block
  of its type code 192 carries, the default manager turns it into a generic block.
\<close>

lemma spray_block_read_as_generic:
  assumes "ebm_ReadBlock L GetExtensionBlockManager BlockTypeBinarySprayBlock r = Inr (b, r')"
  shows "\<exists>d. b = GenericExtensionBlock d BlockTypeBinarySprayBlock"
  using assms
  by (auto simp: ebm_ReadBlock_def ebm_createBlock_def default_manager block_type_defs read_kind_def bindR_Inr_iff)

text \<open>A block that has been read has the type code that was read.\<close>

lemma ebm_ReadBlock_type:
  assumes "ebm_ReadBlock L GetExtensionBlockManager t r = Inr (b, r')"
  shows "BlockTypeCode b = t"
  using assms
  by (auto simp: ebm_ReadBlock_def ebm_createBlock_def default_manager block_type_defs read_kind_def bindR_Inr_iff
      split: if_splits)

lemma UnmarshalCbor_spray_generic:
  assumes "CanonicalBlock_UnmarshalCbor L GetExtensionBlockManager r = Inr (cb, r')" "TypeCode cb = BlockTypeBinarySprayBlock"
  shows "\<exists>d. cb_Value cb = GenericExtensionBlock d BlockTypeBinarySprayBlock"
proof -
  obtain t s s' where "ebm_ReadBlock L GetExtensionBlockManager t s = Inr (cb_Value cb, s')"
    using assms(1) by (auto simp: CanonicalBlock_UnmarshalCbor_def bindR_Inr_iff mapErr_def split: if_splits sum.splits)
  then show ?thesis using ebm_ReadBlock_type spray_block_read_as_generic assms(2) unfolding TypeCode_def by metis
qed

end
