(* ===== verification/Bundle_Id.thy ===== *)
theory Bundle_Id
  imports Endpoint Dtn_Time
begin

text \<open>
  Bundle identifiers (\<open>pkg/bpv7/bundle_id.go\<close>): printing, parsing, scrubbing and the CBOR
  representation. The printed form is the key under which the store files a bundle.
\<close>

record BundleID =
  bid_SourceNode :: EndpointID
  bid_Timestamp :: CreationTimestamp
  bid_IsFragment :: bool
  bid_FragmentOffset :: u64
  bid_TotalDataLength :: u64

definition NewBundleID :: "string \<Rightarrow> BundleID res" where
  "NewBundleID uri =
     (let parts = Split (CHR ''-'') uri in
      if length parts \<noteq> 3 \<and> length parts \<noteq> 5 then Inl (Errorf ''is not a valid BundleID'') else
      bindR (NewEndpointID (parts ! 0)) (\<lambda>eid.
      bindR (ParseUint (parts ! 1)) (\<lambda>t0.
      bindR (ParseUint (parts ! 2)) (\<lambda>t1.
      if length parts = 5 then
        bindR (ParseUint (parts ! 3)) (\<lambda>offset.
        bindR (ParseUint (parts ! 4)) (\<lambda>len.
          Inr \<lparr>bid_SourceNode = eid, bid_Timestamp = (t0, t1), bid_IsFragment = True,
               bid_FragmentOffset = offset, bid_TotalDataLength = len\<rparr>))
      else Inr \<lparr>bid_SourceNode = eid, bid_Timestamp = (t0, t1), bid_IsFragment = False,
                bid_FragmentOffset = 0, bid_TotalDataLength = 0\<rparr>))))"

definition BundleID_String :: "BundleID \<Rightarrow> string" where
  "BundleID_String bid =
     EndpointID_String (bid_SourceNode bid) @ ''-'' @ fmt_d (fst (bid_Timestamp bid)) @ ''-'' @
     fmt_d (snd (bid_Timestamp bid)) @
     (if bid_IsFragment bid
      then ''-'' @ fmt_d (bid_FragmentOffset bid) @ ''-'' @ fmt_d (bid_TotalDataLength bid) else [])"

definition BundleID_Len :: "BundleID \<Rightarrow> u64" where
  "BundleID_Len bid = (if bid_IsFragment bid then 4 else 2)"

definition BundleID_Scrub :: "BundleID \<Rightarrow> BundleID" where
  "BundleID_Scrub bid =
     \<lparr>bid_SourceNode = bid_SourceNode bid, bid_Timestamp = bid_Timestamp bid,
      bid_IsFragment = False, bid_FragmentOffset = 0, bid_TotalDataLength = 0\<rparr>"

definition BundleID_MarshalCbor :: "cboring \<Rightarrow> BundleID \<Rightarrow> bytes res" where
  "BundleID_MarshalCbor L bid =
     bindR (mapErr (Wrapf ''marshalling source node failed'') (EndpointID_MarshalCbor L (bid_SourceNode bid)))
       (\<lambda>src. Inr (src @ CreationTimestamp_MarshalCbor L (bid_Timestamp bid) @
          (if bid_IsFragment bid
           then WriteUInt L (bid_FragmentOffset bid) @ WriteUInt L (bid_TotalDataLength bid) else [])))"

text \<open>
  The receiver's \<open>IsFragment\<close> field must be set before decoding; it is an argument here, and the
  two fragment fields keep the zero value of a fresh receiver when it is false.
\<close>

definition BundleID_UnmarshalCbor :: "cboring \<Rightarrow> bool \<Rightarrow> bytes \<Rightarrow> (BundleID \<times> bytes) res" where
  "BundleID_UnmarshalCbor L isFragment r =
     bindR (mapErr (Wrapf ''unmarshalling source node failed'') (EndpointID_UnmarshalCbor L r)) (\<lambda>(src, r).
     bindR (mapErr (Wrapf ''unmarshalling timestamp failed'') (CreationTimestamp_UnmarshalCbor L r)) (\<lambda>(ts, r).
     if isFragment then
       bindR (ReadUInt L r) (\<lambda>(offset, r).
       bindR (ReadUInt L r) (\<lambda>(total, r).
         Inr (\<lparr>bid_SourceNode = src, bid_Timestamp = ts, bid_IsFragment = True,
               bid_FragmentOffset = offset, bid_TotalDataLength = total\<rparr>, r)))
     else Inr (\<lparr>bid_SourceNode = src, bid_Timestamp = ts, bid_IsFragment = False,
                bid_FragmentOffset = 0, bid_TotalDataLength = 0\<rparr>, r)))"

section \<open>Properties\<close>

text \<open>The identifiers of bundles: a non-fragment carries no offsets.\<close>

definition wf_bid :: "BundleID \<Rightarrow> bool" where
  "wf_bid bid \<longleftrightarrow> wf_eid (bid_SourceNode bid) \<and>
     (\<not> bid_IsFragment bid \<longrightarrow> bid_FragmentOffset bid = 0 \<and> bid_TotalDataLength bid = 0)"

definition hyphen_free :: "BundleID \<Rightarrow> bool" where
  "hyphen_free bid \<longleftrightarrow> CHR ''-'' \<notin> set (EndpointID_String (bid_SourceNode bid))"

lemma hyphen_fmt_d [simp]: "CHR ''-'' \<notin> set (fmt_d n)"
  using fmt_d_digits [of "CHR ''-''" n] by (auto simp: is_digit_def)

lemma Split_BundleID_String:
  assumes "hyphen_free bid"
  shows "Split (CHR ''-'') (BundleID_String bid) =
    [EndpointID_String (bid_SourceNode bid), fmt_d (fst (bid_Timestamp bid)), fmt_d (snd (bid_Timestamp bid))] @
    (if bid_IsFragment bid then [fmt_d (bid_FragmentOffset bid), fmt_d (bid_TotalDataLength bid)] else [])"
  using assms by (auto simp: BundleID_String_def hyphen_free_def Split_append_sep Split_no_sep)

lemma BundleID_parse_print:
  assumes "wf_bid bid" "hyphen_free bid"
  shows "NewBundleID (BundleID_String bid) = Inr bid"
proof (cases "bid_IsFragment bid")
  case True
  then show ?thesis using assms Split_BundleID_String [OF assms(2)] EndpointID_parse_print
    by (cases bid) (auto simp: NewBundleID_def wf_bid_def Let_def)
next
  case False
  then show ?thesis using assms Split_BundleID_String [OF assms(2)] EndpointID_parse_print
    by (cases bid) (auto simp: NewBundleID_def wf_bid_def Let_def)
qed

context cboring_lib
begin

lemma BundleID_roundtrip:
  assumes "wf_bid bid" "short_eid (bid_SourceNode bid)"
  shows "\<exists>bs. BundleID_MarshalCbor L bid = Inr bs \<and>
           (\<forall>r. BundleID_UnmarshalCbor L (bid_IsFragment bid) (bs @ r) = Inr (bid, r))"
proof -
  from assms obtain src where m: "EndpointID_MarshalCbor L (bid_SourceNode bid) = Inr src"
    and u: "\<And>r. EndpointID_UnmarshalCbor L (src @ r) = Inr (bid_SourceNode bid, r)"
    using EndpointID_roundtrip [of "bid_SourceNode bid"] by (auto simp: wf_bid_def)
  have z: "\<lparr>bid_SourceNode = bid_SourceNode bid, bid_Timestamp = bid_Timestamp bid,
      bid_IsFragment = bid_IsFragment bid, bid_FragmentOffset = bid_FragmentOffset bid,
      bid_TotalDataLength = bid_TotalDataLength bid\<rparr> = bid" by simp
  show ?thesis using assms z
    by (cases "bid_IsFragment bid") (simp_all add: BundleID_MarshalCbor_def BundleID_UnmarshalCbor_def
        m u wf_bid_def CreationTimestamp_roundtrip cbor)
qed

end

section \<open>Correctness\<close>

text \<open>
  Parsing inverts printing for the identifiers whose source has no hyphen in its URI, so distinct
  identifiers of this kind have distinct store keys.
\<close>

lemma NewBundleID_String:
  assumes "wf_bid bid" "hyphen_free bid"
  shows "NewBundleID (BundleID_String bid) = Inr bid"
  using assms by (rule BundleID_parse_print)

definition example_bid :: BundleID where
  "example_bid = \<lparr>bid_SourceNode = Some (Dtn \<lparr>NodeName = ''a'', Demux = ''x'', IsDtnNone = False\<rparr>),
     bid_Timestamp = (5, 6), bid_IsFragment = True, bid_FragmentOffset = 7, bid_TotalDataLength = 8\<rparr>"

text \<open>
  With a hyphen in the source the printed identifier is ambiguous: a bundle of
  \<open>dtn://a/x-5-6\<close> and a fragment of a bundle of \<open>dtn://a/x\<close> have the same printed identifier, which
  is the key and the file name the store uses, and the identifier of the former does not parse back.
\<close>

lemma BundleID_String_collision:
  "\<exists>bid. bid \<noteq> example_bid \<and> wf_bid bid \<and> wf_bid example_bid \<and>
     BundleID_String bid = BundleID_String example_bid \<and> NewBundleID (BundleID_String bid) \<noteq> Inr bid"
proof -
  let ?b = "\<lparr>bid_SourceNode = Some (Dtn \<lparr>NodeName = ''a'', Demux = ''x-5-6'', IsDtnNone = False\<rparr>),
     bid_Timestamp = (7, 8), bid_IsFragment = False, bid_FragmentOffset = 0, bid_TotalDataLength = 0\<rparr>"
  have *: "?b \<noteq> example_bid" "wf_bid ?b" "wf_bid example_bid" "hyphen_free example_bid" by code_simp+
  have "BundleID_String ?b = BundleID_String example_bid" by code_simp
  moreover have "NewBundleID (BundleID_String example_bid) = Inr example_bid" using * by (intro BundleID_parse_print)
  ultimately show ?thesis using * by (intro exI [of _ ?b]) simp
qed

end
