(* ===== verification/Bundle.thy ===== *)
theory Bundle
  imports Canonical_Block Bundle_Id
begin

text \<open>
  Bundles (\<open>pkg/bpv7/bundle.go\<close>): the three kinds of blocks, access by block type and number,
  adding and removing extension blocks, lifetime, the validity check and the CBOR representation.
  A pointer to one of the bundle's extension blocks is its index. The payload block is \<open>None\<close>
  while it is the zero value \<open>CanonicalBlock{}\<close>, whose interface value is nil: the methods that call
  through it panic. The current time is an argument of the operations that read the clock.
\<close>

record Bundle =
  bndl_PrimaryBlock :: PrimaryBlock
  bndl_ExtensionBlocks :: "CanonicalBlock list"
  bndl_PayloadBlock :: "CanonicalBlock option"

definition sortExtensionBlocks :: "Bundle \<Rightarrow> Bundle" where
  "sortExtensionBlocks b =
     b\<lparr>bndl_ExtensionBlocks := sort_less canonicalBlockNumberSort_Less (bndl_ExtensionBlocks b)\<rparr>"

definition MustNewBundle :: "PrimaryBlock \<Rightarrow> CanonicalBlock list \<Rightarrow> CanonicalBlock option \<Rightarrow> Bundle" where
  "MustNewBundle primary extensions payload =
     sortExtensionBlocks \<lparr>bndl_PrimaryBlock = primary, bndl_ExtensionBlocks = extensions,
                         bndl_PayloadBlock = payload\<rparr>"

definition nil_value :: err where
  "nil_value = Panic ''nil pointer dereference: Value of the payload block''"

section \<open>Access to blocks\<close>

definition ExtensionBlocksByType :: "Bundle \<Rightarrow> u64 \<Rightarrow> nat list res" where
  "ExtensionBlocksByType b blockType =
     (let cbs = filter (\<lambda>i. TypeCode (bndl_ExtensionBlocks b ! i) = blockType)
                  [0..<length (bndl_ExtensionBlocks b)]
      in if cbs = [] then Inl (Errorf ''no CanonicalBlock with this block type was found in Bundle'')
         else Inr cbs)"

definition ExtensionBlockByType :: "Bundle \<Rightarrow> u64 \<Rightarrow> nat res" where
  "ExtensionBlockByType b blockType =
     bindR (ExtensionBlocksByType b blockType) (\<lambda>cbs.
       if length cbs \<noteq> 1 then Inl (Errorf ''there are several Extension Blocks for this type code'')
       else Inr (cbs ! 0))"

definition HasExtensionBlock :: "Bundle \<Rightarrow> u64 \<Rightarrow> bool" where
  "HasExtensionBlock b blockType = (case ExtensionBlocksByType b blockType of Inl _ \<Rightarrow> False | Inr _ \<Rightarrow> True)"

definition GetExtensionBlockByBlockNumber :: "Bundle \<Rightarrow> u64 \<Rightarrow> nat res" where
  "GetExtensionBlockByBlockNumber b blockNumber =
     (case filter (\<lambda>i. cb_BlockNumber (bndl_ExtensionBlocks b ! i) = blockNumber)
             [0..<length (bndl_ExtensionBlocks b)] of
        [] \<Rightarrow> Inl (Errorf ''block with this number not found'')
      | i # _ \<Rightarrow> Inr i)"

fun remove_number :: "u64 \<Rightarrow> CanonicalBlock list \<Rightarrow> CanonicalBlock list" where
  "remove_number no [] = []"
| "remove_number no (cb # cbs) = (if cb_BlockNumber cb = no then cbs else cb # remove_number no cbs)"

definition RemoveExtensionBlockByBlockNumber :: "u64 \<Rightarrow> Bundle \<Rightarrow> Bundle" where
  "RemoveExtensionBlockByBlockNumber blockNumber b =
     b\<lparr>bndl_ExtensionBlocks := remove_number blockNumber (bndl_ExtensionBlocks b)\<rparr>"

text \<open>
  The search of \<open>AddExtensionBlock\<close> for a free block number, with \<open>uint64\<close> wrap-around. One round
  per number in use, plus one, is enough: \<open>next_free_enough\<close>.
\<close>

fun next_free :: "nat \<Rightarrow> u64 list \<Rightarrow> u64 \<Rightarrow> u64 option" where
  "next_free 0 blockNumbers blockNumber = None"
| "next_free (Suc n) blockNumbers blockNumber =
     (if blockNumber \<in> set blockNumbers then next_free n blockNumbers (blockNumber + 1)
      else Some blockNumber)"

definition AddExtensionBlock :: "CanonicalBlock \<Rightarrow> Bundle \<Rightarrow> Bundle res" where
  "AddExtensionBlock block b =
     (let blockNumbers = map cb_BlockNumber (bndl_ExtensionBlocks b);
          blockNumber = (if TypeCode block \<noteq> BlockTypePayloadBlock then 2 else 1)
      in case next_free (Suc (length blockNumbers)) blockNumbers blockNumber of
           None \<Rightarrow> Inl Diverges
         | Some no \<Rightarrow> Inr (sortExtensionBlocks
             (b\<lparr>bndl_ExtensionBlocks := bndl_ExtensionBlocks b @ [block\<lparr>cb_BlockNumber := no\<rparr>]\<rparr>)))"

fun AddExtensionBlocks :: "CanonicalBlock list \<Rightarrow> Bundle \<Rightarrow> Bundle res" where
  "AddExtensionBlocks [] b = Inr b"
| "AddExtensionBlocks (cb # cbs) b = bindR (AddExtensionBlock cb b) (AddExtensionBlocks cbs)"

definition Bundle_SetCRCType :: "cboring \<Rightarrow> CRCType \<Rightarrow> Bundle \<Rightarrow> Bundle" where
  "Bundle_SetCRCType L crcType b =
     \<lparr>bndl_PrimaryBlock = PrimaryBlock_SetCRCType L crcType (bndl_PrimaryBlock b),
      bndl_ExtensionBlocks = map (CanonicalBlock_SetCRCType crcType) (bndl_ExtensionBlocks b),
      bndl_PayloadBlock = map_option (CanonicalBlock_SetCRCType crcType) (bndl_PayloadBlock b)\<rparr>"

definition Bundle_ID :: "Bundle \<Rightarrow> BundleID" where
  "Bundle_ID b =
     \<lparr>bid_SourceNode = pb_SourceNode (bndl_PrimaryBlock b),
      bid_Timestamp = pb_CreationTimestamp (bndl_PrimaryBlock b),
      bid_IsFragment = BundleControlFlags_Has (pb_BundleControlFlags (bndl_PrimaryBlock b)) IsFragment,
      bid_FragmentOffset = pb_FragmentOffset (bndl_PrimaryBlock b),
      bid_TotalDataLength = pb_TotalDataLength (bndl_PrimaryBlock b)\<rparr>"

definition Bundle_String :: "Bundle \<Rightarrow> string" where
  "Bundle_String b = BundleID_String (Bundle_ID b)"

definition IsAdministrativeRecord :: "Bundle \<Rightarrow> bool" where
  "IsAdministrativeRecord b =
     BundleControlFlags_Has (pb_BundleControlFlags (bndl_PrimaryBlock b)) AdministrativeRecordPayload"

text \<open>\<open>b.PayloadBlock.Value.(*PayloadBlock).Data()\<close>, which several operations evaluate.\<close>

definition Bundle_Payload :: "Bundle \<Rightarrow> bytes res" where
  "Bundle_Payload b =
     (case bndl_PayloadBlock b of
        None \<Rightarrow> Inl nil_value
      | Some cb \<Rightarrow> (case cb_Value cb of PayloadBlock d \<Rightarrow> Inr d
                    | _ \<Rightarrow> Inl (Panic ''interface conversion: not a PayloadBlock'')))"

section \<open>Validity\<close>

definition IsLifetimeExceeded :: "time \<Rightarrow> Bundle \<Rightarrow> bool res" where
  "IsLifetimeExceeded now b =
     (let pb = bndl_PrimaryBlock b in
      if IsZeroTime (pb_CreationTimestamp pb) then
        (case ExtensionBlockByType b BlockTypeBundleAgeBlock of
           Inl _ \<Rightarrow> Inr True
         | Inr i \<Rightarrow> (case cb_Value (bndl_ExtensionBlocks b ! i) of
                      BundleAgeBlock age \<Rightarrow> Inr (age > pb_Lifetime pb)
                    | _ \<Rightarrow> Inl (Panic ''interface conversion: not a BundleAgeBlock'')))
      else Inr (now > DtnTime_Time (CreationTimestamp_DtnTime (pb_CreationTimestamp pb)) +
                      lifetime_duration (pb_Lifetime pb)))"

definition unique_context :: "Bundle \<Rightarrow> nat \<Rightarrow> u64 \<Rightarrow> err list" where
  "unique_context b i blockType =
     (case ExtensionBlockByType b blockType of
        Inl e \<Rightarrow> [e]
      | Inr j \<Rightarrow> if j \<noteq> i then [Errorf ''pointer differs''] else [])"

text \<open>\<open>CheckContextValid\<close> of the \<open>i\<close>-th extension block's value.\<close>

definition CheckContextValid :: "Bundle \<Rightarrow> nat \<Rightarrow> err list" where
  "CheckContextValid b i =
     (case cb_Value (bndl_ExtensionBlocks b ! i) of
        PreviousNodeBlock _ \<Rightarrow> unique_context b i BlockTypePreviousNodeBlock
      | BundleAgeBlock _ \<Rightarrow> unique_context b i BlockTypeBundleAgeBlock
      | HopCountBlock _ _ \<Rightarrow> unique_context b i BlockTypeHopCountBlock
      | _ \<Rightarrow> [])"

text \<open>The loop over the extension blocks with the map of block numbers seen so far.\<close>

fun check_blocks :: "Bundle \<Rightarrow> u64 set \<Rightarrow> nat list \<Rightarrow> err list" where
  "check_blocks b cbBlockNumbers [] = []"
| "check_blocks b cbBlockNumbers (i # is) =
     (let no = cb_BlockNumber (bndl_ExtensionBlocks b ! i) in
      (if no \<in> cbBlockNumbers then [Errorf ''bundle: block number occurred multiple times''] else []) @
      CheckContextValid b i @ check_blocks b (insert no cbBlockNumbers) is)"

definition Bundle_CheckValid :: "time \<Rightarrow> Bundle \<Rightarrow> err list res" where
  "Bundle_CheckValid now b =
     (case bndl_PayloadBlock b of
        None \<Rightarrow> Inl nil_value
      | Some payload \<Rightarrow>
        bindR (IsLifetimeExceeded now b) (\<lambda>exceeded. Inr (
          PrimaryBlock_CheckValid (bndl_PrimaryBlock b) @
          concat (map CanonicalBlock_CheckValid (bndl_ExtensionBlocks b)) @
          CanonicalBlock_CheckValid payload @
          (if BlockControlFlags_Has (cb_BlockControlFlags payload) StatusReportBlock
           then [Errorf ''bundle: transmit status report flag was set in a canonical block''] else []) @
          check_blocks b {} [0..<length (bndl_ExtensionBlocks b)] @
          (if IsZeroTime (pb_CreationTimestamp (bndl_PrimaryBlock b)) \<and>
              \<not> HasExtensionBlock b BlockTypeBundleAgeBlock
           then [Errorf ''Bundle: Creation Timestamp is zero, but no Bundle Age block exists''] else []) @
          (if exceeded then [Errorf ''Bundle: Lifetime is exceeded''] else []))))"

definition NewBundle ::
    "time \<Rightarrow> PrimaryBlock \<Rightarrow> CanonicalBlock list \<Rightarrow> CanonicalBlock option \<Rightarrow> (Bundle \<times> err list) res" where
  "NewBundle now primary extensions payload =
     (let b = MustNewBundle primary extensions payload
      in bindR (Bundle_CheckValid now b) (\<lambda>errs. Inr (b, errs)))"

section \<open>CBOR representation\<close>

fun marshal_blocks :: "cboring \<Rightarrow> CanonicalBlock list \<Rightarrow> (bytes \<times> CanonicalBlock list) res" where
  "marshal_blocks L [] = Inr ([], [])"
| "marshal_blocks L (cb # cbs) =
     bindR (mapErr (Wrapf ''ExtensionBlock failed'') (CanonicalBlock_MarshalCbor L cb)) (\<lambda>(bs, cb').
     bindR (marshal_blocks L cbs) (\<lambda>(bss, cbs'). Inr (bs @ bss, cb' # cbs')))"

definition Bundle_MarshalCbor :: "cboring \<Rightarrow> Bundle \<Rightarrow> (bytes \<times> Bundle) res" where
  "Bundle_MarshalCbor L b =
     bindR (mapErr (Wrapf ''PrimaryBlock failed'') (PrimaryBlock_MarshalCbor L (bndl_PrimaryBlock b))) (\<lambda>(p, pb).
     bindR (marshal_blocks L (bndl_ExtensionBlocks b)) (\<lambda>(e, ebs).
     case bndl_PayloadBlock b of
       None \<Rightarrow> Inl nil_value
     | Some payload \<Rightarrow>
       bindR (mapErr (Wrapf ''PayloadBlock failed'') (CanonicalBlock_MarshalCbor L payload)) (\<lambda>(d, payload').
         Inr ([IndefiniteArray L] @ p @ e @ d @ [BreakCode L],
              \<lparr>bndl_PrimaryBlock = pb, bndl_ExtensionBlocks = ebs, bndl_PayloadBlock = Some payload'\<rparr>))))"

text \<open>
  The decoding loop. A block whose reader reports the break code ends it. Every decoded block
  consumes input, so fuel for the length of the input is enough: \<open>unmarshal_blocks_enough\<close>.
\<close>

fun unmarshal_blocks ::
    "nat \<Rightarrow> cboring \<Rightarrow> ExtensionBlockManager \<Rightarrow> bytes \<Rightarrow> CanonicalBlock list \<Rightarrow> CanonicalBlock option \<Rightarrow>
     (CanonicalBlock list \<times> CanonicalBlock option) res option" where
  "unmarshal_blocks 0 L ebm r ebs payload = None"
| "unmarshal_blocks (Suc n) L ebm r ebs payload =
     (case CanonicalBlock_UnmarshalCbor L ebm r of
        Inl e \<Rightarrow> if e = FlagBreakCode then Some (Inr (ebs, payload))
                 else Some (Inl (Wrapf ''CanonicalBlock failed'' e))
      | Inr (cb, r') \<Rightarrow>
          if TypeCode cb = BlockTypePayloadBlock then unmarshal_blocks n L ebm r' ebs (Some cb)
          else unmarshal_blocks n L ebm r' (ebs @ [cb]) payload)"

text \<open>
  \<open>ParseBundle\<close>: a fresh bundle decoded from the input. \<open>Inl\<close> is a decoding error or a panic;
  \<open>Inr\<close> is the decoded bundle with what its validity check reports.
\<close>

definition ParseBundle ::
    "cboring \<Rightarrow> ExtensionBlockManager \<Rightarrow> time \<Rightarrow> bytes \<Rightarrow> (Bundle \<times> err list) res" where
  "ParseBundle L ebm now r =
     bindR (ReadExpect L (IndefiniteArray L) r) (\<lambda>r.
     bindR (mapErr (Wrapf ''PrimaryBlock failed'') (PrimaryBlock_UnmarshalCbor L r)) (\<lambda>(pb, r).
     case unmarshal_blocks (Suc (length r)) L ebm r [] None of
       None \<Rightarrow> Inl Diverges
     | Some res \<Rightarrow> bindR res (\<lambda>(ebs, payload).
         let b = \<lparr>bndl_PrimaryBlock = pb, bndl_ExtensionBlocks = ebs, bndl_PayloadBlock = payload\<rparr>
         in bindR (Bundle_CheckValid now b) (\<lambda>errs. Inr (b, errs)))))"

section \<open>Properties\<close>

subsection \<open>Block access\<close>

lemma ExtensionBlocksByType_iff:
  "ExtensionBlocksByType b t = Inr cbs \<longleftrightarrow>
     cbs = filter (\<lambda>i. TypeCode (bndl_ExtensionBlocks b ! i) = t) [0..<length (bndl_ExtensionBlocks b)] \<and> cbs \<noteq> []"
  by (auto simp: ExtensionBlocksByType_def Let_def)

lemma ExtensionBlockByType_Inr:
  assumes "ExtensionBlockByType b t = Inr i"
  shows "i < length (bndl_ExtensionBlocks b)" "TypeCode (bndl_ExtensionBlocks b ! i) = t"
proof -
  have "\<exists>cbs. ExtensionBlocksByType b t = Inr cbs \<and> length cbs = 1 \<and> i = cbs ! 0"
    using assms by (auto simp: ExtensionBlockByType_def bindR_Inr_iff split: if_splits)
  then have "i \<in> set (filter (\<lambda>i. TypeCode (bndl_ExtensionBlocks b ! i) = t) [0..<length (bndl_ExtensionBlocks b)])"
    unfolding ExtensionBlocksByType_iff by (metis nth_mem zero_less_one)
  then show "i < length (bndl_ExtensionBlocks b)" "TypeCode (bndl_ExtensionBlocks b ! i) = t" by auto
qed

lemma HasExtensionBlock_iff:
  "HasExtensionBlock b t \<longleftrightarrow> (\<exists>cb \<in> set (bndl_ExtensionBlocks b). TypeCode cb = t)"
proof -
  have "HasExtensionBlock b t \<longleftrightarrow> (\<exists>i < length (bndl_ExtensionBlocks b). TypeCode (bndl_ExtensionBlocks b ! i) = t)"
    by (auto simp: HasExtensionBlock_def ExtensionBlocksByType_def Let_def filter_empty_conv)
  also have "\<dots> \<longleftrightarrow> (\<exists>cb \<in> set (bndl_ExtensionBlocks b). TypeCode cb = t)"
    by (metis in_set_conv_nth)
  finally show ?thesis .
qed

lemma filter_upt_unique:
  assumes "i < n" "P i" "\<And>j. j < n \<Longrightarrow> j \<noteq> i \<Longrightarrow> \<not> P j"
  shows "filter P [0..<n] = [i]"
proof -
  have "[0..<n] = [0..<i] @ i # [Suc i..<n]" using assms(1) by (metis less_imp_add_positive upt_add_eq_append upt_conv_Cons zero_le less_or_eq_imp_le le0)
  moreover have "filter P [0..<i] = []" "filter P [Suc i..<n] = []"
    using assms(1,3) by (simp_all add: filter_empty_conv)
  ultimately show ?thesis using assms(2) by simp
qed

lemma ExtensionBlockByType_unique:
  assumes "i < length (bndl_ExtensionBlocks b)" "TypeCode (bndl_ExtensionBlocks b ! i) = t"
    "\<And>j. j < length (bndl_ExtensionBlocks b) \<Longrightarrow> j \<noteq> i \<Longrightarrow> TypeCode (bndl_ExtensionBlocks b ! j) \<noteq> t"
  shows "ExtensionBlockByType b t = Inr i"
proof -
  have "filter (\<lambda>i. TypeCode (bndl_ExtensionBlocks b ! i) = t) [0..<length (bndl_ExtensionBlocks b)] = [i]"
    by (rule filter_upt_unique) (fact assms)+
  then show ?thesis by (simp add: ExtensionBlockByType_def ExtensionBlocksByType_def)
qed

subsection \<open>Adding and removing blocks\<close>

lemma next_free_Some:
  "next_free n nos m = Some k \<Longrightarrow> k \<notin> set nos"
  by (induction n nos m rule: next_free.induct) (auto split: if_splits)

text \<open>The number found is the first that is not in use, counting from the start with wrap-around.\<close>

lemma next_free_first:
  "next_free n nos m = Some k \<Longrightarrow> \<exists>i < n. k = m + of_nat i \<and> (\<forall>j < i. m + of_nat j \<in> set nos)"
proof (induction n nos m rule: next_free.induct)
  case (2 n nos m)
  show ?case
  proof (cases "m \<in> set nos")
    case True
    then obtain i where i: "i < n" "k = m + 1 + of_nat i" "\<forall>j < i. m + 1 + of_nat j \<in> set nos" using 2 by auto
    have "m + of_nat j \<in> set nos" if "j < Suc i" for j using that i(3) True by (cases j) (auto simp: add.assoc)
    then show ?thesis using i(1,2) by (intro exI [of _ "Suc i"]) (simp add: add.assoc)
  qed (use "2.prems" in auto)
qed simp

lemma next_free_least:
  assumes "next_free n nos m = Some k" "unat m + n \<le> 2 ^ 64"
  shows "m \<le> k" "m \<le> x \<Longrightarrow> x < k \<Longrightarrow> x \<in> set nos"
proof -
  obtain i where i: "i < n" "k = m + of_nat i" "\<forall>j < i. m + of_nat j \<in> set nos" using next_free_first [OF assms(1)] by blast
  have k: "unat k = unat m + i" using i(1,2) assms(2) by (simp add: unat_word_ariths unat_of_nat)
  then show "m \<le> k" by (simp add: word_le_nat_alt)
  assume x: "m \<le> x" "x < k"
  then have "unat x - unat m < i" "unat m \<le> unat x" using k by (auto simp: word_le_nat_alt word_less_nat_alt)
  moreover have "m + of_nat (unat x - unat m) = x" using \<open>unat m \<le> unat x\<close> by (simp add: of_nat_diff)
  ultimately show "x \<in> set nos" using i(3) by metis
qed

lemma next_free_None:
  "next_free n nos m = None \<Longrightarrow> \<forall>i < n. m + of_nat i \<in> set nos"
proof (induction n nos m rule: next_free.induct)
  case (2 n nos m)
  have *: "m \<in> set nos" "next_free n nos (m + 1) = None" using "2.prems" by (auto split: if_splits)
  show ?case
  proof (intro allI impI)
    fix i assume "i < Suc n"
    then show "m + of_nat i \<in> set nos" using "2.IH" [OF *] * by (cases i) (auto simp: add.assoc)
  qed
qed simp

lemma next_free_enough:
  assumes "length nos < 2 ^ 64"
  obtains k where "next_free (Suc (length nos)) nos m = Some k" "k \<notin> set nos"
proof (cases "next_free (Suc (length nos)) nos m")
  case None
  have inj: "inj_on (\<lambda>i. m + of_nat i :: u64) {..<Suc (length nos)}"
  proof (rule inj_onI)
    fix x y assume "x \<in> {..<Suc (length nos)}" "y \<in> {..<Suc (length nos)}" "m + (of_nat x :: u64) = m + of_nat y"
    then have "unat (of_nat x :: u64) = unat (of_nat y :: u64)" "x < 2 ^ 64" "y < 2 ^ 64" using assms by auto
    then show "x = y" by (simp add: unat_of_nat)
  qed
  have "(\<lambda>i. m + of_nat i) ` {..<Suc (length nos)} \<subseteq> set nos"
    using next_free_None [OF None] by auto
  then have "card ((\<lambda>i. m + of_nat i :: u64) ` {..<Suc (length nos)}) \<le> card (set nos)"
    by (rule card_mono [rotated]) simp
  moreover have "card ((\<lambda>i. m + of_nat i :: u64) ` {..<Suc (length nos)}) = Suc (length nos)"
    using inj by (simp add: card_image)
  moreover have "card (set nos) \<le> length nos" by (rule card_length)
  ultimately show thesis by linarith
next
  case (Some k)
  then show thesis using that next_free_Some by blast
qed

text \<open>The numbers of the extension blocks, and of all canonical blocks.\<close>

definition block_numbers :: "Bundle \<Rightarrow> u64 list" where
  "block_numbers b = map cb_BlockNumber (bndl_ExtensionBlocks b)"

definition all_block_numbers :: "Bundle \<Rightarrow> u64 list" where
  "all_block_numbers b = block_numbers b @ (case bndl_PayloadBlock b of None \<Rightarrow> [] | Some cb \<Rightarrow> [cb_BlockNumber cb])"

definition first_number :: "CanonicalBlock \<Rightarrow> u64" where
  "first_number cb = (if TypeCode cb \<noteq> BlockTypePayloadBlock then 2 else 1)"

lemma AddExtensionBlock_total:
  assumes "length (bndl_ExtensionBlocks b) < 2 ^ 64"
  shows "\<exists>no. no \<notin> set (block_numbers b) \<and>
           (length (bndl_ExtensionBlocks b) < 2 ^ 64 - 2 \<longrightarrow>
              first_number cb \<le> no \<and> (\<forall>x. first_number cb \<le> x \<and> x < no \<longrightarrow> x \<in> set (block_numbers b))) \<and>
           AddExtensionBlock cb b = Inr (sortExtensionBlocks
             (b\<lparr>bndl_ExtensionBlocks := bndl_ExtensionBlocks b @ [cb\<lparr>cb_BlockNumber := no\<rparr>]\<rparr>))"
proof -
  obtain no where no: "next_free (Suc (length (block_numbers b))) (block_numbers b) (first_number cb) = Some no"
      "no \<notin> set (block_numbers b)"
    using next_free_enough assms unfolding block_numbers_def by (metis length_map)
  have len: "length (block_numbers b) = length (bndl_ExtensionBlocks b)" by (simp add: block_numbers_def)
  have "unat (first_number cb) \<le> 2" by (simp add: first_number_def)
  then have "first_number cb \<le> no \<and> (\<forall>x. first_number cb \<le> x \<and> x < no \<longrightarrow> x \<in> set (block_numbers b))"
    if "length (bndl_ExtensionBlocks b) < 2 ^ 64 - 2"
    using next_free_least [OF no(1)] that unfolding len by simp
  then show ?thesis using no unfolding AddExtensionBlock_def Let_def block_numbers_def [symmetric] first_number_def [symmetric]
    by (intro exI [of _ no]) simp
qed

lemma sortExtensionBlocks_frame [simp]:
  "bndl_PrimaryBlock (sortExtensionBlocks b) = bndl_PrimaryBlock b"
  "bndl_PayloadBlock (sortExtensionBlocks b) = bndl_PayloadBlock b"
  "set (bndl_ExtensionBlocks (sortExtensionBlocks b)) = set (bndl_ExtensionBlocks b)"
  "length (bndl_ExtensionBlocks (sortExtensionBlocks b)) = length (bndl_ExtensionBlocks b)"
  "distinct (block_numbers (sortExtensionBlocks b)) = distinct (block_numbers b)"
  by (simp_all add: sortExtensionBlocks_def block_numbers_def)

lemma block_numbers_append [simp]:
  "block_numbers (b\<lparr>bndl_ExtensionBlocks := xs @ ys\<rparr>) = map cb_BlockNumber xs @ map cb_BlockNumber ys"
  by (simp add: block_numbers_def)

lemma AddExtensionBlock_cases:
  assumes "AddExtensionBlock cb b = Inr b'"
  obtains no where "no \<notin> set (block_numbers b)"
    "b' = sortExtensionBlocks (b\<lparr>bndl_ExtensionBlocks := bndl_ExtensionBlocks b @ [cb\<lparr>cb_BlockNumber := no\<rparr>]\<rparr>)"
  using assms
  by (auto simp: AddExtensionBlock_def Let_def block_numbers_def simp del: next_free.simps
      dest!: next_free_Some split: option.splits)

lemma AddExtensionBlock_frame:
  assumes "AddExtensionBlock cb b = Inr b'"
  shows "bndl_PrimaryBlock b' = bndl_PrimaryBlock b" "bndl_PayloadBlock b' = bndl_PayloadBlock b"
    "length (bndl_ExtensionBlocks b') = Suc (length (bndl_ExtensionBlocks b))"
    "\<exists>no. set (bndl_ExtensionBlocks b') = insert (cb\<lparr>cb_BlockNumber := no\<rparr>) (set (bndl_ExtensionBlocks b))"
    "distinct (block_numbers b) \<Longrightarrow> distinct (block_numbers b')"
proof -
  obtain no where no: "no \<notin> set (block_numbers b)" and
    b': "b' = sortExtensionBlocks (b\<lparr>bndl_ExtensionBlocks := bndl_ExtensionBlocks b @ [cb\<lparr>cb_BlockNumber := no\<rparr>]\<rparr>)"
    using AddExtensionBlock_cases [OF assms] .
  show "bndl_PrimaryBlock b' = bndl_PrimaryBlock b" "bndl_PayloadBlock b' = bndl_PayloadBlock b"
    "length (bndl_ExtensionBlocks b') = Suc (length (bndl_ExtensionBlocks b))"
    "\<exists>no. set (bndl_ExtensionBlocks b') = insert (cb\<lparr>cb_BlockNumber := no\<rparr>) (set (bndl_ExtensionBlocks b))"
    unfolding b' by auto
  show "distinct (block_numbers b')" if "distinct (block_numbers b)"
    using no that unfolding b' by (simp flip: block_numbers_def)
qed

lemma remove_number_absent:
  "distinct (map cb_BlockNumber cbs) \<Longrightarrow> no \<notin> cb_BlockNumber ` set (remove_number no cbs)"
  by (induction cbs) auto

subsection \<open>Validity\<close>

lemma ball_image_conj: "(\<forall>j \<in> A. f j \<noteq> x \<and> P j) \<longleftrightarrow> x \<notin> f ` A \<and> (\<forall>j \<in> A. P j)"
  by auto

lemma check_blocks_Nil:
  "check_blocks b S is = [] \<longleftrightarrow>
     (\<forall>i \<in> set is. CheckContextValid b i = []) \<and>
     distinct (map (\<lambda>i. cb_BlockNumber (bndl_ExtensionBlocks b ! i)) is) \<and>
     (\<forall>i \<in> set is. cb_BlockNumber (bndl_ExtensionBlocks b ! i) \<notin> S)"
proof (induction "is" arbitrary: S)
  case (Cons i "is")
  let ?no = "\<lambda>i. cb_BlockNumber (bndl_ExtensionBlocks b ! i)"
  have "check_blocks b S (i # is) = [] \<longleftrightarrow>
      ?no i \<notin> S \<and> CheckContextValid b i = [] \<and> check_blocks b (insert (?no i) S) is = []"
    by (simp add: Let_def)
  also have "\<dots> \<longleftrightarrow> ?no i \<notin> S \<and> CheckContextValid b i = [] \<and> (\<forall>i \<in> set is. CheckContextValid b i = []) \<and>
      distinct (map ?no is) \<and> (\<forall>j \<in> set is. ?no j \<noteq> ?no i \<and> ?no j \<notin> S)"
    unfolding Cons.IH by simp
  also have "(\<forall>j \<in> set is. ?no j \<noteq> ?no i \<and> ?no j \<notin> S) \<longleftrightarrow>
      ?no i \<notin> ?no ` set is \<and> (\<forall>j \<in> set is. ?no j \<notin> S)"
    by (rule ball_image_conj)
  finally show ?case by (simp add: conj_ac)
qed simp

lemma map_nth_numbers:
  "map (\<lambda>i. cb_BlockNumber (bndl_ExtensionBlocks b ! i)) [0..<length (bndl_ExtensionBlocks b)] = block_numbers b"
  by (rule nth_equalityI) (simp_all add: block_numbers_def)

text \<open>
  What the validity check accepts: the payload block is present and valid and does not ask for
  status reports, the primary block and all extension blocks are valid on their own and in their
  context, no block number occurs twice, a zero creation time comes with a bundle age block, and the
  lifetime is not exceeded.
\<close>

lemma Bundle_CheckValid_Inr_Nil:
  "Bundle_CheckValid now b = Inr [] \<longleftrightarrow>
     (\<exists>payload. bndl_PayloadBlock b = Some payload \<and>
        CanonicalBlock_CheckValid payload = [] \<and>
        \<not> BlockControlFlags_Has (cb_BlockControlFlags payload) StatusReportBlock) \<and>
     PrimaryBlock_CheckValid (bndl_PrimaryBlock b) = [] \<and>
     (\<forall>cb \<in> set (bndl_ExtensionBlocks b). CanonicalBlock_CheckValid cb = []) \<and>
     distinct (block_numbers b) \<and>
     (\<forall>i < length (bndl_ExtensionBlocks b). CheckContextValid b i = []) \<and>
     (IsZeroTime (pb_CreationTimestamp (bndl_PrimaryBlock b)) \<longrightarrow> HasExtensionBlock b BlockTypeBundleAgeBlock) \<and>
     IsLifetimeExceeded now b = Inr False"
proof (cases "bndl_PayloadBlock b")
  case (Some payload)
  have cb: "check_blocks b {} [0..<length (bndl_ExtensionBlocks b)] = [] \<longleftrightarrow>
      (\<forall>i < length (bndl_ExtensionBlocks b). CheckContextValid b i = []) \<and> distinct (block_numbers b)"
    by (auto simp: check_blocks_Nil map_nth_numbers)
  show ?thesis
    by (cases "IsLifetimeExceeded now b") (simp_all add: Bundle_CheckValid_def Some cb conj_ac)
qed (simp add: Bundle_CheckValid_def)

text \<open>For lifetimes below 292 years the lifetime check is the mathematical one.\<close>

lemma IsLifetimeExceeded_clock:
  assumes "uint (fst (pb_CreationTimestamp (bndl_PrimaryBlock b))) < 2 ^ 62"
    "uint (pb_Lifetime (bndl_PrimaryBlock b)) < 9223372036854"
    "fst (pb_CreationTimestamp (bndl_PrimaryBlock b)) \<noteq> 0"
  shows "IsLifetimeExceeded now b = Inr
    (now > (uint (fst (pb_CreationTimestamp (bndl_PrimaryBlock b))) + 946684800000 +
            uint (pb_Lifetime (bndl_PrimaryBlock b))) * 1000000)"
  using assms
  by (simp add: IsLifetimeExceeded_def Let_def IsZeroTime_def CreationTimestamp_DtnTime_def DtnTimeEpoch_def
      DtnTime_Time_eq unixMilliseconds_small lifetime_duration_small algebra_simps)

text \<open>Without a creation time the age block decides.\<close>

lemma age_blocks:
  "map ((!) (bndl_ExtensionBlocks b)) (filter (\<lambda>i. TypeCode (bndl_ExtensionBlocks b ! i) = t) [0..<length (bndl_ExtensionBlocks b)]) =
   filter (\<lambda>cb. TypeCode cb = t) (bndl_ExtensionBlocks b)"
  using filter_map [of "\<lambda>cb. TypeCode cb = t" "(!) (bndl_ExtensionBlocks b)" "[0..<length (bndl_ExtensionBlocks b)]"]
  by (simp add: map_nth comp_def)

lemma ExtensionBlockByType_filter:
  "length (filter (\<lambda>cb. TypeCode cb = t) (bndl_ExtensionBlocks b)) \<noteq> 1 \<Longrightarrow> \<exists>e. ExtensionBlockByType b t = Inl e"
  "filter (\<lambda>cb. TypeCode cb = t) (bndl_ExtensionBlocks b) = [cb] \<Longrightarrow>
     \<exists>i. ExtensionBlockByType b t = Inr i \<and> bndl_ExtensionBlocks b ! i = cb"
  unfolding age_blocks [symmetric]
  by (auto simp: ExtensionBlockByType_def ExtensionBlocksByType_def Let_def map_eq_Cons_conv)

lemma IsLifetimeExceeded_age:
  assumes "fst (pb_CreationTimestamp (bndl_PrimaryBlock b)) = 0"
  shows "length (filter (\<lambda>cb. TypeCode cb = BlockTypeBundleAgeBlock) (bndl_ExtensionBlocks b)) \<noteq> 1 \<Longrightarrow> IsLifetimeExceeded now b = Inr True"
    "map cb_Value (filter (\<lambda>cb. TypeCode cb = BlockTypeBundleAgeBlock) (bndl_ExtensionBlocks b)) = [BundleAgeBlock age] \<Longrightarrow>
      IsLifetimeExceeded now b = Inr (age > pb_Lifetime (bndl_PrimaryBlock b))"
proof -
  have z: "IsZeroTime (pb_CreationTimestamp (bndl_PrimaryBlock b))"
    using assms by (simp add: IsZeroTime_def CreationTimestamp_DtnTime_def DtnTimeEpoch_def)
  show "IsLifetimeExceeded now b = Inr True"
    if "length (filter (\<lambda>cb. TypeCode cb = BlockTypeBundleAgeBlock) (bndl_ExtensionBlocks b)) \<noteq> 1"
    using ExtensionBlockByType_filter(1) [OF that] z by (auto simp: IsLifetimeExceeded_def Let_def)
  assume "map cb_Value (filter (\<lambda>cb. TypeCode cb = BlockTypeBundleAgeBlock) (bndl_ExtensionBlocks b)) = [BundleAgeBlock age]"
  then obtain cb where "filter (\<lambda>cb. TypeCode cb = BlockTypeBundleAgeBlock) (bndl_ExtensionBlocks b) = [cb]" "cb_Value cb = BundleAgeBlock age"
    by (auto simp: map_eq_Cons_conv)
  then show "IsLifetimeExceeded now b = Inr (age > pb_Lifetime (bndl_PrimaryBlock b))"
    using ExtensionBlockByType_filter(2) z by (fastforce simp: IsLifetimeExceeded_def Let_def)
qed

subsection \<open>CBOR round trip\<close>

text \<open>
  A bundle the decoder can rebuild: every block is well-formed, the payload block is one, and no
  extension block has the payload's type code.
\<close>

definition wf_bundle :: "ExtensionBlockManager \<Rightarrow> Bundle \<Rightarrow> bool" where
  "wf_bundle ebm b \<longleftrightarrow>
     wf_primary (bndl_PrimaryBlock b) \<and>
     (\<forall>cb \<in> set (bndl_ExtensionBlocks b). wf_canonical ebm cb \<and> TypeCode cb \<noteq> BlockTypePayloadBlock) \<and>
     (\<exists>payload. bndl_PayloadBlock b = Some payload \<and> wf_canonical ebm payload \<and>
        TypeCode payload = BlockTypePayloadBlock)"

text \<open>A block found under the code of a registered type has that type, so the validity check never panics.\<close>

lemma wf_block_kind:
  assumes "wf_bundle ebm b" "ExtensionBlockByType b t = Inr i" "ebm t = Some k"
  shows "kind_of (cb_Value (bndl_ExtensionBlocks b ! i)) = k"
proof -
  let ?cb = "bndl_ExtensionBlocks b ! i"
  have i: "i < length (bndl_ExtensionBlocks b)" "TypeCode ?cb = t" using ExtensionBlockByType_Inr [OF assms(2)] by simp_all
  then have "wf_ext ebm (cb_Value ?cb)" using assms(1) nth_mem [OF i(1)] unfolding wf_bundle_def wf_canonical_def by blast
  then show ?thesis using i(2) assms(3) by (auto simp: wf_ext_def TypeCode_def split: if_splits)
qed

lemma wf_CheckValid_total:
  assumes "wf_bundle GetExtensionBlockManager b"
  shows "\<exists>errs. Bundle_CheckValid now b = Inr errs"
proof -
  have "\<exists>x. IsLifetimeExceeded now b = Inr x"
  proof (cases "ExtensionBlockByType b BlockTypeBundleAgeBlock")
    case (Inr i)
    then have "kind_of (cb_Value (bndl_ExtensionBlocks b ! i)) = KBundleAge" using wf_block_kind [OF assms] by simp
    then show ?thesis using Inr by (cases "cb_Value (bndl_ExtensionBlocks b ! i)") (simp_all add: IsLifetimeExceeded_def Let_def)
  qed (auto simp: IsLifetimeExceeded_def Let_def)
  then show ?thesis using assms by (auto simp: Bundle_CheckValid_def wf_bundle_def)
qed

text \<open>Serialising a well-formed bundle leaves it well-formed: it fills in checksums where there are some.\<close>

lemma marshal_block_wf:
  assumes "CanonicalBlock_MarshalCbor L cb = Inr (bs, cb')" "wf_canonical ebm cb"
  shows "wf_canonical ebm cb' \<and> TypeCode cb' = TypeCode cb"
  using assms by (auto simp: CanonicalBlock_MarshalCbor_def bindR_Inr_iff wf_canonical_def CanonicalBlock_HasCRC_def TypeCode_def
      split: if_splits)

lemma marshal_blocks_wf:
  assumes "marshal_blocks L cbs = Inr (bs, cbs')" "\<forall>cb \<in> set cbs. wf_canonical ebm cb \<and> TypeCode cb \<noteq> t"
  shows "\<forall>cb \<in> set cbs'. wf_canonical ebm cb \<and> TypeCode cb \<noteq> t"
  using assms
proof (induction cbs arbitrary: bs cbs')
  case (Cons cb cbs)
  then obtain b1 cb1 bs1 cbs1 where "CanonicalBlock_MarshalCbor L cb = Inr (b1, cb1)" "marshal_blocks L cbs = Inr (bs1, cbs1)"
    "cbs' = cb1 # cbs1" by (auto simp: bindR_Inr_iff mapErr_def split: sum.splits)
  then show ?case using Cons.IH [of bs1 cbs1] Cons.prems(2) marshal_block_wf by fastforce
qed simp

lemma marshal_wf:
  assumes "Bundle_MarshalCbor L b = Inr (bs, b')" "wf_bundle ebm b"
  shows "wf_bundle ebm b'"
proof -
  obtain payload where pl: "bndl_PayloadBlock b = Some payload" using assms(2) by (auto simp: wf_bundle_def)
  obtain p pb e ebs d payload' where m: "PrimaryBlock_MarshalCbor L (bndl_PrimaryBlock b) = Inr (p, pb)"
    "marshal_blocks L (bndl_ExtensionBlocks b) = Inr (e, ebs)"
    "CanonicalBlock_MarshalCbor L payload = Inr (d, payload')"
    "b' = \<lparr>bndl_PrimaryBlock = pb, bndl_ExtensionBlocks = ebs, bndl_PayloadBlock = Some payload'\<rparr>"
    using assms(1) by (auto simp: Bundle_MarshalCbor_def bindR_Inr_iff pl)
  have "pb = bndl_PrimaryBlock b \<or> PrimaryBlock_HasCRC (bndl_PrimaryBlock b) \<and> (\<exists>c. pb = (bndl_PrimaryBlock b)\<lparr>pb_CRC := c\<rparr>)"
    using m(1) by (auto simp: PrimaryBlock_MarshalCbor_def bindR_Inr_iff split: if_splits)
  then have "wf_primary pb"
    using assms(2) unfolding wf_bundle_def
    by (elim disjE conjE exE)
       (simp_all add: wf_primary_def PrimaryBlock_HasFragmentation_def PrimaryBlock_HasCRC_def)
  moreover have "\<forall>cb \<in> set ebs. wf_canonical ebm cb \<and> TypeCode cb \<noteq> BlockTypePayloadBlock"
    using marshal_blocks_wf [OF m(2)] assms(2) unfolding wf_bundle_def by blast
  moreover have "wf_canonical ebm payload" "TypeCode payload = BlockTypePayloadBlock"
    using assms(2) pl unfolding wf_bundle_def by simp_all
  ultimately show ?thesis using marshal_block_wf [OF m(3)] by (simp add: wf_bundle_def m(4))
qed

text \<open>Equality up to the stored checksum values.\<close>

definition strip_crc :: "Bundle \<Rightarrow> Bundle" where
  "strip_crc b =
     \<lparr>bndl_PrimaryBlock = (bndl_PrimaryBlock b)\<lparr>pb_CRC := []\<rparr>,
      bndl_ExtensionBlocks = map (cb_CRC_update (\<lambda>_. [])) (bndl_ExtensionBlocks b),
      bndl_PayloadBlock = map_option (cb_CRC_update (\<lambda>_. [])) (bndl_PayloadBlock b)\<rparr>"

lemma TypeCode_CRC [simp]: "TypeCode (cb\<lparr>cb_CRC := c\<rparr>) = TypeCode cb"
  by (simp add: TypeCode_def)

text \<open>The validity check does not look at checksums.\<close>

lemma CRC_update_simps [simp]:
  "cb_BlockNumber (cb_CRC_update f cb) = cb_BlockNumber cb"
  "TypeCode (cb_CRC_update f cb) = TypeCode cb"
  "CanonicalBlock_CheckValid (cb_CRC_update f cb) = CanonicalBlock_CheckValid cb"
  "PrimaryBlock_CheckValid (pb_CRC_update g pb) = PrimaryBlock_CheckValid pb"
  by (simp_all add: TypeCode_def CanonicalBlock_CheckValid_def PrimaryBlock_CheckValid_def)

lemma strip_crc_simps [simp]:
  "length (bndl_ExtensionBlocks (strip_crc b)) = length (bndl_ExtensionBlocks b)"
  "i < length (bndl_ExtensionBlocks b) \<Longrightarrow> bndl_ExtensionBlocks (strip_crc b) ! i = (bndl_ExtensionBlocks b ! i)\<lparr>cb_CRC := []\<rparr>"
  "bndl_PrimaryBlock (strip_crc b) = (bndl_PrimaryBlock b)\<lparr>pb_CRC := []\<rparr>"
  "bndl_PayloadBlock (strip_crc b) = map_option (cb_CRC_update (\<lambda>_. [])) (bndl_PayloadBlock b)"
  by (simp_all add: strip_crc_def)

text \<open>Bundles that differ in checksums and checksum types only.\<close>

definition same_block :: "CanonicalBlock \<Rightarrow> CanonicalBlock \<Rightarrow> bool" where
  "same_block cb cb' \<longleftrightarrow> cb_BlockNumber cb' = cb_BlockNumber cb \<and>
     cb_BlockControlFlags cb' = cb_BlockControlFlags cb \<and> cb_Value cb' = cb_Value cb"

definition same_content :: "Bundle \<Rightarrow> Bundle \<Rightarrow> bool" where
  "same_content b b' \<longleftrightarrow>
     (bndl_PrimaryBlock b')\<lparr>pb_CRC := [], pb_CRCType := 0\<rparr> = (bndl_PrimaryBlock b)\<lparr>pb_CRC := [], pb_CRCType := 0\<rparr> \<and>
     list_all2 same_block (bndl_ExtensionBlocks b) (bndl_ExtensionBlocks b') \<and>
     rel_option same_block (bndl_PayloadBlock b) (bndl_PayloadBlock b')"

lemma same_block_simps:
  assumes "same_block cb cb'"
  shows "cb_BlockNumber cb' = cb_BlockNumber cb" "cb_Value cb' = cb_Value cb" "TypeCode cb' = TypeCode cb"
    "cb_BlockControlFlags cb' = cb_BlockControlFlags cb" "CanonicalBlock_CheckValid cb' = CanonicalBlock_CheckValid cb"
  using assms by (simp_all add: same_block_def TypeCode_def CanonicalBlock_CheckValid_def)

lemma same_content_blocks:
  assumes "same_content b b'"
  shows "length (bndl_ExtensionBlocks b') = length (bndl_ExtensionBlocks b)"
    "i < length (bndl_ExtensionBlocks b) \<Longrightarrow> same_block (bndl_ExtensionBlocks b ! i) (bndl_ExtensionBlocks b' ! i)"
  using assms by (auto simp: same_content_def list_all2_conv_all_nth)

lemma same_content_primary:
  assumes "same_content b b'"
  shows "pb_CreationTimestamp (bndl_PrimaryBlock b') = pb_CreationTimestamp (bndl_PrimaryBlock b)"
    "pb_Lifetime (bndl_PrimaryBlock b') = pb_Lifetime (bndl_PrimaryBlock b)"
    "PrimaryBlock_CheckValid (bndl_PrimaryBlock b') = PrimaryBlock_CheckValid (bndl_PrimaryBlock b)"
    "Bundle_ID b' = Bundle_ID b"
proof -
  let ?p = "bndl_PrimaryBlock b" and ?p' = "bndl_PrimaryBlock b'"
  have "\<exists>c t. ?p' = ?p\<lparr>pb_CRC := c, pb_CRCType := t\<rparr>"
    using assms unfolding same_content_def
    by (intro exI [of _ "pb_CRC ?p'"] exI [of _ "pb_CRCType ?p'"]) (cases ?p; cases ?p'; auto)
  then obtain c t where "?p' = ?p\<lparr>pb_CRC := c, pb_CRCType := t\<rparr>" by blast
  then show "pb_CreationTimestamp ?p' = pb_CreationTimestamp ?p" "pb_Lifetime ?p' = pb_Lifetime ?p"
    "PrimaryBlock_CheckValid ?p' = PrimaryBlock_CheckValid ?p" "Bundle_ID b' = Bundle_ID b"
    by (simp_all add: PrimaryBlock_CheckValid_def Bundle_ID_def)
qed

lemma ExtensionBlockByType_same:
  assumes "same_content b b'"
  shows "ExtensionBlockByType b' t = ExtensionBlockByType b t" "HasExtensionBlock b' t = HasExtensionBlock b t"
proof -
  have "filter (\<lambda>i. TypeCode (bndl_ExtensionBlocks b' ! i) = t) [0..<length (bndl_ExtensionBlocks b)] =
      filter (\<lambda>i. TypeCode (bndl_ExtensionBlocks b ! i) = t) [0..<length (bndl_ExtensionBlocks b)]"
    using same_block_simps(3) [OF same_content_blocks(2) [OF assms]] by (intro filter_cong) auto
  then have "ExtensionBlocksByType b' t = ExtensionBlocksByType b t"
    by (simp add: ExtensionBlocksByType_def same_content_blocks(1) [OF assms])
  then show "ExtensionBlockByType b' t = ExtensionBlockByType b t" "HasExtensionBlock b' t = HasExtensionBlock b t"
    by (simp_all add: ExtensionBlockByType_def HasExtensionBlock_def)
qed

lemma IsLifetimeExceeded_same:
  assumes "same_content b b'"
  shows "IsLifetimeExceeded now b' = IsLifetimeExceeded now b"
proof (cases "ExtensionBlockByType b BlockTypeBundleAgeBlock")
  case (Inr i)
  then show ?thesis
    using same_block_simps(2) [OF same_content_blocks(2) [OF assms ExtensionBlockByType_Inr(1) [OF Inr]]]
    by (simp add: IsLifetimeExceeded_def ExtensionBlockByType_same [OF assms] same_content_primary [OF assms] Let_def
        split: ExtensionBlock.split)
qed (simp add: IsLifetimeExceeded_def ExtensionBlockByType_same [OF assms] same_content_primary [OF assms] Let_def)

lemma check_blocks_same:
  assumes "same_content b b'" "\<forall>i \<in> set is. i < length (bndl_ExtensionBlocks b)"
  shows "check_blocks b' S is = check_blocks b S is"
  using assms(2)
proof (induction "is" arbitrary: S)
  case (Cons i "is")
  note sb = same_block_simps [OF same_content_blocks(2) [OF assms(1), of i]]
  have "CheckContextValid b' i = CheckContextValid b i"
    using Cons.prems sb by (simp add: CheckContextValid_def unique_context_def ExtensionBlockByType_same [OF assms(1)]
        split: ExtensionBlock.split)
  then show ?case using Cons sb by (simp add: Let_def)
qed simp

lemma Bundle_CheckValid_same:
  assumes "same_content b b'"
  shows "Bundle_CheckValid now b' = Bundle_CheckValid now b"
proof -
  have "map CanonicalBlock_CheckValid (bndl_ExtensionBlocks b') = map CanonicalBlock_CheckValid (bndl_ExtensionBlocks b)"
    using same_block_simps(5) [OF same_content_blocks(2) [OF assms]] same_content_blocks(1) [OF assms]
    by (intro nth_equalityI) auto
  moreover have "rel_option same_block (bndl_PayloadBlock b) (bndl_PayloadBlock b')"
    using assms by (simp add: same_content_def)
  ultimately show ?thesis
    by (cases "bndl_PayloadBlock b"; cases "bndl_PayloadBlock b'")
       (simp_all add: Bundle_CheckValid_def IsLifetimeExceeded_same [OF assms] check_blocks_same [OF assms]
         ExtensionBlockByType_same [OF assms] same_content_primary [OF assms] same_content_blocks(1) [OF assms] same_block_simps)
qed

lemma same_content_strip: "same_content b (strip_crc b)"
  by (auto simp: same_content_def strip_crc_def same_block_def list_all2_conv_all_nth option.rel_map
      intro!: option.rel_refl)

lemmas ExtensionBlockByType_strip = ExtensionBlockByType_same [OF same_content_strip]
lemmas Bundle_CheckValid_strip = Bundle_CheckValid_same [OF same_content_strip]

lemma same_content_SetCRCType: "same_content b (Bundle_SetCRCType L c b)"
proof -
  have "(PrimaryBlock_SetCRCType L c p)\<lparr>pb_CRC := [], pb_CRCType := 0\<rparr> = p\<lparr>pb_CRC := [], pb_CRCType := 0\<rparr>" for p
    unfolding PrimaryBlock_SetCRCType_def by (subst PrimaryBlock_calculateCRC_frame) simp
  then show ?thesis
    by (auto simp: same_content_def Bundle_SetCRCType_def CanonicalBlock_SetCRCType_def same_block_def
        list_all2_conv_all_nth option.rel_map intro!: option.rel_refl)
qed

lemma Bundle_CheckValid_crc: "strip_crc b' = strip_crc b \<Longrightarrow> Bundle_CheckValid now b' = Bundle_CheckValid now b"
  by (metis Bundle_CheckValid_strip)

context cboring_lib
begin

lemma unmarshal_blocks_enough:
  "length r < n \<Longrightarrow> unmarshal_blocks n L ebm r ebs payload = unmarshal_blocks (Suc (length r)) L ebm r ebs payload \<and>
     unmarshal_blocks n L ebm r ebs payload \<noteq> None"
proof (induction n arbitrary: r ebs payload rule: less_induct)
  case (less n)
  obtain m where n: "n = Suc m" using less.prems by (cases n) auto
  show ?case
  proof (cases "CanonicalBlock_UnmarshalCbor L ebm r")
    case (Inl e)
    then show ?thesis by (simp add: n)
  next
    case (Inr x)
    obtain cb r' where x: "x = (cb, r')" by (cases x)
    then have lt: "length r' < length r" using CanonicalBlock_progress Inr by blast
    have IH: "unmarshal_blocks k L ebm r' e p = unmarshal_blocks (Suc (length r')) L ebm r' e p \<and>
        unmarshal_blocks k L ebm r' e p \<noteq> None" if "length r' < k" "k < n" for k e p
      using less.IH [OF that(2,1)] .
    have "length r' < m" "m < n" using lt less.prems n by auto
    moreover have "length r < n" by (fact less.prems)
    moreover have "unmarshal_blocks (Suc k) L ebm r ebs payload =
        (if TypeCode cb = BlockTypePayloadBlock then unmarshal_blocks k L ebm r' ebs (Some cb)
         else unmarshal_blocks k L ebm r' (ebs @ [cb]) payload)" for k
      by (simp add: Inr x)
    ultimately show ?thesis using IH lt unfolding n by (metis (no_types, lifting) n)
  qed
qed

lemma marshal_blocks_read:
  assumes "\<forall>cb \<in> set cbs. wf_canonical ebm cb \<and> TypeCode cb \<noteq> BlockTypePayloadBlock"
  shows "\<exists>bs cbs'. marshal_blocks L cbs = Inr (bs, cbs') \<and>
           map (cb_CRC_update (\<lambda>_. [])) cbs' = map (cb_CRC_update (\<lambda>_. [])) cbs \<and>
           (\<forall>n r ebs p. unmarshal_blocks (length cbs + n) L ebm (bs @ r) ebs p =
                        unmarshal_blocks n L ebm r (ebs @ cbs') p)"
  using assms
proof (induction cbs)
  case Nil
  then show ?case by simp
next
  case (Cons cb cbs)
  obtain bs crc where b: "CanonicalBlock_MarshalCbor L cb = Inr (bs, cb\<lparr>cb_CRC := crc\<rparr>)"
    "\<And>r. CanonicalBlock_UnmarshalCbor L ebm (bs @ r) = Inr (cb\<lparr>cb_CRC := crc\<rparr>, r)"
    using CanonicalBlock_roundtrip Cons.prems by (meson list.set_intros(1))
  obtain bss cbs' where *: "marshal_blocks L cbs = Inr (bss, cbs')"
    "map (cb_CRC_update (\<lambda>_. [])) cbs' = map (cb_CRC_update (\<lambda>_. [])) cbs"
    "\<And>n r ebs p. unmarshal_blocks (length cbs + n) L ebm (bss @ r) ebs p = unmarshal_blocks n L ebm r (ebs @ cbs') p"
    using Cons by (meson list.set_intros(2))
  show ?case
    using b * Cons.prems by (intro exI [of _ "bs @ bss"] exI [of _ "cb\<lparr>cb_CRC := crc\<rparr> # cbs'"]) simp
qed

lemma marshal_blocks_length:
  assumes "\<forall>cb \<in> set cbs. wf_canonical ebm cb" "marshal_blocks L cbs = Inr (bs, cbs')"
  shows "length cbs \<le> length bs"
  using assms
proof (induction cbs arbitrary: bs cbs')
  case (Cons cb cbs)
  obtain b cb' bs1 cbs1 where m: "CanonicalBlock_MarshalCbor L cb = Inr (b, cb')" "marshal_blocks L cbs = Inr (bs1, cbs1)" "bs = b @ bs1"
    using Cons.prems(2) by (auto simp: bindR_Inr_iff)
  obtain bs2 crc where "CanonicalBlock_MarshalCbor L cb = Inr (bs2, cb\<lparr>cb_CRC := crc\<rparr>)"
    "CanonicalBlock_UnmarshalCbor L ebm (bs2 @ []) = Inr (cb\<lparr>cb_CRC := crc\<rparr>, [])"
    using CanonicalBlock_roundtrip [of ebm cb] Cons.prems(1) by (metis list.set_intros(1))
  then have "Suc 0 \<le> length b" using m(1) CanonicalBlock_progress by (metis Suc_leI append_Nil2 list.size(3) sum.inject(2) prod.inject)
  moreover have "length cbs \<le> length bs1" using Cons.IH [OF _ m(2)] Cons.prems(1) by simp
  ultimately show ?case unfolding m(3) length_append list.size by linarith
qed simp

lemma unmarshal_break: "CanonicalBlock_UnmarshalCbor L ebm (BreakCode L # r) = Inl FlagBreakCode"
  by (simp add: CanonicalBlock_UnmarshalCbor_def read_break)

lemma ParseBundle_no_payload:
  assumes "wf_primary pb" "PrimaryBlock_MarshalCbor L pb = Inr (p, pb')"
  shows "ParseBundle L ebm now ([IndefiniteArray L] @ p @ [BreakCode L]) = Inl nil_value"
proof -
  obtain pb2 where "PrimaryBlock_UnmarshalCbor L (p @ [BreakCode L]) = Inr (pb2, [BreakCode L])"
    using PrimaryBlock_roundtrip [OF assms(1)] assms(2) by auto
  then show ?thesis by (simp add: ParseBundle_def cbor unmarshal_break Bundle_CheckValid_def)
qed

lemma Bundle_roundtrip:
  assumes wf: "wf_bundle ebm b"
  shows "\<exists>bs b'. Bundle_MarshalCbor L b = Inr (bs, b') \<and> strip_crc b' = strip_crc b \<and>
           ParseBundle L ebm now bs = bindR (Bundle_CheckValid now b') (\<lambda>errs. Inr (b', errs))"
proof -
  obtain payload where pl: "bndl_PayloadBlock b = Some payload" "wf_canonical ebm payload"
    "TypeCode payload = BlockTypePayloadBlock" using wf by (auto simp: wf_bundle_def)
  obtain p pcrc where p: "PrimaryBlock_MarshalCbor L (bndl_PrimaryBlock b) = Inr (p, (bndl_PrimaryBlock b)\<lparr>pb_CRC := pcrc\<rparr>)"
    "\<And>r. PrimaryBlock_UnmarshalCbor L (p @ r) = Inr ((bndl_PrimaryBlock b)\<lparr>pb_CRC := pcrc\<rparr>, r)"
    using PrimaryBlock_roundtrip wf unfolding wf_bundle_def by meson
  obtain e ebs where e: "marshal_blocks L (bndl_ExtensionBlocks b) = Inr (e, ebs)"
    "map (cb_CRC_update (\<lambda>_. [])) ebs = map (cb_CRC_update (\<lambda>_. [])) (bndl_ExtensionBlocks b)"
    "\<And>n r x y. unmarshal_blocks (length (bndl_ExtensionBlocks b) + n) L ebm (e @ r) x y =
       unmarshal_blocks n L ebm r (x @ ebs) y"
    using marshal_blocks_read wf unfolding wf_bundle_def by meson
  obtain d dcrc where d: "CanonicalBlock_MarshalCbor L payload = Inr (d, payload\<lparr>cb_CRC := dcrc\<rparr>)"
    "\<And>r. CanonicalBlock_UnmarshalCbor L ebm (d @ r) = Inr (payload\<lparr>cb_CRC := dcrc\<rparr>, r)"
    using CanonicalBlock_roundtrip pl(2) by meson
  let ?r = "e @ d @ [BreakCode L]"
  let ?n = "length (bndl_ExtensionBlocks b) + Suc (Suc (length ?r))"
  have "unmarshal_blocks ?n L ebm ?r [] None = Some (Inr (ebs, Some (payload\<lparr>cb_CRC := dcrc\<rparr>)))"
    by (simp only: e(3)) (simp add: d(2) pl(3) unmarshal_break)
  moreover have "unmarshal_blocks ?n L ebm ?r [] None = unmarshal_blocks (Suc (length ?r)) L ebm ?r [] None"
    using unmarshal_blocks_enough [of ?r ?n] by simp
  ultimately have loop: "unmarshal_blocks (Suc (length ?r)) L ebm ?r [] None =
      Some (Inr (ebs, Some (payload\<lparr>cb_CRC := dcrc\<rparr>)))" by simp
  let ?b' = "\<lparr>bndl_PrimaryBlock = (bndl_PrimaryBlock b)\<lparr>pb_CRC := pcrc\<rparr>, bndl_ExtensionBlocks = ebs,
      bndl_PayloadBlock = Some (payload\<lparr>cb_CRC := dcrc\<rparr>)\<rparr>"
  have "Bundle_MarshalCbor L b = Inr ([IndefiniteArray L] @ p @ ?r, ?b')"
    by (simp add: Bundle_MarshalCbor_def p e(1) pl(1) d)
  moreover have "ParseBundle L ebm now ([IndefiniteArray L] @ p @ ?r) =
      bindR (Bundle_CheckValid now ?b') (\<lambda>errs. Inr (?b', errs))"
    unfolding ParseBundle_def by (simp only: append.simps cbor bindR_simps p(2) mapErr_simps prod.case loop Let_def option.case)
  ultimately show ?thesis using e(2) pl(1) by (intro exI conjI) (auto simp: strip_crc_def)
qed

end

section \<open>An example bundle\<close>

definition example_primary :: PrimaryBlock where
  "example_primary =
     \<lparr>pb_Version = 7, pb_BundleControlFlags = 0, pb_CRCType = CRCNo,
      pb_Destination = Some (Ipn \<lparr>Node = 2, Service = 1\<rparr>),
      pb_SourceNode = Some (Ipn \<lparr>Node = 1, Service = 1\<rparr>),
      pb_ReportTo = Some (Ipn \<lparr>Node = 1, Service = 1\<rparr>),
      pb_CreationTimestamp = (1000, 0), pb_Lifetime = 3600000,
      pb_FragmentOffset = 0, pb_TotalDataLength = 0, pb_CRC = []\<rparr>"

definition example_bundle :: Bundle where
  "example_bundle =
     \<lparr>bndl_PrimaryBlock = example_primary,
      bndl_ExtensionBlocks = [NewCanonicalBlock 2 1 (HopCountBlock 5 1)],
      bndl_PayloadBlock = Some (NewCanonicalBlock 1 0 (PayloadBlock [1, 2, 3, 4, 5, 6, 7, 8]))\<rparr>"

lemma example_bundle_valid: "Bundle_CheckValid 0 example_bundle = Inr []"
  by code_simp

lemma example_bundle_wf: "wf_bundle GetExtensionBlockManager example_bundle"
  by (simp add: wf_bundle_def wf_primary_def wf_canonical_def wf_ext_def example_bundle_def example_primary_def
      default_manager NewCanonicalBlock_def TypeCode_def block_type_defs known_crc_def crc_type_defs dtnVersion_def
      CanonicalBlock_HasCRC_def PrimaryBlock_HasFragmentation_def PrimaryBlock_HasCRC_def Has_bit_simps
      wf_eid_def wf_ipn_def short_eid_def)

section \<open>Correctness\<close>

lemma ParseBundle_encode:
  assumes "cboring_lib L" "wf_bundle ebm b"
  shows "\<exists>bs b'. Bundle_MarshalCbor L b = Inr (bs, b') \<and> strip_crc b' = strip_crc b \<and>
    ParseBundle L ebm now bs = bindR (Bundle_CheckValid now b) (\<lambda>errs. Inr (b', errs))"
  using cboring_lib.Bundle_roundtrip [OF assms] by (metis Bundle_CheckValid_crc)

text \<open>
  C1. Decoding inverts encoding: a well-formed bundle is serialised without error, serialising only
  fills in checksums, and parsing the bytes gives back exactly the serialised bundle together with
  the verdict of its validity check.
\<close>

theorem ParseBundle_MarshalCbor:
  assumes "cboring_lib L" "wf_bundle ebm b"
  shows "\<exists>bs b'. Bundle_MarshalCbor L b = Inr (bs, b') \<and> strip_crc b' = strip_crc b \<and>
    ParseBundle L ebm now bs = bindR (Bundle_CheckValid now b) (\<lambda>errs. Inr (b', errs))"
  using ParseBundle_encode [OF assms] .

theorem ParseBundle_MarshalCbor_witness:
  "\<exists>bs b'. Bundle_MarshalCbor rfc8949 example_bundle = Inr (bs, b') \<and> strip_crc b' = strip_crc example_bundle \<and>
    ParseBundle rfc8949 GetExtensionBlockManager 0 bs = Inr (b', [])"
  using ParseBundle_MarshalCbor [OF rfc.cboring_lib_axioms example_bundle_wf, of 0] example_bundle_valid by simp

text \<open>
  The decoding loop ends on every input: the number of rounds is bounded by the number of bytes,
  because every block that is read consumes some.
\<close>

lemma unmarshal_blocks_terminates:
  assumes "cboring_lib L" "length r < n"
  shows "\<exists>res. unmarshal_blocks n L ebm r ebs payload = Some res \<and>
    unmarshal_blocks (Suc (length r)) L ebm r ebs payload = Some res"
  using cboring_lib.unmarshal_blocks_enough [OF assms] by fastforce

text \<open>
  A bundle without a payload block crashes the decoder: the bytes of any primary block followed
  by the end of the array make the validity check call a method of a nil interface value.
\<close>

lemma ParseBundle_without_payload_panics:
  assumes "cboring_lib L" "wf_primary pb" "PrimaryBlock_MarshalCbor L pb = Inr (p, pb')"
  shows "ParseBundle L ebm now ([IndefiniteArray L] @ p @ [BreakCode L]) = Inl nil_value \<and> is_panic nil_value"
  using cboring_lib.ParseBundle_no_payload [OF assms] by (simp add: nil_value_def)

text \<open>
  C32. Adding a block succeeds for every bundle of fewer than \<open>2^64 - 2\<close> blocks and gives the block the least
  number that no extension block has, counting from 2, or from 1 if it is of the payload's type; the other blocks stay as
  they are. So the numbers of the extension blocks stay distinct, and where the payload block has its number 1 and the
  new block is not of the payload's type, the numbers of all blocks, the payload block included, stay distinct; a block of
  the payload's type can get the number of the payload block.
\<close>

theorem AddExtensionBlock_correct:
  assumes "length (bndl_ExtensionBlocks b) < 2 ^ 64 - 2"
  shows "\<exists>b' no. AddExtensionBlock cb b = Inr b' \<and> no \<notin> set (block_numbers b) \<and>
    (if TypeCode cb = BlockTypePayloadBlock then 1 else 2) \<le> no \<and>
    (\<forall>x. (if TypeCode cb = BlockTypePayloadBlock then 1 else 2) \<le> x \<and> x < no \<longrightarrow> x \<in> set (block_numbers b)) \<and>
    (distinct (block_numbers b) \<longrightarrow> distinct (block_numbers b')) \<and>
    (TypeCode cb \<noteq> BlockTypePayloadBlock \<and> distinct (all_block_numbers b) \<and>
       (\<forall>p. bndl_PayloadBlock b = Some p \<longrightarrow> cb_BlockNumber p = 1) \<longrightarrow> distinct (all_block_numbers b')) \<and>
    set (bndl_ExtensionBlocks b') = insert (cb\<lparr>cb_BlockNumber := no\<rparr>) (set (bndl_ExtensionBlocks b)) \<and>
    length (bndl_ExtensionBlocks b') = Suc (length (bndl_ExtensionBlocks b)) \<and>
    bndl_PrimaryBlock b' = bndl_PrimaryBlock b \<and> bndl_PayloadBlock b' = bndl_PayloadBlock b"
proof -
  have "length (bndl_ExtensionBlocks b) < 2 ^ 64" using assms by simp
  then obtain no where no: "no \<notin> set (block_numbers b)"
      "first_number cb \<le> no \<and> (\<forall>x. first_number cb \<le> x \<and> x < no \<longrightarrow> x \<in> set (block_numbers b))"
    and a: "AddExtensionBlock cb b = Inr (sortExtensionBlocks
      (b\<lparr>bndl_ExtensionBlocks := bndl_ExtensionBlocks b @ [cb\<lparr>cb_BlockNumber := no\<rparr>]\<rparr>))" (is "_ = Inr ?b'")
    using AddExtensionBlock_total [of b cb] assms by blast
  have start: "first_number cb = (if TypeCode cb = BlockTypePayloadBlock then 1 else 2)" by (simp add: first_number_def)
  have all: "distinct (all_block_numbers ?b')"
    if "TypeCode cb \<noteq> BlockTypePayloadBlock" "distinct (all_block_numbers b)" "\<forall>p. bndl_PayloadBlock b = Some p \<longrightarrow> cb_BlockNumber p = 1"
  proof -
    have "no \<noteq> 1" using no(2) that(1) by (auto simp: first_number_def word_le_nat_alt)
    moreover have "set (block_numbers ?b') = insert no (set (block_numbers b))" by (auto simp: block_numbers_def)
    moreover have "distinct (block_numbers b)" using that(2) by (simp add: all_block_numbers_def)
    then have "distinct (block_numbers ?b')" by (rule AddExtensionBlock_frame(5) [OF a])
    ultimately show ?thesis using that(2,3) by (auto simp: all_block_numbers_def split: option.splits)
  qed
  show ?thesis using a no AddExtensionBlock_frame [OF a] all unfolding start by (intro exI [of _ ?b'] exI [of _ no]) simp
qed

theorem AddExtensionBlock_correct_witness:
  "\<exists>b' no. AddExtensionBlock (NewCanonicalBlock 0 0 (BundleAgeBlock 7)) example_bundle = Inr b' \<and> (2 :: u64) \<le> no \<and>
     distinct (all_block_numbers b') \<and> length (all_block_numbers b') = 3"
proof -
  have *: "TypeCode (NewCanonicalBlock 0 0 (BundleAgeBlock 7)) \<noteq> BlockTypePayloadBlock" "distinct (all_block_numbers example_bundle)"
    "length (bndl_ExtensionBlocks example_bundle) < 2 ^ 64 - 2" "bndl_PayloadBlock example_bundle = Some p \<longrightarrow> cb_BlockNumber p = 1" for p
    by (auto simp: example_bundle_def all_block_numbers_def block_numbers_def TypeCode_def NewCanonicalBlock_def block_type_defs)
  let ?P = "\<lambda>b' no. AddExtensionBlock (NewCanonicalBlock 0 0 (BundleAgeBlock 7)) example_bundle = Inr b' \<and> (2 :: u64) \<le> no \<and> distinct (all_block_numbers b')"
  have "\<exists>b' no. ?P b' no"
    by (rule ex_forward [OF AddExtensionBlock_correct [OF *(3), of "NewCanonicalBlock 0 0 (BundleAgeBlock 7)"]], erule ex_forward)
      (simp add: *(1,2,4))
  then obtain b' no where b': "AddExtensionBlock (NewCanonicalBlock 0 0 (BundleAgeBlock 7)) example_bundle = Inr b'" "(2 :: u64) \<le> no"
    "distinct (all_block_numbers b')" by blast
  have "length (all_block_numbers b') = 3"
    using AddExtensionBlock_frame [OF b'(1)] by (simp add: all_block_numbers_def block_numbers_def example_bundle_def)
  then show ?thesis using b' by blast
qed

text \<open>
  C37. The lifetime check. A bundle with a creation time is expired exactly when the current time lies after creation time
  plus lifetime; for creation times below \<open>2^62\<close> milliseconds and lifetimes below 292 years this is the
  mathematical comparison, without overflow. A bundle without creation time is expired exactly when the age in its
  bundle age block exceeds its lifetime, whatever the clock says; without such a block, or with several, it is expired.
\<close>

theorem IsLifetimeExceeded_correct:
  assumes "pb = bndl_PrimaryBlock b" "ages = filter (\<lambda>cb. TypeCode cb = BlockTypeBundleAgeBlock) (bndl_ExtensionBlocks b)"
  shows "(uint (fst (pb_CreationTimestamp pb)) \<noteq> 0 \<and> uint (fst (pb_CreationTimestamp pb)) < 2 ^ 62 \<and> uint (pb_Lifetime pb) < 9223372036854 \<longrightarrow>
      IsLifetimeExceeded now b = Inr
        (now > (uint (fst (pb_CreationTimestamp pb)) + 946684800000 + uint (pb_Lifetime pb)) * 1000000)) \<and>
    (uint (fst (pb_CreationTimestamp pb)) = 0 \<and> length ages \<noteq> 1 \<longrightarrow> IsLifetimeExceeded now b = Inr True) \<and>
    (uint (fst (pb_CreationTimestamp pb)) = 0 \<and> map cb_Value ages = [BundleAgeBlock age] \<longrightarrow>
      IsLifetimeExceeded now b = Inr (uint age > uint (pb_Lifetime pb)))"
proof (intro conjI impI)
  assume "uint (fst (pb_CreationTimestamp pb)) \<noteq> 0 \<and> uint (fst (pb_CreationTimestamp pb)) < 2 ^ 62 \<and> uint (pb_Lifetime pb) < 9223372036854"
  then show "IsLifetimeExceeded now b = Inr (now > (uint (fst (pb_CreationTimestamp pb)) + 946684800000 + uint (pb_Lifetime pb)) * 1000000)"
    unfolding assms(1) by (intro IsLifetimeExceeded_clock) auto
next
  assume "uint (fst (pb_CreationTimestamp pb)) = 0 \<and> length ages \<noteq> 1"
  then show "IsLifetimeExceeded now b = Inr True" unfolding assms by (intro IsLifetimeExceeded_age(1)) (simp_all add: uint_0_iff)
next
  assume "uint (fst (pb_CreationTimestamp pb)) = 0 \<and> map cb_Value ages = [BundleAgeBlock age]"
  then show "IsLifetimeExceeded now b = Inr (uint age > uint (pb_Lifetime pb))"
    using IsLifetimeExceeded_age(2) [of b age now] unfolding assms by (simp add: word_less_def uint_0_iff)
qed

theorem IsLifetimeExceeded_correct_witness:
  "IsLifetimeExceeded 946688401000000001 example_bundle = Inr True \<and> IsLifetimeExceeded 946688401000000000 example_bundle = Inr False \<and>
   (\<forall>now. IsLifetimeExceeded now (example_bundle\<lparr>bndl_PrimaryBlock := example_primary\<lparr>pb_CreationTimestamp := (0, 0)\<rparr>,
      bndl_ExtensionBlocks := [NewCanonicalBlock 2 0 (BundleAgeBlock 3600001)]\<rparr>) = Inr True) \<and>
   (\<forall>now. IsLifetimeExceeded now (example_bundle\<lparr>bndl_PrimaryBlock := example_primary\<lparr>pb_CreationTimestamp := (0, 0)\<rparr>,
      bndl_ExtensionBlocks := [NewCanonicalBlock 2 0 (BundleAgeBlock 3600000)]\<rparr>) = Inr False)"
proof -
  let ?b = "\<lambda>age. example_bundle\<lparr>bndl_PrimaryBlock := example_primary\<lparr>pb_CreationTimestamp := (0, 0)\<rparr>,
      bndl_ExtensionBlocks := [NewCanonicalBlock 2 0 (BundleAgeBlock age)]\<rparr>"
  have "IsLifetimeExceeded now (?b age) = Inr (uint age > 3600000)" for now age
    using IsLifetimeExceeded_correct [OF refl refl, of "?b age" now age]
    by (simp add: example_primary_def TypeCode_def NewCanonicalBlock_def block_type_defs)
  then show ?thesis
    using IsLifetimeExceeded_correct [OF refl refl, of example_bundle]
    by (simp add: example_bundle_def example_primary_def)
qed

text \<open>
  A lifetime of \<open>2^64 - 1\<close> milliseconds, the largest the field can hold, is taken as minus one
  millisecond by the conversion to \<open>time.Duration\<close>: a bundle that should never expire is expired
  at the instant of its creation.
\<close>

lemma IsLifetimeExceeded_wraps:
  "\<not> IsZeroTime (pb_CreationTimestamp (bndl_PrimaryBlock b)) \<Longrightarrow>
   pb_Lifetime (bndl_PrimaryBlock b) = 18446744073709551615 \<Longrightarrow>
   IsLifetimeExceeded (DtnTime_Time (CreationTimestamp_DtnTime (pb_CreationTimestamp (bndl_PrimaryBlock b)))) b = Inr True"
proof -
  have "lifetime_duration 18446744073709551615 = - 1000000" by code_simp
  then show "\<not> IsZeroTime (pb_CreationTimestamp (bndl_PrimaryBlock b)) \<Longrightarrow>
   pb_Lifetime (bndl_PrimaryBlock b) = 18446744073709551615 \<Longrightarrow> ?thesis"
    by (simp only: IsLifetimeExceeded_def Let_def if_False) simp
qed

text \<open>
  The check of the status report flag looks at the payload block only, and at every bundle: a
  bundle that is no administrative record and has a source is rejected for it, while a bundle with
  an administrative record whose extension block sets the flag is accepted.
\<close>

lemma Bundle_CheckValid_status_report_flag:
  "Bundle_CheckValid 0 (example_bundle\<lparr>bndl_PayloadBlock :=
      Some (NewCanonicalBlock 1 StatusReportBlock (PayloadBlock []))\<rparr>) \<noteq> Inr [] \<and>
   Bundle_CheckValid 0 (example_bundle
      \<lparr>bndl_PrimaryBlock := example_primary\<lparr>pb_BundleControlFlags := AdministrativeRecordPayload\<rparr>,
       bndl_ExtensionBlocks := [NewCanonicalBlock 2 StatusReportBlock (HopCountBlock 5 1)]\<rparr>) = Inr []"
  by code_simp

end
