(* ===== verification/Fragmentation.thy ===== *)
theory Fragmentation
  imports Bundle "HOL-Library.Multiset"
begin

text \<open>
  Fragmentation and reassembly (\<open>pkg/bpv7/fragmentation.go\<close>). Go's \<open>int\<close> is a 64-bit integer;
  lengths of byte slices are natural numbers and the MTU is a mathematical integer. The sources
  take the end of a fragment as a minimum of two \<open>float64\<close> values, which is exact for payloads of
  up to \<open>2^53\<close> bytes. The clock is read once per fragment: \<open>clock i\<close> is the reading for the
  fragment at offset \<open>i\<close>.
\<close>

section \<open>Fragmentation\<close>

definition fragmentPrimaryBlock ::
    "cboring \<Rightarrow> PrimaryBlock \<Rightarrow> nat \<Rightarrow> nat \<Rightarrow> (PrimaryBlock \<times> nat) res" where
  "fragmentPrimaryBlock L pb fragmentOffset totalDataLength =
     bindR (PrimaryBlock_MarshalCbor L
       \<lparr>pb_Version = pb_Version pb,
        pb_BundleControlFlags = pb_BundleControlFlags pb OR IsFragment,
        pb_CRCType = pb_CRCType pb, pb_Destination = pb_Destination pb,
        pb_SourceNode = pb_SourceNode pb, pb_ReportTo = pb_ReportTo pb,
        pb_CreationTimestamp = pb_CreationTimestamp pb, pb_Lifetime = pb_Lifetime pb,
        pb_FragmentOffset = of_nat fragmentOffset, pb_TotalDataLength = of_nat totalDataLength,
        pb_CRC = []\<rparr>)
       (\<lambda>(buff, fragPb). Inr (fragPb, length buff))"

definition empty_payload_block :: "u64 \<Rightarrow> BlockControlFlags \<Rightarrow> CanonicalBlock" where
  "empty_payload_block no bcf =
     \<lparr>cb_BlockNumber = no, cb_BlockControlFlags = bcf, cb_CRCType = CRCNo, cb_CRC = [],
      cb_Value = PayloadBlock []\<rparr>"

definition extension_block_len :: "cboring \<Rightarrow> CanonicalBlock \<Rightarrow> int \<Rightarrow> (int \<times> int) res" where
  "extension_block_len L eb mtu =
     (let eb = (if TypeCode eb = BlockTypePayloadBlock
                then empty_payload_block (cb_BlockNumber eb) (cb_BlockControlFlags eb) else eb)
      in bindR (CanonicalBlock_MarshalCbor L (eb\<lparr>cb_CRCType := CRC32\<rparr>)) (\<lambda>(buff, _).
           let cbLen = int (length buff);
               others = (if BlockControlFlags_Has (cb_BlockControlFlags eb) ReplicateBlock then cbLen else 0);
               lenField = int (length (WriteByteStringLen L (u64_of_int mtu)))
           in Inr (if TypeCode eb = BlockTypePayloadBlock
                   then (cbLen + lenField - 1, others + cbLen + lenField - 1)
                   else (cbLen, others))))"

fun extension_blocks_len :: "cboring \<Rightarrow> CanonicalBlock list \<Rightarrow> int \<Rightarrow> (int \<times> int) res" where
  "extension_blocks_len L [] mtu = Inr (0, 0)"
| "extension_blocks_len L (eb # ebs) mtu =
     bindR (extension_block_len L eb mtu) (\<lambda>(f, t).
     bindR (extension_blocks_len L ebs mtu) (\<lambda>(f', t'). Inr (f + f', t + t')))"

definition fragmentExtensionBlocksLen :: "cboring \<Rightarrow> Bundle \<Rightarrow> int \<Rightarrow> (int \<times> int) res" where
  "fragmentExtensionBlocksLen L b mtu =
     bindR (extension_blocks_len L (bndl_ExtensionBlocks b) mtu) (\<lambda>(first, others).
     let bcf = (case bndl_PayloadBlock b of None \<Rightarrow> 0 | Some payload \<Rightarrow> cb_BlockControlFlags payload) in
     bindR (CanonicalBlock_MarshalCbor L ((empty_payload_block 1 bcf)\<lparr>cb_CRCType := CRC32\<rparr>)) (\<lambda>(buff, _).
       let cbLen = int (length buff);
           lenField = int (length (WriteByteStringLen L (u64_of_int mtu)))
       in Inr (first + cbLen + lenField - 1, others + cbLen + lenField - 1)))"

definition cborOverhead :: int where "cborOverhead = 2"

text \<open>One round of the loop: the fragment at offset \<open>i\<close> and the length of its payload.\<close>

definition fragment_step ::
    "cboring \<Rightarrow> time \<Rightarrow> Bundle \<Rightarrow> CanonicalBlock \<Rightarrow> bytes \<Rightarrow> int \<Rightarrow> int \<Rightarrow> int \<Rightarrow> nat \<Rightarrow> (Bundle \<times> nat) res" where
  "fragment_step L now b payloadBlock data mtu extFirstOverhead extOtherOverhead i =
     bindR (fragmentPrimaryBlock L (bndl_PrimaryBlock b) i (length data)) (\<lambda>(fragPrimaryBlock, primaryOverhead).
     let overhead = cborOverhead + int primaryOverhead + (if i = 0 then extFirstOverhead else extOtherOverhead)
     in if overhead \<ge> mtu then Inl (Errorf ''bundle overhead of fragment exceeds MTU'') else
     bindR (AddExtensionBlocks
              (filter (\<lambda>cb. \<not> (i > 0 \<and> \<not> BlockControlFlags_Has (cb_BlockControlFlags cb) ReplicateBlock))
                 (bndl_ExtensionBlocks b))
              (MustNewBundle fragPrimaryBlock [] None)) (\<lambda>fragBundle.
     let fragPayloadBlockLen = nat (mtu - overhead);
         offset = min (i + fragPayloadBlockLen) (length data);
         fragBundle = fragBundle\<lparr>bndl_PayloadBlock := Some
           \<lparr>cb_BlockNumber = 1, cb_BlockControlFlags = cb_BlockControlFlags payloadBlock,
            cb_CRCType = cb_CRCType payloadBlock, cb_CRC = [],
            cb_Value = PayloadBlock (drop i (take offset data))\<rparr>\<rparr>
     in bindR (Bundle_CheckValid now fragBundle) (\<lambda>errs.
          if errs \<noteq> [] then Inl (Multi errs) else Inr (fragBundle, fragPayloadBlockLen))))"

lemma fragment_step_progress:
  "fragment_step L now b payloadBlock data mtu f t i = Inr (frag, n) \<Longrightarrow> n > 0"
  by (auto simp: fragment_step_def bindR_Inr_iff Let_def split: if_splits)

function fragment_loop ::
    "cboring \<Rightarrow> (nat \<Rightarrow> time) \<Rightarrow> Bundle \<Rightarrow> CanonicalBlock \<Rightarrow> bytes \<Rightarrow> int \<Rightarrow> int \<Rightarrow> int \<Rightarrow> nat \<Rightarrow> Bundle list res" where
  "fragment_loop L clock b payloadBlock data mtu f t i =
     (if i < length data then
        (case fragment_step L (clock i) b payloadBlock data mtu f t i of
           Inl e \<Rightarrow> Inl e
         | Inr (frag, n) \<Rightarrow>
             bindR (fragment_loop L clock b payloadBlock data mtu f t (i + n)) (\<lambda>bs. Inr (frag # bs)))
      else Inr [])"
  by pat_completeness auto
termination
  by (relation "measure (\<lambda>(L, clock, b, payloadBlock, data, mtu, f, t, i). length data - i)")
     (auto dest: fragment_step_progress)

declare fragment_loop.simps [simp del]

text \<open>
  \<open>Fragment\<close>. The end of a fragment's payload is computed with \<open>math.Min\<close> on \<open>float64\<close> values, which is exact for
  offsets up to \<open>2^53\<close>; slices are shorter. \<open>Fragment\<close> has one clock value per validity check.
\<close>

definition Fragment :: "cboring \<Rightarrow> (nat \<Rightarrow> time) \<Rightarrow> int \<Rightarrow> Bundle \<Rightarrow> Bundle list res" where
  "Fragment L clock mtu b =
     (if BundleControlFlags_Has (pb_BundleControlFlags (bndl_PrimaryBlock b)) MustNotFragmented
      then Inl (Errorf ''bundle control flags forbids bundle fragmentation'') else
      bindR (Bundle_Payload b) (\<lambda>data.
      bindR (fragmentExtensionBlocksLen L b mtu) (\<lambda>(extFirstOverhead, extOtherOverhead).
      bindR (fragment_loop L clock b (the (bndl_PayloadBlock b)) data mtu extFirstOverhead extOtherOverhead 0) (\<lambda>bs.
        Inr (if length bs = 1 then [b] else bs)))))"

section \<open>Reassembly\<close>

text \<open>The loop of \<open>prepareReassembly\<close> from a last index, which it returns.\<close>

fun check_gaps :: "u64 \<Rightarrow> Bundle list \<Rightarrow> u64 res" where
  "check_gaps lastIndex [] = Inr lastIndex"
| "check_gaps lastIndex (b # bs) =
     (if \<not> BundleControlFlags_Has (pb_BundleControlFlags (bndl_PrimaryBlock b)) IsFragment
      then Inl (Errorf ''bundle is not a fragment'')
      else let fragOff = pb_FragmentOffset (bndl_PrimaryBlock b) in
        if fragOff > lastIndex then Inl (Errorf ''next fragment leaves a gap'')
        else bindR (Bundle_Payload b) (\<lambda>data. check_gaps (fragOff + of_nat (length data)) bs))"

definition prepareReassembly :: "Bundle list \<Rightarrow> Bundle list res" where
  "prepareReassembly bs =
     (if bs = [] then Inl (Errorf ''slice of fragments is empty'') else
      let bs = sort_less (\<lambda>x y. pb_FragmentOffset (bndl_PrimaryBlock x) < pb_FragmentOffset (bndl_PrimaryBlock y)) bs
      in bindR (check_gaps 0 bs) (\<lambda>lastIndex.
           if pb_TotalDataLength (bndl_PrimaryBlock (bs ! 0)) \<noteq> lastIndex
           then Inl (Errorf ''last index does not match total length'') else Inr bs))"

definition IsBundleReassemblable :: "Bundle list \<Rightarrow> bool res" where
  "IsBundleReassemblable bs =
     (case prepareReassembly bs of
        Inl e \<Rightarrow> if is_panic e then Inl e else Inr False
      | Inr _ \<Rightarrow> Inr True)"

fun merge_from :: "int \<Rightarrow> Bundle list \<Rightarrow> bytes res" where
  "merge_from lastIndex [] = Inr []"
| "merge_from lastIndex (b # bs) =
     bindR (Bundle_Payload b) (\<lambda>fragPayloadData.
     let fragStartIndex = sint (pb_FragmentOffset (bndl_PrimaryBlock b));
         k = int64 (lastIndex - fragStartIndex)
     in if k < 0 \<or> k > int (length fragPayloadData) then Inl (Panic ''slice bounds out of range'')
        else bindR (merge_from (int64 (fragStartIndex + int (length fragPayloadData))) bs) (\<lambda>data.
          Inr (drop (nat k) fragPayloadData @ data)))"

definition mergeFragmentPayload :: "Bundle list \<Rightarrow> bytes res" where
  "mergeFragmentPayload bs = merge_from 0 bs"

definition ReassembleFragments :: "time \<Rightarrow> Bundle list \<Rightarrow> (Bundle \<times> err list) res" where
  "ReassembleFragments now bs =
     bindR (prepareReassembly bs) (\<lambda>bs.
     let pb = bndl_PrimaryBlock (bs ! 0);
         primary = pb\<lparr>pb_BundleControlFlags := pb_BundleControlFlags pb AND NOT IsFragment,
                     pb_FragmentOffset := 0, pb_TotalDataLength := 0, pb_CRC := []\<rparr>
     in bindR (AddExtensionBlocks (bndl_ExtensionBlocks (bs ! 0))
                 \<lparr>bndl_PrimaryBlock = primary, bndl_ExtensionBlocks = [], bndl_PayloadBlock = None\<rparr>) (\<lambda>b.
     bindR (mergeFragmentPayload bs) (\<lambda>payload.
     case bndl_PayloadBlock (bs ! 0) of None \<Rightarrow> Inl nil_value | Some pb0 \<Rightarrow>
     let b = b\<lparr>bndl_PayloadBlock := Some (CanonicalBlock_SetCRCType (cb_CRCType pb0)
               (NewCanonicalBlock 1 (cb_BlockControlFlags pb0) (PayloadBlock payload)))\<rparr>
     in bindR (Bundle_CheckValid now b) (\<lambda>errs. Inr (b, errs)))))"

section \<open>Renumbering\<close>

text \<open>Adding blocks to a bundle without extension blocks numbers them from 2 in the given order.\<close>

definition renumber :: "CanonicalBlock list \<Rightarrow> CanonicalBlock list" where
  "renumber cbs = map2 (\<lambda>i cb. cb\<lparr>cb_BlockNumber := of_nat (i + 2)\<rparr>) [0..<length cbs] cbs"

lemma renumber_Nil [simp]: "renumber [] = []"
  by (simp add: renumber_def)

lemma length_renumber [simp]: "length (renumber cbs) = length cbs"
  by (simp add: renumber_def)

lemma renumber_snoc: "renumber (cbs @ [cb]) = renumber cbs @ [cb\<lparr>cb_BlockNumber := of_nat (length cbs + 2)\<rparr>]"
  by (simp add: renumber_def)

lemma nth_renumber: "i < length cbs \<Longrightarrow> renumber cbs ! i = (cbs ! i)\<lparr>cb_BlockNumber := of_nat (i + 2)\<rparr>"
  by (simp add: renumber_def)

lemma renumber_renumber [simp]: "renumber (renumber cbs) = renumber cbs"
  by (rule nth_equalityI) (simp_all add: nth_renumber)

lemma numbers_renumber: "map cb_BlockNumber (renumber cbs) = map (\<lambda>i. of_nat (i + 2)) [0..<length cbs]"
  by (rule nth_equalityI) (simp_all add: nth_renumber)

lemma TypeCode_renumber: "cb \<in> set (renumber cbs) \<Longrightarrow> \<exists>cb' \<in> set cbs. TypeCode cb = TypeCode cb'"
  by (auto simp: in_set_conv_nth [of cb] nth_renumber TypeCode_def intro!: bexI [OF _ nth_mem])

lemma unat_small: "n < 2 ^ 63 \<Longrightarrow> unat (of_nat (n + 2) :: u64) = n + 2"
  by (simp only: unat_of_nat) (simp add: take_bit_nat_eq_self_iff)

lemma of_nat_less: "i < j \<Longrightarrow> j < 2 ^ 63 \<Longrightarrow> (of_nat (i + 2) :: u64) < of_nat (j + 2)"
  unfolding word_less_nat_alt by (subst (1 2) unat_small) auto

lemma number_not_one: "i < 2 ^ 63 \<Longrightarrow> (of_nat (i + 2) :: u64) \<noteq> 1"
  by (metis add_2_eq_Suc' nat.inject numeral_One unat_small unsigned_1 zero_neq_one old.nat.distinct(1) One_nat_def)

lemma sort_renumber:
  assumes "length cbs < 2 ^ 63"
  shows "sort_less canonicalBlockNumberSort_Less (renumber cbs) = renumber cbs"
proof (rule sort_less_sorted, unfold sorted_wrt_iff_nth_less, intro allI impI)
  fix i j assume "i < j" "j < length (renumber cbs)"
  then show "\<not> canonicalBlockNumberSort_Less (renumber cbs ! j) (renumber cbs ! i)"
    using assms of_nat_less [of i j] number_not_one [of i] number_not_one [of j]
    by (auto simp: nth_renumber canonicalBlockNumberSort_Less_def block_type_defs simp del: of_nat_add)
qed

lemma next_free_run:
  assumes "n + k < 2 ^ 63"
  shows "next_free (Suc k) (map (\<lambda>i. of_nat (i + 2)) [0..<n + k]) (of_nat (n + 2)) = Some (of_nat (n + k + 2))"
  using assms
proof (induction k arbitrary: n)
  case 0
  have "(of_nat (n + 2) :: u64) \<notin> set (map (\<lambda>i. of_nat (i + 2)) [0..<n])"
    using of_nat_less [of _ n] 0 by (auto simp del: of_nat_add) (metis less_irrefl)
  then show ?case by (simp del: of_nat_add)
next
  case (Suc k)
  let ?nos = "map (\<lambda>i. of_nat (i + 2)) [0..<n + Suc k] :: u64 list"
  have mem: "(of_nat (n + 2) :: u64) \<in> set ?nos"
    unfolding set_map by (rule image_eqI [of _ _ n]) auto
  have inc: "(of_nat (n + 2) :: u64) + 1 = of_nat (Suc n + 2)" by simp
  have "next_free (Suc (Suc k)) ?nos (of_nat (n + 2)) = next_free (Suc k) ?nos (of_nat (n + 2) + 1)"
    using mem by (simp only: next_free.simps(2) [of "Suc k"] if_True)
  also have "\<dots> = Some (of_nat (Suc n + k + 2))"
    using Suc.IH [of "Suc n"] Suc.prems by (simp only: inc) simp
  finally show ?case by simp
qed

lemma AddExtensionBlock_renumber:
  assumes "bndl_ExtensionBlocks b = renumber cbs" "TypeCode cb \<noteq> BlockTypePayloadBlock" "length cbs < 2 ^ 62"
  shows "AddExtensionBlock cb b = Inr (b\<lparr>bndl_ExtensionBlocks := renumber (cbs @ [cb])\<rparr>)"
proof -
  have "next_free (Suc (length cbs)) (map cb_BlockNumber (renumber cbs)) 2 = Some (of_nat (length cbs + 2))"
    using next_free_run [of 0 "length cbs"] assms(3) unfolding numbers_renumber by simp
  moreover have "sort_less canonicalBlockNumberSort_Less (renumber (cbs @ [cb])) = renumber (cbs @ [cb])"
    using assms(3) by (intro sort_renumber) simp
  ultimately show ?thesis using assms(1,2)
    by (simp add: AddExtensionBlock_def Let_def sortExtensionBlocks_def renumber_snoc del: next_free.simps)
qed

lemma AddExtensionBlocks_renumber:
  assumes "bndl_ExtensionBlocks b = renumber pre"
    "\<forall>cb \<in> set cbs. TypeCode cb \<noteq> BlockTypePayloadBlock" "length (pre @ cbs) < 2 ^ 62"
  shows "AddExtensionBlocks cbs b = Inr (b\<lparr>bndl_ExtensionBlocks := renumber (pre @ cbs)\<rparr>)"
  using assms
proof (induction cbs arbitrary: pre b)
  case (Cons cb cbs)
  have "AddExtensionBlock cb b = Inr (b\<lparr>bndl_ExtensionBlocks := renumber (pre @ [cb])\<rparr>)"
    using Cons.prems by (intro AddExtensionBlock_renumber) auto
  then show ?case using Cons.IH [of _ "pre @ [cb]"] Cons.prems by simp
qed simp

section \<open>Reassembly of slices\<close>

text \<open>
  The specification of reassembly: the fragments carry slices of one payload \<open>D\<close>, possibly
  overlapping, and none ends before its predecessor.
\<close>

definition frag_offset :: "Bundle \<Rightarrow> nat" where
  "frag_offset b = unat (pb_FragmentOffset (bndl_PrimaryBlock b))"

definition slice_of :: "bytes \<Rightarrow> Bundle \<Rightarrow> bytes \<Rightarrow> bool" where
  "slice_of D b d \<longleftrightarrow> Bundle_Payload b = Inr d \<and> frag_offset b + length d \<le> length D \<and>
     d = take (length d) (drop (frag_offset b) D)"

fun no_containment :: "nat \<Rightarrow> (Bundle \<times> bytes) list \<Rightarrow> bool" where
  "no_containment l [] = True"
| "no_containment l ((b, d) # bs) = (l \<le> frag_offset b + length d \<and> no_containment (frag_offset b + length d) bs)"

lemma unat_of_nat_63: "n < 2 ^ 63 \<Longrightarrow> unat (of_nat n :: u64) = n"
  by (simp only: unat_of_nat) (simp add: take_bit_nat_eq_self_iff)

lemma sint_offset: "frag_offset b < 2 ^ 63 \<Longrightarrow> sint (pb_FragmentOffset (bndl_PrimaryBlock b)) = int (frag_offset b)"
proof -
  assume a: "frag_offset b < 2 ^ 63"
  have u: "uint (pb_FragmentOffset (bndl_PrimaryBlock b)) = int (frag_offset b)"
    unfolding frag_offset_def by (rule uint_nat)
  have "int (frag_offset b) < int (2 ^ 63)" using a by (simp only: of_nat_less_iff)
  then have "uint (pb_FragmentOffset (bndl_PrimaryBlock b)) < 2 ^ 63" unfolding u by simp
  then show ?thesis by (simp only: sint_small u)
qed

lemma check_gaps_slice:
  assumes "check_gaps (of_nat l) (b # bs) = Inr n" "slice_of D b d" "length D < 2 ^ 63" "l \<le> length D"
  shows "frag_offset b \<le> l" "check_gaps (of_nat (frag_offset b + length d)) bs = Inr n"
proof -
  have c: "\<not> pb_FragmentOffset (bndl_PrimaryBlock b) > of_nat l" "Bundle_Payload b = Inr d"
    "check_gaps (pb_FragmentOffset (bndl_PrimaryBlock b) + of_nat (length d)) bs = Inr n"
    using assms(1,2) by (simp_all add: Let_def slice_of_def split: if_splits)
  show "frag_offset b \<le> l" using c(1) assms(3,4) unat_of_nat_63 [of l]
    by (simp add: word_less_nat_alt frag_offset_def)
  show "check_gaps (of_nat (frag_offset b + length d)) bs = Inr n"
    using c(3) by (simp add: frag_offset_def)
qed

lemma drop_slice:
  assumes "slice_of D b d" "frag_offset b \<le> l" "l \<le> frag_offset b + length d"
  shows "drop (l - frag_offset b) d @ drop (frag_offset b + length d) D = drop l D"
proof -
  have "d = take (length d) (drop (frag_offset b) D)" using assms(1) by (simp add: slice_of_def)
  then have "drop (l - frag_offset b) d = take (length d - (l - frag_offset b)) (drop l D)"
    using assms(2) by (metis add_diff_inverse_nat drop_drop drop_take leD le_add_diff_inverse2)
  moreover have "frag_offset b + length d = l + (length d - (l - frag_offset b))" using assms(2,3) by simp
  ultimately show ?thesis by (metis append_take_drop_id drop_drop add.commute)
qed

lemma merge_from_slices:
  assumes "list_all2 (slice_of D) bs ds" "no_containment l (zip bs ds)" "length D < 2 ^ 63" "l \<le> length D"
    "check_gaps (of_nat l) bs = Inr (of_nat (length D))"
  shows "merge_from (int l) bs = Inr (drop l D)"
  using assms
proof (induction bs ds arbitrary: l rule: list_all2_induct)
  case Nil
  then have "(of_nat l :: u64) = of_nat (length D)" "l < 2 ^ 63" "length D < 2 ^ 63"
    by (simp_all only: check_gaps.simps sum.inject)
  then have "l = length D" using unat_of_nat_63 by metis
  then show ?case by simp
next
  case (Cons b bs d ds)
  let ?o = "frag_offset b"
  have sl: "slice_of D b d" by fact
  have o: "?o \<le> l" and g: "check_gaps (of_nat (?o + length d)) bs = Inr (of_nat (length D))"
    using check_gaps_slice [OF Cons.prems(4) sl Cons.prems(2,3)] by auto
  have e: "l \<le> ?o + length d" "?o + length d \<le> length D" "Bundle_Payload b = Inr d"
    using Cons.prems sl by (auto simp: slice_of_def)
  have i: "int64 (int l - int ?o) = int (l - ?o)" "int64 (int ?o + int (length d)) = int (?o + length d)"
    using o e Cons.prems(2) by (simp_all add: int64_eq)
  have "merge_from (int (?o + length d)) bs = Inr (drop (?o + length d) D)"
    using Cons.prems e g by (intro Cons.IH) auto
  then show ?case using o e Cons.prems(2) drop_slice [OF sl o e(1)]
    by (simp add: sint_offset i nat_diff_distrib)
qed

text \<open>A fragment that ends before its predecessor makes the slice expression run out of bounds.\<close>

lemma merge_from_contained:
  assumes "list_all2 (slice_of D) bs ds" "\<not> no_containment l (zip bs ds)" "length D < 2 ^ 63" "l \<le> length D"
    "check_gaps (of_nat l) bs = Inr n"
  shows "merge_from (int l) bs = Inl (Panic ''slice bounds out of range'')"
  using assms
proof (induction bs ds arbitrary: l rule: list_all2_induct)
  case (Cons b bs d ds)
  let ?o = "frag_offset b"
  have sl: "slice_of D b d" by fact
  have o: "?o \<le> l" and g: "check_gaps (of_nat (?o + length d)) bs = Inr n"
    using check_gaps_slice [OF Cons.prems(4) sl Cons.prems(2,3)] by auto
  have e: "?o + length d \<le> length D" "Bundle_Payload b = Inr d" using sl by (auto simp: slice_of_def)
  have i: "int64 (int l - int ?o) = int (l - ?o)" "int64 (int ?o + int (length d)) = int (?o + length d)" "?o < 2 ^ 63"
    using o e Cons.prems(2,3) by (simp_all add: int64_eq)
  show ?case
  proof (cases "l \<le> ?o + length d")
    case True
    then have "\<not> no_containment (?o + length d) (zip bs ds)" using Cons.prems(1) by simp
    then have "merge_from (int (?o + length d)) bs = Inl (Panic ''slice bounds out of range'')"
      using Cons.prems(2) e(1) g by (intro Cons.IH) auto
    then show ?thesis using True o e(2) i by (simp add: sint_offset)
  next
    case False
    then show ?thesis using o e(2) i by (simp add: sint_offset)
  qed
qed simp

section \<open>The fragments of a bundle\<close>

text \<open>The fragment of \<open>b\<close> at offset \<open>i\<close>, up to the checksum of its primary block.\<close>

definition frag_primary :: "PrimaryBlock \<Rightarrow> nat \<Rightarrow> nat \<Rightarrow> PrimaryBlock" where
  "frag_primary pb i len =
     pb\<lparr>pb_BundleControlFlags := pb_BundleControlFlags pb OR IsFragment,
        pb_FragmentOffset := of_nat i, pb_TotalDataLength := of_nat len, pb_CRC := []\<rparr>"

definition frag_blocks :: "Bundle \<Rightarrow> nat \<Rightarrow> CanonicalBlock list" where
  "frag_blocks b i = renumber (if i = 0 then bndl_ExtensionBlocks b
     else filter (\<lambda>cb. BlockControlFlags_Has (cb_BlockControlFlags cb) ReplicateBlock) (bndl_ExtensionBlocks b))"

definition is_fragment :: "Bundle \<Rightarrow> CanonicalBlock \<Rightarrow> bytes \<Rightarrow> nat \<Rightarrow> nat \<Rightarrow> Bundle \<Rightarrow> bool" where
  "is_fragment b payload data i n f \<longleftrightarrow>
     (bndl_PrimaryBlock f)\<lparr>pb_CRC := []\<rparr> = frag_primary (bndl_PrimaryBlock b) i (length data) \<and>
     bndl_ExtensionBlocks f = frag_blocks b i \<and>
     bndl_PayloadBlock f = Some (payload\<lparr>cb_BlockNumber := 1, cb_CRC := [],
       cb_Value := PayloadBlock (take n (drop i data))\<rparr>)"

text \<open>Bundles whose extension blocks the fragmentation code can renumber: none is a payload block.\<close>

definition plain_blocks :: "Bundle \<Rightarrow> bool" where
  "plain_blocks b \<longleftrightarrow> (\<forall>cb \<in> set (bndl_ExtensionBlocks b). TypeCode cb \<noteq> BlockTypePayloadBlock) \<and>
     length (bndl_ExtensionBlocks b) < 2 ^ 62"

lemma fragmentPrimaryBlock_frame:
  assumes "fragmentPrimaryBlock L pb i len = Inr (fp, l)"
  shows "fp\<lparr>pb_CRC := []\<rparr> = frag_primary pb i len"
proof -
  obtain bs where "PrimaryBlock_MarshalCbor L (frag_primary pb i len) = Inr (bs, fp)"
    using assms by (cases pb) (auto simp: fragmentPrimaryBlock_def bindR_Inr_iff frag_primary_def)
  from PrimaryBlock_MarshalCbor_frame [OF this] have "fp\<lparr>pb_CRC := []\<rparr> = frag_primary pb i len\<lparr>pb_CRC := []\<rparr>"
    by (metis PrimaryBlock.update_convs(11) PrimaryBlock.surjective)
  then show ?thesis by (simp add: frag_primary_def)
qed

lemma AddExtensionBlocks_fresh:
  assumes "\<forall>cb \<in> set cbs. TypeCode cb \<noteq> BlockTypePayloadBlock" "length cbs < 2 ^ 62"
  shows "AddExtensionBlocks cbs \<lparr>bndl_PrimaryBlock = pb, bndl_ExtensionBlocks = [], bndl_PayloadBlock = p\<rparr> =
    Inr \<lparr>bndl_PrimaryBlock = pb, bndl_ExtensionBlocks = renumber cbs, bndl_PayloadBlock = p\<rparr>"
  using AddExtensionBlocks_renumber [of "\<lparr>bndl_PrimaryBlock = pb, bndl_ExtensionBlocks = [], bndl_PayloadBlock = p\<rparr>" "[]" cbs]
    assms by simp

lemma fragment_step_spec:
  assumes "fragment_step L now b payload data mtu f t i = Inr (frag, n)" "plain_blocks b"
  shows "is_fragment b payload data i n frag" "Bundle_CheckValid now frag = Inr []" "n > 0"
proof -
  let ?cbs = "filter (\<lambda>cb. \<not> (i > 0 \<and> \<not> BlockControlFlags_Has (cb_BlockControlFlags cb) ReplicateBlock))
    (bndl_ExtensionBlocks b)"
  have fb: "renumber ?cbs = frag_blocks b i" by (cases "i = 0") (simp_all add: frag_blocks_def)
  have add: "AddExtensionBlocks ?cbs (MustNewBundle fp [] None) =
      Inr \<lparr>bndl_PrimaryBlock = fp, bndl_ExtensionBlocks = frag_blocks b i, bndl_PayloadBlock = None\<rparr>" for fp
    using assms(2) le_less_trans [OF length_filter_le]
    by (subst fb [symmetric]) (auto simp: MustNewBundle_def sortExtensionBlocks_def plain_blocks_def intro!: AddExtensionBlocks_fresh)
  obtain fp l where fp: "fragmentPrimaryBlock L (bndl_PrimaryBlock b) i (length data) = Inr (fp, l)"
    using assms(1) by (auto simp: fragment_step_def bindR_Inr_iff)
  let ?frag = "\<lparr>bndl_PrimaryBlock = fp, bndl_ExtensionBlocks = frag_blocks b i,
    bndl_PayloadBlock = Some \<lparr>cb_BlockNumber = 1, cb_BlockControlFlags = cb_BlockControlFlags payload,
            cb_CRCType = cb_CRCType payload, cb_CRC = [],
            cb_Value = PayloadBlock (drop i (take (min (i + n) (length data)) data))\<rparr>\<rparr>"
  have frag: "frag = ?frag" "Bundle_CheckValid now frag = Inr []"
    using assms(1) unfolding fragment_step_def fp Let_def bindR_simps prod.case add
    by (auto simp: bindR_Inr_iff split: if_splits)
  have "drop i (take (min (i + n) (length data)) data) = take n (drop i data)"
    by (simp add: min_def drop_take)
  then show "is_fragment b payload data i n frag"
    using frag(1) fragmentPrimaryBlock_frame [OF fp] by (simp add: is_fragment_def)
  show "Bundle_CheckValid now frag = Inr []" by (fact frag(2))
  show "n > 0" using assms(1) by (rule fragment_step_progress)
qed

lemma fragment_step_primary:
  assumes "fragment_step L now b payload data mtu f t i = Inr (frag, n)"
  obtains fp p where "PrimaryBlock_MarshalCbor L (frag_primary (bndl_PrimaryBlock b) i (length data)) = Inr (p, fp)"
    "bndl_PrimaryBlock frag = fp"
    "cborOverhead + int (length p) + (if i = 0 then f else t) < mtu"
    "n = nat (mtu - (cborOverhead + int (length p) + (if i = 0 then f else t)))"
proof -
  obtain fp l where 1: "fragmentPrimaryBlock L (bndl_PrimaryBlock b) i (length data) = Inr (fp, l)"
    using assms by (auto simp: fragment_step_def bindR_Inr_iff)
  obtain fb where 2: "AddExtensionBlocks
      (filter (\<lambda>cb. \<not> (i > 0 \<and> \<not> BlockControlFlags_Has (cb_BlockControlFlags cb) ReplicateBlock)) (bndl_ExtensionBlocks b))
      (MustNewBundle fp [] None) = Inr fb" "bndl_PrimaryBlock frag = bndl_PrimaryBlock fb"
    and 3: "cborOverhead + int l + (if i = 0 then f else t) < mtu"
      "n = nat (mtu - (cborOverhead + int l + (if i = 0 then f else t)))"
    using assms unfolding fragment_step_def 1 Let_def bindR_simps prod.case
    by (auto simp: bindR_Inr_iff split: if_splits)
  have "AddExtensionBlocks cbs b0 = Inr b1 \<Longrightarrow> bndl_PrimaryBlock b1 = bndl_PrimaryBlock b0" for cbs b0 b1
    by (induction cbs arbitrary: b0) (auto simp: bindR_Inr_iff dest: AddExtensionBlock_frame(1))
  then have 4: "bndl_PrimaryBlock frag = fp" using 2 by (simp add: MustNewBundle_def)
  obtain p where "PrimaryBlock_MarshalCbor L (frag_primary (bndl_PrimaryBlock b) i (length data)) = Inr (p, fp)" "l = length p"
    using 1 by (cases "bndl_PrimaryBlock b") (auto simp: fragmentPrimaryBlock_def bindR_Inr_iff frag_primary_def)
  then show thesis using that 3 4 by blast
qed

text \<open>The list the loop builds from offset \<open>i\<close>: consecutive, non-empty slices up to the end.\<close>

fun frag_chain :: "Bundle \<Rightarrow> CanonicalBlock \<Rightarrow> bytes \<Rightarrow> nat \<Rightarrow> Bundle list \<Rightarrow> bool" where
  "frag_chain b payload data i [] = (i \<ge> length data)"
| "frag_chain b payload data i (f # fs) =
     (i < length data \<and> (\<exists>n > 0. is_fragment b payload data i n f \<and> frag_chain b payload data (i + n) fs))"

lemma fragment_loop_chain:
  assumes "fragment_loop L clock b payload data mtu f t i = Inr fs" "plain_blocks b"
  shows "frag_chain b payload data i fs \<and> (\<forall>frag \<in> set fs. \<exists>i. Bundle_CheckValid (clock i) frag = Inr [])"
  using assms
proof (induction L clock b payload data mtu f t i arbitrary: fs rule: fragment_loop.induct)
  case (1 L clock b payload data mtu f t i)
  show ?case
  proof (cases "i < length data")
    case False
    then show ?thesis using "1.prems" by (simp add: fragment_loop.simps)
  next
    case True
    then obtain frag n fs' where s: "fragment_step L (clock i) b payload data mtu f t i = Inr (frag, n)"
      and l: "fragment_loop L clock b payload data mtu f t (i + n) = Inr fs'" "fs = frag # fs'"
      using "1.prems"(1) by (subst (asm) fragment_loop.simps) (auto simp: bindR_Inr_iff split: sum.splits)
    show ?thesis
      using "1.IH" [OF True s refl l(1) "1.prems"(2)] fragment_step_spec [OF s "1.prems"(2)] True l(2) by auto
  qed
qed

lemma is_fragmentD:
  assumes "is_fragment b payload data i n f" "i < length data" "length data < 2 ^ 63"
  shows "frag_offset f = i" "Bundle_Payload f = Inr (take n (drop i data))"
    "BundleControlFlags_Has (pb_BundleControlFlags (bndl_PrimaryBlock f)) IsFragment"
    "pb_FragmentOffset (bndl_PrimaryBlock f) = of_nat i"
    "pb_TotalDataLength (bndl_PrimaryBlock f) = of_nat (length data)"
proof -
  have p: "(bndl_PrimaryBlock f)\<lparr>pb_CRC := []\<rparr> = frag_primary (bndl_PrimaryBlock b) i (length data)"
    using assms(1) by (simp add: is_fragment_def)
  then have "pb_FragmentOffset ((bndl_PrimaryBlock f)\<lparr>pb_CRC := []\<rparr>) = of_nat i"
    "pb_TotalDataLength ((bndl_PrimaryBlock f)\<lparr>pb_CRC := []\<rparr>) = of_nat (length data)"
    "pb_BundleControlFlags ((bndl_PrimaryBlock f)\<lparr>pb_CRC := []\<rparr>) = pb_BundleControlFlags (bndl_PrimaryBlock b) OR IsFragment"
    unfolding p by (simp_all add: frag_primary_def)
  then show "pb_FragmentOffset (bndl_PrimaryBlock f) = of_nat i"
    "pb_TotalDataLength (bndl_PrimaryBlock f) = of_nat (length data)"
    "BundleControlFlags_Has (pb_BundleControlFlags (bndl_PrimaryBlock f)) IsFragment"
    by (simp_all add: Has_bit_simps bit_OR_IsFragment)
  then show "frag_offset f = i" using assms(2,3) unat_of_nat_63 [of i] by (simp add: frag_offset_def)
  show "Bundle_Payload f = Inr (take n (drop i data))" using assms(1) by (simp add: is_fragment_def Bundle_Payload_def)
qed

lemma of_nat_le_u64: "i \<le> j \<Longrightarrow> j < 2 ^ 63 \<Longrightarrow> (of_nat i :: u64) \<le> of_nat j"
  unfolding word_le_nat_alt by (subst (1 2) unat_of_nat_63) auto

lemma frag_chain_slices:
  assumes "frag_chain b payload data i fs" "length data < 2 ^ 63"
  shows "(\<exists>ds. list_all2 (slice_of data) fs ds \<and> no_containment (min i (length data)) (zip fs ds)) \<and>
     check_gaps (of_nat (min i (length data))) fs = Inr (of_nat (length data)) \<and>
     sorted_wrt (<) (map frag_offset fs) \<and> (\<forall>f \<in> set fs. i \<le> frag_offset f)"
  using assms
proof (induction fs arbitrary: i)
  case Nil
  then show ?case by (simp add: min_absorb2)
next
  case (Cons f fs)
  obtain n where i: "i < length data" and n: "n > 0" "is_fragment b payload data i n f" "frag_chain b payload data (i + n) fs"
    using Cons.prems by auto
  note f = is_fragmentD [OF n(2) i Cons.prems(2)]
  let ?d = "take n (drop i data)"
  have e: "i + length ?d = min (i + n) (length data)" using i by simp
  obtain ds where ds: "list_all2 (slice_of data) fs ds" "no_containment (i + length ?d) (zip fs ds)"
    "check_gaps (of_nat (i + length ?d)) fs = Inr (of_nat (length data))"
    "sorted_wrt (<) (map frag_offset fs)" "\<forall>g \<in> set fs. i + n \<le> frag_offset g"
    using Cons.IH [OF n(3) Cons.prems(2)] unfolding e by blast
  have "slice_of data f ?d" using f i by (auto simp: slice_of_def min_def)
  moreover have "check_gaps (of_nat i) (f # fs) = Inr (of_nat (length data))"
    using f(2-4) ds(3) by (simp only: check_gaps.simps Let_def bindR_simps of_nat_add) simp
  moreover have "\<forall>g \<in> set fs. i < frag_offset g" using ds(5) n(1) by auto
  ultimately show ?case
    using ds f(1) i by (intro conjI exI [of _ "?d # ds"]) (auto simp: min_absorb1 less_imp_le)
qed

lemma frag_chain_offsets:
  assumes "frag_chain b payload data i fs" "length data < 2 ^ 63" "mset gs = mset fs"
  shows "sort_less (\<lambda>x y. pb_FragmentOffset (bndl_PrimaryBlock x) < pb_FragmentOffset (bndl_PrimaryBlock y)) gs = fs"
proof -
  let ?k = "\<lambda>x. pb_FragmentOffset (bndl_PrimaryBlock x)"
  have key: "sort_less (\<lambda>x y. ?k x < ?k y) gs = sort_key ?k gs"
  proof (induction gs)
    case (Cons g gs)
    have "insert_less (\<lambda>x y. ?k x < ?k y) g xs = insort_key ?k g xs" for xs
      by (induction xs) (auto simp: not_less)
    then show ?case using Cons by simp
  qed simp
  have srt: "sorted_wrt (<) (map frag_offset fs)" using frag_chain_slices [OF assms(1,2)] by blast
  then have "sorted (map ?k fs)"
    by (simp add: sorted_wrt_map frag_offset_def) (rule sorted_wrt_mono_rel, auto simp: word_le_nat_alt)
  moreover have "inj_on ?k (set gs)"
  proof -
    have "distinct (map frag_offset fs)" using srt by (simp add: strict_sorted_iff)
    then have "inj_on frag_offset (set fs)" by (simp add: distinct_map)
    then show ?thesis using mset_eq_setD [OF assms(3)] by (auto simp: inj_on_def frag_offset_def)
  qed
  ultimately show ?thesis unfolding key using assms(3) by (intro sort_key_inj_key_eq)
qed

lemma fragment_loop_steps:
  assumes "fragment_loop L clock b payload data mtu f t i = Inr fs" "frag \<in> set fs"
  shows "\<exists>j n. fragment_step L (clock j) b payload data mtu f t j = Inr (frag, n)"
  using assms
proof (induction L clock b payload data mtu f t i arbitrary: fs rule: fragment_loop.induct)
  case (1 L clock b payload data mtu f t i)
  show ?case
  proof (cases "i < length data")
    case False
    then show ?thesis using "1.prems" by (simp add: fragment_loop.simps)
  next
    case True
    then obtain frag' n fs' where s: "fragment_step L (clock i) b payload data mtu f t i = Inr (frag', n)"
      and l: "fragment_loop L clock b payload data mtu f t (i + n) = Inr fs'" "fs = frag' # fs'"
      using "1.prems"(1) by (subst (asm) fragment_loop.simps) (auto simp: bindR_Inr_iff split: sum.splits)
    show ?thesis using "1.IH" [OF True s refl l(1)] s l(2) "1.prems"(2) by auto
  qed
qed

lemma frag_chain_mem:
  "frag_chain b payload data i fs \<Longrightarrow> f \<in> set fs \<Longrightarrow>
     \<exists>j n. j < length data \<and> n > 0 \<and> is_fragment b payload data j n f"
  by (induction fs arbitrary: i) auto

lemma Fragment_chain:
  assumes "Fragment L clock mtu b = Inr fs" "length fs \<noteq> 1" "plain_blocks b" "Bundle_Payload b = Inr data"
  shows "frag_chain b (the (bndl_PayloadBlock b)) data 0 fs \<and>
    (\<forall>frag \<in> set fs. \<exists>i. Bundle_CheckValid (clock i) frag = Inr [])"
proof -
  obtain f t where "fragment_loop L clock b (the (bndl_PayloadBlock b)) data mtu f t 0 = Inr fs"
    using assms(1,2,4) by (auto simp: Fragment_def bindR_Inr_iff split: if_splits)
  then show ?thesis using fragment_loop_chain assms(3) by blast
qed

text \<open>The bundle that reassembly is to give back.\<close>

definition reassembled :: "Bundle \<Rightarrow> bytes \<Rightarrow> Bundle" where
  "reassembled b data =
     \<lparr>bndl_PrimaryBlock = (bndl_PrimaryBlock b)\<lparr>pb_CRC := []\<rparr>,
      bndl_ExtensionBlocks = renumber (bndl_ExtensionBlocks b),
      bndl_PayloadBlock = Some ((the (bndl_PayloadBlock b))\<lparr>cb_BlockNumber := 1, cb_CRC := [],
        cb_Value := PayloadBlock data\<rparr>)\<rparr>"

lemma frag_primary_undo:
  assumes "pb\<lparr>pb_CRC := []\<rparr> = frag_primary pb0 i n" "\<not> PrimaryBlock_HasFragmentation pb0"
    "pb_FragmentOffset pb0 = 0" "pb_TotalDataLength pb0 = 0"
  shows "pb\<lparr>pb_BundleControlFlags := pb_BundleControlFlags pb AND NOT IsFragment,
            pb_FragmentOffset := 0, pb_TotalDataLength := 0, pb_CRC := []\<rparr> = pb0\<lparr>pb_CRC := []\<rparr>"
  using assms by (cases pb; cases pb0) (auto simp: frag_primary_def PrimaryBlock_HasFragmentation_def fragment_flag_roundtrip)

lemma ReassembleFragments_chain:
  assumes chain: "frag_chain b (the (bndl_PayloadBlock b)) data 0 fs" and perm: "mset gs = mset fs"
    and data: "data \<noteq> []" "length data < 2 ^ 63" and plain: "plain_blocks b"
    and orig: "\<not> PrimaryBlock_HasFragmentation (bndl_PrimaryBlock b)"
      "pb_FragmentOffset (bndl_PrimaryBlock b) = 0" "pb_TotalDataLength (bndl_PrimaryBlock b) = 0"
  shows "ReassembleFragments now gs =
    bindR (Bundle_CheckValid now (reassembled b data)) (\<lambda>errs. Inr (reassembled b data, errs))"
proof -
  let ?p = "the (bndl_PayloadBlock b)"
  obtain f fs' n where fs: "fs = f # fs'" and f: "is_fragment b ?p data 0 n f"
    using chain data(1) by (cases fs) auto
  have gs: "gs \<noteq> []" using perm fs by auto
  have first: "pb_TotalDataLength (bndl_PrimaryBlock f) = of_nat (length data)"
    using is_fragmentD [OF f _ data(2)] data(1) by simp
  obtain ds where ds: "list_all2 (slice_of data) fs ds" "no_containment 0 (zip fs ds)"
    and gaps: "check_gaps 0 fs = Inr (of_nat (length data))"
    using frag_chain_slices [OF chain data(2)] by auto
  have prep: "prepareReassembly gs = Inr fs"
    using gs gaps first frag_chain_offsets [OF chain data(2) perm]
    by (simp add: prepareReassembly_def Let_def fs)
  have merge: "mergeFragmentPayload fs = Inr data"
    using merge_from_slices [OF ds data(2)] gaps by (simp add: mergeFragmentPayload_def)
  have ext: "bndl_ExtensionBlocks f = renumber (bndl_ExtensionBlocks b)"
    using f by (simp add: is_fragment_def frag_blocks_def)
  have "\<forall>cb \<in> set (renumber (bndl_ExtensionBlocks b)). TypeCode cb \<noteq> BlockTypePayloadBlock"
    using plain TypeCode_renumber unfolding plain_blocks_def by metis
  then have add: "AddExtensionBlocks (bndl_ExtensionBlocks f)
      \<lparr>bndl_PrimaryBlock = pb, bndl_ExtensionBlocks = [], bndl_PayloadBlock = None\<rparr> =
      Inr \<lparr>bndl_PrimaryBlock = pb, bndl_ExtensionBlocks = renumber (bndl_ExtensionBlocks b), bndl_PayloadBlock = None\<rparr>" for pb
    using plain unfolding ext plain_blocks_def by (subst AddExtensionBlocks_fresh) auto
  have pay: "bndl_PayloadBlock f = Some (?p\<lparr>cb_BlockNumber := 1, cb_CRC := [],
      cb_Value := PayloadBlock (take n (drop 0 data))\<rparr>)" using f by (simp only: is_fragment_def)
  have prim: "(bndl_PrimaryBlock f)\<lparr>pb_CRC := []\<rparr> = frag_primary (bndl_PrimaryBlock b) 0 (length data)"
    using f by (simp add: is_fragment_def)
  show ?thesis
    unfolding ReassembleFragments_def prep Let_def bindR_simps fs nth_Cons_0 add frag_primary_undo [OF prim orig]
      merge [unfolded fs] pay option.case
    by (cases ?p) (simp add: reassembled_def CanonicalBlock_SetCRCType_def NewCanonicalBlock_def)
qed

section \<open>The size of fragments\<close>

text \<open>Extension blocks as \<open>MustNewBundle\<close> leaves them in a valid bundle: ascending numbers from 2 on.\<close>

definition numbered :: "CanonicalBlock list \<Rightarrow> bool" where
  "numbered cbs \<longleftrightarrow> sorted_wrt (<) (map cb_BlockNumber cbs) \<and> (\<forall>cb \<in> set cbs. 2 \<le> cb_BlockNumber cb)"

lemma numbered_filter: "numbered cbs \<Longrightarrow> numbered (filter P cbs)"
  by (auto simp: numbered_def sorted_wrt_map intro: sorted_wrt_filter)

lemma numbered_ge:
  assumes "numbered cbs" "i < length cbs"
  shows "i + 2 \<le> unat (cb_BlockNumber (cbs ! i))"
  using assms(2)
proof (induction i)
  case 0
  then have "2 \<le> cb_BlockNumber (cbs ! 0)" using assms(1) by (auto simp: numbered_def)
  then show ?case by (simp add: word_le_nat_alt)
next
  case (Suc i)
  then have "cb_BlockNumber (cbs ! i) < cb_BlockNumber (cbs ! Suc i)"
    using assms(1) by (simp add: numbered_def sorted_wrt_iff_nth_less)
  then show ?case using Suc by (simp add: word_less_nat_alt)
qed

lemma numbered_renumber_le:
  assumes "numbered cbs" "i < length cbs" "length cbs < 2 ^ 62"
  shows "(of_nat (i + 2) :: u64) \<le> cb_BlockNumber (cbs ! i)"
proof -
  have "unat (of_nat (i + 2) :: u64) = i + 2" using assms(2,3) by (intro unat_small) simp
  then show ?thesis using numbered_ge [OF assms(1,2)] by (simp only: word_le_nat_alt)
qed

text \<open>The size the overhead computation charges for a block.\<close>

definition len32 :: "cboring \<Rightarrow> CanonicalBlock \<Rightarrow> nat" where
  "len32 L cb = (case CanonicalBlock_MarshalCbor L (cb\<lparr>cb_CRCType := CRC32\<rparr>) of Inr (bs, _) \<Rightarrow> length bs | _ \<Rightarrow> 0)"

context cboring_lib
begin

lemma extension_blocks_len_sum:
  assumes "extension_blocks_len L cbs mtu = Inr (f, t)" "\<forall>cb \<in> set cbs. TypeCode cb \<noteq> BlockTypePayloadBlock"
  shows "f = int (\<Sum>cb \<leftarrow> cbs. len32 L cb) \<and>
    t = int (\<Sum>cb \<leftarrow> filter (\<lambda>cb. BlockControlFlags_Has (cb_BlockControlFlags cb) ReplicateBlock) cbs. len32 L cb) \<and>
    (\<forall>cb \<in> set cbs. \<exists>bs y. CanonicalBlock_MarshalCbor L (cb\<lparr>cb_CRCType := CRC32\<rparr>) = Inr (bs, y))"
  using assms
proof (induction cbs arbitrary: f t)
  case (Cons cb cbs)
  obtain f1 t1 f2 t2 where 1: "extension_block_len L cb mtu = Inr (f1, t1)" and 2: "extension_blocks_len L cbs mtu = Inr (f2, t2)"
    and ft: "f = f1 + f2" "t = t1 + t2"
    using Cons.prems(1) by (auto simp: bindR_Inr_iff)
  obtain bs y where m: "CanonicalBlock_MarshalCbor L (cb\<lparr>cb_CRCType := CRC32\<rparr>) = Inr (bs, y)"
    and f1: "f1 = int (length bs)" "t1 = (if BlockControlFlags_Has (cb_BlockControlFlags cb) ReplicateBlock then int (length bs) else 0)"
    using 1 Cons.prems(2) by (auto simp: extension_block_len_def Let_def bindR_Inr_iff)
  show ?case using Cons.IH [OF 2] Cons.prems(2) m f1 ft by (simp add: len32_def)
qed simp

lemma marshal_blocks_length:
  "marshal_blocks L cbs = Inr (bs, cbs') \<Longrightarrow>
     (\<And>i. i < length cbs \<Longrightarrow> \<forall>b x. CanonicalBlock_MarshalCbor L (cbs ! i) = Inr (b, x) \<longrightarrow> length b \<le> g i) \<Longrightarrow>
     length bs \<le> (\<Sum>i \<leftarrow> [0..<length cbs]. g i)"
proof (induction cbs arbitrary: bs cbs' g)
  case (Cons cb cbs)
  obtain b x bss y where m: "CanonicalBlock_MarshalCbor L cb = Inr (b, x)" "marshal_blocks L cbs = Inr (bss, y)" "bs = b @ bss"
    using Cons.prems(1) by (auto simp: bindR_Inr_iff)
  have "length bss \<le> (\<Sum>i \<leftarrow> [0..<length cbs]. g (Suc i))"
    using Cons.prems(2) [of "Suc i" for i] by (intro Cons.IH [OF m(2)]) simp
  moreover have "length b \<le> g 0" using Cons.prems(2) [of 0] m(1) by simp
  moreover have "(\<Sum>i \<leftarrow> [0..<length (cb # cbs)]. g i) = g 0 + (\<Sum>i \<leftarrow> [0..<length cbs]. g (Suc i))"
    by (simp add: upt_conv_Cons map_Suc_upt [symmetric] comp_def del: upt_Suc)
  ultimately show ?case using m(3) by simp
qed simp

lemma marshal_renumbered_length:
  assumes "marshal_blocks L (renumber cbs) = Inr (bs, cbs')" "numbered cbs" "length cbs < 2 ^ 62"
    "\<forall>cb \<in> set cbs. \<exists>bs y. CanonicalBlock_MarshalCbor L (cb\<lparr>cb_CRCType := CRC32\<rparr>) = Inr (bs, y)"
  shows "length bs \<le> (\<Sum>cb \<leftarrow> cbs. len32 L cb)"
proof -
  have "length bs \<le> (\<Sum>i \<leftarrow> [0..<length (renumber cbs)]. len32 L (cbs ! i))"
  proof (rule marshal_blocks_length [OF assms(1)], intro allI impI)
    fix i b x assume i: "i < length (renumber cbs)" and m: "CanonicalBlock_MarshalCbor L (renumber cbs ! i) = Inr (b, x)"
    have m': "CanonicalBlock_MarshalCbor L ((cbs ! i)\<lparr>cb_BlockNumber := of_nat (i + 2)\<rparr>) = Inr (b, x)"
      using m i by (simp only: nth_renumber length_renumber)
    obtain b32 y where c: "CanonicalBlock_MarshalCbor L ((cbs ! i)\<lparr>cb_CRCType := CRC32\<rparr>) = Inr (b32, y)"
      using assms(4) i nth_mem by (metis length_renumber)
    have "length b \<le> length b32"
      using numbered_renumber_le [OF assms(2) _ assms(3), of i] i
      by (intro CanonicalBlock_marshal_crc32 [OF m' c]) simp
    then show "length b \<le> len32 L (cbs ! i)" by (simp add: len32_def c)
  qed
  also have "map (\<lambda>i. len32 L (cbs ! i)) [0..<length (renumber cbs)] = map (len32 L) cbs"
    by (rule nth_equalityI) simp_all
  finally show ?thesis .
qed

lemma primary_marshal_again:
  assumes "PrimaryBlock_MarshalCbor L pb = Inr (bs, pb')"
  shows "\<exists>pb''. PrimaryBlock_MarshalCbor L pb' = Inr (bs, pb'')"
proof -
  have "PrimaryBlock_fields L (pb\<lparr>pb_CRC := c\<rparr>) = PrimaryBlock_fields L pb"
    "PrimaryBlock_HasCRC (pb\<lparr>pb_CRC := c\<rparr>) = PrimaryBlock_HasCRC pb" for c
    by (simp_all add: PrimaryBlock_fields_def PrimaryBlock_blockLen_def PrimaryBlock_HasFragmentation_def PrimaryBlock_HasCRC_def)
  then show ?thesis
    using assms PrimaryBlock_MarshalCbor_frame [OF assms]
    by (auto simp: PrimaryBlock_MarshalCbor_def bindR_Inr_iff split: if_splits)
qed

lemma payload_block_fits:
  assumes "CanonicalBlock_MarshalCbor L (payload\<lparr>cb_BlockNumber := 1, cb_CRC := [], cb_Value := PayloadBlock d\<rparr>) = Inr (bs, x)"
    "CanonicalBlock_MarshalCbor L ((empty_payload_block 1 (cb_BlockControlFlags payload))\<lparr>cb_CRCType := CRC32\<rparr>) = Inr (e, y)"
    "length d \<le> m" "m < 2 ^ 63"
  shows "length bs + 1 \<le> length e + length (WriteByteStringLen L (of_nat m)) + length d"
proof -
  have "(of_nat (length d) :: u64) \<le> of_nat m" using assms(3,4) by (rule of_nat_le_u64)
  then have l: "length (WriteByteStringLen L (of_nat (length d))) \<le> length (WriteByteStringLen L (of_nat m))"
    by (rule size_bslen_mono)
  have w: "length (WriteByteString L d) = length (WriteByteStringLen L (of_nat (length d))) + length d"
    using write_bs [of d] assms(3,4) by simp
  have w0: "length (WriteByteString L []) = 1" using write_bs [of "[]"] size_bslen_zero by simp
  have known: "known_crc (cb_CRCType payload)" using CanonicalBlock_marshal_known [OF assms(1)] by simp
  then have t: "length (WriteUInt L (cb_CRCType payload)) \<le> length (WriteUInt L CRC32)"
    by (intro size_uint_mono) (auto simp: known_crc_def crc_type_defs)
  note mono = size_array_mono [of 5 6] size_bslen_mono [of 2 4] t l
  show ?thesis
    by (rule CanonicalBlock_marshal_length [OF assms(1)], rule CanonicalBlock_marshal_length [OF assms(2)])
       (use known mono w w0 in \<open>auto simp: TypeCode_def empty_payload_block_def CanonicalBlock_HasCRC_def
          known_crc_def crc_type_defs split: if_splits\<close>)
qed

lemma fragmentExtensionBlocksLen_cases:
  assumes "fragmentExtensionBlocksLen L b mtu = Inr (f, t)" "bndl_PayloadBlock b = Some payload" "plain_blocks b"
  obtains e y where
    "CanonicalBlock_MarshalCbor L ((empty_payload_block 1 (cb_BlockControlFlags payload))\<lparr>cb_CRCType := CRC32\<rparr>) = Inr (e, y)"
    "f = int (\<Sum>cb \<leftarrow> bndl_ExtensionBlocks b. len32 L cb) + int (length e) +
         int (length (WriteByteStringLen L (u64_of_int mtu))) - 1"
    "t = int (\<Sum>cb \<leftarrow> filter (\<lambda>cb. BlockControlFlags_Has (cb_BlockControlFlags cb) ReplicateBlock) (bndl_ExtensionBlocks b).
           len32 L cb) + int (length e) + int (length (WriteByteStringLen L (u64_of_int mtu))) - 1"
    "\<forall>cb \<in> set (bndl_ExtensionBlocks b). \<exists>bs y. CanonicalBlock_MarshalCbor L (cb\<lparr>cb_CRCType := CRC32\<rparr>) = Inr (bs, y)"
proof -
  obtain f1 t1 e y where 1: "extension_blocks_len L (bndl_ExtensionBlocks b) mtu = Inr (f1, t1)"
    and 2: "CanonicalBlock_MarshalCbor L ((empty_payload_block 1 (cb_BlockControlFlags payload))\<lparr>cb_CRCType := CRC32\<rparr>) = Inr (e, y)"
    and 3: "f = f1 + int (length e) + int (length (WriteByteStringLen L (u64_of_int mtu))) - 1"
      "t = t1 + int (length e) + int (length (WriteByteStringLen L (u64_of_int mtu))) - 1"
    using assms(1,2) by (auto simp: fragmentExtensionBlocksLen_def Let_def bindR_Inr_iff)
  note sums = extension_blocks_len_sum [OF 1 assms(3) [unfolded plain_blocks_def, THEN conjunct1]]
  show thesis by (rule that [OF 2]) (use 3 sums in simp_all)
qed

lemma fragment_step_fits:
  assumes step: "fragment_step L now b payload data mtu f t i = Inr (frag, n)"
    and len: "fragmentExtensionBlocksLen L b mtu = Inr (f, t)" and pl: "bndl_PayloadBlock b = Some payload"
    and plain: "plain_blocks b" and num: "numbered (bndl_ExtensionBlocks b)" and mtu: "mtu < 2 ^ 63"
    and m: "Bundle_MarshalCbor L frag = Inr (bs, x)"
  shows "int (length bs) \<le> mtu"
proof -
  obtain e0 y where e0: "CanonicalBlock_MarshalCbor L ((empty_payload_block 1 (cb_BlockControlFlags payload))\<lparr>cb_CRCType := CRC32\<rparr>) = Inr (e0, y)"
    and f: "f = int (\<Sum>cb \<leftarrow> bndl_ExtensionBlocks b. len32 L cb) + int (length e0) +
         int (length (WriteByteStringLen L (u64_of_int mtu))) - 1"
    and t: "t = int (\<Sum>cb \<leftarrow> filter (\<lambda>cb. BlockControlFlags_Has (cb_BlockControlFlags cb) ReplicateBlock) (bndl_ExtensionBlocks b).
           len32 L cb) + int (length e0) + int (length (WriteByteStringLen L (u64_of_int mtu))) - 1"
    and ok: "\<forall>cb \<in> set (bndl_ExtensionBlocks b). \<exists>bs y. CanonicalBlock_MarshalCbor L (cb\<lparr>cb_CRCType := CRC32\<rparr>) = Inr (bs, y)"
    using fragmentExtensionBlocksLen_cases [OF len pl plain] .
  note spec = fragment_step_spec [OF step plain]
  let ?sub = "if i = 0 then bndl_ExtensionBlocks b
    else filter (\<lambda>cb. BlockControlFlags_Has (cb_BlockControlFlags cb) ReplicateBlock) (bndl_ExtensionBlocks b)"
  obtain fp p where fp: "PrimaryBlock_MarshalCbor L (frag_primary (bndl_PrimaryBlock b) i (length data)) = Inr (p, fp)"
    and frag_pb: "bndl_PrimaryBlock frag = fp"
    and n: "cborOverhead + int (length p) + (if i = 0 then f else t) < mtu"
      "n = nat (mtu - (cborOverhead + int (length p) + (if i = 0 then f else t)))"
    using fragment_step_primary [OF step] .
  obtain p' e d where bs: "length bs = 2 + length p' + length e + length d"
    and p': "\<exists>z. PrimaryBlock_MarshalCbor L fp = Inr (p', z)"
    and e: "\<exists>z. marshal_blocks L (renumber ?sub) = Inr (e, z)"
    and d: "\<exists>z. CanonicalBlock_MarshalCbor L (payload\<lparr>cb_BlockNumber := 1, cb_CRC := [],
       cb_Value := PayloadBlock (take n (drop i data))\<rparr>) = Inr (d, z)"
    using m spec(1) frag_pb by (auto simp: Bundle_MarshalCbor_def bindR_Inr_iff is_fragment_def frag_blocks_def)
  have "length e0 \<ge> 1"
    by (rule CanonicalBlock_marshal_length [OF e0]) (simp add: CanonicalBlock_HasCRC_def crc_type_defs)
  then have mpos: "mtu \<ge> 0" using n(1) f t by (auto simp: cborOverhead_def split: if_splits)
  have nle: "n \<le> nat mtu" using \<open>length e0 \<ge> 1\<close> n f t by (auto simp: cborOverhead_def split: if_splits)
  have "length p' = length p" using p' primary_marshal_again [OF fp] by auto
  moreover have "length e \<le> (\<Sum>cb \<leftarrow> ?sub. len32 L cb)"
    using e ok num plain numbered_filter le_less_trans [OF length_filter_le]
    by (elim exE, intro marshal_renumbered_length) (auto simp: plain_blocks_def)
  moreover have "length d + 1 \<le> length e0 + length (WriteByteStringLen L (of_nat (nat mtu))) + length (take n (drop i data))"
    using d nle mtu by (elim exE, intro payload_block_fits [OF _ e0]) auto
  moreover have "(of_nat (nat mtu) :: u64) = u64_of_int mtu"
    using mpos unfolding u64_of_int_def by (metis nat_0_le of_int_of_nat_eq)
  ultimately show ?thesis using bs n f t by (auto simp: cborOverhead_def split: if_splits)
qed

end

section \<open>An example\<close>

abbreviation example_payload :: bytes where
  "example_payload \<equiv> [1, 2, 3, 4, 5, 6, 7, 8]"

lemma example_extension_len: "fragmentExtensionBlocksLen rfc8949 example_bundle 61 = Inr (26, 26)"
  by (simp add: fragmentExtensionBlocksLen_def example_bundle_def extension_block_len_def Let_def TypeCode_def
      NewCanonicalBlock_def block_type_defs CanonicalBlock_MarshalCbor_def CanonicalBlock_fields_def
      CanonicalBlock_HasCRC_def crc_type_defs calculateCRCBuff_def emptyCRC_def PutUint32_def
      empty_payload_block_def ebm_WriteBlock_def rfc8949_simps head_def block_Has_bit_simps u64_of_int_def)

lemma example_loop:
  "map_sum id length (fragment_loop rfc8949 (\<lambda>_. 0) example_bundle (the (bndl_PayloadBlock example_bundle))
     example_payload 61 26 26 0) = Inr 4"
  by code_simp

lemma example_Payload: "Bundle_Payload example_bundle = Inr example_payload"
  by code_simp

lemma example_Fragment:
  obtains fs where "Fragment rfc8949 (\<lambda>_. 0) 61 example_bundle = Inr fs" "length fs = 4"
proof -
  obtain fs where "fragment_loop rfc8949 (\<lambda>_. 0) example_bundle (the (bndl_PayloadBlock example_bundle))
      example_payload 61 26 26 0 = Inr fs" "length fs = 4"
    using map_sum_InrD [OF example_loop] by blast
  moreover have "\<not> BundleControlFlags_Has (pb_BundleControlFlags (bndl_PrimaryBlock example_bundle)) MustNotFragmented"
    by code_simp
  ultimately show thesis using that by (simp add: Fragment_def example_extension_len example_Payload)
qed

lemma example_plain: "plain_blocks example_bundle" "numbered (bndl_ExtensionBlocks example_bundle)"
  by (simp_all add: plain_blocks_def numbered_def example_bundle_def NewCanonicalBlock_def TypeCode_def block_type_defs)

lemma example_unfragmented:
  "\<not> PrimaryBlock_HasFragmentation (bndl_PrimaryBlock example_bundle)"
  "pb_FragmentOffset (bndl_PrimaryBlock example_bundle) = 0" "pb_TotalDataLength (bndl_PrimaryBlock example_bundle) = 0"
  by code_simp+

section \<open>Correctness\<close>

text \<open>
  C5. Fragmentation and reassembly are inverse: reassembling the fragments of a bundle, in any
  order, gives back its primary block (up to the checksum, which is cleared), its extension blocks
  in order, numbered from 2, and its payload; the only further outcome is what the validity check
  says about that bundle.
\<close>

theorem Fragment_ReassembleFragments:
  assumes "Fragment L clock mtu b = Inr fs" "length fs \<noteq> 1" "mset gs = mset fs"
    "Bundle_Payload b = Inr data" "data \<noteq> []" "length data < 2 ^ 63" "plain_blocks b"
    "\<not> PrimaryBlock_HasFragmentation (bndl_PrimaryBlock b)"
    "pb_FragmentOffset (bndl_PrimaryBlock b) = 0" "pb_TotalDataLength (bndl_PrimaryBlock b) = 0"
  shows "ReassembleFragments now gs =
    bindR (Bundle_CheckValid now (reassembled b data)) (\<lambda>errs. Inr (reassembled b data, errs))"
  using Fragment_chain [OF assms(1,2,7,4)] assms by (intro ReassembleFragments_chain) auto

theorem Fragment_ReassembleFragments_witness:
  "\<exists>fs. Fragment rfc8949 (\<lambda>_. 0) 61 example_bundle = Inr fs \<and> length fs = 4 \<and>
     ReassembleFragments 0 (rev fs) =
       bindR (Bundle_CheckValid 0 (reassembled example_bundle example_payload))
         (\<lambda>errs. Inr (reassembled example_bundle example_payload, errs))"
proof -
  obtain fs where fs: "Fragment rfc8949 (\<lambda>_. 0) 61 example_bundle = Inr fs" "length fs = 4"
    by (rule example_Fragment)
  have "ReassembleFragments 0 (rev fs) =
       bindR (Bundle_CheckValid 0 (reassembled example_bundle example_payload))
         (\<lambda>errs. Inr (reassembled example_bundle example_payload, errs))"
    by (rule Fragment_ReassembleFragments [OF fs(1) _ _ example_Payload _ _ example_plain(1) example_unfragmented])
       (simp_all add: fs(2))
  then show ?thesis using fs by blast
qed

text \<open>
  C15. A bundle whose control flags forbid fragmentation is never fragmented; every fragment that is
  produced for another bundle passes the validity check, is flagged as a fragment, carries the
  total payload length, and its payload is the slice of the original payload at its offset.
\<close>

theorem Fragment_sound:
  assumes "Fragment L clock mtu b = Inr fs" "length fs \<noteq> 1" "plain_blocks b"
    "Bundle_Payload b = Inr data" "length data < 2 ^ 63" "f \<in> set fs"
  shows "\<not> BundleControlFlags_Has (pb_BundleControlFlags (bndl_PrimaryBlock b)) MustNotFragmented \<and>
    (\<exists>i. Bundle_CheckValid (clock i) f = Inr []) \<and>
    PrimaryBlock_HasFragmentation (bndl_PrimaryBlock f) \<and>
    pb_TotalDataLength (bndl_PrimaryBlock f) = of_nat (length data) \<and>
    (\<exists>d. d \<noteq> [] \<and> slice_of data f d)"
proof -
  have chain: "frag_chain b (the (bndl_PayloadBlock b)) data 0 fs"
    and valid: "\<exists>i. Bundle_CheckValid (clock i) f = Inr []"
    using Fragment_chain [OF assms(1-4)] assms(6) by auto
  have "\<exists>i n. i < length data \<and> n > 0 \<and> is_fragment b (the (bndl_PayloadBlock b)) data i n f"
    using chain assms(6) by (rule frag_chain_mem)
  then obtain i n where i: "i < length data" "n > 0" "is_fragment b (the (bndl_PayloadBlock b)) data i n f" by blast
  note d = is_fragmentD [OF i(3,1) assms(5)]
  have "slice_of data f (take n (drop i data))" using d i by (auto simp: slice_of_def min_def)
  moreover have "take n (drop i data) \<noteq> []" using i by simp
  moreover have "\<not> BundleControlFlags_Has (pb_BundleControlFlags (bndl_PrimaryBlock b)) MustNotFragmented"
    using assms(1) by (auto simp: Fragment_def)
  ultimately show ?thesis using valid d(3,5) unfolding PrimaryBlock_HasFragmentation_def by blast
qed

theorem Fragment_sound_witness:
  "\<exists>fs f. Fragment rfc8949 (\<lambda>_. 0) 61 example_bundle = Inr fs \<and> f \<in> set fs \<and>
     (\<exists>d. d \<noteq> [] \<and> slice_of example_payload f d)"
proof -
  obtain fs where fs: "Fragment rfc8949 (\<lambda>_. 0) 61 example_bundle = Inr fs" "length fs = 4"
    by (rule example_Fragment)
  then have "hd fs \<in> set fs" by (cases fs) auto
  then show ?thesis
    using Fragment_sound [OF fs(1) _ example_plain(1) example_Payload, of "hd fs"] fs by auto
qed

text \<open>
  C14. The MTU is respected for bundles in the form in which bundles are built: if the extension blocks are numbered in
  ascending order from 2 on and none of them is of the payload's type, and the bundle has to be divided (the result is not
  the bundle itself), every fragment serialises to at most \<open>mtu\<close> bytes, although the overhead is estimated from the
  unfragmented bundle. The condition on the numbers matters: fragments number their blocks anew from 2, and a number above 23 takes a
  byte more than the 0 that another implementation may have used.
\<close>

theorem Fragment_fits_mtu:
  assumes "cboring_lib L" "Fragment L clock mtu b = Inr fs" "length fs \<noteq> 1" "plain_blocks b"
    "numbered (bndl_ExtensionBlocks b)" "mtu < 2 ^ 63" "f \<in> set fs" "Bundle_MarshalCbor L f = Inr (bs, f')"
  shows "int (length bs) \<le> mtu"
proof -
  obtain data e t where l: "fragmentExtensionBlocksLen L b mtu = Inr (e, t)" "Bundle_Payload b = Inr data"
    "fragment_loop L clock b (the (bndl_PayloadBlock b)) data mtu e t 0 = Inr fs"
    using assms(2,3) by (auto simp: Fragment_def bindR_Inr_iff split: if_splits)
  then obtain payload where pl: "bndl_PayloadBlock b = Some payload"
    by (auto simp: Bundle_Payload_def split: option.splits)
  obtain i n where "fragment_step L (clock i) b payload data mtu e t i = Inr (f, n)"
    using fragment_loop_steps [OF l(3) assms(7)] pl by auto
  from cboring_lib.fragment_step_fits [OF assms(1) this l(1) pl assms(4-6,8)] show ?thesis .
qed

theorem Fragment_fits_mtu_witness:
  "\<exists>fs. Fragment rfc8949 (\<lambda>_. 0) 61 example_bundle = Inr fs \<and> length fs = 4 \<and>
     (\<forall>f bs f'. f \<in> set fs \<and> Bundle_MarshalCbor rfc8949 f = Inr (bs, f') \<longrightarrow> length bs \<le> 61)"
proof -
  obtain fs where fs: "Fragment rfc8949 (\<lambda>_. 0) 61 example_bundle = Inr fs" "length fs = 4"
    by (rule example_Fragment)
  have "length bs \<le> 61" if "f \<in> set fs" "Bundle_MarshalCbor rfc8949 f = Inr (bs, f')" for f bs f'
    using Fragment_fits_mtu [OF rfc.cboring_lib_axioms fs(1) _ example_plain _ that] fs(2) by simp
  then show ?thesis using fs by blast
qed

definition example_fragment :: "u64 \<Rightarrow> bytes \<Rightarrow> Bundle" where
  "example_fragment offset d =
     \<lparr>bndl_PrimaryBlock = example_primary\<lparr>pb_BundleControlFlags := IsFragment, pb_FragmentOffset := offset,
                                         pb_TotalDataLength := 4\<rparr>,
      bndl_ExtensionBlocks = [], bndl_PayloadBlock = Some (NewCanonicalBlock 1 0 (PayloadBlock d))\<rparr>"

text \<open>
  C39. Reassembly of overlapping fragments. Take any fragments that carry slices of one payload and that the check before
  reassembly accepts. If, in the order of their offsets, none ends before its predecessor, merging them gives
  exactly that payload; if one does, \<open>ReassembleFragments\<close> panics with a slice expression out of bounds, although
  \<open>IsBundleReassemblable\<close> declares the fragments fine.
\<close>

theorem ReassembleFragments_overlapping:
  assumes "prepareReassembly gs = Inr bs" "list_all2 (slice_of D) bs ds"
    "pb_TotalDataLength (bndl_PrimaryBlock (bs ! 0)) = of_nat (length D)" "length D < 2 ^ 63"
    "length (bndl_ExtensionBlocks (bs ! 0)) < 2 ^ 64"
  shows "IsBundleReassemblable gs = Inr True \<and>
    (if no_containment 0 (zip bs ds) then mergeFragmentPayload bs = Inr D
     else ReassembleFragments now gs = Inl (Panic ''slice bounds out of range''))"
proof -
  have gaps: "check_gaps 0 bs = Inr (of_nat (length D))"
    using assms(1,3) by (auto simp: prepareReassembly_def Let_def bindR_Inr_iff split: if_splits)
  have ok: "mergeFragmentPayload bs = Inr D" if "no_containment 0 (zip bs ds)"
    using merge_from_slices [OF assms(2) that assms(4)] gaps by (simp add: mergeFragmentPayload_def)
  have bad: "mergeFragmentPayload bs = Inl (Panic ''slice bounds out of range'')" if "\<not> no_containment 0 (zip bs ds)"
    using merge_from_contained [OF assms(2) that assms(4)] gaps by (simp add: mergeFragmentPayload_def)
  have ext: "\<exists>b'. AddExtensionBlocks cbs b = Inr b'" if "length (bndl_ExtensionBlocks b) + length cbs < 2 ^ 64" for cbs b
    using that
  proof (induction cbs arbitrary: b)
    case (Cons cb cbs)
    have "length (bndl_ExtensionBlocks b) < 2 ^ 64" using Cons.prems by simp
    then obtain b' where b': "AddExtensionBlock cb b = Inr b'" using AddExtensionBlock_total by blast
    then show ?case using Cons.IH [of b'] Cons.prems AddExtensionBlock_frame(3) [OF b'] by simp
  qed simp
  have "ReassembleFragments now gs = Inl (Panic ''slice bounds out of range'')" if "\<not> no_containment 0 (zip bs ds)"
  proof -
    have "\<exists>b'. AddExtensionBlocks (bndl_ExtensionBlocks (bs ! 0))
        \<lparr>bndl_PrimaryBlock = p, bndl_ExtensionBlocks = [], bndl_PayloadBlock = None\<rparr> = Inr b'" for p
      using assms(5) by (intro ext) simp
    then show ?thesis using bad [OF that] assms(1) by (auto simp: ReassembleFragments_def Let_def bindR_def split: sum.split) (metis sum.distinct(1))
  qed
  then show ?thesis using ok assms(1) by (simp add: IsBundleReassemblable_def)
qed

text \<open>The example: two fragments that overlap in one byte, and a fragment contained in another.\<close>

theorem ReassembleFragments_overlapping_witness:
  "IsBundleReassemblable [example_fragment 2 [3, 4], example_fragment 0 [1, 2, 3]] = Inr True \<and>
   mergeFragmentPayload [example_fragment 0 [1, 2, 3], example_fragment 2 [3, 4]] = Inr [1, 2, 3, 4] \<and>
   IsBundleReassemblable [example_fragment 0 [1, 2, 3, 4], example_fragment 0 [1, 2], example_fragment 2 [3, 4]] = Inr True \<and>
   ReassembleFragments 0 [example_fragment 0 [1, 2, 3, 4], example_fragment 0 [1, 2], example_fragment 2 [3, 4]] =
     Inl (Panic ''slice bounds out of range'')"
proof -
  let ?as = "[example_fragment 0 [1, 2, 3], example_fragment 2 [3, 4]]"
  let ?bs = "[example_fragment 0 [1, 2, 3, 4], example_fragment 0 [1, 2], example_fragment 2 [3, 4]]"
  have a: "prepareReassembly [example_fragment 2 [3, 4], example_fragment 0 [1, 2, 3]] = Inr ?as" by code_simp
  have b: "prepareReassembly ?bs = Inr ?bs" by code_simp
  have f: "Bundle_Payload (example_fragment i d) = Inr d" "frag_offset (example_fragment i d) = unat i"
    "pb_TotalDataLength (bndl_PrimaryBlock (example_fragment i d)) = 4" "bndl_ExtensionBlocks (example_fragment i d) = []" for i d
    by (simp_all add: example_fragment_def Bundle_Payload_def NewCanonicalBlock_def frag_offset_def)
  have sa: "list_all2 (slice_of [1, 2, 3, 4]) ?as [[1, 2, 3], [3, 4]]" by (simp add: slice_of_def f)
  have sb: "list_all2 (slice_of [1, 2, 3, 4]) ?bs [[1, 2, 3, 4], [1, 2], [3, 4]]" by (simp add: slice_of_def f)
  show ?thesis
    using ReassembleFragments_overlapping [OF a sa, of 0] ReassembleFragments_overlapping [OF b sb, of 0] by (simp add: f)
qed

end
