(* ===== verification/Descriptor.thy ===== *)
theory Descriptor
  imports Bundle
begin

text \<open>
  Bundle descriptors and their retention constraints (\<open>pkg/store/constraints.go\<close>,
  \<open>pkg/store/errors.go\<close>, \<open>pkg/store/bundle_descriptor.go\<close>). Every operation holds the descriptor's
  mutex and is one step. A goroutine that an operation starts (\<open>go deleteBundle\<close>) is returned as the
  metadata it is started with; the store runs it later. The operations that also write the metadata
  database are in \<open>Store\<close>.
\<close>

section \<open>Constraints and errors\<close>

type_synonym Constraint = u8

definition DispatchPending :: Constraint where "DispatchPending = 0"
definition ForwardPending :: Constraint where "ForwardPending = 1"
definition ReassemblyPending :: Constraint where "ReassemblyPending = 2"

lemmas constraint_defs = DispatchPending_def ForwardPending_def ReassemblyPending_def

definition Constraint_String :: "Constraint \<Rightarrow> string" where
  "Constraint_String c =
     (if c = DispatchPending then ''dispatch pending''
      else if c = ForwardPending then ''forwarding pending''
      else if c = ReassemblyPending then ''reassembly pending''
      else ''unknown'')"

definition Constraint_Valid :: "Constraint \<Rightarrow> bool" where
  "Constraint_Valid c \<longleftrightarrow> c \<le> ReassemblyPending"

datatype store_err =
    NoSuchBundleError BundleID
  | BundleDeletedError BundleID
  | InvalidConstraint Constraint
  | HasConstraintsError "Constraint list"
  | OtherError err

section \<open>Descriptors\<close>

text \<open>The values kept in \<open>MiscellaneousData\<close>; the daemon stores \<open>uint64\<close> values only.\<close>

datatype misc = MiscUint64 u64 | MiscOther string

record BundleMetadata =
  md_ID :: BundleID
  md_Source :: EndpointID
  md_Destination :: EndpointID
  md_ReportTo :: EndpointID
  md_IsAdministrativeRecord :: bool
  md_MiscellaneousData :: "string \<rightharpoonup> misc"
  md_IDString :: string
  md_KnownHolders :: "EndpointID list"
  md_Expires :: time
  md_SerialisedFileName :: string

record BundleDescriptor =
  bd_metadata :: BundleMetadata
  bd_retentionConstraints :: "Constraint list"
  bd_retain :: bool
  bd_dispatch :: bool
  bd_deleted :: bool
  bd_shouldDelete :: bool

definition NewBundleDescriptor :: "BundleMetadata \<Rightarrow> BundleDescriptor" where
  "NewBundleDescriptor metadata =
     \<lparr>bd_metadata = metadata, bd_retentionConstraints = [DispatchPending], bd_retain = True,
      bd_dispatch = True, bd_deleted = False, bd_shouldDelete = False\<rparr>"

definition bd_ID :: "BundleDescriptor \<Rightarrow> BundleID" where
  "bd_ID bd = md_ID (bd_metadata bd)"

definition Metadata :: "BundleDescriptor \<Rightarrow> store_err + BundleMetadata" where
  "Metadata bd = (if bd_deleted bd then Inl (BundleDeletedError (bd_ID bd)) else Inr (bd_metadata bd))"

definition GetMiscData :: "string \<Rightarrow> BundleDescriptor \<Rightarrow> misc option" where
  "GetMiscData key bd = md_MiscellaneousData (bd_metadata bd) key"

definition GetKnownHolders :: "BundleDescriptor \<Rightarrow> store_err + EndpointID list" where
  "GetKnownHolders bd =
     (if bd_deleted bd then Inl (BundleDeletedError (bd_ID bd)) else Inr (md_KnownHolders (bd_metadata bd)))"

definition HasConstraint :: "Constraint \<Rightarrow> BundleDescriptor \<Rightarrow> store_err + bool" where
  "HasConstraint c bd =
     (if bd_deleted bd then Inl (BundleDeletedError (bd_ID bd))
      else Inr (c \<in> set (bd_retentionConstraints bd)))"

definition Dispatch :: "BundleDescriptor \<Rightarrow> bool" where
  "Dispatch bd \<longleftrightarrow> bd_dispatch bd \<and> \<not> bd_deleted bd"

definition Retain :: "BundleDescriptor \<Rightarrow> bool" where
  "Retain bd \<longleftrightarrow> bd_retain bd \<and> \<not> bd_deleted bd"

definition Deleted :: "BundleDescriptor \<Rightarrow> bool" where
  "Deleted bd \<longleftrightarrow> bd_deleted bd"

definition Expired :: "time \<Rightarrow> BundleDescriptor \<Rightarrow> bool" where
  "Expired now bd \<longleftrightarrow> md_Expires (bd_metadata bd) < now"

subsection \<open>Operations that change a descriptor\<close>

type_synonym bd_result = "store_err + BundleDescriptor \<times> BundleMetadata list"

definition AddConstraint :: "Constraint \<Rightarrow> BundleDescriptor \<Rightarrow> bd_result" where
  "AddConstraint c bd =
     (if bd_deleted bd then Inl (BundleDeletedError (bd_ID bd))
      else if \<not> Constraint_Valid c then Inl (InvalidConstraint c)
      else Inr (bd\<lparr>bd_retentionConstraints := bd_retentionConstraints bd @ [c], bd_retain := True,
                   bd_dispatch := (if c = ForwardPending then False else bd_dispatch bd)\<rparr>, []))"

definition unsafeDelete :: "BundleDescriptor \<Rightarrow> bd_result" where
  "unsafeDelete bd =
     (if bd_deleted bd then Inl (BundleDeletedError (bd_ID bd))
      else Inr (bd\<lparr>bd_deleted := True\<rparr>, [bd_metadata bd]))"

text \<open>The callers of \<open>unsafeDelete\<close> that ignore its error.\<close>

definition delete_ignoring :: "BundleDescriptor \<Rightarrow> BundleDescriptor \<times> BundleMetadata list" where
  "delete_ignoring bd = (case unsafeDelete bd of Inl _ \<Rightarrow> (bd, []) | Inr r \<Rightarrow> r)"

text \<open>The loop of \<open>RemoveConstraint\<close>: the constraints that stay, and whether dispatch is allowed.\<close>

fun keep_constraints :: "Constraint \<Rightarrow> Constraint list \<Rightarrow> bool \<Rightarrow> Constraint list \<times> bool" where
  "keep_constraints c [] dispatch = ([], dispatch)"
| "keep_constraints c (e # es) dispatch =
     (if e \<noteq> c
      then (case keep_constraints c es (if e = ForwardPending then False else dispatch) of
              (cs, d) \<Rightarrow> (e # cs, d))
      else keep_constraints c es dispatch)"

definition RemoveConstraint :: "Constraint \<Rightarrow> BundleDescriptor \<Rightarrow> bd_result" where
  "RemoveConstraint c bd =
     (if bd_deleted bd then Inl (BundleDeletedError (bd_ID bd)) else
      (case keep_constraints c (bd_retentionConstraints bd) True of (constraints, dispatch) \<Rightarrow>
        let bd = bd\<lparr>bd_retentionConstraints := constraints, bd_retain := length constraints > 0,
                    bd_dispatch := dispatch\<rparr>
        in Inr (if \<not> bd_retain bd \<and> bd_shouldDelete bd then delete_ignoring bd else (bd, []))))"

definition ResetConstraints :: "BundleDescriptor \<Rightarrow> bd_result" where
  "ResetConstraints bd =
     (if bd_deleted bd then Inl (BundleDeletedError (bd_ID bd)) else
      let bd = bd\<lparr>bd_retentionConstraints := [], bd_retain := False, bd_dispatch := True\<rparr>
      in Inr (if bd_shouldDelete bd then delete_ignoring bd else (bd, [])))"

definition Delete :: "bool \<Rightarrow> BundleDescriptor \<Rightarrow> bd_result" where
  "Delete markIfConstraint bd =
     (if length (bd_retentionConstraints bd) > 0
      then if markIfConstraint then Inr (bd\<lparr>bd_shouldDelete := True\<rparr>, [])
           else Inl (HasConstraintsError (bd_retentionConstraints bd))
      else unsafeDelete bd)"

section \<open>The descriptor invariant\<close>

text \<open>
  The flags are determined by the constraints: a bundle is retained iff it has a constraint,
  dispatched iff it is not being forwarded, a deleted bundle has no constraint, and a bundle marked
  for deletion is deleted as soon as it has none.
\<close>

definition bd_inv :: "BundleDescriptor \<Rightarrow> bool" where
  "bd_inv bd \<longleftrightarrow>
     (bd_retain bd \<longleftrightarrow> bd_retentionConstraints bd \<noteq> []) \<and>
     (bd_dispatch bd \<longleftrightarrow> ForwardPending \<notin> set (bd_retentionConstraints bd)) \<and>
     (bd_deleted bd \<longrightarrow> bd_retentionConstraints bd = []) \<and>
     (bd_shouldDelete bd \<and> bd_retentionConstraints bd = [] \<longrightarrow> bd_deleted bd)"

text \<open>What every operation does to a descriptor: the metadata stays, and a deletion is started exactly
  when the deleted flag is raised.\<close>

definition bd_effect :: "BundleDescriptor \<Rightarrow> BundleDescriptor \<times> BundleMetadata list \<Rightarrow> bool" where
  "bd_effect bd r \<longleftrightarrow> (case r of (bd', spawned) \<Rightarrow>
     bd_inv bd' \<and> bd_metadata bd' = bd_metadata bd \<and> (bd_deleted bd \<longrightarrow> bd_deleted bd') \<and>
     spawned = (if bd_deleted bd' \<and> \<not> bd_deleted bd then [bd_metadata bd] else []))"

lemma keep_constraints_eq:
  "keep_constraints c cs d = (filter (\<lambda>e. e \<noteq> c) cs, d \<and> ForwardPending \<notin> set (filter (\<lambda>e. e \<noteq> c) cs))"
  by (induction c cs d rule: keep_constraints.induct) auto

lemma NewBundleDescriptor_inv [simp]: "bd_inv (NewBundleDescriptor m)"
  by (simp add: bd_inv_def NewBundleDescriptor_def constraint_defs)

lemma AddConstraint_effect: "bd_inv bd \<Longrightarrow> AddConstraint c bd = Inr r \<Longrightarrow> bd_effect bd r"
  by (auto simp: AddConstraint_def bd_effect_def bd_inv_def split: if_splits)

lemma unsafeDelete_effect:
  "bd_inv bd \<Longrightarrow> bd_retentionConstraints bd = [] \<Longrightarrow> unsafeDelete bd = Inr r \<Longrightarrow> bd_effect bd r"
  by (auto simp: unsafeDelete_def bd_effect_def bd_inv_def split: if_splits)

lemma RemoveConstraint_effect: "bd_inv bd \<Longrightarrow> RemoveConstraint c bd = Inr r \<Longrightarrow> bd_effect bd r"
  by (auto simp: RemoveConstraint_def keep_constraints_eq Let_def delete_ignoring_def unsafeDelete_def
      bd_effect_def bd_inv_def filter_empty_conv split: if_splits)

lemma ResetConstraints_effect: "bd_inv bd \<Longrightarrow> ResetConstraints bd = Inr r \<Longrightarrow> bd_effect bd r"
  by (auto simp: ResetConstraints_def Let_def delete_ignoring_def unsafeDelete_def bd_effect_def bd_inv_def
      split: if_splits)

lemma Delete_effect: "bd_inv bd \<Longrightarrow> Delete m bd = Inr r \<Longrightarrow> bd_effect bd r"
  by (auto simp: Delete_def unsafeDelete_def bd_effect_def bd_inv_def split: if_splits)

text \<open>
  The contract all these operations share towards the store, and the operations that fulfil it.
\<close>

locale descriptor_op =
  fixes f :: "BundleDescriptor \<Rightarrow> bd_result"
  assumes effect: "bd_inv bd \<Longrightarrow> f bd = Inr r \<Longrightarrow> bd_effect bd r"

interpretation add_op: descriptor_op "AddConstraint c" for c
  by unfold_locales (rule AddConstraint_effect)

interpretation remove_op: descriptor_op "RemoveConstraint c" for c
  by unfold_locales (rule RemoveConstraint_effect)

interpretation reset_op: descriptor_op ResetConstraints
  by unfold_locales (rule ResetConstraints_effect)

interpretation delete_op: descriptor_op "Delete m" for m
  by unfold_locales (rule Delete_effect)

section \<open>Correctness\<close>

text \<open>
  Removing a constraint removes every occurrence of it and nothing else; afterwards the bundle is
  retained iff a constraint is left, dispatchable iff it is not being forwarded, and a bundle marked
  for deletion whose last constraint went is deleted and its deletion started.
\<close>

lemma RemoveConstraint_correct:
  assumes "bd_inv bd" "\<not> bd_deleted bd"
  shows "\<exists>bd' spawned. RemoveConstraint c bd = Inr (bd', spawned) \<and> bd_inv bd' \<and>
    bd_retentionConstraints bd' = filter (\<lambda>e. e \<noteq> c) (bd_retentionConstraints bd) \<and>
    bd_deleted bd' = (bd_shouldDelete bd \<and> bd_retentionConstraints bd' = []) \<and>
    spawned = (if bd_deleted bd' then [bd_metadata bd] else [])"
proof -
  obtain bd' spawned where r: "RemoveConstraint c bd = Inr (bd', spawned)"
    using assms(2) by (auto simp: RemoveConstraint_def Let_def keep_constraints_eq) (metis surj_pair)
  have "bd_retentionConstraints bd' = filter (\<lambda>e. e \<noteq> c) (bd_retentionConstraints bd)"
    "bd_deleted bd' = (bd_shouldDelete bd \<and> bd_retentionConstraints bd' = [])"
    using r assms(2) by (auto simp: RemoveConstraint_def Let_def keep_constraints_eq delete_ignoring_def
        unsafeDelete_def split: if_splits)
  then show ?thesis using r remove_op.effect [OF assms(1) r] assms(2) by (auto simp: bd_effect_def)
qed

definition example_metadata :: BundleMetadata where
  "example_metadata =
     \<lparr>md_ID = Bundle_ID example_bundle, md_Source = DtnNone, md_Destination = DtnNone, md_ReportTo = DtnNone,
      md_IsAdministrativeRecord = False, md_MiscellaneousData = Map.empty,
      md_IDString = Bundle_String example_bundle, md_KnownHolders = [], md_Expires = 0, md_SerialisedFileName = []\<rparr>"

text \<open>
  A bundle with a retention constraint is never deleted: \<open>Delete\<close> either refuses or only marks
  it, and the mark takes effect when the constraints are gone.
\<close>

lemma Delete_respects_constraints:
  assumes "bd_retentionConstraints bd \<noteq> []"
  shows "Delete False bd = Inl (HasConstraintsError (bd_retentionConstraints bd)) \<and>
    Delete True bd = Inr (bd\<lparr>bd_shouldDelete := True\<rparr>, []) \<and>
    (bd_deleted bd \<or> (\<exists>bd'. ResetConstraints (bd\<lparr>bd_shouldDelete := True\<rparr>) = Inr (bd', [bd_metadata bd]) \<and> bd_deleted bd'))"
  using assms by (auto simp: Delete_def ResetConstraints_def Let_def delete_ignoring_def unsafeDelete_def)

end
