(* ===== verification/Store.thy ===== *)
theory Store
  imports Descriptor Sha256
begin

text \<open>
  The bundle store (\<open>pkg/store/store.go\<close> and the descriptor operations that write its database).
  The metadata database \<open>badgerhold\<close> is a third-party package: the record \<open>badgerhold\<close> of the
  operations the store calls is a parameter, its documented behaviour is the locale \<open>badger\<close>, and an
  association list is an instance. Files are a map from names to contents. Descriptors are shared by
  reference: the state has a heap of them, and \<open>bundles\<close> maps identifiers to heap addresses. The
  goroutines \<open>deleteBundle\<close> that have been started and not yet run are a list in the state. Every
  operation holds the store's or a descriptor's mutex and is one step of the system.
\<close>

section \<open>The metadata database\<close>

record 'db badgerhold =
  db_Insert :: "string \<Rightarrow> BundleMetadata \<Rightarrow> 'db \<Rightarrow> 'db res"
  db_Update :: "string \<Rightarrow> BundleMetadata \<Rightarrow> 'db \<Rightarrow> 'db res"
  db_Delete :: "string \<Rightarrow> 'db \<Rightarrow> 'db res"
  db_Find :: "'db \<Rightarrow> BundleMetadata list res"

text \<open>
  \<open>Insert\<close> fails iff the key exists, \<open>Update\<close> and \<open>Delete\<close> fail iff it does not, and the empty
  query finds every record; \<open>get\<close> is the content of a database.
\<close>

locale badger =
  fixes D :: "'db badgerhold" and get :: "'db \<Rightarrow> string \<rightharpoonup> BundleMetadata"
  assumes insert_new: "get db k = None \<Longrightarrow> \<exists>db'. db_Insert D k m db = Inr db' \<and> get db' = (get db)(k \<mapsto> m)"
    and insert_exists: "get db k = Some m' \<Longrightarrow> \<exists>e. db_Insert D k m db = Inl e"
    and update_exists: "get db k = Some m' \<Longrightarrow> \<exists>db'. db_Update D k m db = Inr db' \<and> get db' = (get db)(k \<mapsto> m)"
    and update_missing: "get db k = None \<Longrightarrow> \<exists>e. db_Update D k m db = Inl e"
    and delete_exists: "get db k = Some m' \<Longrightarrow> \<exists>db'. db_Delete D k db = Inr db' \<and> get db' = (get db)(k := None)"
    and delete_missing: "get db k = None \<Longrightarrow> \<exists>e. db_Delete D k db = Inl e"
    and find_all: "\<exists>ks. distinct ks \<and> set ks = dom (get db) \<and> db_Find D db = Inr (map (\<lambda>k. the (get db k)) ks)"

definition alist_db :: "(string \<times> BundleMetadata) list badgerhold" where
  "alist_db = \<lparr>
     db_Insert = (\<lambda>k m db. if map_of db k = None then Inr ((k, m) # db) else Inl (Errorf ''key exists'')),
     db_Update = (\<lambda>k m db. if map_of db k = None then Inl (Errorf ''not found'') else Inr ((k, m) # db)),
     db_Delete = (\<lambda>k db. if map_of db k = None then Inl (Errorf ''not found'') else Inr (filter (\<lambda>(k', _). k' \<noteq> k) db)),
     db_Find = (\<lambda>db. Inr (map (\<lambda>k. the (map_of db k)) (remdups (map fst db))))\<rparr>"

lemma map_of_filter_key: "map_of (filter (\<lambda>(k', _). k' \<noteq> k) db) = (map_of db)(k := None)"
  by (induction db) auto

interpretation alist: badger alist_db map_of
proof unfold_locales
  fix db :: "(string \<times> BundleMetadata) list"
  show "\<exists>ks. distinct ks \<and> set ks = dom (map_of db) \<and> db_Find alist_db db = Inr (map (\<lambda>k. the (map_of db k)) ks)"
    by (intro exI [of _ "remdups (map fst db)"]) (simp add: alist_db_def dom_map_of_conv_image_fst)
qed (auto simp: alist_db_def map_of_filter_key)

section \<open>The state\<close>

record 'db BundleStore =
  bst_nodeID :: EndpointID
  bst_metadataStore :: 'db
  bst_files :: "string \<rightharpoonup> bytes"
  bst_bundles :: "BundleID \<rightharpoonup> nat"
  bst_heap :: "nat \<rightharpoonup> BundleDescriptor"
  bst_next :: nat
  bst_pending :: "BundleMetadata list"

text \<open>What the operating system does in one call: whether a file can be created, whether its contents
  can be written, and what a failed write leaves in it.\<close>

record io_env =
  create_ok :: bool
  flush_ok :: bool
  left_over :: bytes

definition file_name :: "string \<Rightarrow> string" where
  "file_name idString = fmt_x (Sum256 (bytes_of idString))"

section \<open>Opening the store\<close>

text \<open>\<open>loadAll\<close> and the loop of \<open>InitialiseStore\<close> over the descriptors it returns.\<close>

fun load_descriptors :: "BundleMetadata list \<Rightarrow> 'db BundleStore \<Rightarrow> 'db BundleStore" where
  "load_descriptors [] st = st"
| "load_descriptors (metadata # ms) st =
     load_descriptors ms (st\<lparr>
       bst_heap := (bst_heap st)(bst_next st \<mapsto> NewBundleDescriptor metadata),
       bst_bundles := (bst_bundles st)(md_ID metadata \<mapsto> bst_next st),
       bst_next := bst_next st + 1\<rparr>)"

definition InitialiseStore ::
    "'db badgerhold \<Rightarrow> EndpointID \<Rightarrow> 'db \<Rightarrow> (string \<rightharpoonup> bytes) \<Rightarrow> 'db BundleStore res" where
  "InitialiseStore D nodeID db files =
     bindR (db_Find D db) (\<lambda>ms. Inr (load_descriptors ms
       \<lparr>bst_nodeID = nodeID, bst_metadataStore = db, bst_files = files, bst_bundles = Map.empty,
        bst_heap = Map.empty, bst_next = 0, bst_pending = []\<rparr>))"

section \<open>Queries\<close>

definition GetBundleDescriptor :: "BundleID \<Rightarrow> 'db BundleStore \<Rightarrow> store_err + nat" where
  "GetBundleDescriptor bundleId st =
     (case bst_bundles st bundleId of
        None \<Rightarrow> Inl (NoSuchBundleError bundleId)
      | Some p \<Rightarrow> (case bst_heap st p of
          None \<Rightarrow> Inl (OtherError (Panic ''dangling descriptor''))
        | Some bd \<Rightarrow> if Deleted bd then Inl (NoSuchBundleError bundleId) else Inr p))"

text \<open>A loop over the map of bundles, in the order of the keys given.\<close>

definition descriptors :: "BundleID list \<Rightarrow> 'db BundleStore \<Rightarrow> (nat \<times> BundleDescriptor) list" where
  "descriptors order st =
     List.map_filter (\<lambda>bid. Option.bind (bst_bundles st bid)
       (\<lambda>p. map_option (Pair p) (bst_heap st p))) order"

definition GetWithConstraint :: "Constraint \<Rightarrow> BundleID list \<Rightarrow> 'db BundleStore \<Rightarrow> nat list" where
  "GetWithConstraint constraint order st =
     map fst (filter (\<lambda>(p, bd). HasConstraint constraint bd = Inr True) (descriptors order st))"

definition GetDispatchable :: "BundleID list \<Rightarrow> 'db BundleStore \<Rightarrow> nat list" where
  "GetDispatchable order st = map fst (filter (\<lambda>(p, bd). Dispatch bd) (descriptors order st))"

text \<open>
  \<open>loadEntireBundle\<close> drops the error of \<open>ParseBundle\<close>: after a decoding error or a failed validity
  check it returns what has been decoded so far. \<open>None\<close> stands for such an incomplete bundle.
\<close>

definition loadEntireBundle ::
    "cboring \<Rightarrow> ExtensionBlockManager \<Rightarrow> time \<Rightarrow> string \<Rightarrow> 'db BundleStore \<Rightarrow> store_err + Bundle option" where
  "loadEntireBundle L ebm now filename st =
     (case bst_files st filename of
        None \<Rightarrow> Inl (OtherError (Errorf ''no such file''))
      | Some content \<Rightarrow> (case ParseBundle L ebm now content of
          Inr (b, _) \<Rightarrow> Inr (Some b)
        | Inl e \<Rightarrow> if is_panic e then Inl (OtherError e) else Inr None))"

definition Load ::
    "cboring \<Rightarrow> ExtensionBlockManager \<Rightarrow> time \<Rightarrow> nat \<Rightarrow> 'db BundleStore \<Rightarrow> store_err + Bundle option" where
  "Load L ebm now p st =
     (case bst_heap st p of
        None \<Rightarrow> Inl (OtherError (Panic ''dangling descriptor''))
      | Some bd \<Rightarrow> if bd_deleted bd then Inl (BundleDeletedError (bd_ID bd))
          else loadEntireBundle L ebm now (md_SerialisedFileName (bd_metadata bd)) st)"

section \<open>Changes\<close>

definition updateBundleMetadata :: "'db badgerhold \<Rightarrow> BundleMetadata \<Rightarrow> 'db BundleStore \<Rightarrow> 'db BundleStore res" where
  "updateBundleMetadata D m st =
     bindR (db_Update D (md_IDString m) m (bst_metadataStore st)) (\<lambda>db. Inr (st\<lparr>bst_metadataStore := db\<rparr>))"

text \<open>An operation of a descriptor at address \<open>p\<close> that does not touch the database.\<close>

definition on_descriptor ::
    "(BundleDescriptor \<Rightarrow> bd_result) \<Rightarrow> nat \<Rightarrow> 'db BundleStore \<Rightarrow> (store_err + unit) \<times> 'db BundleStore" where
  "on_descriptor f p st =
     (case bst_heap st p of
        None \<Rightarrow> (Inl (OtherError (Panic ''dangling descriptor'')), st)
      | Some bd \<Rightarrow> (case f bd of
          Inl e \<Rightarrow> (Inl e, st)
        | Inr (bd', spawned) \<Rightarrow>
            (Inr (), st\<lparr>bst_heap := (bst_heap st)(p \<mapsto> bd'), bst_pending := bst_pending st @ spawned\<rparr>)))"

definition set_metadata :: "nat \<Rightarrow> BundleDescriptor \<Rightarrow> BundleMetadata \<Rightarrow> 'db BundleStore \<Rightarrow> 'db BundleStore" where
  "set_metadata p bd m st = st\<lparr>bst_heap := (bst_heap st)(p \<mapsto> bd\<lparr>bd_metadata := m\<rparr>)\<rparr>"

definition AddKnownHolder ::
    "'db badgerhold \<Rightarrow> EndpointID list \<Rightarrow> nat \<Rightarrow> 'db BundleStore \<Rightarrow> (store_err + unit) \<times> 'db BundleStore" where
  "AddKnownHolder D peers p st =
     (case bst_heap st p of
        None \<Rightarrow> (Inl (OtherError (Panic ''dangling descriptor'')), st)
      | Some bd \<Rightarrow>
          if bd_deleted bd then (Inl (BundleDeletedError (bd_ID bd)), st) else
          let m = (bd_metadata bd)\<lparr>md_KnownHolders := md_KnownHolders (bd_metadata bd) @ peers\<rparr>;
              st = set_metadata p bd m st
          in (Inr (), case updateBundleMetadata D m st of Inl _ \<Rightarrow> st | Inr st' \<Rightarrow> st'))"

definition SetMiscData ::
    "'db badgerhold \<Rightarrow> string \<Rightarrow> misc \<Rightarrow> nat \<Rightarrow> 'db BundleStore \<Rightarrow> (store_err + unit) \<times> 'db BundleStore" where
  "SetMiscData D key val p st =
     (case bst_heap st p of
        None \<Rightarrow> (Inl (OtherError (Panic ''dangling descriptor'')), st)
      | Some bd \<Rightarrow>
          let m = (bd_metadata bd)\<lparr>md_MiscellaneousData := (md_MiscellaneousData (bd_metadata bd))(key \<mapsto> val)\<rparr>;
              st = set_metadata p bd m st
          in (case updateBundleMetadata D m st of Inl e \<Rightarrow> (Inl (OtherError e), st) | Inr st' \<Rightarrow> (Inr (), st')))"

definition deleteFromDiskUnsafe ::
    "'db badgerhold \<Rightarrow> BundleMetadata \<Rightarrow> 'db BundleStore \<Rightarrow> err list \<times> 'db BundleStore" where
  "deleteFromDiskUnsafe D m st =
     (let (dbErr, st) = (case db_Delete D (md_IDString m) (bst_metadataStore st) of
            Inl e \<Rightarrow> ([e], st) | Inr db \<Rightarrow> ([], st\<lparr>bst_metadataStore := db\<rparr>));
          (fErr, st) = (case bst_files st (md_SerialisedFileName m) of
            None \<Rightarrow> ([Errorf ''remove: no such file''], st)
          | Some _ \<Rightarrow> ([], st\<lparr>bst_files := (bst_files st)(md_SerialisedFileName m := None)\<rparr>))
      in (dbErr @ fErr, st))"

definition deleteBundle :: "'db badgerhold \<Rightarrow> BundleMetadata \<Rightarrow> 'db BundleStore \<Rightarrow> 'db BundleStore" where
  "deleteBundle D m st =
     snd (deleteFromDiskUnsafe D m (st\<lparr>bst_bundles := (bst_bundles st)(md_ID m := None)\<rparr>))"

definition previous_node :: "Bundle \<Rightarrow> EndpointID option res" where
  "previous_node bundle =
     (case ExtensionBlockByType bundle BlockTypePreviousNodeBlock of
        Inl _ \<Rightarrow> Inr None
      | Inr i \<Rightarrow> (case cb_Value (bndl_ExtensionBlocks bundle ! i) of
          PreviousNodeBlock e \<Rightarrow> Inr (Some e)
        | _ \<Rightarrow> Inl (Panic ''interface conversion: not a PreviousNodeBlock'')))"

definition new_metadata :: "EndpointID \<Rightarrow> Bundle \<Rightarrow> EndpointID option \<Rightarrow> BundleMetadata" where
  "new_metadata nodeID bundle prev =
     (let pb = bndl_PrimaryBlock bundle in
      \<lparr>md_ID = Bundle_ID bundle, md_Source = pb_SourceNode pb, md_Destination = pb_Destination pb,
       md_ReportTo = pb_ReportTo pb, md_IsAdministrativeRecord = IsAdministrativeRecord bundle,
       md_MiscellaneousData = Map.empty, md_IDString = Bundle_String bundle,
       md_KnownHolders = nodeID # (case prev of None \<Rightarrow> [] | Some e \<Rightarrow> [e]),
       md_Expires = DtnTime_Time (CreationTimestamp_DtnTime (pb_CreationTimestamp pb)) +
                    lifetime_duration (pb_Lifetime pb),
       md_SerialisedFileName = file_name (Bundle_String bundle)\<rparr>)"

definition insertNewBundleUnsafe ::
    "cboring \<Rightarrow> 'db badgerhold \<Rightarrow> io_env \<Rightarrow> Bundle \<Rightarrow> 'db BundleStore \<Rightarrow> (store_err + nat) \<times> 'db BundleStore" where
  "insertNewBundleUnsafe L D env bundle st =
     (case previous_node bundle of Inl e \<Rightarrow> (Inl (OtherError e), st) | Inr prev \<Rightarrow>
      let metadata = new_metadata (bst_nodeID st) bundle prev;
          file = md_SerialisedFileName metadata
      in case db_Insert D (md_IDString metadata) metadata (bst_metadataStore st) of
           Inl e \<Rightarrow> (Inl (OtherError e), st)
         | Inr db \<Rightarrow>
           let st = st\<lparr>bst_metadataStore := db\<rparr> in
           if \<not> create_ok env then
             (case deleteFromDiskUnsafe D metadata st of (delErr, st) \<Rightarrow>
                (Inl (OtherError (Multi (Errorf ''cannot create file'' # delErr))), st))
           else case Bundle_MarshalCbor L bundle of
             Inl e \<Rightarrow> (Inl (OtherError e), st\<lparr>bst_files := (bst_files st)(file \<mapsto> left_over env)\<rparr>)
           | Inr (content, _) \<Rightarrow>
             if \<not> flush_ok env
             then (Inl (OtherError (Errorf ''cannot write file'')),
                   st\<lparr>bst_files := (bst_files st)(file \<mapsto> left_over env)\<rparr>)
             else (Inr (bst_next st),
                   st\<lparr>bst_files := (bst_files st)(file \<mapsto> content),
                      bst_heap := (bst_heap st)(bst_next st \<mapsto> NewBundleDescriptor metadata),
                      bst_bundles := (bst_bundles st)(Bundle_ID bundle \<mapsto> bst_next st),
                      bst_next := bst_next st + 1\<rparr>))"

definition InsertBundle ::
    "cboring \<Rightarrow> 'db badgerhold \<Rightarrow> io_env \<Rightarrow> Bundle \<Rightarrow> 'db BundleStore \<Rightarrow> (store_err + nat) \<times> 'db BundleStore" where
  "InsertBundle L D env bundle st =
     (case bst_bundles st (Bundle_ID bundle) of
        None \<Rightarrow> insertNewBundleUnsafe L D env bundle st
      | Some p \<Rightarrow> (case previous_node bundle of
          Inl e \<Rightarrow> (Inl (OtherError e), st)
        | Inr None \<Rightarrow> (Inr p, st)
        | Inr (Some e) \<Rightarrow> (case AddKnownHolder D [e] p st of
            (Inl err, st') \<Rightarrow> (Inl err, st') | (Inr _, st') \<Rightarrow> (Inr p, st'))))"

text \<open>The loop of \<open>GarbageCollect\<close> over the map, in the order of the keys given.\<close>

fun GarbageCollect :: "time \<Rightarrow> BundleID list \<Rightarrow> 'db BundleStore \<Rightarrow> 'db BundleStore" where
  "GarbageCollect now [] st = st"
| "GarbageCollect now (bid # order) st =
     GarbageCollect now order
       (case bst_bundles st bid of
          None \<Rightarrow> st
        | Some p \<Rightarrow> (case bst_heap st p of
            None \<Rightarrow> st
          | Some bd \<Rightarrow> if Expired now bd \<and> \<not> Retain bd then snd (on_descriptor (Delete False) p st) else st))"

section \<open>The store invariant\<close>

definition md_ok :: "BundleMetadata \<Rightarrow> bool" where
  "md_ok m \<longleftrightarrow> md_IDString m = BundleID_String (md_ID m) \<and> md_SerialisedFileName m = file_name (md_IDString m)"

text \<open>Descriptors on the heap are consistent, and those that are not deleted are the ones in the map.\<close>

definition inv_heap :: "'db BundleStore \<Rightarrow> bool" where
  "inv_heap st \<longleftrightarrow> (\<forall>p bd. bst_heap st p = Some bd \<longrightarrow>
     p < bst_next st \<and> bd_inv bd \<and> md_ok (bd_metadata bd) \<and>
     (\<not> bd_deleted bd \<longrightarrow> bst_bundles st (bd_ID bd) = Some p))"

text \<open>The map leads to descriptors of its keys, and the database holds their metadata.\<close>

definition inv_map :: "('db \<Rightarrow> string \<rightharpoonup> BundleMetadata) \<Rightarrow> 'db BundleStore \<Rightarrow> bool" where
  "inv_map get st \<longleftrightarrow> (\<forall>bid p. bst_bundles st bid = Some p \<longrightarrow>
     (\<exists>bd. bst_heap st p = Some bd \<and> bd_ID bd = bid \<and>
        get (bst_metadataStore st) (BundleID_String bid) = Some (bd_metadata bd)))"

text \<open>The deletions under way are exactly those of the deleted descriptors in the map, once each.\<close>

definition deleted_in_map :: "'db BundleStore \<Rightarrow> BundleID \<Rightarrow> bool" where
  "deleted_in_map st bid \<longleftrightarrow> (\<exists>p bd. bst_bundles st bid = Some p \<and> bst_heap st p = Some bd \<and> bd_deleted bd)"

definition inv_pending :: "'db BundleStore \<Rightarrow> bool" where
  "inv_pending st \<longleftrightarrow> distinct (map md_ID (bst_pending st)) \<and> (\<forall>m \<in> set (bst_pending st). md_ok m) \<and>
     md_ID ` set (bst_pending st) = {bid. deleted_in_map st bid}"

text \<open>The records of the database are filed under their own keys.\<close>

definition inv_db :: "('db \<Rightarrow> string \<rightharpoonup> BundleMetadata) \<Rightarrow> 'db \<Rightarrow> bool" where
  "inv_db get db \<longleftrightarrow> (\<forall>k m. get db k = Some m \<longrightarrow> md_ok m \<and> md_IDString m = k)"

definition inv_ids :: "'db BundleStore \<Rightarrow> bool" where
  "inv_ids st \<longleftrightarrow> (\<forall>bid p. bst_bundles st bid = Some p \<longrightarrow> (\<exists>bd. bst_heap st p = Some bd \<and> bd_ID bd = bid))"

text \<open>What does not depend on the content of the database.\<close>

definition store_core :: "'db BundleStore \<Rightarrow> bool" where
  "store_core st \<longleftrightarrow> inv_heap st \<and> inv_ids st \<and> inv_pending st"

definition store_inv :: "('db \<Rightarrow> string \<rightharpoonup> BundleMetadata) \<Rightarrow> 'db BundleStore \<Rightarrow> bool" where
  "store_inv get st \<longleftrightarrow> inv_heap st \<and> inv_map get st \<and> inv_pending st \<and> inv_db get (bst_metadataStore st)"

lemma inv_heapD:
  assumes "inv_heap st" "bst_heap st p = Some bd"
  shows "p < bst_next st" "bd_inv bd" "md_ok (bd_metadata bd)" "\<not> bd_deleted bd \<Longrightarrow> bst_bundles st (bd_ID bd) = Some p"
  using assms by (auto simp: inv_heap_def)

lemma inv_mapE:
  assumes "inv_map get st" "bst_bundles st bid = Some p"
  obtains bd where "bst_heap st p = Some bd" "bd_ID bd = bid"
    "get (bst_metadataStore st) (BundleID_String bid) = Some (bd_metadata bd)"
  using assms by (auto simp: inv_map_def)

text \<open>
  A descriptor that a client still holds after its bundle was deleted and inserted again can write to the database
  record of the new descriptor, since \<open>SetMiscData\<close> does not look at the deletion. What then remains of the invariant: the
  bundles in the map have different keys, and under each there is a record, the metadata of some descriptor that has
  been handed out.
\<close>

definition inv_records :: "('db \<Rightarrow> string \<rightharpoonup> BundleMetadata) \<Rightarrow> 'db BundleStore \<Rightarrow> bool" where
  "inv_records get st \<longleftrightarrow> inj_on BundleID_String (dom (bst_bundles st)) \<and>
     (\<forall>bid \<in> dom (bst_bundles st). \<exists>q bd. bst_heap st q = Some bd \<and>
        get (bst_metadataStore st) (BundleID_String bid) = Some (bd_metadata bd))"

definition store_safe :: "('db \<Rightarrow> string \<rightharpoonup> BundleMetadata) \<Rightarrow> 'db BundleStore \<Rightarrow> bool" where
  "store_safe get st \<longleftrightarrow> store_core st \<and> inv_records get st \<and> inv_db get (bst_metadataStore st)"

lemma inv_idsE:
  assumes "inv_ids st" "bst_bundles st bid = Some p"
  obtains bd where "bst_heap st p = Some bd" "bd_ID bd = bid"
  using assms by (auto simp: inv_ids_def)

lemma inv_map_ids: "inv_map get st \<Longrightarrow> inv_ids st"
  by (fastforce simp: inv_map_def inv_ids_def)

lemma store_inv_core: "store_inv get st \<longleftrightarrow> store_core st \<and> inv_map get st \<and> inv_db get (bst_metadataStore st)"
  using inv_map_ids by (auto simp: store_inv_def store_core_def)

text \<open>Two bundles in the map have different keys in the database.\<close>

lemma inv_map_keys:
  assumes "inv_map get st" "bst_bundles st a = Some p" "bst_bundles st b = Some q" "BundleID_String a = BundleID_String b"
  shows "a = b"
proof -
  obtain bd where "bd_ID bd = a" "get (bst_metadataStore st) (BundleID_String a) = Some (bd_metadata bd)"
    using inv_mapE [OF assms(1,2)] by metis
  moreover obtain bd' where "bd_ID bd' = b" "get (bst_metadataStore st) (BundleID_String b) = Some (bd_metadata bd')"
    using inv_mapE [OF assms(1,3)] by metis
  ultimately show ?thesis using assms(4) by (simp add: bd_ID_def)
qed

lemma store_inv_safe: "store_inv get st \<Longrightarrow> store_safe get st"
proof -
  assume inv: "store_inv get st"
  then have m: "inv_map get st" by (simp add: store_inv_def)
  have "inj_on BundleID_String (dom (bst_bundles st))"
    by (intro inj_onI) (auto dest: inv_map_keys [OF m])
  moreover have "\<exists>q bd. bst_heap st q = Some bd \<and> get (bst_metadataStore st) (BundleID_String bid) = Some (bd_metadata bd)"
    if "bid \<in> dom (bst_bundles st)" for bid using that inv_mapE [OF m] by (metis domIff not_Some_eq)
  ultimately show ?thesis using inv by (simp add: store_inv_core store_safe_def inv_records_def)
qed

text \<open>Both are about the metadata of the descriptors only.\<close>

definition same_metadata :: "'db BundleStore \<Rightarrow> 'db BundleStore \<Rightarrow> bool" where
  "same_metadata st st' \<longleftrightarrow> bst_bundles st' = bst_bundles st \<and> bst_metadataStore st' = bst_metadataStore st \<and>
     (\<forall>q. map_option bd_metadata (bst_heap st' q) = map_option bd_metadata (bst_heap st q))"

lemma same_metadataE:
  assumes "same_metadata st st'" "bst_heap st q = Some bd"
  obtains bd' where "bst_heap st' q = Some bd'" "bd_metadata bd' = bd_metadata bd"
  using assms unfolding same_metadata_def by (metis (no_types, lifting) map_option_eq_Some option.simps(9))

lemma same_metadata_map:
  assumes "same_metadata st st'" "inv_map get st"
  shows "inv_map get st'"
  unfolding inv_map_def
proof (intro allI impI)
  fix bid p assume "bst_bundles st' bid = Some p"
  then have p: "bst_bundles st bid = Some p" using assms(1) by (simp add: same_metadata_def)
  obtain bd where bd: "bst_heap st p = Some bd" "bd_ID bd = bid" "get (bst_metadataStore st) (BundleID_String bid) = Some (bd_metadata bd)"
    using inv_mapE [OF assms(2) p] .
  obtain bd' where "bst_heap st' p = Some bd'" "bd_metadata bd' = bd_metadata bd" using same_metadataE [OF assms(1) bd(1)] .
  then show "\<exists>bd. bst_heap st' p = Some bd \<and> bd_ID bd = bid \<and> get (bst_metadataStore st') (BundleID_String bid) = Some (bd_metadata bd)"
    using bd assms(1) by (simp add: same_metadata_def bd_ID_def)
qed

lemma same_metadata_records:
  assumes "same_metadata st st'" "inv_records get st"
  shows "inv_records get st'"
  unfolding inv_records_def
proof (intro conjI ballI)
  have eq: "bst_bundles st' = bst_bundles st" "bst_metadataStore st' = bst_metadataStore st"
    using assms(1) by (simp_all add: same_metadata_def)
  show "inj_on BundleID_String (dom (bst_bundles st'))" using assms(2) by (simp add: eq inv_records_def)
  fix bid assume "bid \<in> dom (bst_bundles st')"
  then obtain q bd where q: "bst_heap st q = Some bd" "get (bst_metadataStore st) (BundleID_String bid) = Some (bd_metadata bd)"
    using assms(2) unfolding eq inv_records_def by blast
  then show "\<exists>q bd. bst_heap st' q = Some bd \<and> get (bst_metadataStore st') (BundleID_String bid) = Some (bd_metadata bd)"
    using same_metadataE [OF assms(1) q(1)] unfolding eq by metis
qed

lemma on_descriptor_cases:
  obtains "snd (on_descriptor f p st) = st"
  | bd bd' sp where "bst_heap st p = Some bd" "f bd = Inr (bd', sp)"
    "snd (on_descriptor f p st) = st\<lparr>bst_heap := (bst_heap st)(p \<mapsto> bd'), bst_pending := bst_pending st @ sp\<rparr>"
proof (cases "bst_heap st p")
  case None
  then show thesis using that(1) by (simp add: on_descriptor_def)
next
  case (Some bd)
  then show thesis
  proof (cases "f bd")
    case (Inl e)
    then show thesis using that(1) Some by (simp add: on_descriptor_def)
  next
    case (Inr r)
    then show thesis using that(2) [OF Some] Some by (cases r) (simp add: on_descriptor_def)
  qed
qed

context descriptor_op
begin

lemma on_descriptor_core:
  assumes "store_core st"
  shows "store_core (snd (on_descriptor f p st)) \<and> same_metadata st (snd (on_descriptor f p st))"
proof (cases rule: on_descriptor_cases [of f p st])
  case 1
  then show ?thesis using assms by (simp add: same_metadata_def)
next
  case yes: (2 bd bd' sp)
  have inv: "inv_heap st" "inv_ids st" "inv_pending st" using assms by (simp_all add: store_core_def)
  note h = inv_heapD [OF inv(1) yes(1)]
  have eff: "bd_inv bd'" "bd_metadata bd' = bd_metadata bd" "bd_deleted bd \<longrightarrow> bd_deleted bd'"
    "sp = (if bd_deleted bd' \<and> \<not> bd_deleted bd then [bd_metadata bd] else [])"
    using effect [OF h(2) yes(2)] by (auto simp: bd_effect_def)
  have id: "bd_ID bd' = bd_ID bd" using eff(2) by (simp add: bd_ID_def)
  let ?st = "st\<lparr>bst_heap := (bst_heap st)(p \<mapsto> bd'), bst_pending := bst_pending st @ sp\<rparr>"
  have "inv_heap ?st" using inv(1) h eff id by (auto simp: inv_heap_def)
  moreover have "inv_ids ?st" using inv(2) yes(1) id by (fastforce simp: inv_ids_def)
  moreover have "inv_pending ?st"
  proof -
    have del: "deleted_in_map ?st bid \<longleftrightarrow> deleted_in_map st bid \<or> (bst_bundles st bid = Some p \<and> bd_deleted bd')" for bid
      using yes(1) eff(3) by (auto simp: deleted_in_map_def)
    show ?thesis
    proof (cases "bd_deleted bd' \<and> \<not> bd_deleted bd")
      case True
      have m: "bst_bundles st (bd_ID bd) = Some p" using h(4) True by simp
      have "bst_bundles st bid = Some p \<longleftrightarrow> bid = bd_ID bd" for bid
        using inv_idsE [OF inv(2), of bid p] m yes(1) by (metis option.inject)
      then have "{bid. deleted_in_map ?st bid} = insert (bd_ID bd) {bid. deleted_in_map st bid}"
        using del True by blast
      moreover have "\<not> deleted_in_map st (bd_ID bd)" using True yes(1) m by (auto simp: deleted_in_map_def)
      ultimately show ?thesis using inv(3) True eff(4) h(3) unfolding inv_pending_def bd_ID_def by auto
    next
      case False
      then have "deleted_in_map ?st bid = deleted_in_map st bid" for bid
        using del eff(3) yes(1) by (auto simp: deleted_in_map_def)
      moreover have "sp = []" using False eff(4) by auto
      ultimately show ?thesis using inv(3) by (simp add: inv_pending_def)
    qed
  qed
  ultimately show ?thesis using yes eff(2) by (simp add: store_core_def same_metadata_def)
qed

lemma on_descriptor_inv:
  assumes "store_inv get st"
  shows "store_inv get (snd (on_descriptor f p st))"
  using assms on_descriptor_core [of st p] same_metadata_map [of st "snd (on_descriptor f p st)" get]
  by (simp add: store_inv_core same_metadata_def)

lemma on_descriptor_safe:
  assumes "store_safe get st"
  shows "store_safe get (snd (on_descriptor f p st))"
  using assms on_descriptor_core [of st p] same_metadata_records [of st "snd (on_descriptor f p st)" get]
  by (simp add: store_safe_def same_metadata_def)

end

lemma deleted_in_map_cong:
  assumes "\<And>bid. bst_bundles st' bid = bst_bundles st bid"
    "\<And>p. map_option bd_deleted (bst_heap st' p) = map_option bd_deleted (bst_heap st p)"
  shows "deleted_in_map st' bid = deleted_in_map st bid"
proof -
  have "(\<exists>bd. bst_heap st' p = Some bd \<and> bd_deleted bd) = (\<exists>bd. bst_heap st p = Some bd \<and> bd_deleted bd)" for p
    using assms(2) [of p] by (cases "bst_heap st p"; cases "bst_heap st' p") auto
  then show ?thesis unfolding deleted_in_map_def assms(1) by blast
qed

text \<open>The descriptor at an address gets new metadata of the same bundle; the database may change in any way.\<close>

lemma set_metadata_core:
  assumes core: "store_core st" and p: "bst_heap st p = Some bd" and m: "md_ID m = md_ID (bd_metadata bd)" "md_ok m"
    and st': "bst_heap st' = (bst_heap st)(p \<mapsto> bd\<lparr>bd_metadata := m\<rparr>)" "bst_bundles st' = bst_bundles st"
      "bst_next st' = bst_next st" "bst_pending st' = bst_pending st"
  shows "store_core st'"
proof -
  have i: "inv_heap st" "inv_ids st" "inv_pending st" using core by (simp_all add: store_core_def)
  have id: "bd_ID (bd\<lparr>bd_metadata := m\<rparr>) = bd_ID bd" using m by (simp add: bd_ID_def)
  have "inv_heap st'" using i(1) inv_heapD [OF i(1) p] id m(2) by (auto simp: inv_heap_def bd_inv_def st')
  moreover have "inv_ids st'" using i(2) p id by (fastforce simp: inv_ids_def st')
  moreover have "deleted_in_map st' bid = deleted_in_map st bid" for bid
    using p st' by (intro deleted_in_map_cong) auto
  then have "inv_pending st'" using i(3) by (simp add: inv_pending_def st')
  ultimately show ?thesis by (simp add: store_core_def)
qed

lemma insert_core:
  assumes core: "store_core st" and new: "bst_bundles st (md_ID m) = None" and m: "md_ok m"
    and st': "bst_heap st' = (bst_heap st)(bst_next st \<mapsto> NewBundleDescriptor m)"
      "bst_bundles st' = (bst_bundles st)(md_ID m \<mapsto> bst_next st)"
      "bst_next st' = bst_next st + 1" "bst_pending st' = bst_pending st"
  shows "store_core st'"
proof -
  have i: "inv_heap st" "inv_ids st" "inv_pending st" using core by (simp_all add: store_core_def)
  have id: "bd_ID (NewBundleDescriptor m) = md_ID m" "bd_metadata (NewBundleDescriptor m) = m" "\<not> bd_deleted (NewBundleDescriptor m)"
    by (simp_all add: bd_ID_def NewBundleDescriptor_def)
  have old: "p < bst_next st" if "bst_bundles st bid = Some p" for bid p
    using that i inv_heapD(1) by (auto elim!: inv_idsE)
  have "inv_heap st'" using i(1) id m new by (fastforce simp: inv_heap_def less_Suc_eq st')
  moreover have "inv_ids st'" unfolding inv_ids_def
  proof (intro allI impI)
    fix bid p assume p: "bst_bundles st' bid = Some p"
    show "\<exists>bd. bst_heap st' p = Some bd \<and> bd_ID bd = bid"
    proof (cases "bid = md_ID m")
      case True
      then show ?thesis using p id by (simp add: st')
    next
      case False
      then have q: "bst_bundles st bid = Some p" using p by (simp add: st')
      then show ?thesis using old [OF q] inv_idsE [OF i(2) q] by (metis (no_types, lifting) st'(1) fun_upd_other less_irrefl)
    qed
  qed
  moreover have "deleted_in_map st' bid = deleted_in_map st bid" for bid
  proof (cases "bid = md_ID m")
    case True
    then show ?thesis using new id by (simp add: deleted_in_map_def st')
  next
    case False
    then show ?thesis using old [of bid] by (cases "bst_bundles st bid") (auto simp: deleted_in_map_def st')
  qed
  then have "inv_pending st'" using i(3) by (simp add: inv_pending_def st')
  ultimately show ?thesis by (simp add: store_core_def)
qed

lemma delete_core:
  assumes core: "store_core st" and pend: "bst_pending st = xs @ m # ys"
    and st': "bst_heap st' = bst_heap st" "bst_bundles st' = (bst_bundles st)(md_ID m := None)"
      "bst_next st' = bst_next st" "bst_pending st' = xs @ ys"
  shows "store_core st'" "\<exists>p. bst_bundles st (md_ID m) = Some p" "md_IDString m = BundleID_String (md_ID m)"
proof -
  have i: "inv_heap st" "inv_ids st" "inv_pending st" using core by (simp_all add: store_core_def)
  have ins: "insert (md_ID m) (md_ID ` set (xs @ ys)) = {bid. deleted_in_map st bid}"
    and notin: "md_ID m \<notin> md_ID ` set (xs @ ys)"
    and pm: "md_ok m" "distinct (map md_ID (xs @ ys))" "\<forall>m \<in> set (xs @ ys). md_ok m"
    using i(3) unfolding inv_pending_def pend by (simp_all add: image_Un)
  have del: "md_ID ` set (xs @ ys) = {bid. deleted_in_map st bid} - {md_ID m}" "deleted_in_map st (md_ID m)"
    using ins notin by blast+
  obtain p bd where p: "bst_bundles st (md_ID m) = Some p" "bst_heap st p = Some bd" "bd_deleted bd"
    using del(2) by (auto simp: deleted_in_map_def)
  have "inv_heap st'" unfolding inv_heap_def st'
  proof (intro allI impI)
    fix q bd' assume q: "bst_heap st q = Some bd'"
    note h = inv_heapD [OF i(1) q]
    have "bd_ID bd' \<noteq> md_ID m" if "\<not> bd_deleted bd'" using h(4) [OF that] p q that by auto
    then show "q < bst_next st \<and> bd_inv bd' \<and> md_ok (bd_metadata bd') \<and>
        (\<not> bd_deleted bd' \<longrightarrow> ((bst_bundles st)(md_ID m := None)) (bd_ID bd') = Some q)" using h by simp
  qed
  moreover have "inv_ids st'" using i(2) by (simp add: inv_ids_def st')
  moreover have "{bid. deleted_in_map st' bid} = {bid. deleted_in_map st bid} - {md_ID m}"
    by (auto simp: deleted_in_map_def st')
  then have "inv_pending st'" using pm(2,3) del(1) unfolding inv_pending_def st' by (simp only: simp_thms)
  ultimately show "store_core st'" by (simp add: store_core_def)
  show "\<exists>p. bst_bundles st (md_ID m) = Some p" "md_IDString m = BundleID_String (md_ID m)"
    using p(1) pm(1) by (auto simp: md_ok_def)
qed

context badger
begin

lemma update_metadata_inv:
  assumes inv: "store_inv get st" and p: "bst_heap st p = Some bd" "bst_bundles st (bd_ID bd) = Some p"
    and m: "md_ID m = md_ID (bd_metadata bd)" "md_ok m"
  shows "\<exists>st'. updateBundleMetadata D m (set_metadata p bd m st) = Inr st' \<and> store_inv get st' \<and>
    bst_heap st' p = Some (bd\<lparr>bd_metadata := m\<rparr>)"
proof -
  have i: "inv_heap st" "inv_map get st" "inv_pending st" using inv by (simp_all add: store_inv_def)
  have key: "md_IDString m = BundleID_String (bd_ID bd)" using m by (simp add: md_ok_def bd_ID_def)
  have "get (bst_metadataStore st) (md_IDString m) = Some (bd_metadata bd)"
    using inv_mapE [OF i(2) p(2)] p(1) key by (metis option.inject)
  then obtain db where db: "db_Update D (md_IDString m) m (bst_metadataStore st) = Inr db"
    "get db = (get (bst_metadataStore st))(md_IDString m \<mapsto> m)" using update_exists by blast
  let ?bd = "bd\<lparr>bd_metadata := m\<rparr>"
  let ?st = "st\<lparr>bst_heap := (bst_heap st)(p \<mapsto> ?bd), bst_metadataStore := db\<rparr>"
  have id: "bd_ID ?bd = bd_ID bd" using m by (simp add: bd_ID_def)
  have "store_core st" using inv by (simp add: store_inv_core)
  then have "store_core ?st" by (rule set_metadata_core [OF _ p(1) m]) simp_all
  moreover have "inv_map get ?st" unfolding inv_map_def
  proof (intro allI impI)
    fix bid q assume q: "bst_bundles ?st bid = Some q"
    then obtain bd' where bd': "bst_heap st q = Some bd'" "bd_ID bd' = bid"
      "get (bst_metadataStore st) (BundleID_String bid) = Some (bd_metadata bd')"
      using inv_mapE [OF i(2), of bid q] by auto
    show "\<exists>bd''. bst_heap ?st q = Some bd'' \<and> bd_ID bd'' = bid \<and>
        get (bst_metadataStore ?st) (BundleID_String bid) = Some (bd_metadata bd'')"
    proof (cases "bid = bd_ID bd")
      case True
      then have "q = p" using q p(2) by simp
      then show ?thesis using True db(2) key id by simp
    next
      case False
      then have "BundleID_String bid \<noteq> md_IDString m" using inv_map_keys [OF i(2) _ p(2), of bid q] q key by auto
      moreover have "q \<noteq> p" using False bd' p(1) by auto
      ultimately show ?thesis using bd' db(2) by simp
    qed
  qed
  moreover have "inv_db get db" using inv db(2) m(2) by (auto simp: store_inv_def inv_db_def)
  ultimately show ?thesis using db(1) by (simp add: updateBundleMetadata_def set_metadata_def store_inv_core)
qed

lemma AddKnownHolder_inv:
  assumes "store_inv get st"
  shows "store_inv get (snd (AddKnownHolder D peers p st))"
proof (cases "\<exists>bd. bst_heap st p = Some bd \<and> \<not> bd_deleted bd")
  case True
  then obtain bd where bd: "bst_heap st p = Some bd" "\<not> bd_deleted bd" by blast
  let ?m = "(bd_metadata bd)\<lparr>md_KnownHolders := md_KnownHolders (bd_metadata bd) @ peers\<rparr>"
  have h: "inv_heap st" using assms by (simp add: store_inv_def)
  have "md_ok ?m" using inv_heapD(3) [OF h bd(1)] by (simp add: md_ok_def)
  then obtain st' where "updateBundleMetadata D ?m (set_metadata p bd ?m st) = Inr st'" "store_inv get st'"
    using update_metadata_inv [OF assms bd(1) inv_heapD(4) [OF h bd], of ?m] by auto
  then show ?thesis using bd by (simp add: AddKnownHolder_def Let_def)
next
  case False
  then show ?thesis using assms by (auto simp: AddKnownHolder_def split: option.splits)
qed

lemma SetMiscData_inv:
  assumes "store_inv get st" "bst_heap st p = Some bd" "bst_bundles st (bd_ID bd) = Some p"
  shows "store_inv get (snd (SetMiscData D key val p st))" "fst (SetMiscData D key val p st) = Inr ()"
    "\<exists>bd'. bst_heap (snd (SetMiscData D key val p st)) p = Some bd' \<and> GetMiscData key bd' = Some val \<and>
       bd_retentionConstraints bd' = bd_retentionConstraints bd \<and> bd_deleted bd' = bd_deleted bd"
proof -
  let ?m = "(bd_metadata bd)\<lparr>md_MiscellaneousData := (md_MiscellaneousData (bd_metadata bd))(key \<mapsto> val)\<rparr>"
  have h: "inv_heap st" using assms by (simp add: store_inv_def)
  have "md_ok ?m" using inv_heapD(3) [OF h assms(2)] by (simp add: md_ok_def)
  then obtain st' where "updateBundleMetadata D ?m (set_metadata p bd ?m st) = Inr st'" "store_inv get st'"
    "bst_heap st' p = Some (bd\<lparr>bd_metadata := ?m\<rparr>)"
    using update_metadata_inv [OF assms, of ?m] by auto
  then show "store_inv get (snd (SetMiscData D key val p st))" "fst (SetMiscData D key val p st) = Inr ()"
    "\<exists>bd'. bst_heap (snd (SetMiscData D key val p st)) p = Some bd' \<and> GetMiscData key bd' = Some val \<and>
       bd_retentionConstraints bd' = bd_retentionConstraints bd \<and> bd_deleted bd' = bd_deleted bd"
    using assms(2) by (simp_all add: SetMiscData_def Let_def GetMiscData_def)
qed

lemma new_metadata_ok [simp]: "md_ok (new_metadata n b prev)" "md_ID (new_metadata n b prev) = Bundle_ID b"
    "md_IDString (new_metadata n b prev) = Bundle_String b"
    "md_SerialisedFileName (new_metadata n b prev) = file_name (Bundle_String b)"
  by (simp_all add: new_metadata_def md_ok_def Let_def Bundle_String_def)

text \<open>The outcomes of inserting a new bundle: nothing, a record without descriptor, or both.\<close>

lemma deleteFromDisk_frame:
  "bst_heap (snd (deleteFromDiskUnsafe D m st)) = bst_heap st"
  "bst_bundles (snd (deleteFromDiskUnsafe D m st)) = bst_bundles st"
  "bst_next (snd (deleteFromDiskUnsafe D m st)) = bst_next st"
  "bst_pending (snd (deleteFromDiskUnsafe D m st)) = bst_pending st"
  "bst_nodeID (snd (deleteFromDiskUnsafe D m st)) = bst_nodeID st"
  by (auto simp: deleteFromDiskUnsafe_def Let_def split: sum.splits option.splits)

lemma deleteFromDisk_db:
  "get (bst_metadataStore (snd (deleteFromDiskUnsafe D m st))) = (get (bst_metadataStore st))(md_IDString m := None)"
proof (cases "get (bst_metadataStore st) (md_IDString m)")
  case None
  then obtain e where "db_Delete D (md_IDString m) (bst_metadataStore st) = Inl e" using delete_missing by blast
  then show ?thesis using None by (auto simp: deleteFromDiskUnsafe_def Let_def split: option.splits)
next
  case (Some m')
  then obtain db where "db_Delete D (md_IDString m) (bst_metadataStore st) = Inr db"
    "get db = (get (bst_metadataStore st))(md_IDString m := None)" using delete_exists by blast
  then show ?thesis by (auto simp: deleteFromDiskUnsafe_def Let_def split: option.splits)
qed

text \<open>Everything but a database record or a file that no bundle in the map uses is irrelevant to the invariant.\<close>

lemma store_inv_cong:
  assumes "store_inv get st"
    "bst_heap st' = bst_heap st" "bst_bundles st' = bst_bundles st" "bst_next st' = bst_next st"
    "bst_pending st' = bst_pending st"
    "\<And>bid. bst_bundles st bid \<noteq> None \<Longrightarrow>
       get (bst_metadataStore st') (BundleID_String bid) = get (bst_metadataStore st) (BundleID_String bid)"
    "inv_db get (bst_metadataStore st')"
  shows "store_inv get st'"
proof -
  have "deleted_in_map st' bid = deleted_in_map st bid" for bid
    using assms(2,3) by (simp add: deleted_in_map_def)
  then have "inv_pending st' = inv_pending st" using assms(5) by (simp add: inv_pending_def)
  moreover have "inv_map get st'" unfolding inv_map_def
  proof (intro allI impI)
    fix bid p assume p: "bst_bundles st' bid = Some p"
    have "inv_map get st" using assms(1) by (simp add: store_inv_def)
    then show "\<exists>bd. bst_heap st' p = Some bd \<and> bd_ID bd = bid \<and>
        get (bst_metadataStore st') (BundleID_String bid) = Some (bd_metadata bd)"
      using p assms(2,3) assms(6) [of bid] by (auto elim!: inv_mapE)
  qed
  ultimately show ?thesis using assms(1-4,7) by (simp add: store_inv_def inv_heap_def)
qed

lemma insert_new_inv:
  assumes inv: "store_inv get st" and new: "bst_bundles st (Bundle_ID b) = None"
    "get (bst_metadataStore st) (Bundle_String b) = None" and db: "get db = (get (bst_metadataStore st))(Bundle_String b \<mapsto> m)"
    and m: "md_ok m" "md_ID m = Bundle_ID b" "md_IDString m = Bundle_String b"
  shows "store_inv get (st\<lparr>bst_metadataStore := db, bst_files := fs,
     bst_heap := (bst_heap st)(bst_next st \<mapsto> NewBundleDescriptor m),
     bst_bundles := (bst_bundles st)(Bundle_ID b \<mapsto> bst_next st), bst_next := bst_next st + 1\<rparr>)" (is "store_inv get ?st")
proof -
  have i: "inv_heap st" "inv_map get st" "inv_pending st" using inv by (simp_all add: store_inv_def)
  have fresh: "bst_heap st (bst_next st) = None" using inv_heapD(1) [OF i(1)] by (cases "bst_heap st (bst_next st)") auto
  have id: "bd_ID (NewBundleDescriptor m) = Bundle_ID b" "bd_metadata (NewBundleDescriptor m) = m" "\<not> bd_deleted (NewBundleDescriptor m)"
    using m by (simp_all add: bd_ID_def NewBundleDescriptor_def)
  have old: "p < bst_next st" if "bst_bundles st bid = Some p" for bid p
    using that i inv_heapD(1) by (auto elim!: inv_mapE)
  have "store_core st" using inv by (simp add: store_inv_core)
  then have "store_core ?st" by (rule insert_core [where m = m]) (simp_all add: new(1) m)
  moreover have "inv_map get ?st" unfolding inv_map_def
  proof (intro allI impI)
    fix bid p assume p: "bst_bundles ?st bid = Some p"
    show "\<exists>bd. bst_heap ?st p = Some bd \<and> bd_ID bd = bid \<and>
        get (bst_metadataStore ?st) (BundleID_String bid) = Some (bd_metadata bd)"
    proof (cases "bid = Bundle_ID b")
      case True
      then show ?thesis using p db id m by (simp add: Bundle_String_def)
    next
      case False
      then have "bst_bundles st bid = Some p" using p by simp
      then obtain bd where "bst_heap st p = Some bd" "bd_ID bd = bid"
        "get (bst_metadataStore st) (BundleID_String bid) = Some (bd_metadata bd)" "p \<noteq> bst_next st"
        using i(2) old by (auto elim!: inv_mapE)
      moreover have "BundleID_String bid \<noteq> Bundle_String b" using calculation(3) new(2) by auto
      ultimately show ?thesis using db by simp
    qed
  qed
  moreover have "inv_db get db" using inv db m by (auto simp: store_inv_def inv_db_def)
  ultimately show ?thesis by (simp add: store_inv_core)
qed

lemma insertNewBundleUnsafe_inv:
  assumes inv: "store_inv get st" and new: "bst_bundles st (Bundle_ID b) = None"
  shows "store_inv get (snd (insertNewBundleUnsafe L D env b st))"
proof (cases "previous_node b")
  case (Inl e)
  then show ?thesis using inv by (simp add: insertNewBundleUnsafe_def)
next
  case (Inr prev)
  let ?m = "new_metadata (bst_nodeID st) b prev"
  show ?thesis
  proof (cases "get (bst_metadataStore st) (Bundle_String b)")
    case (Some m')
    then obtain e where "db_Insert D (Bundle_String b) ?m (bst_metadataStore st) = Inl e" using insert_exists by blast
    then show ?thesis using Inr inv by (simp add: insertNewBundleUnsafe_def Let_def)
  next
    case None
    then obtain db where db: "db_Insert D (Bundle_String b) ?m (bst_metadataStore st) = Inr db"
      "get db = (get (bst_metadataStore st))(Bundle_String b \<mapsto> ?m)" using insert_new by blast
    have other: "BundleID_String bid \<noteq> Bundle_String b" if "bst_bundles st bid \<noteq> None" for bid
      using that None inv by (auto simp: store_inv_def elim!: inv_mapE)
    have idb: "inv_db get db" "inv_db get (bst_metadataStore st)"
      using inv db(2) by (auto simp: store_inv_def inv_db_def)
    have rec: "store_inv get (st\<lparr>bst_metadataStore := db, bst_files := fs\<rparr>)" for fs
      using db(2) other idb by (intro store_inv_cong [OF inv]) auto
    have del: "store_inv get (snd (deleteFromDiskUnsafe D ?m (st\<lparr>bst_metadataStore := db\<rparr>)))"
      using db(2) other idb
      by (intro store_inv_cong [OF inv]) (auto simp: deleteFromDisk_frame deleteFromDisk_db inv_db_def split: if_splits)
    note ins = insert_new_inv [OF inv new None db(2)]
    show ?thesis
      using Inr db(1) rec del ins by (auto simp: insertNewBundleUnsafe_def Let_def split: sum.splits prod.splits)
  qed
qed

lemma InsertBundle_inv:
  assumes "store_inv get st"
  shows "store_inv get (snd (InsertBundle L D env b st))"
proof (cases "bst_bundles st (Bundle_ID b)")
  case None
  then show ?thesis using insertNewBundleUnsafe_inv [OF assms None] by (simp add: InsertBundle_def)
next
  case (Some p)
  have "store_inv get (snd (AddKnownHolder D [e] p st))" for e by (rule AddKnownHolder_inv [OF assms])
  then show ?thesis using Some assms
    by (auto simp: InsertBundle_def split: sum.splits option.splits prod.splits) (metis snd_conv)+
qed

lemma deleteBundle_frame:
  "bst_heap (deleteBundle D m st) = bst_heap st" "bst_bundles (deleteBundle D m st) = (bst_bundles st)(md_ID m := None)"
  "bst_next (deleteBundle D m st) = bst_next st" "bst_pending (deleteBundle D m st) = bst_pending st"
  "get (bst_metadataStore (deleteBundle D m st)) = (get (bst_metadataStore st))(md_IDString m := None)"
  by (simp_all add: deleteBundle_def deleteFromDisk_frame deleteFromDisk_db)

lemma deleteBundle_inv:
  assumes inv: "store_inv get st" and pend: "bst_pending st = xs @ m # ys"
  shows "store_inv get (deleteBundle D m (st\<lparr>bst_pending := xs @ ys\<rparr>))"
proof -
  let ?st = "deleteBundle D m (st\<lparr>bst_pending := xs @ ys\<rparr>)"
  have c: "store_core st" and im: "inv_map get st" using inv by (simp_all add: store_inv_core)
  have st': "bst_heap ?st = bst_heap st" "bst_bundles ?st = (bst_bundles st)(md_ID m := None)" "bst_next ?st = bst_next st"
    "bst_pending ?st = xs @ ys" by (simp_all add: deleteBundle_frame)
  note core = delete_core [OF c pend st']
  obtain p where p: "bst_bundles st (md_ID m) = Some p" using core(2) by blast
  have "inv_map get ?st" unfolding inv_map_def
  proof (intro allI impI)
    fix bid q assume "bst_bundles ?st bid = Some q"
    then have q: "bst_bundles st bid = Some q" "bid \<noteq> md_ID m" by (auto simp: st'(2) split: if_splits)
    then have "BundleID_String bid \<noteq> md_IDString m" using inv_map_keys [OF im q(1) p] core(3) by auto
    then show "\<exists>bd. bst_heap ?st q = Some bd \<and> bd_ID bd = bid \<and> get (bst_metadataStore ?st) (BundleID_String bid) = Some (bd_metadata bd)"
      using inv_mapE [OF im q(1)] by (simp add: deleteBundle_frame) metis
  qed
  moreover have "inv_db get (bst_metadataStore ?st)" using inv by (auto simp: store_inv_def inv_db_def deleteBundle_frame split: if_splits)
  ultimately show ?thesis using core(1) by (simp add: store_inv_core)
qed

lemma GarbageCollect_inv: "store_inv get st \<Longrightarrow> store_inv get (GarbageCollect now order st)"
  by (induction order arbitrary: st) (auto simp: delete_op.on_descriptor_inv split: option.splits)

lemma load_descriptors_inv:
  assumes "store_inv get st" "bst_pending st = []"
    "\<forall>m \<in> set ms. get (bst_metadataStore st) (md_IDString m) = Some m \<and> bst_bundles st (md_ID m) = None"
    "distinct (map md_ID ms)"
  shows "store_inv get (load_descriptors ms st) \<and> bst_metadataStore (load_descriptors ms st) = bst_metadataStore st \<and>
    (\<forall>bid. bst_bundles (load_descriptors ms st) bid \<noteq> None \<longleftrightarrow> bst_bundles st bid \<noteq> None \<or> bid \<in> md_ID ` set ms)"
  using assms
proof (induction ms arbitrary: st)
  case (Cons m ms)
  let ?st = "st\<lparr>bst_heap := (bst_heap st)(bst_next st \<mapsto> NewBundleDescriptor m),
       bst_bundles := (bst_bundles st)(md_ID m \<mapsto> bst_next st), bst_next := bst_next st + 1\<rparr>"
  have i: "inv_heap st" "inv_map get st" "inv_pending st" "inv_db get (bst_metadataStore st)"
    using Cons.prems(1) by (simp_all add: store_inv_def)
  have m: "get (bst_metadataStore st) (md_IDString m) = Some m" "bst_bundles st (md_ID m) = None"
    using Cons.prems(3) by auto
  then have ok: "md_ok m" using i(4) by (auto simp: inv_db_def)
  have bd: "bd_ID (NewBundleDescriptor m) = md_ID m" "bd_metadata (NewBundleDescriptor m) = m" "\<not> bd_deleted (NewBundleDescriptor m)"
    by (simp_all add: bd_ID_def NewBundleDescriptor_def)
  have old: "p < bst_next st" if "bst_bundles st bid = Some p" for bid p
    using that i inv_heapD(1) by (auto elim!: inv_mapE)
  have "inv_heap ?st" using i(1) bd ok m(2) by (fastforce simp: inv_heap_def less_Suc_eq)
  moreover have "inv_map get ?st" unfolding inv_map_def
  proof (intro allI impI)
    fix bid p assume p: "bst_bundles ?st bid = Some p"
    show "\<exists>bd. bst_heap ?st p = Some bd \<and> bd_ID bd = bid \<and> get (bst_metadataStore ?st) (BundleID_String bid) = Some (bd_metadata bd)"
    proof (cases "bid = md_ID m")
      case True
      then show ?thesis using p bd m(1) ok by (simp add: md_ok_def)
    next
      case False
      then have q: "bst_bundles st bid = Some p" using p by simp
      then have "p \<noteq> bst_next st" using old by blast
      moreover obtain bd where "bst_heap st p = Some bd" "bd_ID bd = bid"
        "get (bst_metadataStore st) (BundleID_String bid) = Some (bd_metadata bd)" using inv_mapE [OF i(2) q] .
      ultimately show ?thesis by simp
    qed
  qed
  moreover have "deleted_in_map ?st bid = deleted_in_map st bid" for bid
  proof (cases "bid = md_ID m")
    case True
    then show ?thesis using m(2) bd by (simp add: deleted_in_map_def)
  next
    case False
    then show ?thesis using old [of bid] by (cases "bst_bundles st bid") (auto simp: deleted_in_map_def)
  qed
  then have "inv_pending ?st" using i(3) by (simp add: inv_pending_def)
  ultimately have inv: "store_inv get ?st" using i(4) by (simp add: store_inv_def)
  have pre: "bst_pending ?st = []" "distinct (map md_ID ms)" using Cons.prems by simp_all
  have "md_ID x \<noteq> md_ID m" if "x \<in> set ms" for x using Cons.prems(4) imageI [OF that, of md_ID] by auto
  then have pre3: "\<forall>m \<in> set ms. get (bst_metadataStore ?st) (md_IDString m) = Some m \<and> bst_bundles ?st (md_ID m) = None"
    using Cons.prems(3) by simp
  have dom: "bst_bundles ?st bid \<noteq> None \<longleftrightarrow> bst_bundles st bid \<noteq> None \<or> bid = md_ID m" for bid by simp
  have eq: "load_descriptors (m # ms) st = load_descriptors ms ?st" by simp
  show ?case using Cons.IH [OF inv pre(1) pre3 pre(2)] unfolding eq dom by auto
qed simp

lemma InitialiseStore_inv:
  assumes "inv_db get db" "InitialiseStore D nodeID db files = Inr st"
  shows "store_inv get st" "bst_pending st = []" "bst_metadataStore st = db"
    "bst_bundles st bid \<noteq> None \<longleftrightarrow> (\<exists>k m. get db k = Some m \<and> md_ID m = bid)"
proof -
  obtain ks where ks: "distinct ks" "set ks = dom (get db)" "db_Find D db = Inr (map (\<lambda>k. the (get db k)) ks)"
    using find_all by blast
  let ?ms = "map (\<lambda>k. the (get db k)) ks"
  let ?st0 = "\<lparr>bst_nodeID = nodeID, bst_metadataStore = db, bst_files = files, bst_bundles = Map.empty,
        bst_heap = Map.empty, bst_next = 0, bst_pending = []\<rparr>"
  have st: "st = load_descriptors ?ms ?st0" using assms(2) ks(3) by (simp add: InitialiseStore_def)
  have k: "k \<in> set ks \<Longrightarrow> \<exists>m. get db k = Some m \<and> md_IDString m = k \<and> BundleID_String (md_ID m) = k" for k
    using assms(1) ks(2) by (fastforce simp: inv_db_def md_ok_def)
  have "inj_on (\<lambda>k. md_ID (the (get db k))) (set ks)" using k by (intro inj_onI) (metis option.sel)
  then have dist: "distinct (map md_ID ?ms)" using ks(1) by (simp add: distinct_map comp_def)
  have "store_inv get ?st0" using assms(1)
    by (simp add: store_inv_def inv_heap_def inv_map_def inv_pending_def deleted_in_map_def)
  moreover have "\<forall>m \<in> set ?ms. get (bst_metadataStore ?st0) (md_IDString m) = Some m \<and> bst_bundles ?st0 (md_ID m) = None"
    using k by fastforce
  ultimately have *: "store_inv get st" "bst_metadataStore st = db"
    "\<And>bid. bst_bundles st bid \<noteq> None \<longleftrightarrow> bid \<in> md_ID ` set ?ms"
    using load_descriptors_inv [of ?st0 ?ms] dist unfolding st by auto
  have "load_descriptors ms s = s' \<Longrightarrow> bst_pending s' = bst_pending s" for ms and s s' :: "'db BundleStore"
    by (induction ms s rule: load_descriptors.induct) auto
  then show "bst_pending st = []" unfolding st by simp
  show "store_inv get st" "bst_metadataStore st = db" by (fact *)+
  have "md_ID ` set ?ms = {md_ID m | k m. get db k = Some m}" using ks(2) by (force simp: dom_def image_def)
  then show "bst_bundles st bid \<noteq> None \<longleftrightarrow> (\<exists>k m. get db k = Some m \<and> md_ID m = bid)"
    unfolding *(3) by auto
qed

end

section \<open>Safety under every interleaving\<close>

lemma inv_recordsE:
  assumes "inv_records get st" "bst_bundles st bid = Some p"
  obtains q bd where "bst_heap st q = Some bd" "get (bst_metadataStore st) (BundleID_String bid) = Some (bd_metadata bd)"
  using assms unfolding inv_records_def by blast

lemma inv_records_keys:
  assumes "inv_records get st" "bst_bundles st a = Some p" "bst_bundles st b = Some q" "BundleID_String a = BundleID_String b"
  shows "a = b"
  using assms unfolding inv_records_def inj_on_def by blast

text \<open>
  The effect on the records of an operation that keeps the keys of the map, writes the metadata of the descriptor at
  \<open>p\<close>, if anything, and otherwise leaves the records and the metadata of the bundles in the map.
\<close>

lemma inv_records_step:
  assumes inv: "inv_records get st" and b: "bst_bundles st' = bst_bundles st"
    and r: "\<And>bid q bd. bst_bundles st bid \<noteq> None \<Longrightarrow> bst_heap st q = Some bd \<Longrightarrow>
      get (bst_metadataStore st) (BundleID_String bid) = Some (bd_metadata bd) \<Longrightarrow>
      \<exists>q bd. bst_heap st' q = Some bd \<and> get (bst_metadataStore st') (BundleID_String bid) = Some (bd_metadata bd)"
  shows "inv_records get st'"
  using inv r unfolding inv_records_def b by (metis domIff)

lemma insert_records:
  assumes core: "store_core st" and rec: "inv_records get st" and new: "bst_bundles st (Bundle_ID b) = None"
    "get (bst_metadataStore st) (Bundle_String b) = None"
    and db: "get (bst_metadataStore st') = (get (bst_metadataStore st))(Bundle_String b \<mapsto> m)"
    and st': "bst_heap st' = (bst_heap st)(bst_next st \<mapsto> NewBundleDescriptor m)"
      "bst_bundles st' = (bst_bundles st)(Bundle_ID b \<mapsto> bst_next st)"
  shows "inv_records get st'"
proof -
  have other: "BundleID_String bid \<noteq> Bundle_String b" if "bst_bundles st bid = Some p" for bid p
    using new(2) inv_recordsE [OF rec that] by (metis option.distinct(1))
  have "BundleID_String (Bundle_ID b) \<notin> BundleID_String ` (dom (bst_bundles st) - {Bundle_ID b})"
    using other by (fastforce simp: Bundle_String_def)
  then have "inj_on BundleID_String (insert (Bundle_ID b) (dom (bst_bundles st)))"
    using rec by (simp add: inv_records_def)
  then have "inj_on BundleID_String (dom (bst_bundles st'))" by (simp add: st')
  moreover have "\<exists>q bd. bst_heap st' q = Some bd \<and> get (bst_metadataStore st') (BundleID_String bid) = Some (bd_metadata bd)"
    if "bst_bundles st' bid = Some p" for bid p
  proof (cases "bid = Bundle_ID b")
    case True
    then show ?thesis
      by (intro exI [of _ "bst_next st"] exI [of _ "NewBundleDescriptor m"]) (simp add: st' db Bundle_String_def NewBundleDescriptor_def)
  next
    case False
    then have q: "bst_bundles st bid = Some p" using that by (simp add: st')
    obtain q bd where bd: "bst_heap st q = Some bd" "get (bst_metadataStore st) (BundleID_String bid) = Some (bd_metadata bd)"
      using inv_recordsE [OF rec q] .
    have "q < bst_next st" using core inv_heapD(1) bd(1) by (auto simp: store_core_def)
    then show ?thesis using bd other [OF q] by (intro exI [of _ q] exI [of _ bd]) (simp add: st' db)
  qed
  ultimately show ?thesis by (auto simp: inv_records_def)
qed

context badger
begin

lemma set_metadata_safe:
  assumes safe: "store_safe get st" and p: "bst_heap st p = Some bd"
    and m: "md_ID m = md_ID (bd_metadata bd)" "md_IDString m = md_IDString (bd_metadata bd)" "md_ok m"
  shows "store_safe get (case updateBundleMetadata D m (set_metadata p bd m st) of Inl _ \<Rightarrow> set_metadata p bd m st | Inr st' \<Rightarrow> st')"
proof (cases "get (bst_metadataStore st) (md_IDString m)")
  case None
  have safe': "store_core st" "inv_records get st" "inv_db get (bst_metadataStore st)" "inv_heap st"
    using safe by (simp_all add: store_safe_def store_core_def)
  let ?st = "st\<lparr>bst_heap := (bst_heap st)(p \<mapsto> bd\<lparr>bd_metadata := m\<rparr>)\<rparr>"
  obtain e where e: "db_Update D (md_IDString m) m (bst_metadataStore st) = Inl e" using update_missing [OF None] by blast
  have "store_core ?st" by (rule set_metadata_core [OF safe'(1) p m(1,3)]) simp_all
  moreover have "inv_records get ?st"
  proof (rule inv_records_step [OF safe'(2)])
    fix bid q bd' assume q: "bst_heap st q = Some bd'" "get (bst_metadataStore st) (BundleID_String bid) = Some (bd_metadata bd')"
    have "md_IDString (bd_metadata bd') = BundleID_String bid" using safe'(3) q(2) by (auto simp: inv_db_def)
    then have "q \<noteq> p" using q p None m(2) by auto
    then show "\<exists>q bd. bst_heap ?st q = Some bd \<and> get (bst_metadataStore ?st) (BundleID_String bid) = Some (bd_metadata bd)"
      using q by (intro exI [of _ q] exI [of _ bd']) simp
  qed simp
  ultimately show ?thesis using e safe'(3) by (simp add: updateBundleMetadata_def set_metadata_def store_safe_def)
next
  case (Some m')
  have safe': "store_core st" "inv_records get st" "inv_db get (bst_metadataStore st)" "inv_heap st"
    using safe by (simp_all add: store_safe_def store_core_def)
  obtain db where db: "db_Update D (md_IDString m) m (bst_metadataStore st) = Inr db"
    "get db = (get (bst_metadataStore st))(md_IDString m \<mapsto> m)" using update_exists [OF Some] by blast
  let ?st = "st\<lparr>bst_heap := (bst_heap st)(p \<mapsto> bd\<lparr>bd_metadata := m\<rparr>), bst_metadataStore := db\<rparr>"
  have "store_core ?st" by (rule set_metadata_core [OF safe'(1) p m(1,3)]) simp_all
  moreover have "inv_records get ?st"
  proof (rule inv_records_step [OF safe'(2)])
    fix bid q bd' assume q: "bst_heap st q = Some bd'" "get (bst_metadataStore st) (BundleID_String bid) = Some (bd_metadata bd')"
    show "\<exists>q bd. bst_heap ?st q = Some bd \<and> get (bst_metadataStore ?st) (BundleID_String bid) = Some (bd_metadata bd)"
    proof (cases "BundleID_String bid = md_IDString m")
      case True
      then show ?thesis using db(2) by (intro exI [of _ p] exI [of _ "bd\<lparr>bd_metadata := m\<rparr>"]) simp
    next
      case False
      have "md_IDString (bd_metadata bd') = BundleID_String bid" using safe'(3) q(2) by (auto simp: inv_db_def)
      then have "q \<noteq> p" using q p False m(2) by auto
      then show ?thesis using q db(2) False by (intro exI [of _ q] exI [of _ bd']) simp
    qed
  qed simp
  moreover have "inv_db get db" using safe'(3) db(2) m(3) by (auto simp: inv_db_def)
  ultimately show ?thesis using db(1) by (simp add: updateBundleMetadata_def set_metadata_def store_safe_def)
qed

lemma AddKnownHolder_safe:
  assumes "store_safe get st"
  shows "store_safe get (snd (AddKnownHolder D peers p st))"
proof (cases "\<exists>bd. bst_heap st p = Some bd \<and> \<not> bd_deleted bd")
  case True
  then obtain bd where bd: "bst_heap st p = Some bd" "\<not> bd_deleted bd" by blast
  let ?m = "(bd_metadata bd)\<lparr>md_KnownHolders := md_KnownHolders (bd_metadata bd) @ peers\<rparr>"
  have "inv_heap st" using assms by (simp add: store_safe_def store_core_def)
  then have "md_ok ?m" using inv_heapD(3) bd(1) by (simp add: md_ok_def)
  from set_metadata_safe [OF assms bd(1) _ _ this] show ?thesis using bd by (simp add: AddKnownHolder_def Let_def)
next
  case False
  then show ?thesis using assms by (auto simp: AddKnownHolder_def split: option.splits)
qed

lemma SetMiscData_safe:
  assumes "store_safe get st"
  shows "store_safe get (snd (SetMiscData D key val p st))"
proof (cases "bst_heap st p")
  case None
  then show ?thesis using assms by (simp add: SetMiscData_def)
next
  case (Some bd)
  let ?m = "(bd_metadata bd)\<lparr>md_MiscellaneousData := (md_MiscellaneousData (bd_metadata bd))(key \<mapsto> val)\<rparr>"
  have "inv_heap st" using assms by (simp add: store_safe_def store_core_def)
  then have "md_ok ?m" using inv_heapD(3) Some by (simp add: md_ok_def)
  from set_metadata_safe [OF assms Some _ _ this] show ?thesis using Some by (simp add: SetMiscData_def Let_def split: sum.splits)
qed

lemma insertNewBundleUnsafe_safe:
  assumes safe: "store_safe get st" and new: "bst_bundles st (Bundle_ID b) = None"
  shows "store_safe get (snd (insertNewBundleUnsafe L D env b st))"
proof (cases "previous_node b")
  case (Inl e)
  then show ?thesis using safe by (simp add: insertNewBundleUnsafe_def)
next
  case (Inr prev)
  let ?m = "new_metadata (bst_nodeID st) b prev"
  have s: "store_core st" "inv_records get st" "inv_db get (bst_metadataStore st)" using safe by (simp_all add: store_safe_def)
  show ?thesis
  proof (cases "get (bst_metadataStore st) (Bundle_String b)")
    case (Some m')
    then obtain e where "db_Insert D (Bundle_String b) ?m (bst_metadataStore st) = Inl e" using insert_exists by blast
    then show ?thesis using Inr safe by (simp add: insertNewBundleUnsafe_def Let_def)
  next
    case None
    then obtain db where db: "db_Insert D (Bundle_String b) ?m (bst_metadataStore st) = Inr db"
      "get db = (get (bst_metadataStore st))(Bundle_String b \<mapsto> ?m)" using insert_new by blast
    have other: "BundleID_String bid \<noteq> Bundle_String b" if "bst_bundles st bid \<noteq> None" for bid
      using that None s(2) by (auto elim!: inv_recordsE)
    have idb: "inv_db get db" using s(3) db(2) by (auto simp: inv_db_def)
    have frame: "store_safe get st'" if "bst_heap st' = bst_heap st" "bst_bundles st' = bst_bundles st" "bst_next st' = bst_next st"
      "bst_pending st' = bst_pending st" "inv_db get (bst_metadataStore st')"
      "\<And>k. k \<noteq> Bundle_String b \<Longrightarrow> get (bst_metadataStore st') k = get (bst_metadataStore st) k" for st'
    proof -
      have "deleted_in_map st' = deleted_in_map st" using that(1,2) by (simp add: deleted_in_map_def fun_eq_iff)
      then have "store_core st'" using s(1) that(1-4) by (simp add: store_core_def inv_heap_def inv_ids_def inv_pending_def)
      moreover have "inv_records get st'" using that(1,2,6) other by (intro inv_records_step [OF s(2)]) auto
      ultimately show ?thesis using that(5) by (simp add: store_safe_def)
    qed
    have rec: "store_safe get (st\<lparr>bst_metadataStore := db, bst_files := fs\<rparr>)" for fs using idb db(2) by (intro frame) auto
    have del: "store_safe get (snd (deleteFromDiskUnsafe D ?m (st\<lparr>bst_metadataStore := db\<rparr>)))"
      using idb db(2) by (intro frame) (auto simp: deleteFromDisk_frame deleteFromDisk_db inv_db_def split: if_splits)
    have ins: "store_safe get (st\<lparr>bst_metadataStore := db, bst_files := fs,
       bst_heap := (bst_heap st)(bst_next st \<mapsto> NewBundleDescriptor ?m),
       bst_bundles := (bst_bundles st)(Bundle_ID b \<mapsto> bst_next st), bst_next := bst_next st + 1\<rparr>)" (is "store_safe get ?st") for fs
    proof -
      have "store_core ?st" using s(1) by (rule insert_core [where m = ?m]) (simp_all add: new)
      moreover have "inv_records get ?st" by (rule insert_records [OF s(1,2) new None]) (simp_all add: db(2) fun_upd_def)
      ultimately show ?thesis using idb by (simp add: store_safe_def)
    qed
    show ?thesis
      using Inr db(1) rec del ins by (auto simp: insertNewBundleUnsafe_def Let_def split: sum.splits prod.splits)
  qed
qed

lemma InsertBundle_safe:
  assumes "store_safe get st"
  shows "store_safe get (snd (InsertBundle L D env b st))"
proof (cases "bst_bundles st (Bundle_ID b)")
  case None
  then show ?thesis using insertNewBundleUnsafe_safe [OF assms None] by (simp add: InsertBundle_def)
next
  case (Some p)
  have "store_safe get (snd (AddKnownHolder D [e] p st))" for e by (rule AddKnownHolder_safe [OF assms])
  then show ?thesis using Some assms
    by (auto simp: InsertBundle_def split: sum.splits option.splits prod.splits) (metis snd_conv)+
qed

lemma deleteBundle_safe:
  assumes safe: "store_safe get st" and pend: "bst_pending st = xs @ m # ys"
  shows "store_safe get (deleteBundle D m (st\<lparr>bst_pending := xs @ ys\<rparr>))"
proof -
  let ?st = "deleteBundle D m (st\<lparr>bst_pending := xs @ ys\<rparr>)"
  have s: "store_core st" "inv_records get st" "inv_db get (bst_metadataStore st)" using safe by (simp_all add: store_safe_def)
  have st': "bst_heap ?st = bst_heap st" "bst_bundles ?st = (bst_bundles st)(md_ID m := None)" "bst_next ?st = bst_next st"
    "bst_pending ?st = xs @ ys" by (simp_all add: deleteBundle_frame)
  note core = delete_core [OF s(1) pend st']
  obtain p where p: "bst_bundles st (md_ID m) = Some p" using core(2) by blast
  have keep: "\<exists>q bd. bst_heap st q = Some bd \<and> get (bst_metadataStore ?st) (BundleID_String bid) = Some (bd_metadata bd)"
    if "bst_bundles st bid = Some q" "bid \<noteq> md_ID m" for bid q
  proof -
    have "BundleID_String bid \<noteq> md_IDString m" using inv_records_keys [OF s(2) that(1) p] that(2) core(3) by auto
    then show ?thesis using inv_recordsE [OF s(2) that(1)] by (simp add: deleteBundle_frame) metis
  qed
  have "inj_on BundleID_String (dom (bst_bundles ?st))"
    using s(2) unfolding inv_records_def st'(2) by (auto intro: inj_on_subset)
  then have "inv_records get ?st" using keep unfolding inv_records_def st'(1,2) by (auto simp: dom_def split: if_splits)
  moreover have "inv_db get (bst_metadataStore ?st)" using s(3) by (auto simp: inv_db_def deleteBundle_frame split: if_splits)
  ultimately show ?thesis using core(1) by (simp add: store_safe_def)
qed

lemma GarbageCollect_safe: "store_safe get st \<Longrightarrow> store_safe get (GarbageCollect now order st)"
  by (induction order arbitrary: st) (auto simp: delete_op.on_descriptor_safe split: option.splits)

end

section \<open>The store as a transition system\<close>

text \<open>
  The steps clients and the runtime can take, in any order: the operations of the store and of any
  descriptor ever handed out, deleted or not, a started deletion that runs, and a crash or shutdown at any moment with
  a restart from the database and the files.
\<close>

inductive store_step :: "cboring \<Rightarrow> 'db badgerhold \<Rightarrow> 'db BundleStore \<Rightarrow> 'db BundleStore \<Rightarrow> bool"
  for L :: cboring and D :: "'db badgerhold" where
  step_insert: "store_step L D st (snd (InsertBundle L D env b st))"
| step_add: "store_step L D st (snd (on_descriptor (AddConstraint c) p st))"
| step_remove: "store_step L D st (snd (on_descriptor (RemoveConstraint c) p st))"
| step_reset: "store_step L D st (snd (on_descriptor ResetConstraints p st))"
| step_delete: "store_step L D st (snd (on_descriptor (Delete m) p st))"
| step_holder: "store_step L D st (snd (AddKnownHolder D peers p st))"
| step_misc: "store_step L D st (snd (SetMiscData D key val p st))"
| step_gc: "store_step L D st (GarbageCollect now order st)"
| step_run: "bst_pending st = xs @ md # ys \<Longrightarrow> store_step L D st (deleteBundle D md (st\<lparr>bst_pending := xs @ ys\<rparr>))"
| step_restart: "InitialiseStore D (bst_nodeID st) (bst_metadataStore st) (bst_files st) = Inr st' \<Longrightarrow> store_step L D st st'"

inductive store_reach :: "cboring \<Rightarrow> 'db badgerhold \<Rightarrow> 'db BundleStore \<Rightarrow> 'db BundleStore \<Rightarrow> bool"
  for L :: cboring and D :: "'db badgerhold" and st0 :: "'db BundleStore" where
  reach_start: "store_reach L D st0 st0"
| reach_step: "store_reach L D st0 st \<Longrightarrow> store_step L D st st' \<Longrightarrow> store_reach L D st0 st'"

context badger
begin

lemma store_step_safe: "store_step L D st st' \<Longrightarrow> store_safe get st \<Longrightarrow> store_safe get st'"
proof (induction rule: store_step.induct)
  case (step_restart st st')
  then have "inv_db get (bst_metadataStore st)" by (simp add: store_safe_def)
  then show ?case using InitialiseStore_inv(1) store_inv_safe step_restart.hyps by blast
qed (auto intro: InsertBundle_safe add_op.on_descriptor_safe remove_op.on_descriptor_safe reset_op.on_descriptor_safe
     delete_op.on_descriptor_safe AddKnownHolder_safe SetMiscData_safe GarbageCollect_safe deleteBundle_safe)

lemma store_reach_store_safe: "store_reach L D st0 st \<Longrightarrow> store_safe get st0 \<Longrightarrow> store_safe get st"
  by (induction rule: store_reach.induct) (auto intro: store_step_safe)

lemma InitialiseStore_succeeds: "\<exists>st. InitialiseStore D n db files = Inr st"
  using find_all [of db] by (auto simp: InitialiseStore_def)

end

section \<open>Behaviour of the operations\<close>

lemma GetBundleDescriptor_Inr:
  "GetBundleDescriptor bid st = Inr p \<longleftrightarrow>
     bst_bundles st bid = Some p \<and> (\<exists>bd. bst_heap st p = Some bd \<and> \<not> bd_deleted bd)"
  by (auto simp: GetBundleDescriptor_def Deleted_def split: option.splits)

lemma deleteFromDisk_files:
  "bst_files (snd (deleteFromDiskUnsafe D m st)) = (bst_files st)(md_SerialisedFileName m := None)"
  by (auto simp: deleteFromDiskUnsafe_def Let_def split: sum.splits option.splits)

lemma load_descriptors_new:
  "(\<forall>p bd. bst_heap st p = Some bd \<longrightarrow> bd = NewBundleDescriptor (bd_metadata bd)) \<Longrightarrow>
   bst_heap (load_descriptors ms st) p = Some bd \<Longrightarrow> bd = NewBundleDescriptor (bd_metadata bd)"
proof (induction ms arbitrary: st)
  case (Cons m ms)
  have "bd_metadata (NewBundleDescriptor m) = m" by (simp add: NewBundleDescriptor_def)
  then show ?case using Cons.prems by (intro Cons.IH [OF _ Cons.prems(2) [simplified]]) auto
qed simp

lemma wf_previous_node:
  assumes "wf_bundle GetExtensionBlockManager b"
  shows "\<exists>prev. previous_node b = Inr prev"
proof (cases "ExtensionBlockByType b BlockTypePreviousNodeBlock")
  case (Inr i)
  then have "kind_of (cb_Value (bndl_ExtensionBlocks b ! i)) = KPreviousNode" using wf_block_kind [OF assms] by simp
  then show ?thesis using Inr by (cases "cb_Value (bndl_ExtensionBlocks b ! i)") (simp_all add: previous_node_def)
qed (simp add: previous_node_def)

text \<open>One round of garbage collection.\<close>

definition collected :: "time \<Rightarrow> BundleDescriptor \<Rightarrow> bool" where
  "collected now bd \<longleftrightarrow> Expired now bd \<and> bd_retentionConstraints bd = []"

definition gc_descriptor :: "time \<Rightarrow> BundleDescriptor \<Rightarrow> BundleDescriptor" where
  "gc_descriptor now bd = (if collected now bd then bd\<lparr>bd_deleted := True\<rparr> else bd)"

lemma gc_step:
  assumes "inv_heap st" "bst_bundles st bid = Some p" "bst_heap st p = Some bd"
  shows "bst_heap (if Expired now bd \<and> \<not> Retain bd then snd (on_descriptor (Delete False) p st) else st) =
    (bst_heap st)(p \<mapsto> gc_descriptor now bd)"
  using inv_heapD(2) [OF assms(1,3)] assms(3)
  by (auto simp: gc_descriptor_def collected_def bd_inv_def Retain_def on_descriptor_def Delete_def unsafeDelete_def
      fun_upd_idem split: if_splits)

lemma gc_descriptor_idem: "gc_descriptor now (gc_descriptor now bd) = gc_descriptor now bd"
  by (simp add: gc_descriptor_def collected_def Expired_def)

lemma on_descriptor_bundles [simp]: "bst_bundles (snd (on_descriptor f p st)) = bst_bundles st"
  by (auto simp: on_descriptor_def split: option.splits sum.splits)

context badger
begin

lemma GarbageCollect_heap:
  assumes "store_inv get st" "bst_bundles st bid = Some p" "bst_heap st p = Some bd"
  shows "bst_heap (GarbageCollect now order st) p = Some (if bid \<in> set order then gc_descriptor now bd else bd) \<and>
    bst_bundles (GarbageCollect now order st) = bst_bundles st"
  using assms
proof (induction order arbitrary: st bd)
  case (Cons b order)
  let ?st = "case bst_bundles st b of None \<Rightarrow> st | Some p \<Rightarrow> (case bst_heap st p of None \<Rightarrow> st
     | Some bd \<Rightarrow> if Expired now bd \<and> \<not> Retain bd then snd (on_descriptor (Delete False) p st) else st)"
  have inv: "store_inv get ?st"
    using Cons.prems(1) by (auto simp: delete_op.on_descriptor_inv split: option.splits)
  have bundles: "bst_bundles ?st = bst_bundles st" by (auto split: option.splits)
  have h: "inv_heap st" "inv_map get st" using Cons.prems(1) by (simp_all add: store_inv_def)
  have heap: "bst_heap ?st p = Some (if bid = b then gc_descriptor now bd else bd)"
  proof (cases "bst_bundles st b")
    case None
    then show ?thesis using Cons.prems(2,3) by auto
  next
    case (Some q)
    then obtain bd' where q: "bst_heap st q = Some bd'" "bd_ID bd' = b" using inv_mapE [OF h(2)] by metis
    have "bst_heap ?st = (bst_heap st)(q \<mapsto> gc_descriptor now bd')" using gc_step [OF h(1) Some q(1)] Some q(1) by simp
    moreover have "q = p \<longleftrightarrow> bid = b" using Some q Cons.prems(2,3) inv_mapE [OF h(2) Cons.prems(2)]
      by (metis option.inject)
    ultimately show ?thesis using Cons.prems(3) q(1) by auto
  qed
  show ?case
    using Cons.IH [OF inv _ heap] Cons.prems(2) by (auto simp: bundles gc_descriptor_idem)
qed simp

lemma insert_load:
  assumes "cboring_lib L" "store_inv get st" "wf_bundle ebm b" "bst_bundles st (Bundle_ID b) = None"
    "get (bst_metadataStore st) (Bundle_String b) = None" "previous_node b = Inr prev" "create_ok env" "flush_ok env"
    "Bundle_CheckValid now b = Inr errs"
  shows "\<exists>p st' b'. InsertBundle L D env b st = (Inr p, st') \<and> store_inv get st' \<and>
    GetBundleDescriptor (Bundle_ID b) st' = Inr p \<and> Load L ebm now p st' = Inr (Some b') \<and> strip_crc b' = strip_crc b \<and>
    (\<exists>bs. Bundle_MarshalCbor L b = Inr (bs, b'))"
proof -
  obtain bs b' where b': "Bundle_MarshalCbor L b = Inr (bs, b')" "strip_crc b' = strip_crc b"
    "ParseBundle L ebm now bs = bindR (Bundle_CheckValid now b') (\<lambda>errs. Inr (b', errs))"
    using cboring_lib.Bundle_roundtrip [OF assms(1,3)] by blast
  let ?m = "new_metadata (bst_nodeID st) b prev"
  obtain db where db: "db_Insert D (Bundle_String b) ?m (bst_metadataStore st) = Inr db"
    "get db = (get (bst_metadataStore st))(Bundle_String b \<mapsto> ?m)" using insert_new [OF assms(5)] by blast
  have ins: "InsertBundle L D env b st = (Inr (bst_next st), st\<lparr>bst_metadataStore := db,
      bst_files := (bst_files st)(file_name (Bundle_String b) \<mapsto> bs),
      bst_heap := (bst_heap st)(bst_next st \<mapsto> NewBundleDescriptor ?m),
      bst_bundles := (bst_bundles st)(Bundle_ID b \<mapsto> bst_next st), bst_next := bst_next st + 1\<rparr>)"
    using assms(4,6-8) db(1) b'(1) by (simp add: InsertBundle_def insertNewBundleUnsafe_def Let_def)
  have "Bundle_CheckValid now b' = Inr errs" using Bundle_CheckValid_crc [OF b'(2)] assms(9) by simp
  then show ?thesis
    using ins InsertBundle_inv [OF assms(2), of L env b] b'
    by (simp add: GetBundleDescriptor_def Load_def loadEntireBundle_def NewBundleDescriptor_def Deleted_def)
qed

lemma deleteBundle_removes:
  assumes "store_inv get st" "bst_pending st = xs @ m # ys"
  shows "GetBundleDescriptor (md_ID m) (deleteBundle D m (st\<lparr>bst_pending := xs @ ys\<rparr>)) = Inl (NoSuchBundleError (md_ID m))"
    "get (bst_metadataStore (deleteBundle D m (st\<lparr>bst_pending := xs @ ys\<rparr>))) (md_IDString m) = None"
    "bst_files (deleteBundle D m (st\<lparr>bst_pending := xs @ ys\<rparr>)) (md_SerialisedFileName m) = None"
    "bid \<noteq> md_ID m \<Longrightarrow> GetBundleDescriptor bid (deleteBundle D m (st\<lparr>bst_pending := xs @ ys\<rparr>)) = GetBundleDescriptor bid st"
  by (simp_all add: deleteBundle_def deleteFromDisk_frame deleteFromDisk_db deleteFromDisk_files GetBundleDescriptor_def
      split: option.split)

lemma restart_keeps:
  assumes inv: "store_inv get st" and p: "bst_bundles st bid = Some p" "bst_heap st p = Some bd"
    and re: "InitialiseStore D n (bst_metadataStore st) files = Inr st'"
  shows "\<exists>p'. GetBundleDescriptor bid st' = Inr p' \<and> bst_heap st' p' = Some (NewBundleDescriptor (bd_metadata bd))"
proof -
  have i: "inv_map get st" "inv_db get (bst_metadataStore st)" using inv by (simp_all add: store_inv_def)
  note init = InitialiseStore_inv [OF i(2) re]
  have rec: "get (bst_metadataStore st) (BundleID_String bid) = Some (bd_metadata bd)" "bd_ID bd = bid"
    using inv_mapE [OF i(1) p(1)] p(2) by (metis option.inject)+
  then obtain p' where p': "bst_bundles st' bid = Some p'" using init(4) [of bid] by (auto simp: bd_ID_def)
  then obtain bd' where bd': "bst_heap st' p' = Some bd'" "get (bst_metadataStore st') (BundleID_String bid) = Some (bd_metadata bd')"
    using init(1) by (auto simp: store_inv_def elim!: inv_mapE)
  have "bd' = NewBundleDescriptor (bd_metadata bd')"
  proof -
    obtain ms where "st' = load_descriptors ms \<lparr>bst_nodeID = n, bst_metadataStore = bst_metadataStore st,
        bst_files = files, bst_bundles = Map.empty, bst_heap = Map.empty, bst_next = 0, bst_pending = []\<rparr>"
      using re by (auto simp: InitialiseStore_def bindR_Inr_iff)
    then show ?thesis using bd'(1) by (intro load_descriptors_new [where ms = ms and p = p']) auto
  qed
  then have "bd' = NewBundleDescriptor (bd_metadata bd)" using rec bd'(2) init(3) by simp
  then show ?thesis using p' bd'(1) by (simp add: GetBundleDescriptor_Inr NewBundleDescriptor_def)
qed

end

section \<open>An example store\<close>

definition example_store :: "(string \<times> BundleMetadata) list BundleStore" where
  "example_store = \<lparr>bst_nodeID = DtnNone, bst_metadataStore = [], bst_files = Map.empty, bst_bundles = Map.empty,
     bst_heap = Map.empty, bst_next = 0, bst_pending = []\<rparr>"

definition example_env :: io_env where
  "example_env = \<lparr>create_ok = True, flush_ok = True, left_over = []\<rparr>"

lemma example_store_init: "InitialiseStore alist_db DtnNone [] Map.empty = Inr example_store"
  by (simp add: InitialiseStore_def alist_db_def example_store_def)

lemma example_db: "inv_db map_of ([] :: (string \<times> BundleMetadata) list)"
  by (simp add: inv_db_def)

lemma example_store_inv: "store_inv map_of example_store"
  by (rule alist.InitialiseStore_inv(1) [OF example_db example_store_init])

lemma example_previous_node: "previous_node example_bundle = Inr None"
  by code_simp

lemma example_fresh:
  "bst_bundles example_store bid = None" "map_of (bst_metadataStore example_store) k = None"
  "create_ok example_env" "flush_ok example_env"
  by (simp_all add: example_store_def example_env_def)

text \<open>The example store after inserting the example bundle: its descriptor has address 0.\<close>

lemma example_inserted:
  obtains st where "InsertBundle rfc8949 alist_db example_env example_bundle example_store = (Inr 0, st)"
    "store_inv map_of st" "GetBundleDescriptor (Bundle_ID example_bundle) st = Inr 0"
    "bst_heap st 0 = Some (NewBundleDescriptor (new_metadata DtnNone example_bundle None))"
proof -
  obtain p st b' where i: "InsertBundle rfc8949 alist_db example_env example_bundle example_store = (Inr p, st)"
    "store_inv map_of st" "GetBundleDescriptor (Bundle_ID example_bundle) st = Inr p"
    using alist.insert_load [OF rfc.cboring_lib_axioms example_store_inv example_bundle_wf example_fresh(1,2)
        example_previous_node example_fresh(3,4) example_bundle_valid] by blast
  have "p = 0 \<and> bst_heap st 0 = Some (NewBundleDescriptor (new_metadata DtnNone example_bundle None))"
    using i(1) by (auto simp: InsertBundle_def insertNewBundleUnsafe_def example_store_def example_previous_node Let_def
        alist_db_def example_env_def split: sum.splits prod.splits)
  then show thesis using that i by blast
qed

section \<open>Correctness\<close>

text \<open>
  C2. In every state the store can reach from its start, through any interleaving of its operations, of operations on
  any descriptor ever handed out (deleted ones included), of started deletions, and of crashes with restart: a descriptor
  that the store returns is alive and has the requested identifier; the database holds a record under its key, which is the
  metadata of a descriptor that has been handed out under this key, and is its own metadata if there was no other such
  descriptor; a deleted descriptor has no retention constraint and every descriptor that is not deleted is the one in the
  map; every deletion under way is that of one deleted bundle in the map. A restart succeeds, and after it the database
  holds exactly the metadata of every bundle in the map.
\<close>

theorem store_reach_safe:
  assumes "badger D get" "inv_db get db" "InitialiseStore D n db files = Inr st0" "store_reach L D st0 st"
  shows "(GetBundleDescriptor bid st = Inr p \<longrightarrow> (\<exists>bd m. bst_heap st p = Some bd \<and> \<not> bd_deleted bd \<and> bd_ID bd = bid \<and>
       get (bst_metadataStore st) (BundleID_String bid) = Some m \<and> md_IDString m = BundleID_String bid \<and>
       (\<exists>q bd'. bst_heap st q = Some bd' \<and> m = bd_metadata bd') \<and>
       ((\<forall>q bd'. bst_heap st q = Some bd' \<and> md_IDString (bd_metadata bd') = BundleID_String bid \<longrightarrow> q = p) \<longrightarrow> m = bd_metadata bd))) \<and>
    (bst_heap st q = Some bd \<longrightarrow>
       (if bd_deleted bd then bd_retentionConstraints bd = [] else bst_bundles st (bd_ID bd) = Some q)) \<and>
    distinct (map md_ID (bst_pending st)) \<and> md_ID ` set (bst_pending st) = {bid. deleted_in_map st bid} \<and>
    (\<exists>st'. InitialiseStore D n (bst_metadataStore st) (bst_files st) = Inr st' \<and> store_inv get st')"
proof -
  have safe: "store_safe get st"
    using badger.store_reach_store_safe [OF assms(1,4)] store_inv_safe [OF badger.InitialiseStore_inv(1) [OF assms(1-3)]] by blast
  then have i: "inv_heap st" "inv_ids st" "inv_pending st" "inv_records get st" "inv_db get (bst_metadataStore st)"
    by (simp_all add: store_safe_def store_core_def)
  have found: "\<exists>bd m. bst_heap st p = Some bd \<and> \<not> bd_deleted bd \<and> bd_ID bd = bid \<and>
       get (bst_metadataStore st) (BundleID_String bid) = Some m \<and> md_IDString m = BundleID_String bid \<and>
       (\<exists>q bd'. bst_heap st q = Some bd' \<and> m = bd_metadata bd') \<and>
       ((\<forall>q bd'. bst_heap st q = Some bd' \<and> md_IDString (bd_metadata bd') = BundleID_String bid \<longrightarrow> q = p) \<longrightarrow> m = bd_metadata bd)"
    if "GetBundleDescriptor bid st = Inr p"
  proof -
    obtain bd where bd: "bst_bundles st bid = Some p" "bst_heap st p = Some bd" "\<not> bd_deleted bd"
      using \<open>GetBundleDescriptor bid st = Inr p\<close> by (auto simp: GetBundleDescriptor_Inr)
    obtain q bd' where q: "bst_heap st q = Some bd'" "get (bst_metadataStore st) (BundleID_String bid) = Some (bd_metadata bd')"
      using inv_recordsE [OF i(4) bd(1)] .
    have "md_IDString (bd_metadata bd') = BundleID_String bid" using i(5) q(2) by (auto simp: inv_db_def)
    then show ?thesis using bd q inv_idsE [OF i(2) bd(1)] by (metis option.inject)
  qed
  obtain st' where st': "InitialiseStore D n (bst_metadataStore st) (bst_files st) = Inr st'"
    using badger.InitialiseStore_succeeds [OF assms(1)] by blast
  have "if bd_deleted bd then bd_retentionConstraints bd = [] else bst_bundles st (bd_ID bd) = Some q"
    if "bst_heap st q = Some bd" using inv_heapD [OF i(1) that] by (simp add: bd_inv_def)
  moreover have "distinct (map md_ID (bst_pending st))" "md_ID ` set (bst_pending st) = {bid. deleted_in_map st bid}"
    using i(3) by (simp_all add: inv_pending_def)
  ultimately show ?thesis using found st' badger.InitialiseStore_inv(1) [OF assms(1) i(5) st'] by blast
qed

theorem store_reach_safe_witness:
  "\<exists>st m. store_reach rfc8949 alist_db example_store st \<and> GetBundleDescriptor (Bundle_ID example_bundle) st = Inr 0 \<and>
     map_of (bst_metadataStore st) (BundleID_String (Bundle_ID example_bundle)) = Some m"
proof -
  obtain st where st: "InsertBundle rfc8949 alist_db example_env example_bundle example_store = (Inr 0, st)"
    "GetBundleDescriptor (Bundle_ID example_bundle) st = Inr 0" by (rule example_inserted)
  have "store_reach rfc8949 alist_db example_store st"
    using reach_step [OF reach_start step_insert [of rfc8949 alist_db example_store example_env example_bundle]] st(1) by simp
  then show ?thesis
    using store_reach_safe [OF alist.badger_axioms example_db example_store_init] st(2) by blast
qed

text \<open>
  C10. A well-formed bundle that is inserted and was not known is found under its identifier, and
  loading it gives back the bundle up to the checksums that serialising fills in.
\<close>

theorem InsertBundle_Load:
  assumes "cboring_lib L" "badger D get" "store_inv get st" "wf_bundle ebm b" "bst_bundles st (Bundle_ID b) = None"
    "get (bst_metadataStore st) (Bundle_String b) = None" "previous_node b = Inr prev" "create_ok env" "flush_ok env"
    "Bundle_CheckValid now b = Inr errs"
  shows "\<exists>p st' b'. InsertBundle L D env b st = (Inr p, st') \<and> store_inv get st' \<and>
    GetBundleDescriptor (Bundle_ID b) st' = Inr p \<and> Load L ebm now p st' = Inr (Some b') \<and> strip_crc b' = strip_crc b"
  using badger.insert_load [OF assms(2,1,3-10)] by blast

theorem InsertBundle_Load_witness:
  "\<exists>p st' b'. InsertBundle rfc8949 alist_db example_env example_bundle example_store = (Inr p, st') \<and>
     Load rfc8949 GetExtensionBlockManager 0 p st' = Inr (Some b') \<and> strip_crc b' = strip_crc example_bundle"
  using InsertBundle_Load [OF rfc.cboring_lib_axioms alist.badger_axioms example_store_inv example_bundle_wf
      example_fresh(1,2) example_previous_node example_fresh(3,4) example_bundle_valid] by blast

text \<open>
  A started deletion completes: when it has run, the bundle is unknown, its database record and
  its file are gone, and every other bundle is found as before.
\<close>

lemma deleteBundle_complete:
  assumes "badger D get" "store_inv get st" "bst_pending st = xs @ m # ys"
    "st' = deleteBundle D m (st\<lparr>bst_pending := xs @ ys\<rparr>)"
  shows "store_inv get st' \<and> GetBundleDescriptor (md_ID m) st' = Inl (NoSuchBundleError (md_ID m)) \<and>
    get (bst_metadataStore st') (md_IDString m) = None \<and> bst_files st' (md_SerialisedFileName m) = None \<and>
    (bid = md_ID m \<or> GetBundleDescriptor bid st' = GetBundleDescriptor bid st)"
  using badger.deleteBundle_removes [OF assms(1-3)] badger.deleteBundle_inv [OF assms(1-3)] assms(4) by blast



text \<open>
  Garbage collection deletes exactly the expired bundles without a retention constraint, whatever
  the order in which the map is traversed.
\<close>

lemma GarbageCollect_correct:
  assumes "badger D get" "store_inv get st" "bst_bundles st bid = Some p" "bst_heap st p = Some bd" "bid \<in> set order"
  shows "\<exists>bd'. bst_heap (GarbageCollect now order st) p = Some bd' \<and>
    (bd_deleted bd' \<longleftrightarrow> bd_deleted bd \<or> (Expired now bd \<and> bd_retentionConstraints bd = [])) \<and>
    bd_retentionConstraints bd' = bd_retentionConstraints bd \<and> store_inv get (GarbageCollect now order st)"
  using badger.GarbageCollect_heap [OF assms(1-4), of now order] badger.GarbageCollect_inv [OF assms(1,2)] assms(5)
  by (auto simp: gc_descriptor_def collected_def)

text \<open>
  The expiry time the store computes ignores the bundle age: a bundle without creation time whose
  age is within its lifetime counts as expired for the garbage collector.
\<close>

lemma zero_time_bundle_expired:
  "\<exists>b. Bundle_CheckValid 1700000000000000000 b = Inr [] \<and>
     Expired 1700000000000000000 (NewBundleDescriptor (new_metadata n b None))"
proof -
  let ?b = "\<lparr>bndl_PrimaryBlock = example_primary\<lparr>pb_CreationTimestamp := (0, 0)\<rparr>,
      bndl_ExtensionBlocks = [NewCanonicalBlock 2 0 (BundleAgeBlock 5)],
      bndl_PayloadBlock = Some (NewCanonicalBlock 1 0 (PayloadBlock [1]))\<rparr>"
  have "Bundle_CheckValid 1700000000000000000 ?b = Inr []" by code_simp
  moreover have "Expired 1700000000000000000 (NewBundleDescriptor (new_metadata n ?b None))"
  proof -
    have "DtnTime_Time (CreationTimestamp_DtnTime (0, 0)) + lifetime_duration 3600000 < 1700000000000000000" by code_simp
    then show ?thesis by (simp add: Expired_def NewBundleDescriptor_def new_metadata_def Let_def example_primary_def)
  qed
  ultimately show ?thesis by blast
qed

text \<open>
  A bundle that arrives again while its deletion is under way is lost silently: inserting it
  succeeds and returns the deleted descriptor, which the store itself no longer finds.
\<close>

lemma InsertBundle_returns_deleted:
  assumes "bst_bundles st (Bundle_ID b) = Some p" "bst_heap st p = Some bd" "bd_deleted bd" "previous_node b = Inr None"
  shows "InsertBundle L D env b st = (Inr p, st) \<and>
    GetBundleDescriptor (Bundle_ID b) (snd (InsertBundle L D env b st)) = Inl (NoSuchBundleError (Bundle_ID b))"
  using assms by (simp add: InsertBundle_def GetBundleDescriptor_def Deleted_def)

text \<open>
  A descriptor that was handed out before its bundle was deleted and inserted again still writes to the database: the
  record of the bundle becomes the metadata of the old descriptor, while the descriptor in the map keeps its own.
\<close>

lemma SetMiscData_stale_overwrites:
  assumes "badger D get" "store_safe get st" "bst_bundles st bid = Some p" "bst_heap st p = Some bd"
    "bst_heap st q = Some old" "bd_ID old = bid" "q \<noteq> p"
  shows "\<exists>m st'. SetMiscData D key val q st = (Inr (), st') \<and> GetBundleDescriptor bid st' = GetBundleDescriptor bid st \<and>
    bst_heap st' p = Some bd \<and> get (bst_metadataStore st') (BundleID_String bid) = Some m \<and>
    m = (bd_metadata old)\<lparr>md_MiscellaneousData := (md_MiscellaneousData (bd_metadata old))(key \<mapsto> val)\<rparr>"
proof -
  let ?m = "(bd_metadata old)\<lparr>md_MiscellaneousData := (md_MiscellaneousData (bd_metadata old))(key \<mapsto> val)\<rparr>"
  have i: "inv_heap st" "inv_records get st" using assms(2) by (simp_all add: store_safe_def store_core_def)
  have key: "md_IDString ?m = BundleID_String bid" using inv_heapD(3) [OF i(1) assms(5)] assms(6) by (simp add: md_ok_def bd_ID_def)
  obtain m' where "get (bst_metadataStore st) (md_IDString ?m) = Some m'" using inv_recordsE [OF i(2) assms(3)] unfolding key by metis
  then obtain db where db: "db_Update D (md_IDString ?m) ?m (bst_metadataStore st) = Inr db"
    "get db = (get (bst_metadataStore st))(md_IDString ?m \<mapsto> ?m)" using badger.update_exists [OF assms(1)] by blast
  then have "SetMiscData D key val q st =
      (Inr (), st\<lparr>bst_heap := (bst_heap st)(q \<mapsto> old\<lparr>bd_metadata := ?m\<rparr>), bst_metadataStore := db\<rparr>)"
    using assms(5) by (simp add: SetMiscData_def Let_def set_metadata_def updateBundleMetadata_def)
  then show ?thesis using assms(3,4,7) db(2) key by (simp add: GetBundleDescriptor_def)
qed

text \<open>
  An insertion that fails while writing the file leaves its database record behind: the bundle is
  not in the store, but every later attempt to insert it fails because the key exists.
\<close>

lemma InsertBundle_failure_blocks:
  assumes "badger D get" "bst_bundles st (Bundle_ID b) = None" "get (bst_metadataStore st) (Bundle_String b) = None"
    "previous_node b = Inr prev" "create_ok env" "\<not> flush_ok env" "Bundle_MarshalCbor L b = Inr (bs, b')"
    "InsertBundle L D env b st = (res, st')"
  shows "(\<exists>e. res = Inl e) \<and> GetBundleDescriptor (Bundle_ID b) st' = Inl (NoSuchBundleError (Bundle_ID b)) \<and>
    (\<exists>e. InsertBundle L D env' b st' = (Inl e, st'))"
proof -
  let ?m = "new_metadata (bst_nodeID st) b prev"
  obtain db where db: "db_Insert D (Bundle_String b) ?m (bst_metadataStore st) = Inr db"
    "get db = (get (bst_metadataStore st))(Bundle_String b \<mapsto> ?m)" using badger.insert_new [OF assms(1,3)] by blast
  have st': "res = Inl (OtherError (Errorf ''cannot write file''))"
    "st' = st\<lparr>bst_metadataStore := db, bst_files := (bst_files st)(file_name (Bundle_String b) \<mapsto> left_over env)\<rparr>"
    using assms(2,4-8) db(1) by (auto simp: InsertBundle_def insertNewBundleUnsafe_def Let_def)
  obtain e where "db_Insert D (Bundle_String b) ?m db = Inl e"
    using badger.insert_exists [OF assms(1), of db "Bundle_String b" ?m ?m] db(2) by auto
  then have "InsertBundle L D env' b st' = (Inl (OtherError e), st')"
    using assms(2,4) st'(2) by (simp add: InsertBundle_def insertNewBundleUnsafe_def Let_def)
  then show ?thesis using st' assms(2) by (simp add: GetBundleDescriptor_def)
qed

end
