(* ===== verification/Partial_Bundle.thy ===== *)
theory Partial_Bundle
  imports Store
begin

text \<open>
  Partially loaded bundles (\<open>ParsePartialBundle\<close>, \<open>FindExtensionBlock\<close> of \<open>pkg/bpv7/bundle.go\<close>,
  \<open>UnmarshalWantedBlock\<close> of \<open>canonical_block.go\<close>, \<open>loadPartialBundle\<close> of \<open>pkg/store/store.go\<close>,
  \<open>LoadPartialBundle\<close> of \<open>bundle_descriptor.go\<close>): the primary block and at most one block of each wanted type,
  without reading the data of the others. The reader is a file, the way the store calls it: the whole
  content and what follows the current position, so that blocks can be skipped by seeking.
\<close>

section \<open>Reading wanted blocks\<close>

text \<open>
  \<open>Seek(int64(length), io.SeekCurrent)\<close>: a length of \<open>2^63\<close> and above is negative and moves backwards; a
  position before the start is an error, one behind the end is none.
\<close>

definition Seek :: "bytes \<Rightarrow> bytes \<Rightarrow> u64 \<Rightarrow> bytes res" where
  "Seek file r len =
     (if 0 \<le> sint len then Inr (drop (unat len) r)
      else let pos = int (length file) - int (length r) + sint len
           in if pos < 0 then Inl (Errorf ''seek: invalid argument'') else Inr (drop (nat pos) file))"

text \<open>
  The result is an error, with the type code of the block's value when it has been set by then, or
  whether the block is wanted, the block, and the rest of the input.
\<close>

definition no_value :: "'a res \<Rightarrow> (err \<times> u64 option) + 'a" where
  "no_value x = mapErr (\<lambda>e. (e, None)) x"

definition with_value :: "u64 \<Rightarrow> 'a res \<Rightarrow> (err \<times> u64 option) + 'a" where
  "with_value t x = mapErr (\<lambda>e. (e, Some t)) x"

lemma value_simps [simp]:
  "no_value (Inr x) = Inr x" "no_value (Inl e) = Inl (e, None)" "with_value t (Inr x) = Inr x" "with_value t (Inl e) = Inl (e, Some t)"
  by (simp_all add: no_value_def with_value_def)

definition UnmarshalWantedBlock ::
    "cboring \<Rightarrow> ExtensionBlockManager \<Rightarrow> u64 list \<Rightarrow> bytes \<Rightarrow> bytes \<Rightarrow> (err \<times> u64 option) + (bool \<times> CanonicalBlock \<times> bytes)" where
  "UnmarshalWantedBlock L ebm wantedBlocks file r0 =
     bindR (no_value (ReadArrayLength L r0)) (\<lambda>(bl, r1).
     if bl \<noteq> 5 \<and> bl \<noteq> 6 then Inl (Errorf ''expected array with length 5 or 6'', None) else
     bindR (no_value (ReadUInt L r1)) (\<lambda>(blockType, r).
     bindR (no_value (ReadUInt L r)) (\<lambda>(bn, r).
     bindR (no_value (ReadUInt L r)) (\<lambda>(bcf, r).
     bindR (no_value (ReadUInt L r)) (\<lambda>(crcT, r).
     if blockType \<notin> set wantedBlocks then
       bindR (no_value (ReadByteStringLen L r)) (\<lambda>(len, r).
       bindR (no_value (Seek file r len)) (\<lambda>r.
       bindR (if bl = 6 then with_value blockType (bindR (ReadByteString L r) (\<lambda>(_, r). Inr r)) else Inr r) (\<lambda>r.
         Inr (False, \<lparr>cb_BlockNumber = bn, cb_BlockControlFlags = bcf, cb_CRCType = crcT, cb_CRC = [],
                      cb_Value = GenericExtensionBlock [] blockType\<rparr>, r))))
     else
       bindR (no_value (mapErr (Wrapf ''unmarshalling block type failed'') (ebm_ReadBlock L ebm blockType r))) (\<lambda>(b, r).
       bindR (if bl = 6
              then with_value (BlockTypeCode b)
                (bindR (calculateCRCBuff L (WriteArrayLength L bl @ take (length r1 - length r) r1) crcT) (\<lambda>crcCalc.
                 bindR (ReadByteString L r) (\<lambda>(crcVal, r).
                   if crcCalc \<noteq> crcVal then Inl (Errorf ''invalid CRC value'') else Inr (crcVal, r))))
              else Inr ([], r)) (\<lambda>(crc, r).
         Inr (True, \<lparr>cb_BlockNumber = bn, cb_BlockControlFlags = bcf, cb_CRCType = crcT, cb_CRC = crc,
                     cb_Value = b\<rparr>, r))))))))"

section \<open>Partial bundles\<close>

record PartialBundle =
  prt_PrimaryBlock :: PrimaryBlock
  prt_ExtensionBlocks :: "CanonicalBlock list"

text \<open>
  The loop. The payload block ends it, and so does the last wanted block. On an error other than the
  break code, the condition asks the block for its type code first, which panics while its value is nil.
\<close>

fun partial_blocks ::
    "nat \<Rightarrow> cboring \<Rightarrow> ExtensionBlockManager \<Rightarrow> bytes \<Rightarrow> bytes \<Rightarrow> u64 list \<Rightarrow> CanonicalBlock list \<Rightarrow> CanonicalBlock list res option" where
  "partial_blocks 0 L ebm file r wanted ebs = None"
| "partial_blocks (Suc n) L ebm file r wanted ebs =
     (case UnmarshalWantedBlock L ebm wanted file r of
        Inl (e, t) \<Rightarrow>
          if e = FlagBreakCode then Some (Inr ebs)
          else (case t of
            None \<Rightarrow> Some (Inl (Panic ''nil pointer dereference: Value of the block''))
          | Some t \<Rightarrow> if t = BlockTypePayloadBlock then Some (Inr ebs) else Some (Inl (Wrapf ''CanonicalBlock failed'' e)))
      | Inr (w, cb, r') \<Rightarrow>
          if TypeCode cb = BlockTypePayloadBlock then Some (Inr ebs)
          else if w \<and> TypeCode cb \<in> set wanted then
            (let wanted = remove1 (TypeCode cb) wanted
             in if wanted = [] then Some (Inr (ebs @ [cb])) else partial_blocks n L ebm file r' wanted (ebs @ [cb]))
          else partial_blocks n L ebm file r' wanted ebs)"

text \<open>Fuel for one round per byte; every round reads something, as long as no seek goes backwards.\<close>

definition ParsePartialBundle :: "cboring \<Rightarrow> ExtensionBlockManager \<Rightarrow> u64 list \<Rightarrow> bytes \<Rightarrow> PartialBundle res" where
  "ParsePartialBundle L ebm wanted file =
     bindR (ReadExpect L (IndefiniteArray L) file) (\<lambda>r.
     bindR (mapErr (Wrapf ''PrimaryBlock failed'') (PrimaryBlock_UnmarshalCbor L r)) (\<lambda>(primary, r).
     case partial_blocks (Suc (length r)) L ebm file r wanted [] of
       None \<Rightarrow> Inl Diverges
     | Some res \<Rightarrow> bindR res (\<lambda>ebs.
         bindR (checked (PrimaryBlock_CheckValid primary) ()) (\<lambda>_.
         bindR (checked (concat (map CanonicalBlock_CheckValid ebs)) ()) (\<lambda>_.
           Inr \<lparr>prt_PrimaryBlock = primary, prt_ExtensionBlocks = ebs\<rparr>)))))"

definition FindExtensionBlock :: "ext_kind \<Rightarrow> u64 \<Rightarrow> PartialBundle \<Rightarrow> ExtensionBlock res" where
  "FindExtensionBlock k code partialBundle =
     (case filter (\<lambda>cb. TypeCode cb = code \<and> kind_of (cb_Value cb) = k) (prt_ExtensionBlocks partialBundle) of
        [] \<Rightarrow> Inl (Errorf ''could not find block'')
      | cb # _ \<Rightarrow> Inr (cb_Value cb))"

definition PartialBundle_ExtensionBlockByType :: "PartialBundle \<Rightarrow> u64 \<Rightarrow> CanonicalBlock res" where
  "PartialBundle_ExtensionBlockByType b blockType =
     (case filter (\<lambda>cb. TypeCode cb = blockType) (prt_ExtensionBlocks b) of
        [] \<Rightarrow> Inl (Errorf ''no CanonicalBlock with this block type was found in PartialBundle'')
      | cb # _ \<Rightarrow> Inr cb)"

section \<open>The store\<close>

definition loadPartialBundle ::
    "cboring \<Rightarrow> ExtensionBlockManager \<Rightarrow> string \<Rightarrow> u64 list \<Rightarrow> 'db BundleStore \<Rightarrow> store_err + PartialBundle" where
  "loadPartialBundle L ebm filename wantedBlocks st =
     (case bst_files st filename of
        None \<Rightarrow> Inl (OtherError (Errorf ''no such file''))
      | Some content \<Rightarrow> mapErr OtherError (ParsePartialBundle L ebm wantedBlocks content))"

definition LoadPartialBundle ::
    "cboring \<Rightarrow> ExtensionBlockManager \<Rightarrow> u64 list \<Rightarrow> nat \<Rightarrow> 'db BundleStore \<Rightarrow> store_err + PartialBundle" where
  "LoadPartialBundle L ebm wantedBlocks p st =
     (case bst_heap st p of
        None \<Rightarrow> Inl (OtherError (Panic ''dangling descriptor''))
      | Some bd \<Rightarrow> if bd_deleted bd then Inl (BundleDeletedError (bd_ID bd))
          else loadPartialBundle L ebm (md_SerialisedFileName (bd_metadata bd)) wantedBlocks st)"

section \<open>Properties\<close>

text \<open>The reference: the blocks of a whole bundle, each wanted type once, in the order of the blocks.\<close>

fun select_blocks :: "u64 list \<Rightarrow> CanonicalBlock list \<Rightarrow> CanonicalBlock list" where
  "select_blocks wanted [] = []"
| "select_blocks wanted (cb # cbs) =
     (if TypeCode cb \<in> set wanted then cb # select_blocks (remove1 (TypeCode cb) wanted) cbs else select_blocks wanted cbs)"

lemma select_blocks_nothing [simp]: "select_blocks [] cbs = []"
  by (induction cbs) simp_all

lemma set_select_blocks: "set (select_blocks wanted cbs) \<subseteq> set cbs"
  by (induction wanted cbs rule: select_blocks.induct) auto

lemma ExtensionBlock_data_small:
  assumes "cboring_lib L" "wf_ext ebm eb"
  shows "\<exists>d. ExtensionBlock_data L eb = Inr d \<and> length d < 2 ^ 63"
  using cboring_lib.ExtensionBlock_data_read [OF assms] by metis

lemma sint_length: "n < 2 ^ 63 \<Longrightarrow> 0 \<le> sint (of_nat n :: u64)"
  by (simp add: signed_of_nat signed_take_bit_int_eq_self)

context cboring_lib
begin

lemma wanted_block_read:
  assumes wf: "wf_canonical ebm cb" and m: "CanonicalBlock_MarshalCbor L cb = Inr (bs, cb')"
  shows "UnmarshalWantedBlock L ebm wanted file (bs @ r) =
    (if TypeCode cb \<in> set wanted then Inr (True, cb', r)
     else Inr (False, cb'\<lparr>cb_CRC := [], cb_Value := GenericExtensionBlock [] (TypeCode cb)\<rparr>, r))"
proof -
  obtain d where d: "ExtensionBlock_data L (cb_Value cb) = Inr d" "length d < 2 ^ 63"
    using ExtensionBlock_data_small [OF cboring_lib_axioms] wf unfolding wf_canonical_def by blast
  let ?val = "WriteByteString L d"
  have w: "ebm_WriteBlock L (cb_Value cb) = Inr ?val" by (simp add: ebm_WriteBlock_def d(1))
  have u: "ebm_ReadBlock L ebm (BlockTypeCode (cb_Value cb)) (?val @ r) = Inr (cb_Value cb, r)" for r
    using ebm_roundtrip w wf unfolding wf_canonical_def by (metis sum.inject(2))
  obtain buff where b: "CanonicalBlock_fields L cb = Inr buff" by (simp add: CanonicalBlock_fields_def w)
  note b' = b [unfolded CanonicalBlock_fields_def w TypeCode_def, simplified]
  obtain crc where c: "calculateCRCBuff L buff (cb_CRCType cb) = Inr crc" "length crc < 2 ^ 64"
    using calculateCRCBuff_known [of "cb_CRCType cb" L buff] wf by (auto simp: wf_canonical_def)
  have len: "ReadByteStringLen L (?val @ r) = Inr (of_nat (length d), d @ r)" for r
    using d(2) by (simp add: write_bs read_bslen)
  have seek: "Seek file (d @ r) (of_nat (length d)) = Inr r" for r
    using d(2) by (simp add: Seek_def sint_length unat_of_nat)
  have eta: "cb = \<lparr>cb_BlockNumber = cb_BlockNumber cb, cb_BlockControlFlags = cb_BlockControlFlags cb,
      cb_CRCType = cb_CRCType cb, cb_CRC = cb_CRC cb, cb_Value = cb_Value cb\<rparr>" by simp
  show ?thesis
  proof (cases "CanonicalBlock_HasCRC cb")
    case True
    then have bs: "bs = buff @ WriteByteString L crc" "cb' = cb\<lparr>cb_CRC := crc\<rparr>" using m b c by (simp_all add: CanonicalBlock_MarshalCbor_def)
    show ?thesis
      using c True by (auto simp: UnmarshalWantedBlock_def bs b' [symmetric] cbor u len seek read_bs TypeCode_def)
  next
    case False
    then have bs: "bs = buff" "cb' = cb" using m b by (simp_all add: CanonicalBlock_MarshalCbor_def)
    have "cb_CRC cb = []" using wf False by (simp add: wf_canonical_def)
    then show ?thesis
      using False by (auto simp: UnmarshalWantedBlock_def bs b' [symmetric] cbor u len seek TypeCode_def)
  qed
qed

lemma partial_blocks_read:
  assumes "\<forall>cb \<in> set cbs. wf_canonical ebm cb \<and> TypeCode cb \<noteq> BlockTypePayloadBlock" "marshal_blocks L cbs = Inr (bs, cbs')"
    "wf_canonical ebm pl" "TypeCode pl = BlockTypePayloadBlock" "CanonicalBlock_MarshalCbor L pl = Inr (ps, pl')"
  shows "partial_blocks (length cbs + Suc n) L ebm file (bs @ ps @ r) wanted ebs = Some (Inr (ebs @ select_blocks wanted cbs'))"
  using assms(1,2)
proof (induction cbs arbitrary: bs cbs' wanted ebs)
  case Nil
  have "TypeCode pl' = BlockTypePayloadBlock" using CanonicalBlock_MarshalCbor_frame [OF assms(5)] assms(4) by (metis TypeCode_CRC)
  then show ?case using Nil assms(4) by (simp add: wanted_block_read [OF assms(3,5)] TypeCode_def)
next
  case (Cons cb cbs)
  obtain b cb' bs1 cbs1 where m: "CanonicalBlock_MarshalCbor L cb = Inr (b, cb')" "marshal_blocks L cbs = Inr (bs1, cbs1)"
    "bs = b @ bs1" "cbs' = cb' # cbs1"
    using Cons.prems(2) by (auto simp: bindR_Inr_iff)
  have t: "TypeCode cb' = TypeCode cb" using CanonicalBlock_MarshalCbor_frame [OF m(1)] by (metis TypeCode_CRC)
  have wf: "wf_canonical ebm cb" "TypeCode cb \<noteq> BlockTypePayloadBlock" using Cons.prems(1) by auto
  have IH: "partial_blocks (length cbs + Suc n) L ebm file (bs1 @ ps @ r) w e = Some (Inr (e @ select_blocks w cbs1))" for w e
    using Cons.prems(1) by (intro Cons.IH [OF _ m(2)]) simp
  have g: "TypeCode (cb'\<lparr>cb_CRC := [], cb_Value := GenericExtensionBlock [] c\<rparr>) = c" for c by (simp add: TypeCode_def)
  have "partial_blocks (Suc k) L ebm file (b @ bs1 @ ps @ r) wanted ebs = Some (Inr (ebs @ select_blocks wanted (cb' # cbs1)))"
    if "\<And>w e. partial_blocks k L ebm file (bs1 @ ps @ r) w e = Some (Inr (e @ select_blocks w cbs1))" for k
    using that wf(2) by (simp add: wanted_block_read [OF wf(1) m(1)] t g Let_def)
  then show ?case using IH by (simp add: m(3,4) del: partial_blocks.simps)
qed

text \<open>A bundle that is serialised: its partial and its whole decoding.\<close>

lemma ParsePartialBundle_marshalled:
  assumes wf: "wf_bundle ebm b" and m: "Bundle_MarshalCbor L b = Inr (bs, b')" and valid: "Bundle_CheckValid now b = Inr []"
  shows "ParsePartialBundle L ebm wanted bs =
    Inr \<lparr>prt_PrimaryBlock = bndl_PrimaryBlock b', prt_ExtensionBlocks = select_blocks wanted (bndl_ExtensionBlocks b')\<rparr>"
proof -
  obtain pl where pl: "bndl_PayloadBlock b = Some pl" "wf_canonical ebm pl" "TypeCode pl = BlockTypePayloadBlock"
    using wf by (auto simp: wf_bundle_def)
  obtain p pb' e ebs' d pl' where parts: "PrimaryBlock_MarshalCbor L (bndl_PrimaryBlock b) = Inr (p, pb')"
    "marshal_blocks L (bndl_ExtensionBlocks b) = Inr (e, ebs')" "CanonicalBlock_MarshalCbor L pl = Inr (d, pl')"
    "bs = [IndefiniteArray L] @ p @ e @ d @ [BreakCode L]"
    "b' = \<lparr>bndl_PrimaryBlock = pb', bndl_ExtensionBlocks = ebs', bndl_PayloadBlock = Some pl'\<rparr>"
    using m by (auto simp: Bundle_MarshalCbor_def bindR_Inr_iff pl(1))
  have prim: "PrimaryBlock_UnmarshalCbor L (p @ r) = Inr (pb', r)" for r
    using PrimaryBlock_roundtrip wf parts(1) unfolding wf_bundle_def by (metis prod.inject sum.inject(2))
  have ext: "\<forall>cb \<in> set (bndl_ExtensionBlocks b). wf_canonical ebm cb \<and> TypeCode cb \<noteq> BlockTypePayloadBlock"
    using wf by (simp add: wf_bundle_def)
  have "length (bndl_ExtensionBlocks b) \<le> length e" using marshal_blocks_length [OF _ parts(2)] ext by blast
  then obtain n where n: "Suc (length (e @ d @ [BreakCode L])) = length (bndl_ExtensionBlocks b) + Suc n"
    by (metis add_Suc_right le_Suc_ex length_append le_add1 le_trans)
  note loop = partial_blocks_read [OF ext parts(2) pl(2,3) parts(3), of n bs "[BreakCode L]" wanted "[]", folded n]
  have strip: "strip_crc b' = strip_crc b" using Bundle_roundtrip [OF wf] m by (metis prod.inject sum.inject(2))
  then have "Bundle_CheckValid now b' = Inr []" using Bundle_CheckValid_crc valid by metis
  then have "PrimaryBlock_CheckValid pb' = []" "\<forall>cb \<in> set ebs'. CanonicalBlock_CheckValid cb = []"
    by (auto simp: Bundle_CheckValid_Inr_Nil parts(5))
  then have ok: "PrimaryBlock_CheckValid pb' = []" "concat (map CanonicalBlock_CheckValid (select_blocks wanted ebs')) = []"
    using set_select_blocks by (auto simp: concat_eq_Nil_conv)
  show ?thesis
    using loop by (simp add: ParsePartialBundle_def parts(4,5) read_expect prim ok del: partial_blocks.simps)
qed

end

section \<open>Correctness\<close>

text \<open>
  C29. Loading a bundle partially is loading it whole and selecting: for a stored well-formed and
  valid bundle, \<open>LoadPartialBundle\<close> returns the primary block of the bundle that \<open>Load\<close> returns and, of its
  extension blocks, the first ones of the wanted types, in their order, with the values, flags and
  checksums the full decoder gives them, although it skips the data of all others.
\<close>

theorem LoadPartialBundle_equiv_Load:
  assumes "cboring_lib L" "badger D get" "store_inv get st" "wf_bundle ebm b" "Bundle_CheckValid now b = Inr []"
    "bst_bundles st (Bundle_ID b) = None" "get (bst_metadataStore st) (Bundle_String b) = None" "previous_node b = Inr prev"
    "create_ok env" "flush_ok env" "InsertBundle L D env b st = (Inr p, st')"
  shows "\<exists>b'. Load L ebm now p st' = Inr (Some b') \<and> strip_crc b' = strip_crc b \<and>
    LoadPartialBundle L ebm wanted p st' =
      Inr \<lparr>prt_PrimaryBlock = bndl_PrimaryBlock b', prt_ExtensionBlocks = select_blocks wanted (bndl_ExtensionBlocks b')\<rparr>"
proof -
  obtain b1 where b1: "Load L ebm now p st' = Inr (Some b1)" "strip_crc b1 = strip_crc b"
    using badger.insert_load [OF assms(2,1,3,4,6,7,8,9,10,5)] assms(11) by auto
  obtain bs b' where m: "Bundle_MarshalCbor L b = Inr (bs, b')" "strip_crc b' = strip_crc b"
    "ParseBundle L ebm now bs = bindR (Bundle_CheckValid now b) (\<lambda>errs. Inr (b', errs))"
    using ParseBundle_encode [OF assms(1,4), of now] by blast
  have stored: "bst_files st' (file_name (Bundle_String b)) = Some bs"
    "bst_heap st' p = Some (NewBundleDescriptor (new_metadata (bst_nodeID st) b prev))"
    using assms(6,8-11) m(1) by (auto simp: InsertBundle_def insertNewBundleUnsafe_def Let_def split: sum.splits prod.splits if_splits)
  then have "b1 = b'"
    using b1(1) m(3) assms(5) by (simp add: Load_def loadEntireBundle_def NewBundleDescriptor_def new_metadata_def Let_def)
  then show ?thesis
    using b1 stored cboring_lib.ParsePartialBundle_marshalled [OF assms(1,4) m(1) assms(5)]
    by (simp add: LoadPartialBundle_def loadPartialBundle_def NewBundleDescriptor_def new_metadata_def Let_def)
qed

theorem LoadPartialBundle_equiv_Load_witness:
  "\<exists>(st :: (string \<times> BundleMetadata) list BundleStore) b' cb. InsertBundle rfc8949 alist_db example_env example_bundle example_store = (Inr 0, st) \<and>
     Load rfc8949 GetExtensionBlockManager 0 0 st = Inr (Some b') \<and>
     LoadPartialBundle rfc8949 GetExtensionBlockManager [6, 10] 0 st =
       Inr \<lparr>prt_PrimaryBlock = bndl_PrimaryBlock b', prt_ExtensionBlocks = [cb]\<rparr> \<and> cb_Value cb = HopCountBlock 5 1"
proof -
  obtain st where i: "InsertBundle rfc8949 alist_db example_env example_bundle example_store = (Inr 0, st)"
    using example_inserted by metis
  obtain b' where b': "Load rfc8949 GetExtensionBlockManager 0 0 st = Inr (Some b')" "strip_crc b' = strip_crc example_bundle"
    "LoadPartialBundle rfc8949 GetExtensionBlockManager [6, 10] 0 st =
      Inr \<lparr>prt_PrimaryBlock = bndl_PrimaryBlock b', prt_ExtensionBlocks = select_blocks [6, 10] (bndl_ExtensionBlocks b')\<rparr>"
    using LoadPartialBundle_equiv_Load [OF rfc.cboring_lib_axioms alist.badger_axioms example_store_inv example_bundle_wf
        example_bundle_valid example_fresh(1,2) example_previous_node example_fresh(3,4) i] by blast
  have "map (cb_CRC_update (\<lambda>_. [])) (bndl_ExtensionBlocks b') = [NewCanonicalBlock 2 1 (HopCountBlock 5 1)]"
    using arg_cong [OF b'(2), of bndl_ExtensionBlocks] by (simp add: strip_crc_def example_bundle_def NewCanonicalBlock_def)
  then obtain cb where cb: "bndl_ExtensionBlocks b' = [cb]" "cb\<lparr>cb_CRC := []\<rparr> = NewCanonicalBlock 2 1 (HopCountBlock 5 1)"
    by (auto simp: map_eq_Cons_conv)
  then have "cb_Value cb = HopCountBlock 5 1" by (cases cb) (simp add: NewCanonicalBlock_def)
  then show ?thesis using i b' cb(1) by (auto simp: TypeCode_def block_type_defs)
qed

text \<open>
  A file that ends early panics: the loop asks the block it could not read for its type code.
\<close>

lemma ParsePartialBundle_truncated_panics:
  assumes "cboring_lib L" "wf_primary pb" "PrimaryBlock_MarshalCbor L pb = Inr (p, pb')" "ReadArrayLength L [] = Inl e" "e \<noteq> FlagBreakCode"
  shows "ParsePartialBundle L ebm wanted ([IndefiniteArray L] @ p) = Inl (Panic ''nil pointer dereference: Value of the block'')"
proof -
  have "PrimaryBlock_UnmarshalCbor L p = Inr (pb', [])"
    using cboring_lib.PrimaryBlock_roundtrip [OF assms(1,2)] assms(3) by (metis append_Nil2 prod.inject sum.inject(2))
  then show ?thesis using assms(4,5)
    by (simp add: ParsePartialBundle_def cboring_lib.read_expect [OF assms(1)] UnmarshalWantedBlock_def)
qed

end
