(* ===== verification/Store_Spec.thy ===== *)
theory Store_Spec
  imports Partial_Bundle
begin

text \<open>
  The contract of the bundle store, abstractly: a map from identifiers to bundles with a set of
  retention constraints, known holders, and two marks, one for bundles to be deleted when nothing
  retains them any more and one for bundles that are being deleted; and the set of identifiers that are blocked, because the
  file of a bundle could not be written when it was inserted. Metadata, descriptors on the heap, the
  database, files and started goroutines do not occur. The detailed store of \<open>Store\<close> refines it: a
  simulation relates the states, every operation a client calls keeps it, and clients observe the same.
\<close>

section \<open>The abstract store\<close>

record spec_entry =
  se_content :: Bundle
  se_constraints :: "Constraint set"
  se_condemned :: bool
  se_dying :: bool
  se_holders :: "EndpointID list"

type_synonym spec_store = "BundleID \<rightharpoonup> spec_entry"

type_synonym spec_state = "spec_store \<times> BundleID set"

definition expires_of :: "Bundle \<Rightarrow> time" where
  "expires_of b = DtnTime_Time (CreationTimestamp_DtnTime (pb_CreationTimestamp (bndl_PrimaryBlock b))) +
     lifetime_duration (pb_Lifetime (bndl_PrimaryBlock b))"

definition sender_of :: "Bundle \<Rightarrow> EndpointID list" where
  "sender_of b = (case previous_node b of Inr (Some e) \<Rightarrow> [e] | _ \<Rightarrow> [])"

text \<open>What an entry that is not being deleted becomes; one that is stays.\<close>

definition spec_update :: "(spec_entry \<Rightarrow> spec_entry) \<Rightarrow> BundleID \<Rightarrow> spec_store \<Rightarrow> spec_store" where
  "spec_update g bid m =
     (case m bid of None \<Rightarrow> m | Some e \<Rightarrow> if se_dying e then m else m(bid \<mapsto> g e))"

definition settle :: "spec_entry \<Rightarrow> spec_entry" where
  "settle e = (if se_condemned e \<and> se_constraints e = {} then e\<lparr>se_dying := True\<rparr> else e)"

definition spec_add :: "Constraint \<Rightarrow> spec_entry \<Rightarrow> spec_entry" where
  "spec_add c e = (if Constraint_Valid c then e\<lparr>se_constraints := insert c (se_constraints e)\<rparr> else e)"

definition spec_remove :: "Constraint \<Rightarrow> spec_entry \<Rightarrow> spec_entry" where
  "spec_remove c e = settle (e\<lparr>se_constraints := se_constraints e - {c}\<rparr>)"

definition spec_reset :: "spec_entry \<Rightarrow> spec_entry" where
  "spec_reset e = settle (e\<lparr>se_constraints := {}\<rparr>)"

definition spec_delete :: "bool \<Rightarrow> spec_entry \<Rightarrow> spec_entry" where
  "spec_delete mark e =
     (if se_constraints e = {} then e\<lparr>se_dying := True\<rparr> else if mark then e\<lparr>se_condemned := True\<rparr> else e)"

definition spec_holders :: "EndpointID list \<Rightarrow> spec_entry \<Rightarrow> spec_entry" where
  "spec_holders peers e = e\<lparr>se_holders := se_holders e @ peers\<rparr>"

text \<open>
  A bundle that is known gets its sender as a holder. Otherwise a failure to create its file changes nothing, a failure to
  write it blocks the identifier, and a blocked bundle cannot be inserted.
\<close>

fun spec_insert :: "EndpointID \<Rightarrow> io_env \<Rightarrow> Bundle \<Rightarrow> spec_state \<Rightarrow> spec_state" where
  "spec_insert n env b (m, B) =
     (case m (Bundle_ID b) of
        None \<Rightarrow>
          if Bundle_ID b \<in> B \<or> \<not> create_ok env then (m, B)
          else if \<not> flush_ok env then (m, insert (Bundle_ID b) B)
          else (m(Bundle_ID b \<mapsto> \<lparr>se_content = strip_crc b, se_constraints = {DispatchPending}, se_condemned = False,
                                   se_dying = False, se_holders = n # sender_of b\<rparr>), B)
      | Some _ \<Rightarrow> (spec_update (spec_holders (sender_of b)) (Bundle_ID b) m, B))"

definition spec_collect :: "time \<Rightarrow> spec_entry \<Rightarrow> spec_entry" where
  "spec_collect now e =
     (if expires_of (se_content e) < now \<and> se_constraints e = {} then e\<lparr>se_dying := True\<rparr> else e)"

definition spec_gc :: "time \<Rightarrow> BundleID list \<Rightarrow> spec_store \<Rightarrow> spec_store" where
  "spec_gc now order m = (\<lambda>bid. map_option (if bid \<in> set order then spec_collect now else id) (m bid))"

definition spec_finish :: "BundleID \<Rightarrow> spec_store \<Rightarrow> spec_store" where
  "spec_finish bid m = (case m bid of None \<Rightarrow> m | Some e \<Rightarrow> if se_dying e then m(bid := None) else m)"

section \<open>The operations of clients\<close>

text \<open>
  Clients address a bundle by its identifier: they look its descriptor up and call a method of it. A
  started deletion may run at any time. An insertion comes with what the operating system does with the file.
\<close>

datatype store_op =
    OpInsert io_env Bundle
  | OpAddConstraint Constraint BundleID
  | OpRemoveConstraint Constraint BundleID
  | OpResetConstraints BundleID
  | OpDelete bool BundleID
  | OpAddKnownHolder "EndpointID list" BundleID
  | OpGarbageCollect time "BundleID list"
  | OpFinishDeletion BundleID

definition with_descriptor :: "BundleID \<Rightarrow> (nat \<Rightarrow> 'db BundleStore \<Rightarrow> 'db BundleStore) \<Rightarrow> 'db BundleStore \<Rightarrow> 'db BundleStore" where
  "with_descriptor bid f st = (case GetBundleDescriptor bid st of Inl _ \<Rightarrow> st | Inr p \<Rightarrow> f p st)"

definition finish_deletion :: "'db badgerhold \<Rightarrow> BundleID \<Rightarrow> 'db BundleStore \<Rightarrow> 'db BundleStore" where
  "finish_deletion D bid st =
     (case dropWhile (\<lambda>m. md_ID m \<noteq> bid) (bst_pending st) of
        [] \<Rightarrow> st
      | m # ys \<Rightarrow> deleteBundle D m (st\<lparr>bst_pending := takeWhile (\<lambda>m. md_ID m \<noteq> bid) (bst_pending st) @ ys\<rparr>))"

fun run_op :: "cboring \<Rightarrow> 'db badgerhold \<Rightarrow> store_op \<Rightarrow> 'db BundleStore \<Rightarrow> 'db BundleStore" where
  "run_op L D (OpInsert env b) st = snd (InsertBundle L D env b st)"
| "run_op L D (OpAddConstraint c bid) st = with_descriptor bid (\<lambda>p st. snd (on_descriptor (AddConstraint c) p st)) st"
| "run_op L D (OpRemoveConstraint c bid) st = with_descriptor bid (\<lambda>p st. snd (on_descriptor (RemoveConstraint c) p st)) st"
| "run_op L D (OpResetConstraints bid) st = with_descriptor bid (\<lambda>p st. snd (on_descriptor ResetConstraints p st)) st"
| "run_op L D (OpDelete mark bid) st = with_descriptor bid (\<lambda>p st. snd (on_descriptor (Delete mark) p st)) st"
| "run_op L D (OpAddKnownHolder peers bid) st = with_descriptor bid (\<lambda>p st. snd (AddKnownHolder D peers p st)) st"
| "run_op L D (OpGarbageCollect now order) st = GarbageCollect now order st"
| "run_op L D (OpFinishDeletion bid) st = finish_deletion D bid st"

fun spec_op :: "EndpointID \<Rightarrow> store_op \<Rightarrow> spec_state \<Rightarrow> spec_state" where
  "spec_op n (OpInsert env b) s = spec_insert n env b s"
| "spec_op n (OpAddConstraint c bid) (m, B) = (spec_update (spec_add c) bid m, B)"
| "spec_op n (OpRemoveConstraint c bid) (m, B) = (spec_update (spec_remove c) bid m, B)"
| "spec_op n (OpResetConstraints bid) (m, B) = (spec_update spec_reset bid m, B)"
| "spec_op n (OpDelete mark bid) (m, B) = (spec_update (spec_delete mark) bid m, B)"
| "spec_op n (OpAddKnownHolder peers bid) (m, B) = (spec_update (spec_holders peers) bid m, B)"
| "spec_op n (OpGarbageCollect now order) (m, B) = (spec_gc now order m, B)"
| "spec_op n (OpFinishDeletion bid) (m, B) = (spec_finish bid m, B)"

text \<open>What clients see of a bundle: its content, its constraints and its holders.\<close>

definition observe ::
    "cboring \<Rightarrow> ExtensionBlockManager \<Rightarrow> time \<Rightarrow> BundleID \<Rightarrow> 'db BundleStore \<Rightarrow> (Bundle \<times> Constraint set \<times> EndpointID list) option" where
  "observe L ebm now bid st =
     (case GetBundleDescriptor bid st of Inl _ \<Rightarrow> None | Inr p \<Rightarrow>
      (case (Load L ebm now p st, bst_heap st p) of
         (Inr (Some b), Some bd) \<Rightarrow> Some (strip_crc b, set (bd_retentionConstraints bd), md_KnownHolders (bd_metadata bd))
       | _ \<Rightarrow> None))"

definition spec_observe :: "BundleID \<Rightarrow> spec_store \<Rightarrow> (Bundle \<times> Constraint set \<times> EndpointID list) option" where
  "spec_observe bid m =
     (case m bid of None \<Rightarrow> None
      | Some e \<Rightarrow> if se_dying e then None else Some (se_content e, se_constraints e, se_holders e))"

section \<open>Descriptors refine entries\<close>

definition entry_of :: "Bundle \<Rightarrow> BundleDescriptor \<Rightarrow> spec_entry" where
  "entry_of b bd =
     \<lparr>se_content = strip_crc b, se_constraints = set (bd_retentionConstraints bd), se_condemned = bd_shouldDelete bd,
      se_dying = bd_deleted bd, se_holders = md_KnownHolders (bd_metadata bd)\<rparr>"

lemma expires_of_strip [simp]: "expires_of (strip_crc b) = expires_of b"
  by (simp add: expires_of_def)

lemma sender_of_eq: "previous_node b = Inr prev \<Longrightarrow> sender_of b = (case prev of None \<Rightarrow> [] | Some e \<Rightarrow> [e])"
  by (simp add: sender_of_def split: option.split)

locale refined_op = descriptor_op +
  fixes g :: "spec_entry \<Rightarrow> spec_entry"
  assumes refines: "bd_inv bd \<Longrightarrow> \<not> bd_deleted bd \<Longrightarrow> f bd = Inr (bd', sp) \<Longrightarrow> entry_of b bd' = g (entry_of b bd)"
    and refused: "bd_inv bd \<Longrightarrow> \<not> bd_deleted bd \<Longrightarrow> f bd = Inl e \<Longrightarrow> g (entry_of b bd) = entry_of b bd"

interpretation add_ref: refined_op "AddConstraint c" "spec_add c" for c
  by unfold_locales (auto simp: AddConstraint_def spec_add_def entry_of_def split: if_splits)

interpretation remove_ref: refined_op "RemoveConstraint c" "spec_remove c" for c
  by unfold_locales
    (auto simp: RemoveConstraint_def spec_remove_def settle_def entry_of_def keep_constraints_eq Let_def delete_ignoring_def
      unsafeDelete_def filter_empty_conv split: if_splits)

interpretation reset_ref: refined_op ResetConstraints spec_reset
  by unfold_locales
    (auto simp: ResetConstraints_def spec_reset_def settle_def entry_of_def Let_def delete_ignoring_def unsafeDelete_def
      split: if_splits)

interpretation delete_ref: refined_op "Delete m" "spec_delete m" for m
  by unfold_locales (auto simp: Delete_def spec_delete_def entry_of_def unsafeDelete_def split: if_splits)

section \<open>The simulation\<close>

text \<open>
  The bundle that belongs to an entry is what its file decodes to, and the expiry time recorded with it is
  the one its primary block gives. The database has the records of the bundles in the map and those of the blocked
  identifiers, no others.
\<close>

definition represents :: "cboring \<Rightarrow> time \<Rightarrow> (string \<rightharpoonup> bytes) \<Rightarrow> BundleID \<Rightarrow> BundleDescriptor \<Rightarrow> spec_entry \<Rightarrow> bool" where
  "represents L now files bid bd e \<longleftrightarrow>
     (\<exists>bs b errs. files (file_name (BundleID_String bid)) = Some bs \<and>
        ParseBundle L GetExtensionBlockManager now bs = Inr (b, errs) \<and>
        md_Expires (bd_metadata bd) = expires_of b \<and> e = entry_of b bd)"

definition sim ::
    "cboring \<Rightarrow> ('db \<Rightarrow> string \<rightharpoonup> BundleMetadata) \<Rightarrow> EndpointID \<Rightarrow> time \<Rightarrow> BundleID set \<Rightarrow> BundleID set \<Rightarrow> 'db BundleStore \<Rightarrow> spec_store \<Rightarrow> bool" where
  "sim L get n now U B st m \<longleftrightarrow>
     store_inv get st \<and> bst_nodeID st = n \<and> dom (bst_bundles st) \<subseteq> U \<and> dom m = dom (bst_bundles st) \<and>
     (\<forall>k md. get (bst_metadataStore st) k = Some md \<longrightarrow> md_ID md \<in> dom (bst_bundles st) \<union> B) \<and>
     (\<forall>bid \<in> B. bid \<in> U \<and> bst_bundles st bid = None \<and> get (bst_metadataStore st) (BundleID_String bid) \<noteq> None) \<and>
     (\<forall>bid p bd. bst_bundles st bid = Some p \<longrightarrow> bst_heap st p = Some bd \<longrightarrow>
        (\<exists>e. m bid = Some e \<and> represents L now (bst_files st) bid bd e))"

definition sim_state ::
    "cboring \<Rightarrow> ('db \<Rightarrow> string \<rightharpoonup> BundleMetadata) \<Rightarrow> EndpointID \<Rightarrow> time \<Rightarrow> BundleID set \<Rightarrow> 'db BundleStore \<Rightarrow> spec_state \<Rightarrow> bool" where
  "sim_state L get n now U st s \<longleftrightarrow> sim L get n now U (snd s) st (fst s)"

fun op_ok :: "BundleID set \<Rightarrow> store_op \<Rightarrow> bool" where
  "op_ok U (OpInsert env b) \<longleftrightarrow> wf_bundle GetExtensionBlockManager b \<and> Bundle_ID b \<in> U"
| "op_ok U _ \<longleftrightarrow> True"

lemma represents_dying: "represents L now files bid bd e \<Longrightarrow> se_dying e = bd_deleted bd"
  by (auto simp: represents_def entry_of_def)

lemma simD:
  assumes "sim L get n now U B st m"
  shows "store_inv get st" "inv_heap st" "inv_map get st" "inv_pending st" "inv_db get (bst_metadataStore st)"
    "bst_nodeID st = n" "bst_bundles st bid = Some p \<Longrightarrow> bid \<in> U" "m bid = None \<longleftrightarrow> bst_bundles st bid = None"
    "get (bst_metadataStore st) k = Some md \<Longrightarrow> (\<exists>p. bst_bundles st (md_ID md) = Some p) \<or> md_ID md \<in> B"
    "bid \<in> B \<Longrightarrow> bid \<in> U" "bid \<in> B \<Longrightarrow> bst_bundles st bid = None"
    "bid \<in> B \<Longrightarrow> \<exists>md. get (bst_metadataStore st) (BundleID_String bid) = Some md"
  using assms by (auto simp: sim_def store_inv_def)

lemma sim_entry:
  assumes "sim L get n now U B st m" "bst_bundles st bid = Some p"
  obtains bd e where "bst_heap st p = Some bd" "bd_ID bd = bid" "m bid = Some e" "represents L now (bst_files st) bid bd e"
proof -
  obtain bd where bd: "bst_heap st p = Some bd" "bd_ID bd = bid" using inv_mapE [OF simD(3) [OF assms(1)] assms(2)] by metis
  then show thesis using that assms unfolding sim_def by metis
qed

text \<open>A step that changes one descriptor.\<close>

lemma sim_change:
  assumes sim: "sim L get n now U B st m" and p: "bst_bundles st bid = Some p" "bst_heap st p = Some bd"
    and inv: "store_inv get st'"
    and frame: "bst_nodeID st' = bst_nodeID st" "bst_bundles st' = bst_bundles st" "bst_files st' = bst_files st"
      "bst_heap st' = (bst_heap st)(p \<mapsto> bd')" "md_Expires (bd_metadata bd') = md_Expires (bd_metadata bd)"
    and db: "\<And>k md. get (bst_metadataStore st') k = Some md \<Longrightarrow> \<exists>k md'. get (bst_metadataStore st) k = Some md' \<and> md_ID md' = md_ID md"
      "\<And>k md. get (bst_metadataStore st) k = Some md \<Longrightarrow> get (bst_metadataStore st') k \<noteq> None"
    and e: "\<And>b. m bid = Some (entry_of b bd) \<Longrightarrow> e' = entry_of b bd'"
  shows "sim L get n now U B st' (m(bid \<mapsto> e'))"
proof -
  have ptr: "q = p \<longleftrightarrow> bid' = bid" if "bst_bundles st bid' = Some q" for bid' q
    using that p inv_mapE [OF simD(3) [OF sim]] by (metis option.inject)
  have "\<exists>e. (m(bid \<mapsto> e')) bid' = Some e \<and> represents L now (bst_files st') bid' bd'' e"
    if q: "bst_bundles st' bid' = Some q" "bst_heap st' q = Some bd''" for bid' q bd''
  proof -
    obtain bd0 e0 where o: "bst_heap st q = Some bd0" "m bid' = Some e0" "represents L now (bst_files st) bid' bd0 e0"
      using sim_entry [OF sim q(1) [unfolded frame(2)]] by metis
    show ?thesis
    proof (cases "bid' = bid")
      case True
      then have "q = p" "bd'' = bd'" "bd0 = bd" using q ptr [of bid' q] frame(2,4) p(2) o(1) by auto
      then show ?thesis using True o e frame(3,5) by (auto simp: represents_def)
    next
      case False
      then have "bd'' = bd0" using q ptr [of bid' q] frame(2,4) o(1) by auto
      then show ?thesis using False o frame(3) by simp
    qed
  qed
  moreover have "md_ID md \<in> dom (bst_bundles st') \<union> B" if "get (bst_metadataStore st') k = Some md" for k md
    using db(1) [OF that] simD(9) [OF sim] frame(2) by force
  moreover have "x \<in> U \<and> bst_bundles st' x = None \<and> get (bst_metadataStore st') (BundleID_String x) \<noteq> None" if "x \<in> B" for x
    using simD(10,11,12) [OF sim that] db(2) frame(2) by metis
  moreover have "dom (bst_bundles st') \<subseteq> U" "dom (m(bid \<mapsto> e')) = dom (bst_bundles st')"
    using sim p(1) frame(2) by (auto simp: sim_def)
  ultimately show ?thesis using inv frame(1) simD(6) [OF sim] unfolding sim_def by blast
qed

lemma sim_nothing: "sim L get n now U B st m \<Longrightarrow> m bid = None \<or> (\<exists>e. m bid = Some e \<and> (se_dying e \<or> g e = e)) \<Longrightarrow>
    sim L get n now U B st (spec_update g bid m)"
  by (auto simp: spec_update_def fun_upd_idem)

text \<open>An operation at an identifier: it runs only on a live bundle.\<close>

lemma sim_with_descriptor:
  assumes sim: "sim L get n now U B st m"
    and step: "\<And>p bd e. bst_bundles st bid = Some p \<Longrightarrow> bst_heap st p = Some bd \<Longrightarrow> \<not> bd_deleted bd \<Longrightarrow> m bid = Some e \<Longrightarrow>
      sim L get n now U B (f p st) (m(bid \<mapsto> g e))"
  shows "sim L get n now U B (with_descriptor bid f st) (spec_update g bid m)"
proof (cases "bst_bundles st bid")
  case None
  then show ?thesis using sim_nothing [OF sim] simD(8) [OF sim, of bid] by (simp add: with_descriptor_def GetBundleDescriptor_def)
next
  case (Some p)
  then obtain bd e where bd: "bst_heap st p = Some bd" "m bid = Some e" "represents L now (bst_files st) bid bd e"
    using sim_entry [OF sim] by metis
  then show ?thesis
    using step [OF Some bd(1) _ bd(2)] sim represents_dying [OF bd(3)] Some
    by (simp add: with_descriptor_def GetBundleDescriptor_def Deleted_def spec_update_def)
qed

context refined_op
begin

lemma sim_op:
  assumes sim: "sim L get n now U B st m"
  shows "sim L get n now U B (with_descriptor bid (\<lambda>p st. snd (on_descriptor f p st)) st) (spec_update g bid m)"
proof (rule sim_with_descriptor [OF sim])
  fix p bd e assume p: "bst_bundles st bid = Some p" "bst_heap st p = Some bd" "\<not> bd_deleted bd" "m bid = Some e"
  have inv: "bd_inv bd" using inv_heapD(2) [OF simD(2) [OF sim] p(2)] .
  obtain b where b: "e = entry_of b bd" using sim_entry [OF sim p(1)] p(2,4) by (auto simp: represents_def)
  show "sim L get n now U B (snd (on_descriptor f p st)) (m(bid \<mapsto> g e))"
  proof (cases "f bd")
    case (Inl err)
    then show ?thesis using sim p refused [OF inv p(3) Inl] b by (simp add: on_descriptor_def fun_upd_idem)
  next
    case (Inr r)
    obtain bd' sp where r: "f bd = Inr (bd', sp)" using Inr by (cases r) simp
    have "bd_metadata bd' = bd_metadata bd" using effect [OF inv r] by (simp add: bd_effect_def)
    moreover have "g e = entry_of b' bd'" if "m bid = Some (entry_of b' bd)" for b'
      using that p(4) refines [OF inv p(3) r] by simp
    moreover have "snd (on_descriptor f p st) = st\<lparr>bst_heap := (bst_heap st)(p \<mapsto> bd'), bst_pending := bst_pending st @ sp\<rparr>"
      using p(2) r by (simp add: on_descriptor_def)
    ultimately show ?thesis
      using on_descriptor_inv [OF simD(1) [OF sim], of p] by (intro sim_change [OF sim p(1,2), where bd' = bd']) auto
  qed
qed

end

locale bundle_store = cboring_lib L + badger D get for L :: cboring and D :: "'db badgerhold" and get +
  fixes n :: EndpointID and now :: time and U :: "BundleID set"
  assumes names: "inj_on (\<lambda>bid. file_name (BundleID_String bid)) U"
begin

lemma sim_holders:
  assumes sim: "sim L get n now U B st m" and p: "bst_bundles st bid = Some p" "bst_heap st p = Some bd" "\<not> bd_deleted bd" "m bid = Some e"
  shows "sim L get n now U B (snd (AddKnownHolder D peers p st)) (m(bid \<mapsto> spec_holders peers e))"
proof -
  let ?md = "(bd_metadata bd)\<lparr>md_KnownHolders := md_KnownHolders (bd_metadata bd) @ peers\<rparr>"
  have id: "bd_ID bd = bid" using inv_mapE [OF simD(3) [OF sim] p(1)] p(2) by (metis option.inject)
  have "md_ok (bd_metadata bd)" using inv_heapD(3) [OF simD(2) [OF sim] p(2)] .
  then have key: "md_IDString ?md = BundleID_String bid" using id by (simp add: md_ok_def bd_ID_def)
  have "get (bst_metadataStore st) (BundleID_String bid) = Some (bd_metadata bd)"
    using inv_mapE [OF simD(3) [OF sim] p(1)] p(2) by (metis option.inject)
  then obtain db where db: "db_Update D (BundleID_String bid) ?md (bst_metadataStore st) = Inr db"
    "get db = (get (bst_metadataStore st))(BundleID_String bid \<mapsto> ?md)" using update_exists by blast
  have st': "snd (AddKnownHolder D peers p st) = st\<lparr>bst_heap := (bst_heap st)(p \<mapsto> bd\<lparr>bd_metadata := ?md\<rparr>), bst_metadataStore := db\<rparr>"
    using p(2,3) key db(1) by (simp add: AddKnownHolder_def Let_def set_metadata_def updateBundleMetadata_def)
  have rec: "\<exists>k md'. get (bst_metadataStore st) k = Some md' \<and> md_ID md' = md_ID md" if "get db k = Some md" for k md
    using that db(2) \<open>get (bst_metadataStore st) (BundleID_String bid) = Some (bd_metadata bd)\<close>
    by (cases "k = BundleID_String bid") (auto intro: exI [of _ "BundleID_String bid"])
  have keep: "get db k \<noteq> None" if "get (bst_metadataStore st) k = Some md" for k md using that db(2) by simp
  have ent: "spec_holders peers e = entry_of b (bd\<lparr>bd_metadata := ?md\<rparr>)" if "m bid = Some (entry_of b bd)" for b
    using that p(4) by (simp add: entry_of_def spec_holders_def)
  show ?thesis
    using AddKnownHolder_inv [OF simD(1) [OF sim], of peers p] rec keep ent unfolding st'
    by (intro sim_change [OF sim p(1,2), where bd' = "bd\<lparr>bd_metadata := ?md\<rparr>"]) auto
qed

text \<open>A new bundle that is not blocked has no record.\<close>

lemma sim_no_record:
  assumes sim: "sim L get n now U B st m" and new: "bst_bundles st (Bundle_ID b) = None" "Bundle_ID b \<notin> B" "Bundle_ID b \<in> U"
  shows "get (bst_metadataStore st) (Bundle_String b) = None"
proof (rule ccontr)
  assume "get (bst_metadataStore st) (Bundle_String b) \<noteq> None"
  then obtain md where md: "get (bst_metadataStore st) (Bundle_String b) = Some md" by blast
  then have "md_ID md \<in> U" using simD(9) [OF sim md] simD(7,10) [OF sim] by metis
  moreover have "BundleID_String (md_ID md) = BundleID_String (Bundle_ID b)"
    using md simD(5) [OF sim] unfolding inv_db_def md_ok_def Bundle_String_def by metis
  ultimately have "md_ID md = Bundle_ID b" using inj_onD [OF names] new(3) by simp
  then show False using new simD(9) [OF sim md] by simp
qed

text \<open>
  An insertion of a new bundle that fails: the state differs in the files and records of the bundle only, and it has a record
  exactly if it is blocked.
\<close>

lemma sim_insert_failed:
  assumes sim: "sim L get n now U B st m" and new: "bst_bundles st (Bundle_ID b) = None" "Bundle_ID b \<notin> B" "Bundle_ID b \<in> U"
    and st': "store_inv get st'" "bst_nodeID st' = bst_nodeID st" "bst_bundles st' = bst_bundles st" "bst_heap st' = bst_heap st"
      "\<And>f. f \<noteq> file_name (Bundle_String b) \<Longrightarrow> bst_files st' f = bst_files st f"
      "get (bst_metadataStore st') = (get (bst_metadataStore st))(Bundle_String b := r)"
    and r: "B' = (case r of None \<Rightarrow> B | Some md \<Rightarrow> insert (Bundle_ID b) B)" "\<And>md. r = Some md \<Longrightarrow> md_ID md = Bundle_ID b"
  shows "sim L get n now U B' st' m"
  unfolding sim_def
proof (intro conjI allI impI ballI)
  show "store_inv get st'" "bst_nodeID st' = n" "dom (bst_bundles st') \<subseteq> U" "dom m = dom (bst_bundles st')"
    using st'(1-3) sim by (auto simp: sim_def)
  fix k md assume k: "get (bst_metadataStore st') k = Some md"
  show "md_ID md \<in> dom (bst_bundles st') \<union> B'"
  proof (cases "k = Bundle_String b")
    case True
    then show ?thesis using k st'(6) r by simp
  next
    case False
    then show ?thesis using k st'(3,6) simD(9) [OF sim, of k md] r(1) by (auto split: option.splits)
  qed
next
  fix bid assume bid: "bid \<in> B'"
  have rec: "get (bst_metadataStore st) (Bundle_String b) = None" by (rule sim_no_record [OF sim new])
  consider md where "bid = Bundle_ID b" "r = Some md" | "bid \<in> B" using bid r(1) by (auto split: option.splits)
  then have "bid \<in> U \<and> bst_bundles st bid = None \<and> get (bst_metadataStore st') (BundleID_String bid) \<noteq> None"
  proof cases
    case 1
    then show ?thesis using new st'(6) by (simp add: Bundle_String_def)
  next
    case 2
    moreover have "BundleID_String bid \<noteq> Bundle_String b" using rec simD(12) [OF sim 2] by auto
    ultimately show ?thesis using simD(10-12) [OF sim 2] st'(6) by auto
  qed
  then show "bid \<in> U" "bst_bundles st' bid = None" "get (bst_metadataStore st') (BundleID_String bid) \<noteq> None"
    using st'(3) by simp_all
next
  fix bid p bd assume p: "bst_bundles st' bid = Some p" "bst_heap st' p = Some bd"
  then have old: "bst_bundles st bid = Some p" "bst_heap st p = Some bd" using st'(3,4) by simp_all
  have "bid \<noteq> Bundle_ID b" using old(1) new(1) by auto
  then have "file_name (BundleID_String bid) \<noteq> file_name (Bundle_String b)"
    using inj_onD [OF names, of bid "Bundle_ID b"] simD(7) [OF sim old(1)] new(3) by (auto simp: Bundle_String_def)
  then show "\<exists>e. m bid = Some e \<and> represents L now (bst_files st') bid bd e"
    using sim_entry [OF sim old(1)] old(2) st'(5) by (fastforce simp: represents_def)
qed

lemma sim_insert_new:
  assumes sim: "sim L get n now U B st m" and new: "bst_bundles st (Bundle_ID b) = None" "Bundle_ID b \<notin> B"
    and b: "wf_bundle GetExtensionBlockManager b" "Bundle_ID b \<in> U" and env_ok: "create_ok env" "flush_ok env"
  shows "sim L get n now U B (snd (InsertBundle L D env b st)) (fst (spec_insert n env b (m, B)))"
proof -
  let ?bid = "Bundle_ID b"
  obtain prev where prev: "previous_node b = Inr prev" using wf_previous_node [OF b(1)] by blast
  have norec: "get (bst_metadataStore st) (Bundle_String b) = None" by (rule sim_no_record [OF sim new b(2)])
  let ?md = "new_metadata n b prev"
  obtain db where db: "db_Insert D (Bundle_String b) ?md (bst_metadataStore st) = Inr db"
    "get db = (get (bst_metadataStore st))(Bundle_String b \<mapsto> ?md)" using insert_new [OF norec] by blast
  obtain bs b' errs where enc: "Bundle_MarshalCbor L b = Inr (bs, b')" "strip_crc b' = strip_crc b"
    "ParseBundle L GetExtensionBlockManager now bs = Inr (b', errs)"
    using ParseBundle_encode [OF cboring_lib_axioms b(1), of now] wf_CheckValid_total [OF b(1), of now] by auto
  let ?st = "st\<lparr>bst_metadataStore := db, bst_files := (bst_files st)(file_name (Bundle_String b) \<mapsto> bs),
      bst_heap := (bst_heap st)(bst_next st \<mapsto> NewBundleDescriptor ?md),
      bst_bundles := (bst_bundles st)(?bid \<mapsto> bst_next st), bst_next := bst_next st + 1\<rparr>"
  have ins: "snd (InsertBundle L D env b st) = ?st"
    using new(1) prev db(1) enc(1) env_ok simD(6) [OF sim] by (simp add: InsertBundle_def insertNewBundleUnsafe_def Let_def)
  let ?e = "entry_of b' (NewBundleDescriptor ?md)"
  have "fst (spec_insert n env b (m, B)) = m(?bid \<mapsto> ?e)"
    using simD(8) [OF sim, of ?bid] new sender_of_eq [OF prev] enc(2) env_ok
    by (simp add: entry_of_def NewBundleDescriptor_def new_metadata_def Let_def)
  moreover have "sim L get n now U B ?st (m(?bid \<mapsto> ?e))"
    unfolding sim_def
  proof (intro conjI allI impI ballI)
    show "store_inv get ?st" using InsertBundle_inv [OF simD(1) [OF sim], of L env b] ins by simp
    show "bst_nodeID ?st = n" using simD(6) [OF sim] by simp
    show "dom (bst_bundles ?st) \<subseteq> U" using sim b(2) by (auto simp: sim_def)
    show "dom (m(?bid \<mapsto> ?e)) = dom (bst_bundles ?st)" using sim by (auto simp: sim_def)
    fix k md assume "get (bst_metadataStore ?st) k = Some md"
    then show "md_ID md \<in> dom (bst_bundles ?st) \<union> B"
      using simD(9) [OF sim, of k md] db(2) by (cases "k = Bundle_String b") auto
  next
    fix x assume x: "x \<in> B"
    then show "x \<in> U" "bst_bundles ?st x = None" "get (bst_metadataStore ?st) (BundleID_String x) \<noteq> None"
      using simD(10-12) [OF sim x] new(2) db(2) by auto
  next
    fix bid p bd assume p: "bst_bundles ?st bid = Some p" "bst_heap ?st p = Some bd"
    show "\<exists>e. (m(?bid \<mapsto> ?e)) bid = Some e \<and> represents L now (bst_files ?st) bid bd e"
    proof (cases "bid = ?bid")
      case True
      have "expires_of b' = expires_of b" using enc(2) by (metis expires_of_strip)
      then have "md_Expires ?md = expires_of b'" by (simp add: new_metadata_def Let_def expires_of_def)
      then show ?thesis using True p enc(3) by (auto simp: represents_def Bundle_String_def NewBundleDescriptor_def)
    next
      case False
      then have old: "bst_bundles st bid = Some p" using p(1) by simp
      obtain bd0 e where o: "bst_heap st p = Some bd0" "m bid = Some e" "represents L now (bst_files st) bid bd0 e"
        using sim_entry [OF sim old] by metis
      have "p \<noteq> bst_next st" using inv_heapD(1) [OF simD(2) [OF sim] o(1)] by simp
      moreover have "file_name (BundleID_String bid) \<noteq> file_name (Bundle_String b)"
        using False inj_onD [OF names, of bid ?bid] simD(7) [OF sim old] b(2) by (auto simp: Bundle_String_def)
      ultimately show ?thesis using False p(2) o by (auto simp: represents_def)
    qed
  qed
  ultimately show ?thesis using ins by simp
qed

lemma sim_insert_unknown:
  assumes sim: "sim L get n now U B st m" and new: "bst_bundles st (Bundle_ID b) = None"
    and b: "wf_bundle GetExtensionBlockManager b" "Bundle_ID b \<in> U"
  shows "sim L get n now U (snd (spec_insert n env b (m, B))) (snd (InsertBundle L D env b st)) (fst (spec_insert n env b (m, B)))"
proof -
  obtain prev where prev: "previous_node b = Inr prev" using wf_previous_node [OF b(1)] by blast
  have m: "m (Bundle_ID b) = None" using simD(8) [OF sim] new by simp
  let ?md = "new_metadata n b prev"
  let ?st = "snd (InsertBundle L D env b st)"
  have inv: "store_inv get ?st" by (rule InsertBundle_inv [OF simD(1) [OF sim]])
  obtain bs b' where enc: "Bundle_MarshalCbor L b = Inr (bs, b')" using Bundle_roundtrip [OF b(1)] by blast
  consider "Bundle_ID b \<in> B" | "Bundle_ID b \<notin> B" "create_ok env" "flush_ok env" | "Bundle_ID b \<notin> B" "\<not> create_ok env"
    | "Bundle_ID b \<notin> B" "create_ok env" "\<not> flush_ok env" by blast
  then show ?thesis
  proof cases
    case 1
    then obtain md where "get (bst_metadataStore st) (Bundle_String b) = Some md"
      using simD(12) [OF sim 1] by (auto simp: Bundle_String_def)
    then obtain e where "db_Insert D (Bundle_String b) ?md (bst_metadataStore st) = Inl e" using insert_exists by blast
    then have "?st = st" using new prev simD(6) [OF sim] by (simp add: InsertBundle_def insertNewBundleUnsafe_def Let_def)
    then show ?thesis using 1 sim m by simp
  next
    case 2
    then show ?thesis using sim_insert_new [OF sim new _ b] m by simp
  next
    case 3
    obtain db where db: "db_Insert D (Bundle_String b) ?md (bst_metadataStore st) = Inr db"
      "get db = (get (bst_metadataStore st))(Bundle_String b \<mapsto> ?md)" using insert_new [OF sim_no_record [OF sim new 3(1) b(2)]] by blast
    have st: "?st = snd (deleteFromDiskUnsafe D ?md (st\<lparr>bst_metadataStore := db\<rparr>))"
      using new prev db(1) 3(2) simD(6) [OF sim] by (simp add: InsertBundle_def insertNewBundleUnsafe_def Let_def split: prod.split)
    have "sim L get n now U B ?st m"
      by (rule sim_insert_failed [OF sim new 3(1) b(2) inv, where r = None])
        (simp_all add: st deleteFromDisk_frame deleteFromDisk_db deleteFromDisk_files db(2))
    then show ?thesis using 3 m by simp
  next
    case 4
    obtain db where db: "db_Insert D (Bundle_String b) ?md (bst_metadataStore st) = Inr db"
      "get db = (get (bst_metadataStore st))(Bundle_String b \<mapsto> ?md)" using insert_new [OF sim_no_record [OF sim new 4(1) b(2)]] by blast
    have st: "?st = st\<lparr>bst_metadataStore := db, bst_files := (bst_files st)(file_name (Bundle_String b) \<mapsto> left_over env)\<rparr>"
      using new prev db(1) enc 4(2,3) simD(6) [OF sim] by (simp add: InsertBundle_def insertNewBundleUnsafe_def Let_def)
    have "sim L get n now U (insert (Bundle_ID b) B) ?st m"
      by (rule sim_insert_failed [OF sim new 4(1) b(2) inv, where r = "Some ?md"]) (simp_all add: st db(2))
    then show ?thesis using 4 m by simp
  qed
qed

lemma sim_insert:
  assumes sim: "sim L get n now U B st m" and b: "wf_bundle GetExtensionBlockManager b" "Bundle_ID b \<in> U"
  shows "sim L get n now U (snd (spec_insert n env b (m, B))) (snd (InsertBundle L D env b st)) (fst (spec_insert n env b (m, B)))"
proof (cases "bst_bundles st (Bundle_ID b)")
  case None
  then show ?thesis by (rule sim_insert_unknown [OF sim _ b])
next
  case (Some p)
  obtain prev where prev: "previous_node b = Inr prev" using wf_previous_node [OF b(1)] by blast
  obtain bd e where bd: "bst_heap st p = Some bd" "m (Bundle_ID b) = Some e" "se_dying e = bd_deleted bd"
    using sim_entry [OF sim Some] represents_dying by metis
  have known: "snd (InsertBundle L D env b st) = (case prev of None \<Rightarrow> st | Some x \<Rightarrow> snd (AddKnownHolder D [x] p st))"
    using Some prev by (simp add: InsertBundle_def split: option.split sum.split prod.split)
  have dead: "snd (AddKnownHolder D xs p st) = st" if "bd_deleted bd" for xs using that bd(1) by (simp add: AddKnownHolder_def)
  have "sim L get n now U B (snd (InsertBundle L D env b st)) (m(Bundle_ID b \<mapsto> spec_holders (sender_of b) e))" if "\<not> bd_deleted bd"
    using sim sim_holders [OF sim Some bd(1) that bd(2)] bd(2)
    by (cases prev) (simp_all add: known sender_of_eq [OF prev] spec_holders_def fun_upd_idem)
  then show ?thesis
    using sim dead bd(2,3) known by (cases prev) (auto simp: spec_update_def)
qed

lemma spec_gc_Cons: "spec_gc t (bid # order) m = spec_gc t order (spec_update (spec_collect t) bid m)"
proof
  have dying: "se_dying e \<Longrightarrow> spec_collect t e = e" for e by (cases e) (simp add: spec_collect_def)
  have idem: "spec_collect t (spec_collect t e) = spec_collect t e" for e by (simp add: spec_collect_def)
  show "spec_gc t (bid # order) m x = spec_gc t order (spec_update (spec_collect t) bid m) x" for x
    by (cases "m x"; cases "m bid") (auto simp: spec_gc_def spec_update_def dying idem)
qed

lemma sim_gc:
  assumes "sim L get n now U B st m"
  shows "sim L get n now U B (GarbageCollect t order st) (spec_gc t order m)"
  using assms
proof (induction order arbitrary: st m)
  case Nil
  have "spec_gc t [] m = m" by (simp add: spec_gc_def option.map_id0)
  then show ?case using Nil by simp
next
  case (Cons bid order)
  let ?st = "case bst_bundles st bid of None \<Rightarrow> st | Some p \<Rightarrow> (case bst_heap st p of None \<Rightarrow> st
     | Some bd \<Rightarrow> if Expired t bd \<and> \<not> Retain bd then snd (on_descriptor (Delete False) p st) else st)"
  have "sim L get n now U B ?st (spec_update (spec_collect t) bid m)"
  proof (cases "bst_bundles st bid")
    case None
    then show ?thesis using sim_nothing [OF Cons.prems] simD(8) [OF Cons.prems, of bid] by simp
  next
    case (Some p)
    obtain bd e where bd: "bst_heap st p = Some bd" "m bid = Some e" "represents L now (bst_files st) bid bd e"
      using sim_entry [OF Cons.prems Some] by metis
    have inv: "bd_inv bd" using inv_heapD(2) [OF simD(2) [OF Cons.prems] bd(1)] .
    have e: "expires_of (se_content e) = md_Expires (bd_metadata bd)" "se_constraints e = set (bd_retentionConstraints bd)"
      "se_dying e = bd_deleted bd" using bd(3) by (auto simp: represents_def entry_of_def)
    have "spec_collect t e = (if Expired t bd \<and> \<not> Retain bd then spec_delete False e else e)" if "\<not> se_dying e"
      using that inv e by (simp add: spec_collect_def spec_delete_def Expired_def Retain_def bd_inv_def)
    moreover have "snd (on_descriptor (Delete False) p st) = st" if "se_dying e"
      using that bd(1) inv e(3) by (simp add: on_descriptor_def Delete_def unsafeDelete_def bd_inv_def)
    ultimately show ?thesis
      using delete_ref.sim_op [OF Cons.prems, of bid False] Cons.prems Some bd(1,2) e(3)
      by (auto simp: spec_update_def with_descriptor_def GetBundleDescriptor_def Deleted_def fun_upd_idem)
  qed
  then show ?case using Cons.IH by (simp add: spec_gc_Cons)
qed

lemma finish_entry:
  assumes "sim L get n now U B st m"
  shows "spec_finish bid m = (if deleted_in_map st bid then m(bid := None) else m)"
proof (cases "bst_bundles st bid")
  case None
  then show ?thesis using simD(8) [OF assms, of bid] by (simp add: spec_finish_def deleted_in_map_def)
next
  case (Some p)
  obtain bd e where "bst_heap st p = Some bd" "m bid = Some e" "se_dying e = bd_deleted bd"
    using sim_entry [OF assms Some] represents_dying by metis
  then show ?thesis using Some by (simp add: spec_finish_def deleted_in_map_def)
qed

lemma sim_finish:
  assumes sim: "sim L get n now U B st m"
  shows "sim L get n now U B (finish_deletion D bid st) (spec_finish bid m)"
proof (cases "dropWhile (\<lambda>m. md_ID m \<noteq> bid) (bst_pending st)")
  case Nil
  then have "bid \<notin> md_ID ` set (bst_pending st)" by (auto simp: dropWhile_eq_Nil_conv)
  then have "\<not> deleted_in_map st bid" using simD(4) [OF sim] by (simp add: inv_pending_def)
  then have "spec_finish bid m = m" using finish_entry [OF sim, of bid] by simp
  then show ?thesis using sim unfolding finish_deletion_def Nil by simp
next
  case (Cons md ys)
  let ?xs = "takeWhile (\<lambda>m. md_ID m \<noteq> bid) (bst_pending st)"
  have id: "md_ID md = bid" using hd_dropWhile [of "\<lambda>m. md_ID m \<noteq> bid" "bst_pending st"] Cons by simp
  have pend: "bst_pending st = ?xs @ md # ys" using Cons takeWhile_dropWhile_id by metis
  let ?st = "deleteBundle D md (st\<lparr>bst_pending := ?xs @ ys\<rparr>)"
  have md: "md \<in> set (bst_pending st)" using pend by (metis in_set_conv_decomp)
  then have ok: "md_ok md" "deleted_in_map st bid" using simD(4) [OF sim] id unfolding inv_pending_def by blast+
  then have key: "md_IDString md = BundleID_String bid" "md_SerialisedFileName md = file_name (BundleID_String bid)"
    using id by (simp_all add: md_ok_def)
  have U: "bid \<in> U" using ok(2) simD(7) [OF sim] by (auto simp: deleted_in_map_def)
  have fr: "bst_heap ?st = bst_heap st" "bst_bundles ?st = (bst_bundles st)(bid := None)" "bst_nodeID ?st = bst_nodeID st"
    "get (bst_metadataStore ?st) = (get (bst_metadataStore st))(BundleID_String bid := None)"
    "bst_files ?st = (bst_files st)(file_name (BundleID_String bid) := None)"
    using id key by (simp_all add: deleteBundle_def deleteFromDisk_frame deleteFromDisk_db deleteFromDisk_files)
  have "spec_finish bid m = m(bid := None)"
    using ok(2) finish_entry [OF sim, of bid] by simp
  moreover have "sim L get n now U B ?st (m(bid := None))"
    unfolding sim_def
  proof (intro conjI allI impI ballI)
    show "store_inv get ?st" by (rule deleteBundle_inv [OF simD(1) [OF sim] pend])
    show "bst_nodeID ?st = n" using fr(3) simD(6) [OF sim] by simp
    show "dom (bst_bundles ?st) \<subseteq> U" "dom (m(bid := None)) = dom (bst_bundles ?st)" using sim fr(2) by (auto simp: sim_def)
    fix k x assume k: "get (bst_metadataStore ?st) k = Some x"
    then have k': "get (bst_metadataStore st) k = Some x" "k \<noteq> BundleID_String bid" using fr(4) by (auto split: if_splits)
    then have "md_ID x \<noteq> bid" using simD(5) [OF sim] unfolding inv_db_def md_ok_def by metis
    then show "md_ID x \<in> dom (bst_bundles ?st) \<union> B" using simD(9) [OF sim k'(1)] fr(2) by auto
  next
    fix x assume x: "x \<in> B"
    have "x \<noteq> bid" using simD(11) [OF sim x] ok(2) by (auto simp: deleted_in_map_def)
    then have "BundleID_String x \<noteq> BundleID_String bid" using inj_onD [OF names, of x bid] simD(10) [OF sim x] U by auto
    then show "x \<in> U" "bst_bundles ?st x = None" "get (bst_metadataStore ?st) (BundleID_String x) \<noteq> None"
      using simD(10-12) [OF sim x] fr(2,4) by auto
  next
    fix bid' p bd assume p: "bst_bundles ?st bid' = Some p" "bst_heap ?st p = Some bd"
    then have old: "bst_bundles st bid' = Some p" "bst_heap st p = Some bd" "bid' \<noteq> bid" using fr(1,2) by (auto split: if_splits)
    have "file_name (BundleID_String bid') \<noteq> file_name (BundleID_String bid)"
      using old(3) inj_onD [OF names, of bid' bid] simD(7) [OF sim old(1)] U by auto
    then show "\<exists>e. (m(bid := None)) bid' = Some e \<and> represents L now (bst_files ?st) bid' bd e"
      using sim_entry [OF sim old(1)] old(2,3) fr(5) by (fastforce simp: represents_def)
  qed
  ultimately show ?thesis using Cons by (simp add: finish_deletion_def)
qed

lemma sim_step: "sim_state L get n now U st s \<Longrightarrow> op_ok U op \<Longrightarrow> sim_state L get n now U (run_op L D op st) (spec_op n op s)"
  unfolding sim_state_def
  by (cases s; cases op) (auto simp del: spec_insert.simps intro: sim_insert add_ref.sim_op remove_ref.sim_op reset_ref.sim_op
      delete_ref.sim_op sim_with_descriptor sim_holders sim_gc sim_finish)

text \<open>Related states look the same to clients.\<close>

lemma sim_observe:
  assumes sim: "sim L get n now U B st m"
  shows "observe L GetExtensionBlockManager now bid st = spec_observe bid m"
proof (cases "bst_bundles st bid")
  case None
  then show ?thesis using simD(8) [OF sim, of bid] by (simp add: observe_def spec_observe_def GetBundleDescriptor_def)
next
  case (Some p)
  obtain bd e where bd: "bst_heap st p = Some bd" "bd_ID bd = bid" "m bid = Some e" "represents L now (bst_files st) bid bd e"
    using sim_entry [OF sim Some] by metis
  have "md_SerialisedFileName (bd_metadata bd) = file_name (BundleID_String bid)"
    using inv_heapD(3) [OF simD(2) [OF sim] bd(1)] bd(2) by (simp add: md_ok_def bd_ID_def)
  then show ?thesis using Some bd
    by (auto simp: observe_def spec_observe_def GetBundleDescriptor_def Deleted_def Load_def loadEntireBundle_def represents_def entry_of_def)
qed

lemma sim_start:
  assumes "InitialiseStore D n db files = Inr st" "\<And>k. get db k = None"
  shows "sim L get n now U {} st Map.empty"
proof -
  have "inv_db get db" using assms(2) by (simp add: inv_db_def)
  note init = InitialiseStore_inv [OF this assms(1)]
  have "bst_bundles st bid = None" for bid using init(4) [of bid] assms(2) by simp
  moreover have "bst_nodeID st = n"
  proof -
    have "bst_nodeID (load_descriptors ms s) = bst_nodeID s" for ms and s :: "'db BundleStore"
      by (induction ms s rule: load_descriptors.induct) simp_all
    then show ?thesis using assms(1) by (auto simp: InitialiseStore_def bindR_Inr_iff)
  qed
  ultimately show ?thesis using init(1,3) assms(2) by (auto simp: sim_def)
qed

end

sublocale bundle_store \<subseteq> refinement: simulation "run_op L D" "spec_op n" "op_ok U" "sim_state L get n now U"
  by unfold_locales (rule sim_step)

context bundle_store
begin

lemma sim_run: "sim_state L get n now U st s \<Longrightarrow> list_all (op_ok U) ops \<Longrightarrow> sim_state L get n now U (fold (run_op L D) ops st) (fold (spec_op n) ops s)"
  by (rule refinement.steps)

end

interpretation rfc_store: bundle_store rfc8949 alist_db map_of n now "{Bundle_ID example_bundle}" for n now
  by unfold_locales simp

section \<open>Correctness\<close>

text \<open>
  C3. The store implements its abstract specification: started on an empty database, after any sequence of
  insertions of well-formed bundles, whether their files can be created and written or not, of changes of retention
  constraints, deletions, holder updates, garbage collections and started deletions that run, looking a bundle up and
  loading it gives exactly what the abstract map holds, its content up to checksums, its constraints and its holders;
  bundles being deleted are not found. An insertion whose file cannot be created leaves everything as it was; one whose file cannot be
  written leaves the map but blocks the identifier, and later insertions of that bundle change nothing. The database works, and no
  two identifiers in use have the same file name.
\<close>

theorem store_refines_spec:
  assumes "cboring_lib L" "badger D get" "inj_on (\<lambda>bid. file_name (BundleID_String bid)) U"
    "InitialiseStore D n db files = Inr st0" "\<forall>k. get db k = None" "list_all (op_ok U) ops"
  shows "observe L GetExtensionBlockManager now bid (fold (run_op L D) ops st0) =
    spec_observe bid (fst (fold (spec_op n) ops (Map.empty, {})))"
proof -
  have world: "bundle_store L D get U"
    using assms(1-3) by (simp add: bundle_store_def bundle_store_axioms_def)
  have "sim_state L get n now U st0 (Map.empty, {})"
    using bundle_store.sim_start [OF world assms(4)] assms(5) by (simp add: sim_state_def)
  then have "sim_state L get n now U (fold (run_op L D) ops st0) (fold (spec_op n) ops (Map.empty, {}))"
    using bundle_store.sim_run [OF world] assms(6) by blast
  then show ?thesis using bundle_store.sim_observe [OF world] unfolding sim_state_def by blast
qed

text \<open>
  The example: an insertion whose file cannot be created, one that succeeds, a holder and a mark; a deletion; and an insertion
  whose file cannot be written, after which the bundle cannot be inserted.
\<close>

theorem store_refines_spec_witness:
  "observe rfc8949 GetExtensionBlockManager 0 (Bundle_ID example_bundle)
     (fold (run_op rfc8949 alist_db)
        [OpInsert (example_env\<lparr>create_ok := False\<rparr>) example_bundle, OpInsert example_env example_bundle,
         OpAddKnownHolder [DtnNone] (Bundle_ID example_bundle), OpDelete True (Bundle_ID example_bundle)]
        example_store) = Some (strip_crc example_bundle, {DispatchPending}, [DtnNone, DtnNone]) \<and>
   observe rfc8949 GetExtensionBlockManager 0 (Bundle_ID example_bundle)
     (fold (run_op rfc8949 alist_db)
        [OpInsert example_env example_bundle, OpDelete True (Bundle_ID example_bundle), OpResetConstraints (Bundle_ID example_bundle)]
        example_store) = None \<and>
   observe rfc8949 GetExtensionBlockManager 0 (Bundle_ID example_bundle)
     (fold (run_op rfc8949 alist_db)
        [OpInsert (example_env\<lparr>flush_ok := False\<rparr>) example_bundle, OpInsert example_env example_bundle] example_store) = None"
proof -
  have sender: "sender_of example_bundle = []" using sender_of_eq [OF example_previous_node] by simp
  have *: "observe rfc8949 GetExtensionBlockManager 0 bid (fold (run_op rfc8949 alist_db) ops example_store) =
      spec_observe bid (fst (fold (spec_op DtnNone) ops (Map.empty, {})))" if "list_all (op_ok {Bundle_ID example_bundle}) ops" for bid ops
    by (rule store_refines_spec [OF rfc.cboring_lib_axioms alist.badger_axioms _ example_store_init _ that]) simp_all
  show ?thesis
    by (intro conjI; subst *) (simp_all add: example_bundle_wf spec_update_def spec_holders_def spec_delete_def spec_reset_def settle_def
        sender spec_observe_def example_fresh)
qed

end
