(* ===== verification/Custom_Blocks.thy ===== *)
theory Custom_Blocks
  imports Bundle
begin

text \<open>
  The custom extension blocks of the library that no component of the daemon registers: link state data
  (\<open>pkg/bpv7/extension_block_dtlsr.go\<close>), encounter probabilities (\<open>extension_block_prophet.go\<close>) and
  signatures (\<open>extension_block_signature.go\<close>). Go maps are HOL maps; writing one traverses its keys
  in an order that is an argument. Floating point numbers are given by their bits.
\<close>

definition BlockTypeDTLSRBlock :: u64 where "BlockTypeDTLSRBlock = 193"
definition BlockTypeProphetBlock :: u64 where "BlockTypeProphetBlock = 194"
definition BlockTypeSignatureBlock :: u64 where "BlockTypeSignatureBlock = 195"

section \<open>Maps of endpoints\<close>

text \<open>The loops over the pairs, with the writer and the reader of the values.\<close>

fun write_pairs :: "cboring \<Rightarrow> ('v \<Rightarrow> bytes) \<Rightarrow> (EndpointID \<rightharpoonup> 'v) \<Rightarrow> EndpointID list \<Rightarrow> bytes res" where
  "write_pairs L write m [] = Inr []"
| "write_pairs L write m (peerID # order) =
     bindR (EndpointID_MarshalCbor L peerID) (\<lambda>eid.
     bindR (write_pairs L write m order) (\<lambda>bs. Inr (eid @ write (the (m peerID)) @ bs)))"

fun read_pairs_loop ::
    "nat \<Rightarrow> cboring \<Rightarrow> (bytes \<Rightarrow> ('v \<times> bytes) res) \<Rightarrow> bytes \<Rightarrow> (EndpointID \<rightharpoonup> 'v) \<Rightarrow> ((EndpointID \<rightharpoonup> 'v) \<times> bytes) res" where
  "read_pairs_loop 0 L read r m = Inr (m, r)"
| "read_pairs_loop (Suc n) L read r m =
     bindR (EndpointID_UnmarshalCbor L r) (\<lambda>(peerID, r).
     bindR (read r) (\<lambda>(v, r). read_pairs_loop n L read r (m(peerID \<mapsto> v))))"

section \<open>Link state blocks\<close>

record DTLSRPeerData =
  pd_ID :: EndpointID
  pd_Timestamp :: u64
  pd_Peers :: "EndpointID \<rightharpoonup> u64"

definition ShouldReplace :: "DTLSRPeerData \<Rightarrow> DTLSRPeerData \<Rightarrow> bool" where
  "ShouldReplace pd other \<longleftrightarrow> pd_Timestamp pd > pd_Timestamp other"

definition DTLSRBlock_MarshalCbor :: "cboring \<Rightarrow> EndpointID list \<Rightarrow> DTLSRPeerData \<Rightarrow> bytes res" where
  "DTLSRBlock_MarshalCbor L order dtlsrb =
     bindR (EndpointID_MarshalCbor L (pd_ID dtlsrb)) (\<lambda>eid.
     bindR (write_pairs L (WriteUInt L) (pd_Peers dtlsrb) order) (\<lambda>bs.
       Inr (WriteArrayLength L 3 @ eid @ WriteUInt L (pd_Timestamp dtlsrb) @
            WriteMapPairLength L (of_nat (length order)) @ bs)))"

definition DTLSRBlock_UnmarshalCbor :: "cboring \<Rightarrow> bytes \<Rightarrow> (DTLSRPeerData \<times> bytes) res" where
  "DTLSRBlock_UnmarshalCbor L r =
     bindR (ReadArrayLength L r) (\<lambda>(l, r).
     if l \<noteq> 3 then Inl (Errorf ''expected 3 fields'') else
     bindR (EndpointID_UnmarshalCbor L r) (\<lambda>(eid, r).
     bindR (ReadUInt L r) (\<lambda>(timestamp, r).
     bindR (ReadMapPairLength L r) (\<lambda>(lenData, r).
     bindR (read_pairs_loop (unat lenData) L (ReadUInt L) r Map.empty) (\<lambda>(peers, r).
       Inr (\<lparr>pd_ID = eid, pd_Timestamp = timestamp, pd_Peers = peers\<rparr>, r))))))"

section \<open>Encounter probabilities\<close>

definition ProphetBlock_MarshalCbor :: "cboring \<Rightarrow> EndpointID list \<Rightarrow> (EndpointID \<rightharpoonup> u64) \<Rightarrow> bytes res" where
  "ProphetBlock_MarshalCbor L order pBlock =
     bindR (write_pairs L (WriteFloat64 L) pBlock order) (\<lambda>bs. Inr (WriteMapPairLength L (of_nat (length order)) @ bs))"

definition ProphetBlock_UnmarshalCbor :: "cboring \<Rightarrow> bytes \<Rightarrow> ((EndpointID \<rightharpoonup> u64) \<times> bytes) res" where
  "ProphetBlock_UnmarshalCbor L r =
     bindR (ReadMapPairLength L r) (\<lambda>(lenData, r). read_pairs_loop (unat lenData) L (ReadFloat64 L) r Map.empty)"

section \<open>Signatures\<close>

text \<open>
  The package \<open>crypto/ed25519\<close>: signing and verifying are parameters; a private key has 64 bytes and ends
  with its public key, and both functions panic on keys of another length.
\<close>

record ed25519 =
  ed_Sign :: "bytes \<Rightarrow> bytes \<Rightarrow> bytes"
  ed_Verify :: "bytes \<Rightarrow> bytes \<Rightarrow> bytes \<Rightarrow> bool"

definition ed_Public :: "bytes \<Rightarrow> bytes" where
  "ed_Public priv = drop 32 priv"

text \<open>What is documented: signatures have 64 bytes, and a signature verifies under the public key of its private key.\<close>

definition ed25519_correct :: "ed25519 \<Rightarrow> bool" where
  "ed25519_correct ed \<longleftrightarrow> (\<forall>priv msg. length priv = 64 \<longrightarrow>
     length (ed_Sign ed priv msg) = 64 \<and> ed_Verify ed (ed_Public priv) msg (ed_Sign ed priv msg))"

record SignatureBlock =
  sb_PublicKey :: bytes
  sb_Signature :: bytes

definition signatureBundleData :: "cboring \<Rightarrow> Bundle \<Rightarrow> bytes res" where
  "signatureBundleData L b =
     bindR (PrimaryBlock_MarshalCbor L (bndl_PrimaryBlock b)) (\<lambda>(p, _).
     case bndl_PayloadBlock b of
       None \<Rightarrow> Inl nil_value
     | Some payload \<Rightarrow> bindR (CanonicalBlock_MarshalCbor L payload) (\<lambda>(d, _). Inr (p @ d)))"

definition NewSignatureBlock :: "cboring \<Rightarrow> ed25519 \<Rightarrow> Bundle \<Rightarrow> bytes \<Rightarrow> SignatureBlock res" where
  "NewSignatureBlock L ed b priv =
     (if BundleControlFlags_Has (pb_BundleControlFlags (bndl_PrimaryBlock b)) IsFragment
      then Inl (Errorf ''fragmented Bundles cannot be signed'')
      else bindR (signatureBundleData L b) (\<lambda>data.
        if length priv \<noteq> 64 then Inl (Errorf ''recovered from a bad private key length'')
        else Inr \<lparr>sb_PublicKey = ed_Public priv, sb_Signature = ed_Sign ed priv data\<rparr>))"

definition SignatureBlock_CheckValid :: "SignatureBlock \<Rightarrow> err list" where
  "SignatureBlock_CheckValid s =
     (if length (sb_PublicKey s) \<noteq> 32 then [Errorf ''SignatureBlock: public key has a wrong length''] else []) @
     (if length (sb_Signature s) \<noteq> 64 then [Errorf ''SignatureBlock: signature has a wrong length''] else [])"

definition SignatureBlock_Verify :: "cboring \<Rightarrow> ed25519 \<Rightarrow> SignatureBlock \<Rightarrow> Bundle \<Rightarrow> bool res" where
  "SignatureBlock_Verify L ed s b =
     (if SignatureBlock_CheckValid s \<noteq> [] then Inr False
      else if BundleControlFlags_Has (pb_BundleControlFlags (bndl_PrimaryBlock b)) IsFragment then Inr False
      else case signatureBundleData L b of
        Inl e \<Rightarrow> if is_panic e then Inl e else Inr False
      | Inr data \<Rightarrow> Inr (ed_Verify ed (sb_PublicKey s) data (sb_Signature s)))"

definition SignatureBlock_CheckContextValid :: "cboring \<Rightarrow> ed25519 \<Rightarrow> SignatureBlock \<Rightarrow> Bundle \<Rightarrow> err list res" where
  "SignatureBlock_CheckContextValid L ed s b =
     (if BundleControlFlags_Has (pb_BundleControlFlags (bndl_PrimaryBlock b)) IsFragment then Inr []
      else bindR (SignatureBlock_Verify L ed s b) (\<lambda>ok. Inr (if ok then [] else [Errorf ''block verification failed''])))"

definition SignatureBlock_MarshalCbor :: "cboring \<Rightarrow> SignatureBlock \<Rightarrow> bytes" where
  "SignatureBlock_MarshalCbor L s =
     WriteArrayLength L 2 @ WriteByteString L (sb_PublicKey s) @ WriteByteString L (sb_Signature s)"

definition SignatureBlock_UnmarshalCbor :: "cboring \<Rightarrow> bytes \<Rightarrow> (SignatureBlock \<times> bytes) res" where
  "SignatureBlock_UnmarshalCbor L r =
     bindR (ReadArrayLength L r) (\<lambda>(n, r).
     if n \<noteq> 2 then Inl (Errorf ''SignatureBlock: array has a wrong number of elements'') else
     bindR (ReadByteString L r) (\<lambda>(publicKey, r).
     bindR (ReadByteString L r) (\<lambda>(signature, r).
       Inr (\<lparr>sb_PublicKey = publicKey, sb_Signature = signature\<rparr>, r))))"

section \<open>Round trips\<close>

text \<open>The values of a map can be written and read back.\<close>

locale pair_codec = cboring_lib +
  fixes wr :: "'v \<Rightarrow> bytes" and rd :: "bytes \<Rightarrow> ('v \<times> bytes) res"
  assumes read_write: "rd (wr v @ r) = Inr (v, r)"
begin

lemma pairs_roundtrip:
  assumes "\<forall>e \<in> set order. wf_eid e \<and> short_eid e" "distinct order"
  shows "\<exists>bs. write_pairs L wr m order = Inr bs \<and>
    (\<forall>r m0. read_pairs_loop (length order) L rd (bs @ r) m0 = Inr (m0 ++ ((\<lambda>e. Some (the (m e))) |` set order), r))"
  using assms
proof (induction order)
  case Nil
  then show ?case by simp
next
  case (Cons e order)
  have e: "wf_eid e" "short_eid e" using Cons.prems(1) by simp_all
  then obtain eb where eb: "EndpointID_MarshalCbor L e = Inr eb" "\<And>r. EndpointID_UnmarshalCbor L (eb @ r) = Inr (e, r)"
    using EndpointID_roundtrip [of e] by blast
  obtain bs where bs: "write_pairs L wr m order = Inr bs"
    "\<And>r m0. read_pairs_loop (length order) L rd (bs @ r) m0 = Inr (m0 ++ ((\<lambda>e. Some (the (m e))) |` set order), r)"
    using Cons by auto
  have "m0(e \<mapsto> the (m e)) ++ ((\<lambda>e. Some (the (m e))) |` set order) = m0 ++ ((\<lambda>e. Some (the (m e))) |` set (e # order))" for m0
    using Cons.prems(2) by (auto simp: fun_eq_iff map_add_def restrict_map_def)
  then show ?case using eb bs by (simp add: read_write)
qed

end

sublocale cboring_lib \<subseteq> uints: pair_codec L "WriteUInt L" "ReadUInt L"
  by unfold_locales (rule read_uint)

sublocale cboring_lib \<subseteq> floats: pair_codec L "WriteFloat64 L" "ReadFloat64 L"
  by unfold_locales (rule read_float)

interpretation rfc_pairs: pair_codec rfc8949 "WriteUInt rfc8949" "ReadUInt rfc8949"
  by unfold_locales

text \<open>An order in which a map with well-formed keys is traversed.\<close>

definition traversal :: "(EndpointID \<rightharpoonup> 'v) \<Rightarrow> EndpointID list \<Rightarrow> bool" where
  "traversal m order \<longleftrightarrow> distinct order \<and> set order = dom m \<and> length order < 2 ^ 64 \<and>
     (\<forall>e \<in> set order. wf_eid e \<and> short_eid e)"

lemma restrict_dom: "set order = dom m \<Longrightarrow> Map.empty ++ ((\<lambda>e. Some (the (m e))) |` set order) = m"
  by (auto simp: fun_eq_iff restrict_map_def domIff map_add_def)

context pair_codec
begin

lemma map_roundtrip:
  assumes "traversal m order"
  shows "\<exists>bs. write_pairs L wr m order = Inr bs \<and>
    (\<forall>r. read_pairs_loop (unat (of_nat (length order) :: u64)) L rd (bs @ r) Map.empty = Inr (m, r))"
  using pairs_roundtrip [of order m] restrict_dom [of order m] assms
  by (auto simp: traversal_def unat_of_nat take_bit_nat_eq_self)

end

text \<open>Link state data and encounter probabilities survive transmission, whatever order the maps are traversed in.\<close>

context cboring_lib
begin

lemma DTLSRBlock_roundtrip:
  assumes "wf_eid (pd_ID d)" "short_eid (pd_ID d)" "traversal (pd_Peers d) order"
  shows "\<exists>bs. DTLSRBlock_MarshalCbor L order d = Inr bs \<and> (\<forall>r. DTLSRBlock_UnmarshalCbor L (bs @ r) = Inr (d, r))"
proof -
  obtain eb where eb: "EndpointID_MarshalCbor L (pd_ID d) = Inr eb"
    "\<And>r. EndpointID_UnmarshalCbor L (eb @ r) = Inr (pd_ID d, r)"
    using EndpointID_roundtrip assms(1,2) by blast
  obtain bs where bs: "write_pairs L (WriteUInt L) (pd_Peers d) order = Inr bs"
    "\<And>r. read_pairs_loop (unat (of_nat (length order) :: u64)) L (ReadUInt L) (bs @ r) Map.empty = Inr (pd_Peers d, r)"
    using uints.map_roundtrip [OF assms(3)] by blast
  then show ?thesis
    using eb by (simp add: DTLSRBlock_MarshalCbor_def DTLSRBlock_UnmarshalCbor_def cbor read_pairs del: unat_of_nat)
qed

lemma ProphetBlock_roundtrip:
  assumes "traversal m order"
  shows "\<exists>bs. ProphetBlock_MarshalCbor L order m = Inr bs \<and> (\<forall>r. ProphetBlock_UnmarshalCbor L (bs @ r) = Inr (m, r))"
  using floats.map_roundtrip [OF assms]
  by (auto simp: ProphetBlock_MarshalCbor_def ProphetBlock_UnmarshalCbor_def read_pairs simp del: unat_of_nat)

lemma SignatureBlock_roundtrip:
  assumes "SignatureBlock_CheckValid s = []"
  shows "SignatureBlock_UnmarshalCbor L (SignatureBlock_MarshalCbor L s @ r) = Inr (s, r)"
  using assms
  by (simp add: SignatureBlock_UnmarshalCbor_def SignatureBlock_MarshalCbor_def SignatureBlock_CheckValid_def cbor read_bs
      split: if_splits)

end

section \<open>What a signature covers\<close>

text \<open>Two bundles with the same primary and payload block, up to stored checksums.\<close>

definition same_signed :: "Bundle \<Rightarrow> Bundle \<Rightarrow> bool" where
  "same_signed b b' \<longleftrightarrow>
     bndl_PrimaryBlock (strip_crc b') = bndl_PrimaryBlock (strip_crc b) \<and>
     bndl_PayloadBlock (strip_crc b') = bndl_PayloadBlock (strip_crc b)"

lemma stored_crc_fields [simp]:
  "PrimaryBlock_fields L (pb\<lparr>pb_CRC := c\<rparr>) = PrimaryBlock_fields L pb"
  "PrimaryBlock_HasCRC (pb\<lparr>pb_CRC := c\<rparr>) = PrimaryBlock_HasCRC pb"
  "CanonicalBlock_fields L (cb\<lparr>cb_CRC := c\<rparr>) = CanonicalBlock_fields L cb"
  "CanonicalBlock_HasCRC (cb\<lparr>cb_CRC := c\<rparr>) = CanonicalBlock_HasCRC cb"
  by (simp_all add: PrimaryBlock_fields_def PrimaryBlock_HasFragmentation_def PrimaryBlock_HasCRC_def PrimaryBlock_blockLen_def
      CanonicalBlock_fields_def CanonicalBlock_HasCRC_def)

lemma MarshalCbor_stored:
  "bindR (PrimaryBlock_MarshalCbor L (pb\<lparr>pb_CRC := c\<rparr>)) (\<lambda>(p, _). f p) = bindR (PrimaryBlock_MarshalCbor L pb) (\<lambda>(p, _). f p)"
  "bindR (CanonicalBlock_MarshalCbor L (cb\<lparr>cb_CRC := c\<rparr>)) (\<lambda>(p, _). g p) = bindR (CanonicalBlock_MarshalCbor L cb) (\<lambda>(p, _). g p)"
  by (simp_all add: PrimaryBlock_MarshalCbor_def CanonicalBlock_MarshalCbor_def bindR_def split: sum.split)

lemma signatureBundleData_strip: "signatureBundleData L (strip_crc b) = signatureBundleData L b"
  unfolding signatureBundleData_def strip_crc_simps MarshalCbor_stored
  by (cases "bndl_PayloadBlock b") (simp_all add: MarshalCbor_stored)

lemma signatureBundleData_same:
  assumes "same_signed b b'"
  shows "signatureBundleData L b' = signatureBundleData L b"
  using assms signatureBundleData_strip [of L b] signatureBundleData_strip [of L b']
  by (simp add: same_signed_def signatureBundleData_def)

lemma same_signed_flags:
  "same_signed b b' \<Longrightarrow> pb_BundleControlFlags (bndl_PrimaryBlock b') = pb_BundleControlFlags (bndl_PrimaryBlock b)"
  unfolding same_signed_def strip_crc_simps(3) by (drule conjunct1, drule arg_cong [where f = pb_BundleControlFlags]) simp

context cboring_lib
begin

text \<open>The signed bytes determine both blocks, so that nothing in them can be exchanged unnoticed.\<close>

lemma signatureBundleData_read:
  assumes "wf_bundle ebm b"
  obtains data cp cb where "signatureBundleData L b = Inr data"
    "bindR (PrimaryBlock_UnmarshalCbor L data) (\<lambda>(p, r). bindR (CanonicalBlock_UnmarshalCbor L ebm r) (\<lambda>(c, _). Inr (p, c))) =
       Inr ((bndl_PrimaryBlock b)\<lparr>pb_CRC := cp\<rparr>, (the (bndl_PayloadBlock b))\<lparr>cb_CRC := cb\<rparr>)"
proof -
  obtain payload where pl: "bndl_PayloadBlock b = Some payload" "wf_canonical ebm payload" "wf_primary (bndl_PrimaryBlock b)"
    using assms by (auto simp: wf_bundle_def)
  obtain p cp where p: "PrimaryBlock_MarshalCbor L (bndl_PrimaryBlock b) = Inr (p, (bndl_PrimaryBlock b)\<lparr>pb_CRC := cp\<rparr>)"
    "\<And>r. PrimaryBlock_UnmarshalCbor L (p @ r) = Inr ((bndl_PrimaryBlock b)\<lparr>pb_CRC := cp\<rparr>, r)"
    using PrimaryBlock_roundtrip [OF pl(3)] by blast
  obtain d cb where d: "CanonicalBlock_MarshalCbor L payload = Inr (d, payload\<lparr>cb_CRC := cb\<rparr>)"
    "\<And>r. CanonicalBlock_UnmarshalCbor L ebm (d @ r) = Inr (payload\<lparr>cb_CRC := cb\<rparr>, r)"
    using CanonicalBlock_roundtrip [OF pl(2)] by blast
  have "signatureBundleData L b = Inr (p @ d)" by (simp add: signatureBundleData_def p d pl(1))
  then show ?thesis using that p(2) d(2) [of "[]"] pl(1) by simp
qed

lemma signatureBundleData_inj:
  assumes "wf_bundle ebm b" "wf_bundle ebm b'" "signatureBundleData L b' = signatureBundleData L b"
  shows "same_signed b b'"
proof -
  obtain data cp cb where d: "signatureBundleData L b = Inr data"
    "bindR (PrimaryBlock_UnmarshalCbor L data) (\<lambda>(p, r). bindR (CanonicalBlock_UnmarshalCbor L ebm r) (\<lambda>(c, _). Inr (p, c))) =
       Inr ((bndl_PrimaryBlock b)\<lparr>pb_CRC := cp\<rparr>, (the (bndl_PayloadBlock b))\<lparr>cb_CRC := cb\<rparr>)"
    using signatureBundleData_read [OF assms(1)] .
  obtain data' cp' cb' where d': "signatureBundleData L b' = Inr data'"
    "bindR (PrimaryBlock_UnmarshalCbor L data') (\<lambda>(p, r). bindR (CanonicalBlock_UnmarshalCbor L ebm r) (\<lambda>(c, _). Inr (p, c))) =
       Inr ((bndl_PrimaryBlock b')\<lparr>pb_CRC := cp'\<rparr>, (the (bndl_PayloadBlock b'))\<lparr>cb_CRC := cb'\<rparr>)"
    using signatureBundleData_read [OF assms(2)] .
  have eq: "(bndl_PrimaryBlock b')\<lparr>pb_CRC := cp'\<rparr> = (bndl_PrimaryBlock b)\<lparr>pb_CRC := cp\<rparr>"
    "(the (bndl_PayloadBlock b'))\<lparr>cb_CRC := cb'\<rparr> = (the (bndl_PayloadBlock b))\<lparr>cb_CRC := cb\<rparr>"
    using d d' assms(3) by simp_all
  obtain x y where "bndl_PayloadBlock b = Some x" "bndl_PayloadBlock b' = Some y"
    using assms(1,2) by (auto simp: wf_bundle_def)
  then show ?thesis
    using arg_cong [where f = "pb_CRC_update (\<lambda>_. [])", OF eq(1)] arg_cong [where f = "cb_CRC_update (\<lambda>_. [])", OF eq(2)]
    by (simp add: same_signed_def)
qed

end

lemma NewSignatureBlock_key_size:
  "length priv \<noteq> 64 \<Longrightarrow> NewSignatureBlock L ed b priv \<noteq> Inr s"
  by (auto simp: NewSignatureBlock_def bindR_Inr_iff)

text \<open>
  None of the three block types is registered with the manager the daemon decodes with: a received
  signature is a generic block, which the validity check of a bundle never verifies.
\<close>

lemma custom_blocks_read_as_generic:
  assumes "ebm_ReadBlock L GetExtensionBlockManager t r = Inr (b, r')"
    "t \<in> {BlockTypeDTLSRBlock, BlockTypeProphetBlock, BlockTypeSignatureBlock}"
  shows "\<exists>d. b = GenericExtensionBlock d t"
  using assms
  by (auto simp: ebm_ReadBlock_def ebm_createBlock_def default_manager read_kind_def bindR_Inr_iff
      BlockTypeDTLSRBlock_def BlockTypeProphetBlock_def BlockTypeSignatureBlock_def)

text \<open>A stand-in for the package with the documented behaviour, for evaluation.\<close>

definition example_ed25519 :: ed25519 where
  "example_ed25519 =
     \<lparr>ed_Sign = (\<lambda>priv msg. take 32 (drop 32 priv) @ replicate 32 (sum_list msg)),
      ed_Verify = (\<lambda>pub msg sig. sig = take 32 pub @ replicate 32 (sum_list msg))\<rparr>"

lemma example_ed25519_correct: "ed25519_correct example_ed25519"
  by (simp add: ed25519_correct_def example_ed25519_def ed_Public_def)

text \<open>
  C23. Signatures cover exactly the primary and the payload block: for a bundle that is no fragment,
  a private key of the right size gives a valid signature block that survives transmission and verifies for every
  bundle with the same primary and payload block, whatever happens to the other blocks and to the
  stored checksums. For any well-formed bundle, verification asks whether the signature, made for the bytes of the signed bundle's
  two blocks, is one for the bytes of this bundle's two blocks; and these bytes are the same only if primary and
  payload block are. So to be accepted with another primary or payload block, a bundle needs a signature that verifies for its
  own, different bytes, which is what the signature scheme prevents. Fragments are never accepted.
\<close>

theorem NewSignatureBlock_correct:
  assumes "cboring_lib L" "ed25519_correct ed" "wf_bundle ebm b" "length priv = 64"
    "\<not> BundleControlFlags_Has (pb_BundleControlFlags (bndl_PrimaryBlock b)) IsFragment"
  shows "\<exists>s data. NewSignatureBlock L ed b priv = Inr s \<and> SignatureBlock_CheckValid s = [] \<and>
    signatureBundleData L b = Inr data \<and> s = \<lparr>sb_PublicKey = ed_Public priv, sb_Signature = ed_Sign ed priv data\<rparr> \<and>
    (\<forall>r. SignatureBlock_UnmarshalCbor L (SignatureBlock_MarshalCbor L s @ r) = Inr (s, r)) \<and>
    (\<forall>b'. same_signed b b' \<longrightarrow>
       SignatureBlock_Verify L ed s b' = Inr True \<and> SignatureBlock_CheckContextValid L ed s b' = Inr []) \<and>
    (\<forall>b'. wf_bundle ebm b' \<longrightarrow> (\<exists>data'. signatureBundleData L b' = Inr data' \<and> (data' = data \<longleftrightarrow> same_signed b b') \<and>
       SignatureBlock_Verify L ed s b' =
         Inr (\<not> BundleControlFlags_Has (pb_BundleControlFlags (bndl_PrimaryBlock b')) IsFragment \<and>
              ed_Verify ed (ed_Public priv) data' (ed_Sign ed priv data))))"
proof -
  obtain data where d: "signatureBundleData L b = Inr data"
    using cboring_lib.signatureBundleData_read [OF assms(1,3)] by metis
  define s where "s = \<lparr>sb_PublicKey = ed_Public priv, sb_Signature = ed_Sign ed priv data\<rparr>"
  have ed: "length (ed_Sign ed priv data) = 64" "ed_Verify ed (ed_Public priv) data (ed_Sign ed priv data)"
    using assms(2,4) by (simp_all add: ed25519_correct_def)
  have new: "NewSignatureBlock L ed b priv = Inr s" using assms(4,5) d by (simp add: NewSignatureBlock_def s_def)
  have valid: "SignatureBlock_CheckValid s = []"
    using ed(1) assms(4) by (simp add: SignatureBlock_CheckValid_def s_def ed_Public_def)
  have same: "SignatureBlock_Verify L ed s b' = Inr True \<and> SignatureBlock_CheckContextValid L ed s b' = Inr []"
    if "same_signed b b'" for b'
    using valid assms(5) ed(2) d signatureBundleData_same [OF that, of L] same_signed_flags [OF that]
    by (simp add: SignatureBlock_CheckContextValid_def SignatureBlock_Verify_def s_def)
  have other: "\<exists>data'. signatureBundleData L b' = Inr data' \<and> (data' = data \<longleftrightarrow> same_signed b b') \<and>
       SignatureBlock_Verify L ed s b' =
         Inr (\<not> BundleControlFlags_Has (pb_BundleControlFlags (bndl_PrimaryBlock b')) IsFragment \<and>
              ed_Verify ed (ed_Public priv) data' (ed_Sign ed priv data))" if wf: "wf_bundle ebm b'" for b'
  proof -
    obtain data' where d': "signatureBundleData L b' = Inr data'"
      using cboring_lib.signatureBundleData_read [OF assms(1) wf] by metis
    have "data' = data \<longleftrightarrow> same_signed b b'"
      using cboring_lib.signatureBundleData_inj [OF assms(1,3) wf] signatureBundleData_same [of b b' L] d d' by auto
    then show ?thesis using d' valid by (simp add: SignatureBlock_Verify_def s_def)
  qed
  show ?thesis
  proof (rule exI [of _ s], rule exI [of _ data], intro conjI)
    show "\<forall>r. SignatureBlock_UnmarshalCbor L (SignatureBlock_MarshalCbor L s @ r) = Inr (s, r)"
      by (simp add: cboring_lib.SignatureBlock_roundtrip [OF assms(1) valid])
  qed (use new valid d s_def same other in blast)+
qed

text \<open>The example: a block is added to the signed bundle, and another bundle has one byte of the payload changed.\<close>

definition example_tampered :: Bundle where
  "example_tampered = example_bundle\<lparr>bndl_PayloadBlock := Some (NewCanonicalBlock 1 0 (PayloadBlock [1, 2, 3, 4, 5, 6, 7, 9]))\<rparr>"

lemma example_tampered_wf: "wf_bundle GetExtensionBlockManager example_tampered"
  using example_bundle_wf
  by (auto simp: example_tampered_def wf_bundle_def wf_canonical_def wf_ext_def NewCanonicalBlock_def TypeCode_def
      CanonicalBlock_HasCRC_def known_crc_def)

lemma example_tampered_sum:
  "map_sum id sum_list (signatureBundleData rfc8949 example_tampered) \<noteq> map_sum id sum_list (signatureBundleData rfc8949 example_bundle)"
  by code_simp

theorem NewSignatureBlock_correct_witness:
  "\<exists>s. NewSignatureBlock rfc8949 example_ed25519 example_bundle (replicate 64 7) = Inr s \<and> SignatureBlock_CheckValid s = [] \<and>
    SignatureBlock_Verify rfc8949 example_ed25519 s
      (example_bundle\<lparr>bndl_ExtensionBlocks := [NewCanonicalBlock 2 1 (HopCountBlock 5 2)]\<rparr>) = Inr True \<and>
    SignatureBlock_Verify rfc8949 example_ed25519 s example_tampered = Inr False"
proof -
  let ?added = "example_bundle\<lparr>bndl_ExtensionBlocks := [NewCanonicalBlock 2 1 (HopCountBlock 5 2)]\<rparr>"
  have same: "same_signed example_bundle ?added" by (simp add: same_signed_def)
  have frag: "\<not> BundleControlFlags_Has (pb_BundleControlFlags (bndl_PrimaryBlock example_bundle)) IsFragment"
    by (simp add: example_bundle_def example_primary_def Has_bit_simps)
  have key: "length (replicate 64 (7 :: byte)) = 64" by simp
  note * = NewSignatureBlock_correct [OF rfc.cboring_lib_axioms example_ed25519_correct example_bundle_wf key frag]
  obtain s data where s: "NewSignatureBlock rfc8949 example_ed25519 example_bundle (replicate 64 7) = Inr s" "SignatureBlock_CheckValid s = []"
    "signatureBundleData rfc8949 example_bundle = Inr data"
    and v: "\<forall>b'. same_signed example_bundle b' \<longrightarrow> SignatureBlock_Verify rfc8949 example_ed25519 s b' = Inr True"
    and o: "\<forall>b'. wf_bundle GetExtensionBlockManager b' \<longrightarrow> (\<exists>data'. signatureBundleData rfc8949 b' = Inr data' \<and>
       SignatureBlock_Verify rfc8949 example_ed25519 s b' =
         Inr (\<not> BundleControlFlags_Has (pb_BundleControlFlags (bndl_PrimaryBlock b')) IsFragment \<and>
              ed_Verify example_ed25519 (ed_Public (replicate 64 7)) data' (ed_Sign example_ed25519 (replicate 64 7) data)))"
    using * by blast
  obtain data' where d': "signatureBundleData rfc8949 example_tampered = Inr data'"
    "SignatureBlock_Verify rfc8949 example_ed25519 s example_tampered =
      Inr (\<not> BundleControlFlags_Has (pb_BundleControlFlags (bndl_PrimaryBlock example_tampered)) IsFragment \<and>
           ed_Verify example_ed25519 (ed_Public (replicate 64 7)) data' (ed_Sign example_ed25519 (replicate 64 7) data))"
    using o example_tampered_wf by blast
  have "sum_list data' \<noteq> sum_list data" using example_tampered_sum d'(1) s(3) by simp
  then have "SignatureBlock_Verify rfc8949 example_ed25519 s example_tampered = Inr False"
    using d'(2) by (simp add: example_ed25519_def)
  then show ?thesis using s v same by blast
qed

end
