(* ===== verification/Go_Date.thy ===== *)
theory Go_Date
  imports Dtn_Time
begin

text \<open>
  The text form of times (\<open>String\<close> of \<open>DtnTime\<close> and \<open>CreationTimestamp\<close> in \<open>pkg/bpv7/time.go\<close>), with what it uses of
  Go's \<open>time\<close> package: the calendar date of a day, computed through the cycles of 400, 100, 4 and one years, and
  \<open>Format\<close> with the layout \<open>2006-01-02 15:04:05.000\<close>. The date is compared with the Gregorian calendar's
  count of days.
\<close>

section \<open>The date of a day\<close>

definition isLeap :: "int \<Rightarrow> bool" where
  "isLeap year \<longleftrightarrow> year mod 4 = 0 \<and> (year mod 100 \<noteq> 0 \<or> year mod 400 = 0)"

text \<open>The year and the day in it, both from zero, of the day \<open>d\<close> after 1 January of the year 1.\<close>

definition yearYday :: "int \<Rightarrow> int \<times> int" where
  "yearYday d =
     (let n400 = d div 146097; d = d mod 146097;
          n100 = d div 36524 - d div 36524 div 4; d = d - 36524 * n100;
          n4 = d div 1461; d = d - 1461 * n4;
          n1 = d div 365 - d div 365 div 4
      in (400 * n400 + 100 * n100 + 4 * n4 + n1 + 1, d - 365 * n1))"

definition daysBefore :: "int list" where
  "daysBefore = [0, 31, 59, 90, 120, 151, 181, 212, 243, 273, 304, 334, 365]"

text \<open>The month and the day in it of a day of a year: the leap day is set aside, and the month is off by at most one.\<close>

definition month_day :: "bool \<Rightarrow> int \<Rightarrow> nat \<times> int" where
  "month_day leap yday =
     (if leap \<and> yday = 59 then (2, 29)
      else let day = (if leap \<and> yday > 59 then yday - 1 else yday);
               month = nat (day div 31); end = daysBefore ! Suc month
           in if day \<ge> end then (month + 2, day - end + 1) else (month + 1, day - daysBefore ! month + 1))"

definition date :: "int \<Rightarrow> int \<times> nat \<times> int" where
  "date d = (case yearYday d of (year, yday) \<Rightarrow> (year, month_day (isLeap year) yday))"

section \<open>Text\<close>

fun zero_padded :: "nat \<Rightarrow> nat \<Rightarrow> string" where
  "zero_padded 0 n = []"
| "zero_padded (Suc w) n = zero_padded w (n div 10) @ [digit_char (n mod 10)]"

text \<open>\<open>appendInt\<close>: at least \<open>width\<close> digits behind the sign.\<close>

definition appendInt :: "int \<Rightarrow> nat \<Rightarrow> string" where
  "appendInt x width =
     (if x < 0 then ''-'' else []) @
     (let n = nat \<bar>x\<bar> in if n < 10 ^ width then zero_padded width n else dec n)"

text \<open>Days before the Unix epoch: from 1 January of the year 1.\<close>

definition unix_day :: int where "unix_day = 719162"

definition Time_Format :: "time \<Rightarrow> string" where
  "Time_Format t =
     (let sec = t div 1000000000; nano = t mod 1000000000; clock = sec mod 86400
      in case date (sec div 86400 + unix_day) of (year, month, day) \<Rightarrow>
           appendInt year 4 @ ''-'' @ appendInt (int month) 2 @ ''-'' @ appendInt day 2 @ '' '' @
           appendInt (clock div 3600) 2 @ '':'' @ appendInt (clock mod 3600 div 60) 2 @ '':'' @ appendInt (clock mod 60) 2 @
           ''.'' @ appendInt (nano div 1000000) 3)"

definition DtnTime_String :: "DtnTime \<Rightarrow> string" where
  "DtnTime_String t = Time_Format (DtnTime_Time t)"

definition CreationTimestamp_String :: "CreationTimestamp \<Rightarrow> string" where
  "CreationTimestamp_String ct = ''('' @ DtnTime_String (fst ct) @ '', '' @ fmt_d (snd ct) @ '')''"

section \<open>The Gregorian calendar\<close>

text \<open>The number of days from 1 January of the year 1 to a date, by counting leap years.\<close>

definition days_to :: "int \<Rightarrow> nat \<Rightarrow> int \<Rightarrow> int" where
  "days_to year month day =
     365 * (year - 1) + (year - 1) div 4 - (year - 1) div 100 + (year - 1) div 400 +
     daysBefore ! (month - 1) + (if isLeap year \<and> month > 2 then 1 else 0) + (day - 1)"

text \<open>A year within its cycles.\<close>

lemma cycles:
  fixes a b c e :: int
  assumes "0 \<le> b" "b \<le> 3" "0 \<le> c" "c \<le> 24" "0 \<le> e" "e \<le> 3" and y: "y = 400 * a + 100 * b + 4 * c + e"
  shows "y div 4 = 100 * a + 25 * b + c" "y div 100 = 4 * a + b" "y div 400 = a"
    "isLeap (y + 1) \<longleftrightarrow> e = 3 \<and> (c \<noteq> 24 \<or> b = 3)"
proof -
  show "y div 4 = 100 * a + 25 * b + c" by (rule int_div_pos_eq [of _ _ _ e]) (use assms in simp_all)
  show "y div 100 = 4 * a + b" by (rule int_div_pos_eq [of _ _ _ "4 * c + e"]) (use assms in simp_all)
  show "y div 400 = a" by (rule int_div_pos_eq [of _ _ _ "100 * b + 4 * c + e"]) (use assms in simp_all)
  have 4: "(y + 1) mod 4 = (if e = 3 then 0 else e + 1)"
    by (rule int_mod_pos_eq [of _ _ "100 * a + 25 * b + c + (if e = 3 then 1 else 0)"]) (use assms in auto)
  have 100: "(y + 1) mod 100 = (if c = 24 \<and> e = 3 then 0 else 4 * c + e + 1)"
    by (rule int_mod_pos_eq [of _ _ "4 * a + b + (if c = 24 \<and> e = 3 then 1 else 0)"]) (use assms in auto)
  have 400: "(y + 1) mod 400 = (if b = 3 \<and> c = 24 \<and> e = 3 then 0 else 100 * b + 4 * c + e + 1)"
    by (rule int_mod_pos_eq [of _ _ "a + (if b = 3 \<and> c = 24 \<and> e = 3 then 1 else 0)"]) (use assms in auto)
  show "isLeap (y + 1) \<longleftrightarrow> e = 3 \<and> (c \<noteq> 24 \<or> b = 3)"
    unfolding isLeap_def 4 100 400 using assms(1-6) by auto
qed

text \<open>A quotient capped at three, as the last year or century of a cycle is longer than the others.\<close>

lemma capped_quotient:
  fixes d k q :: int
  assumes "0 \<le> d" "d \<le> 4 * k" "0 < k" "q = d div k - d div k div 4"
  shows "0 \<le> q" "q \<le> 3" "0 \<le> d - k * q" "d - k * q \<le> k" "d - k * q = k \<Longrightarrow> q = 3 \<and> d = 4 * k"
proof -
  define n where "n = d div k"
  define r where "r = d mod k"
  have d: "d = k * n + r" "0 \<le> r" "r < k" using assms(3) by (simp_all add: n_def r_def)
  have "0 \<le> n" using assms(1,3) by (simp add: n_def pos_imp_zdiv_nonneg_iff)
  moreover have "n \<le> 4"
  proof (rule ccontr)
    assume "\<not> n \<le> 4"
    then have "k * 5 \<le> k * n" using assms(3) by (intro mult_left_mono) auto
    then show False using d assms(2,3) by linarith
  qed
  ultimately consider "n = 0" | "n = 1" | "n = 2" | "n = 3" | "n = 4" by linarith
  then have "(0 \<le> q \<and> q \<le> 3) \<and> 0 \<le> d - k * q \<and> d - k * q \<le> k \<and> (d - k * q = k \<longrightarrow> q = 3 \<and> d = 4 * k)"
    using d assms(2) unfolding assms(4) n_def [symmetric] by cases auto
  then show "0 \<le> q" "q \<le> 3" "0 \<le> d - k * q" "d - k * q \<le> k" "d - k * q = k \<Longrightarrow> q = 3 \<and> d = 4 * k" by auto
qed

lemma yearYday_correct:
  assumes "yearYday d = (year, yday)"
  shows "d = 365 * (year - 1) + (year - 1) div 4 - (year - 1) div 100 + (year - 1) div 400 + yday \<and>
    0 \<le> yday \<and> yday < (if isLeap year then 366 else 365)"
proof -
  define a where "a = d div 146097"
  define d1 where "d1 = d mod 146097"
  define b where "b = d1 div 36524 - d1 div 36524 div 4"
  define d2 where "d2 = d1 - 36524 * b"
  define c where "c = d2 div 1461"
  define d3 where "d3 = d2 - 1461 * c"
  define e where "e = d3 div 365 - d3 div 365 div 4"
  have y: "year - 1 = 400 * a + 100 * b + 4 * c + e" "yday = d3 - 365 * e"
    using assms [unfolded yearYday_def Let_def, folded a_def d1_def, folded b_def, folded d2_def, folded c_def, folded d3_def, folded e_def]
    by auto
  have "0 \<le> d1" "d1 \<le> 4 * 36524" using pos_mod_bound [of 146097 d] by (auto simp: d1_def)
  note b = capped_quotient [OF this zero_less_numeral b_def, folded d2_def]
  have d3: "d3 = d2 mod 1461" by (simp add: d3_def c_def minus_mult_div_eq_mod)
  have c: "0 \<le> c" "c \<le> 24" "0 \<le> d3" "d3 \<le> 4 * 365" using b(3,4) by (auto simp: c_def d3)
  have last: "d2 = 36524" if "c = 24" "d3 = 1460" using that by (simp add: d3_def)
  note e = capped_quotient [OF c(3,4) zero_less_numeral e_def, folded y(2)]
  note cyc = cycles [OF b(1,2) c(1,2) e(1,2) y(1)]
  have "d = 146097 * a + d1" by (simp add: a_def d1_def)
  then have "d = 365 * (year - 1) + (year - 1) div 4 - (year - 1) div 100 + (year - 1) div 400 + yday"
    unfolding cyc(1-3) using y(1) by (simp add: y(2) d2_def d3_def)
  moreover have "yday < (if isLeap year then 366 else 365)"
    using cyc(4) e(4,5) last b(5) by (cases "yday = 365") auto
  ultimately show ?thesis using e(3) by simp
qed

lemma month_day_table:
  "list_all (\<lambda>(leap, yday). case month_day leap yday of (month, day) \<Rightarrow> 1 \<le> month \<and> month \<le> 12 \<and> 1 \<le> day \<and> day \<le> 31 \<and>
     yday = daysBefore ! (month - 1) + (if leap \<and> month > 2 then 1 else 0) + (day - 1))
   (map (Pair True) [0..365] @ map (Pair False) [0..364])"
  by code_simp

lemma month_day_correct:
  assumes "month_day leap yday = (month, day)" "0 \<le> yday" "yday < (if leap then 366 else 365)"
  shows "1 \<le> month \<and> month \<le> 12 \<and> 1 \<le> day \<and> day \<le> 31 \<and>
    yday = daysBefore ! (month - 1) + (if leap \<and> month > 2 then 1 else 0) + (day - 1)"
proof -
  have "(leap, yday) \<in> set (map (Pair True) [0..365] @ map (Pair False) [0..364])" using assms(2,3) by (cases leap) auto
  then show ?thesis using month_day_table assms(1) unfolding list_all_iff by fastforce
qed

lemma date_correct:
  assumes "date d = (year, month, day)"
  shows "days_to year month day = d \<and> 1 \<le> month \<and> month \<le> 12 \<and> 1 \<le> day \<and> day \<le> 31"
proof -
  obtain yday where y: "yearYday d = (year, yday)" "month_day (isLeap year) yday = (month, day)"
    using assms by (auto simp: date_def split: prod.splits)
  show ?thesis using yearYday_correct [OF y(1)] month_day_correct [OF y(2)] by (auto simp: days_to_def)
qed

text \<open>A year within four digits.\<close>

lemma div_bounds:
  fixes k n :: int
  assumes "0 < k"
  shows "k * (n div k) \<le> n \<and> n < k * (n div k) + k"
  using assms by (metis add.commute add_le_same_cancel1 mult_div_mod_eq add_less_cancel_left pos_mod_bound pos_mod_sign le_add_same_cancel1)

lemma date_year:
  assumes "date d = (year, month, day)" "0 < d" "d < 3600000"
  shows "0 \<le> year \<and> year < 10000"
proof -
  obtain yday where "yearYday d = (year, yday)" using assms(1) by (auto simp: date_def split: prod.splits)
  note y = yearYday_correct [OF this]
  define a b c where "a = (year - 1) div 4" and "b = (year - 1) div 100" and "c = (year - 1) div 400"
  have "4 * a \<le> year - 1" "year - 1 < 4 * a + 4" "100 * b \<le> year - 1" "year - 1 < 100 * b + 100"
    "400 * c \<le> year - 1" "year - 1 < 400 * c + 400"
    using div_bounds [of 4 "year - 1"] div_bounds [of 100 "year - 1"] div_bounds [of 400 "year - 1"] by (simp_all add: a_def b_def c_def)
  moreover have "d = 365 * (year - 1) + a - b + c + yday" "0 \<le> yday" "yday < 366"
    using y by (auto simp: a_def b_def c_def split: if_splits)
  ultimately show ?thesis using assms(2,3) by auto
qed

section \<open>Reading a date\<close>

text \<open>The milliseconds since the Unix epoch that a text of this layout names, by the calendar's count of days.\<close>

definition read_num :: "string \<Rightarrow> nat" where
  "read_num s = foldl (\<lambda>n c. 10 * n + digit_val c) 0 s"

definition read_date :: "string \<Rightarrow> int" where
  "read_date s =
     (days_to (int (read_num (take 4 s))) (read_num (take 2 (drop 5 s))) (int (read_num (take 2 (drop 8 s)))) - unix_day) * 86400000 +
     int (read_num (take 2 (drop 11 s))) * 3600000 + int (read_num (take 2 (drop 14 s))) * 60000 +
     int (read_num (take 2 (drop 17 s))) * 1000 + int (read_num (take 3 (drop 20 s)))"

lemma zero_padded_length [simp]: "length (zero_padded w n) = w"
  by (induction w arbitrary: n) auto

lemma read_zero_padded: "n < 10 ^ w \<Longrightarrow> read_num (zero_padded w n) = n"
proof (induction w arbitrary: n)
  case (Suc w)
  then have "read_num (zero_padded w (n div 10)) = n div 10" by (intro Suc.IH) auto
  then show ?case by (simp add: read_num_def)
qed (simp add: read_num_def)

lemma appendInt_fits:
  assumes "0 \<le> x" "x < 10 ^ w"
  shows "length (appendInt x w) = w \<and> int (read_num (appendInt x w)) = x"
proof -
  have "nat x < 10 ^ w" using assms by (simp add: nat_less_iff)
  then show ?thesis using assms by (simp add: appendInt_def Let_def read_zero_padded)
qed

lemma take_drop_field: "length xs = k \<Longrightarrow> length f = n \<Longrightarrow> take n (drop k (xs @ f @ ys)) = f"
  by simp

lemma read_date_fields:
  assumes "length y = 4" "length mo = 2" "length d = 2" "length h = 2" "length mi = 2" "length sc = 2" "length ms = 3"
  shows "read_date (y @ ''-'' @ mo @ ''-'' @ d @ '' '' @ h @ '':'' @ mi @ '':'' @ sc @ ''.'' @ ms) =
    (days_to (int (read_num y)) (read_num mo) (int (read_num d)) - unix_day) * 86400000 +
    int (read_num h) * 3600000 + int (read_num mi) * 60000 + int (read_num sc) * 1000 + int (read_num ms)"
  using assms by (simp add: read_date_def)

lemma clock_sum:
  fixes ms :: int
  shows "ms div 1000 div 86400 * 86400000 + ms div 1000 mod 86400 div 3600 * 3600000 +
    ms div 1000 mod 86400 mod 3600 div 60 * 60000 + ms div 1000 mod 86400 mod 60 * 1000 + ms mod 1000 = ms"
proof -
  define s c where "s = ms div 1000" and "c = s mod 86400"
  have "c mod 3600 mod 60 = c mod 60" by (rule mod_mod_cancel) simp
  then have "c = c div 3600 * 3600 + c mod 3600 div 60 * 60 + c mod 60"
    by (metis add.assoc div_mult_mod_eq)
  moreover have "s = s div 86400 * 86400 + c" by (simp add: c_def)
  moreover have "ms = s * 1000 + ms mod 1000" by (simp add: s_def)
  ultimately show ?thesis unfolding s_def [symmetric] c_def [symmetric] by linarith
qed

lemma Time_Format_read:
  assumes "0 \<le> ms" "ms < 248000000000000"
  shows "read_date (Time_Format (ms * 1000000)) = ms"
proof -
  define s where "s = ms div 1000"
  have t: "ms * 1000000 div 1000000000 = s" "ms * 1000000 mod 1000000000 div 1000000 = ms mod 1000"
    using div_mult_mult2 [of 1000000 ms 1000] mod_mult_mult2 [of ms 1000000 1000] by (simp_all add: s_def)
  obtain year month day where d: "date (s div 86400 + unix_day) = (year, month, day)" by (cases "date (s div 86400 + unix_day)")
  have "0 \<le> s div 86400" "s div 86400 < 2870371" using assms by (auto simp: s_def)
  then have y: "0 \<le> year \<and> year < 10 ^ 4" using date_year [OF d] by (simp add: unix_day_def)
  note md = date_correct [OF d]
  have clock: "0 \<le> s mod 86400 div 3600" "s mod 86400 div 3600 < 10 ^ 2" "0 \<le> s mod 86400 mod 3600 div 60"
    "s mod 86400 mod 3600 div 60 < 10 ^ 2" "0 \<le> s mod 86400 mod 60" "s mod 86400 mod 60 < 10 ^ 2" "0 \<le> ms mod 1000" "ms mod 1000 < 10 ^ 3"
    by auto
  have m: "0 \<le> int month" "int month < 10 ^ 2" "0 \<le> day" "day < 10 ^ 2" using md by auto
  note fields = appendInt_fits [of year 4] appendInt_fits [OF m(1,2)] appendInt_fits [OF m(3,4)] appendInt_fits [OF clock(1,2)]
    appendInt_fits [OF clock(3,4)] appendInt_fits [OF clock(5,6)] appendInt_fits [OF clock(7,8)]
  have month: "read_num (appendInt (int month) 2) = month" using fields(2) by (simp only: of_nat_eq_iff)
  have "Time_Format (ms * 1000000) = appendInt year 4 @ ''-'' @ appendInt (int month) 2 @ ''-'' @ appendInt day 2 @ '' '' @
      appendInt (s mod 86400 div 3600) 2 @ '':'' @ appendInt (s mod 86400 mod 3600 div 60) 2 @ '':'' @ appendInt (s mod 86400 mod 60) 2 @
      ''.'' @ appendInt (ms mod 1000) 3"
    unfolding Time_Format_def Let_def t d prod.case ..
  then have "read_date (Time_Format (ms * 1000000)) = (days_to year month day - unix_day) * 86400000 +
      s mod 86400 div 3600 * 3600000 + s mod 86400 mod 3600 div 60 * 60000 + s mod 86400 mod 60 * 1000 + ms mod 1000"
    using read_date_fields [of "appendInt year 4" "appendInt (int month) 2" "appendInt day 2" "appendInt (s mod 86400 div 3600) 2"
        "appendInt (s mod 86400 mod 3600 div 60) 2" "appendInt (s mod 86400 mod 60) 2" "appendInt (ms mod 1000) 3"] fields(2-) fields(1) [OF conjunct1 [OF y] conjunct2 [OF y]] month
    by metis
  then show ?thesis using md clock_sum [of ms] by (simp add: s_def)
qed

text \<open>The text of a DTN time names exactly this time, for creation times until the year 9800.\<close>

lemma DtnTime_String_read:
  assumes "uint t < 247000000000000"
  shows "read_date (DtnTime_String t) = uint t + milliseconds1970To2k"
proof -
  have "unixMilliseconds t = uint t + 946684800000" using assms by (intro unixMilliseconds_small) simp
  then show ?thesis using Time_Format_read [of "uint t + 946684800000"] assms
    by (simp add: DtnTime_String_def DtnTime_Time_eq milliseconds1970To2k_def)
qed

lemma DtnTime_String_examples:
  "DtnTime_String 0 = ''2000-01-01 00:00:00.000''" "DtnTime_String 5097599999 = ''2000-02-28 23:59:59.999''"
  "DtnTime_String 5097600000 = ''2000-02-29 00:00:00.000''" "DtnTime_String 31622400000 = ''2001-01-01 00:00:00.000''"
  by code_simp+

end
