(* ===== verification/Bundle_Json.thy ===== *)
theory Bundle_Json
  imports Bundle Go_Date
begin

text \<open>
  The JSON form of bundles that the REST interface returns (the methods \<open>MarshalJSON\<close> and \<open>BlockTypeName\<close> in
  \<open>pkg/bpv7\<close>). The package \<open>encoding/json\<close> prints the tree that the methods describe; byte slices become
  strings in the standard base64 encoding, a nil slice becomes null, and in a string every byte that is not part of a
  valid UTF-8 sequence is replaced. A string of the tree is the text that a reader of the document gets.
\<close>

section \<open>Strings\<close>

text \<open>The length of the UTF-8 sequence at the front of a string, 0 if there is none (\<open>utf8.DecodeRuneInString\<close>).\<close>

fun follow :: "(nat \<times> nat) list \<Rightarrow> string \<Rightarrow> bool" where
  "follow [] s = True"
| "follow (r # rs) [] = False"
| "follow ((lo, hi) # rs) (c # s) = (lo \<le> (of_char c :: nat) \<and> (of_char c :: nat) \<le> hi \<and> follow rs s)"

definition rune_length :: "string \<Rightarrow> nat" where
  "rune_length s = (case s of [] \<Rightarrow> 0 | c # r \<Rightarrow>
     let n = (of_char c :: nat) in
     if n < 128 then 1
     else if 194 \<le> n \<and> n \<le> 223 then (if follow [(128, 191)] r then 2 else 0)
     else if n = 224 then (if follow [(160, 191), (128, 191)] r then 3 else 0)
     else if n = 237 then (if follow [(128, 159), (128, 191)] r then 3 else 0)
     else if 225 \<le> n \<and> n \<le> 239 then (if follow [(128, 191), (128, 191)] r then 3 else 0)
     else if n = 240 then (if follow [(144, 191), (128, 191), (128, 191)] r then 4 else 0)
     else if 241 \<le> n \<and> n \<le> 243 then (if follow [(128, 191), (128, 191), (128, 191)] r then 4 else 0)
     else if n = 244 then (if follow [(128, 143), (128, 191), (128, 191)] r then 4 else 0)
     else 0)"

text \<open>The replacement character U+FFFD.\<close>

definition replacement :: string where
  "replacement = [char_of (239 :: nat), char_of (191 :: nat), char_of (189 :: nat)]"

fun json_text :: "string \<Rightarrow> string" where
  "json_text [] = []"
| "json_text (c # s) =
     (let k = rune_length (c # s) in
      if k = 0 then replacement @ json_text s else c # take (k - 1) s @ json_text (drop (k - 1) s))"

text \<open>Strings that are valid UTF-8 stay as they are; ASCII strings are among them.\<close>

fun valid_utf8 :: "string \<Rightarrow> bool" where
  "valid_utf8 [] = True"
| "valid_utf8 (c # s) = (let k = rune_length (c # s) in k \<noteq> 0 \<and> valid_utf8 (drop (k - 1) s))"

lemma json_text_valid: "valid_utf8 s \<Longrightarrow> json_text s = s"
  by (induction s rule: valid_utf8.induct) (simp_all add: Let_def)

lemma ascii_valid_utf8: "\<forall>c \<in> set s. (of_char c :: nat) < 128 \<Longrightarrow> valid_utf8 s"
  by (induction s rule: valid_utf8.induct) (simp_all add: rune_length_def)

section \<open>JSON and base64\<close>

datatype json =
    JNull
  | JNumber int
  | JString string
  | JArray "json list"
  | JObject "(string \<times> json) list"

definition base64_alphabet :: string where
  "base64_alphabet = ''ABCDEFGHIJKLMNOPQRSTUVWXYZabcdefghijklmnopqrstuvwxyz0123456789+/''"

definition base64_char :: "int \<Rightarrow> char" where
  "base64_char k = base64_alphabet ! nat k"

fun base64 :: "bytes \<Rightarrow> string" where
  "base64 [] = []"
| "base64 [a] = (let n = uint a * 16 in [base64_char (n div 64), base64_char (n mod 64), CHR ''='', CHR ''=''])"
| "base64 [a, b] = (let n = (uint a * 256 + uint b) * 4 in
     [base64_char (n div 4096), base64_char (n div 64 mod 64), base64_char (n mod 64), CHR ''=''])"
| "base64 (a # b # c # bs) = (let n = uint a * 65536 + uint b * 256 + uint c in
     [base64_char (n div 262144), base64_char (n div 4096 mod 64), base64_char (n div 64 mod 64), base64_char (n mod 64)] @ base64 bs)"

definition json_bytes :: "bytes \<Rightarrow> json" where
  "json_bytes bs = JString (base64 bs)"

definition json_strings :: "string list \<Rightarrow> json" where
  "json_strings texts = (if texts = [] then JNull else JArray (map JString texts))"

section \<open>Marshalling\<close>

text \<open>
  The texts of endpoints may contain any byte; the other strings (names, dates, numbers, base64) are ASCII and printed as they
  are.
\<close>

definition BundleControlFlags_MarshalJSON :: "BundleControlFlags \<Rightarrow> json" where
  "BundleControlFlags_MarshalJSON bcf = json_strings (BundleControlFlags_Strings bcf)"

definition BlockControlFlags_MarshalJSON :: "BlockControlFlags \<Rightarrow> json" where
  "BlockControlFlags_MarshalJSON bcf = json_strings (BlockControlFlags_Strings bcf)"

definition EndpointID_MarshalJSON :: "EndpointID \<Rightarrow> json" where
  "EndpointID_MarshalJSON eid = JString (json_text (EndpointID_String eid))"

definition CreationTimestamp_MarshalJSON :: "CreationTimestamp \<Rightarrow> json" where
  "CreationTimestamp_MarshalJSON ct =
     JObject [(''date'', JString (DtnTime_String (CreationTimestamp_DtnTime ct))), (''sequenceNo'', JNumber (uint (snd ct)))]"

definition PrimaryBlock_MarshalJSON :: "PrimaryBlock \<Rightarrow> json" where
  "PrimaryBlock_MarshalJSON pb =
     JObject [(''bundleControlFlags'', BundleControlFlags_MarshalJSON (pb_BundleControlFlags pb)),
       (''destination'', JString (json_text (EndpointID_String (pb_Destination pb)))),
       (''source'', JString (json_text (EndpointID_String (pb_SourceNode pb)))),
       (''reportTo'', JString (json_text (EndpointID_String (pb_ReportTo pb)))),
       (''creationTimestamp'', CreationTimestamp_MarshalJSON (pb_CreationTimestamp pb)),
       (''lifetime'', JNumber (uint (pb_Lifetime pb)))]"

definition PayloadBlock_MarshalJSON :: "bytes \<Rightarrow> json" where
  "PayloadBlock_MarshalJSON data = json_bytes data"

definition PreviousNodeBlock_MarshalJSON :: "EndpointID \<Rightarrow> json" where
  "PreviousNodeBlock_MarshalJSON eid = EndpointID_MarshalJSON eid"

definition BundleAge_MarshalJSON :: "u64 \<Rightarrow> json" where
  "BundleAge_MarshalJSON age = JString (fmt_d age @ '' ms'')"

definition HopCount_MarshalJSON :: "u8 \<Rightarrow> u8 \<Rightarrow> json" where
  "HopCount_MarshalJSON limit count = JObject [(''limit'', JNumber (uint limit)), (''count'', JNumber (uint count))]"

fun BlockTypeName :: "ExtensionBlock \<Rightarrow> string" where
  "BlockTypeName (PayloadBlock _) = ''Payload Block''"
| "BlockTypeName (GenericExtensionBlock _ _) = ''N/A''"
| "BlockTypeName (PreviousNodeBlock _) = ''Previous Node Block''"
| "BlockTypeName (BundleAgeBlock _) = ''Bundle Age Block''"
| "BlockTypeName (HopCountBlock _ _) = ''Hop Count Block''"
| "BlockTypeName (BinarySprayBlock _) = ''Binary Spray Routing Block''"
| "BlockTypeName (RECBundleTypeBlock _) = ''REC Block Type''"

text \<open>The field \<open>data\<close>: a value with a method of its own, or the bytes that its block has in CBOR.\<close>

fun data_field :: "cboring \<Rightarrow> ExtensionBlock \<Rightarrow> json res" where
  "data_field L (PayloadBlock data) = Inr (PayloadBlock_MarshalJSON data)"
| "data_field L (PreviousNodeBlock eid) = Inr (PreviousNodeBlock_MarshalJSON eid)"
| "data_field L (BundleAgeBlock age) = Inr (BundleAge_MarshalJSON age)"
| "data_field L (HopCountBlock limit count) = Inr (HopCount_MarshalJSON limit count)"
| "data_field L eb = bindR (ebm_WriteBlock L eb) (\<lambda>buff. Inr (json_bytes buff))"

definition CanonicalBlock_MarshalJSON :: "cboring \<Rightarrow> CanonicalBlock \<Rightarrow> json res" where
  "CanonicalBlock_MarshalJSON L cb =
     bindR (data_field L (cb_Value cb)) (\<lambda>dataField.
       Inr (JObject [(''blockNumber'', JNumber (uint (cb_BlockNumber cb))), (''blockTypeCode'', JNumber (uint (TypeCode cb))),
         (''blockType'', JString (BlockTypeName (cb_Value cb))),
         (''blockControlFlags'', BlockControlFlags_MarshalJSON (cb_BlockControlFlags cb)), (''data'', dataField)]))"

fun json_blocks :: "cboring \<Rightarrow> CanonicalBlock list \<Rightarrow> json list res" where
  "json_blocks L [] = Inr []"
| "json_blocks L (cb # cbs) =
     bindR (CanonicalBlock_MarshalJSON L cb) (\<lambda>j. bindR (json_blocks L cbs) (\<lambda>js. Inr (j # js)))"

definition Bundle_MarshalJSON :: "cboring \<Rightarrow> Bundle \<Rightarrow> json res" where
  "Bundle_MarshalJSON L b =
     bindR (json_blocks L (bndl_ExtensionBlocks b)) (\<lambda>extensions.
     case bndl_PayloadBlock b of
       None \<Rightarrow> Inl nil_value
     | Some payload \<Rightarrow> bindR (CanonicalBlock_MarshalJSON L payload) (\<lambda>payloadBlock.
         Inr (JObject [(''primaryBlock'', PrimaryBlock_MarshalJSON (bndl_PrimaryBlock b)),
           (''canonicalBlocks'', JArray extensions), (''payloadBlock'', payloadBlock)])))"

section \<open>Reading it\<close>

definition base64_val :: "char \<Rightarrow> int" where
  "base64_val c = int (length (takeWhile (\<lambda>d. d \<noteq> c) base64_alphabet))"

text \<open>The decoder a client uses: groups of four characters, the last of which may be padded.\<close>

fun base64_decode :: "string \<Rightarrow> bytes" where
  "base64_decode (w # x # y # z # cs) =
     (let n = base64_val w * 262144 + base64_val x * 4096 + (if y = CHR ''='' then 0 else base64_val y) * 64 +
            (if z = CHR ''='' then 0 else base64_val z)
      in word_of_int (n div 65536) # (if y = CHR ''='' then [] else [word_of_int (n div 256 mod 256)]) @
         (if z = CHR ''='' then [] else [word_of_int (n mod 256)]) @ base64_decode cs)"
| "base64_decode _ = []"

definition json_field :: "string \<Rightarrow> json \<Rightarrow> json" where
  "json_field name j = (case j of JObject fs \<Rightarrow> (case map_of fs name of Some v \<Rightarrow> v | None \<Rightarrow> JNull) | _ \<Rightarrow> JNull)"

fun text_of :: "json \<Rightarrow> string" where
  "text_of (JString s) = s"
| "text_of _ = []"

fun number_of :: "json \<Rightarrow> int" where
  "number_of (JNumber n) = n"
| "number_of _ = 0"

lemma base64_table: "list_all (\<lambda>k. base64_val (base64_char k) = k \<and> base64_char k \<noteq> CHR ''='') [0..63]"
  by code_simp

lemma base64_val_char: "0 \<le> k \<Longrightarrow> k < 64 \<Longrightarrow> base64_val (base64_char k) = k \<and> base64_char k \<noteq> CHR ''=''"
  using base64_table unfolding list_all_iff by auto

lemma uint_byte: "0 \<le> uint (a :: u8)" "uint (a :: u8) < 256"
  using unsigned_less [of a] by simp_all

lemma sextets: "n div 4096 * 4096 + n div 64 mod 64 * 64 + n mod 64 = (n :: int)"
proof -
  have "n div 4096 = n div 64 div 64" by (simp add: zdiv_zmult2_eq [symmetric])
  then have "n div 64 = n div 4096 * 64 + n div 64 mod 64" by simp
  moreover have "n = n div 64 * 64 + n mod 64" by simp
  ultimately show ?thesis by linarith
qed

lemma bytes_of_number:
  fixes a b c :: int
  assumes "0 \<le> c" "c < 256" "0 \<le> b" "b < 256"
  shows "(a * 65536 + b * 256 + c) div 65536 = a" "(a * 65536 + b * 256 + c) div 256 mod 256 = b" "(a * 65536 + b * 256 + c) mod 256 = c"
proof -
  have n: "a * 65536 + b * 256 + c = (a * 256 + b) * 256 + c" by simp
  have d: "((a * 256 + b) * 256 + c) div 256 = a * 256 + b" using assms(1,2) by simp
  have "(a * 65536 + b * 256 + c) div 65536 = (a * 65536 + b * 256 + c) div 256 div 256" by (simp add: zdiv_zmult2_eq [symmetric])
  then show "(a * 65536 + b * 256 + c) div 65536 = a" unfolding n d using assms(3,4) by simp
  show "(a * 65536 + b * 256 + c) div 256 mod 256 = b" unfolding n d using assms(3,4) by simp
  show "(a * 65536 + b * 256 + c) mod 256 = c" by (rule int_mod_pos_eq [of _ _ "a * 256 + b"]) (use assms in simp_all)
qed

lemma decode_two:
  assumes "0 \<le> w" "w < 64" "0 \<le> x" "x < 64" "0 \<le> y" "y < 64" "w * 262144 + x * 4096 + y * 64 = m"
  shows "base64_decode [base64_char w, base64_char x, base64_char y, CHR ''=''] = [word_of_int (m div 65536), word_of_int (m div 256 mod 256)]"
  using assms(1-6) unfolding assms(7) [symmetric] by (simp add: Let_def base64_val_char)

lemma decode_three:
  assumes "0 \<le> w" "w < 64" "0 \<le> x" "x < 64" "0 \<le> y" "y < 64" "0 \<le> z" "z < 64" "w * 262144 + x * 4096 + y * 64 + z = m"
  shows "base64_decode ([base64_char w, base64_char x, base64_char y, base64_char z] @ cs) =
    [word_of_int (m div 65536), word_of_int (m div 256 mod 256), word_of_int (m mod 256)] @ base64_decode cs"
  using assms(1-8) unfolding assms(9) [symmetric] by (simp add: Let_def base64_val_char)

lemma base64_roundtrip: "base64_decode (base64 bs) = bs"
proof (induction bs rule: base64.induct)
  case (2 a)
  have "0 \<le> uint a * 16 div 64" "uint a * 16 div 64 < 64" "0 \<le> uint a * 16 mod 64" "uint a * 16 mod 64 < 64"
    using uint_byte [of a] by (auto simp: pos_imp_zdiv_nonneg_iff)
  moreover have "(uint a * 16 div 64 * 64 + uint a * 16 mod 64) * 4096 = uint a * 65536" unfolding div_mult_mod_eq by simp
  then have "uint a * 16 div 64 * 262144 + uint a * 16 mod 64 * 4096 = uint a * 65536" by (simp only: distrib_right mult.assoc)
  ultimately show ?case by (simp add: Let_def base64_val_char)
next
  case (3 a b)
  define n where "n = (uint a * 256 + uint b) * 4"
  have n: "0 \<le> n" "n < 262144" using uint_byte [of a] uint_byte [of b] by (simp_all add: n_def)
  then have k: "0 \<le> n div 4096" "n div 4096 < 64" by (auto simp: pos_imp_zdiv_nonneg_iff)
  have "(n div 4096 * 4096 + n div 64 mod 64 * 64 + n mod 64) * 64 = uint a * 65536 + uint b * 256 + 0"
    unfolding sextets by (simp add: n_def)
  then have e: "n div 4096 * 262144 + n div 64 mod 64 * 4096 + n mod 64 * 64 = uint a * 65536 + uint b * 256 + 0" by simp
  note m = bytes_of_number [of 0 "uint b" "uint a", OF _ _ uint_byte]
  show ?case unfolding base64.simps Let_def n_def [symmetric]
    by (subst decode_two [OF k _ _ _ _ e]) (use m in simp_all)
next
  case (4 a b c bs)
  define n where "n = uint a * 65536 + uint b * 256 + uint c"
  have n: "0 \<le> n" "n < 16777216" using uint_byte [of a] uint_byte [of b] uint_byte [of c] by (simp_all add: n_def)
  then have k: "0 \<le> n div 262144" "n div 262144 < 64" by (auto simp: pos_imp_zdiv_nonneg_iff)
  have "n div 4096 div 64 = n div 262144" by (simp add: zdiv_zmult2_eq [symmetric])
  then have "n div 4096 = n div 262144 * 64 + n div 4096 mod 64" by (metis div_mult_mod_eq)
  then have e: "n div 262144 * 262144 + n div 4096 mod 64 * 4096 + n div 64 mod 64 * 64 + n mod 64 = n" using sextets [of n] by linarith
  note m = bytes_of_number [of "uint c" "uint b" "uint a", OF uint_byte uint_byte, folded n_def]
  show ?case unfolding base64.simps Let_def n_def [symmetric]
    by (subst decode_three [OF k _ _ _ _ _ _ e]) (use m 4 in simp_all)
qed simp

section \<open>Correctness\<close>

lemma data_field_total: "\<exists>j. data_field L eb = Inr j"
  by (cases eb) (simp_all add: ebm_WriteBlock_def)

lemma json_blocks_total: "\<exists>js. json_blocks L cbs = Inr js \<and> length js = length cbs"
proof (induction cbs)
  case (Cons cb cbs)
  obtain js where js: "json_blocks L cbs = Inr js" "length js = length cbs" using Cons by blast
  obtain j where "data_field L (cb_Value cb) = Inr j" using data_field_total [of L] by blast
  then show ?case using js by (simp add: CanonicalBlock_MarshalJSON_def)
qed simp

text \<open>
  C22. What the REST interface tells a client about a bundle: the JSON form of a well-formed bundle exists, and a
  client recovers from it the destination, the source and the report-to address, if their texts are valid UTF-8, the
  lifetime and the sequence number, the creation time from the calendar date for times until the year 9800, and the
  payload from its base64 text; there is one entry for every extension block. This is the form that the code produces; the
  example in the comment of the package \<open>rest_agent\<close> shows an earlier one.
\<close>

theorem json_describes_bundle:
  assumes "wf_bundle ebm b" "bndl_PayloadBlock b = Some cb" "cb_Value cb = PayloadBlock data"
    "uint (fst (pb_CreationTimestamp (bndl_PrimaryBlock b))) < 247000000000000"
    "valid_utf8 (EndpointID_String (pb_Destination (bndl_PrimaryBlock b)))" "valid_utf8 (EndpointID_String (pb_SourceNode (bndl_PrimaryBlock b)))"
    "valid_utf8 (EndpointID_String (pb_ReportTo (bndl_PrimaryBlock b)))"
  shows "\<exists>j p blocks. Bundle_MarshalJSON L b = Inr j \<and> json_field ''primaryBlock'' j = p \<and>
    NewEndpointID (text_of (json_field ''destination'' p)) = Inr (pb_Destination (bndl_PrimaryBlock b)) \<and>
    NewEndpointID (text_of (json_field ''source'' p)) = Inr (pb_SourceNode (bndl_PrimaryBlock b)) \<and>
    NewEndpointID (text_of (json_field ''reportTo'' p)) = Inr (pb_ReportTo (bndl_PrimaryBlock b)) \<and>
    number_of (json_field ''lifetime'' p) = uint (pb_Lifetime (bndl_PrimaryBlock b)) \<and>
    number_of (json_field ''sequenceNo'' (json_field ''creationTimestamp'' p)) = uint (snd (pb_CreationTimestamp (bndl_PrimaryBlock b))) \<and>
    read_date (text_of (json_field ''date'' (json_field ''creationTimestamp'' p))) =
      uint (fst (pb_CreationTimestamp (bndl_PrimaryBlock b))) + milliseconds1970To2k \<and>
    base64_decode (text_of (json_field ''data'' (json_field ''payloadBlock'' j))) = data \<and>
    json_field ''canonicalBlocks'' j = JArray blocks \<and> length blocks = length (bndl_ExtensionBlocks b)"
proof -
  obtain js where js: "json_blocks L (bndl_ExtensionBlocks b) = Inr js" "length js = length (bndl_ExtensionBlocks b)"
    using json_blocks_total [of L] by blast
  have eids: "wf_eid (pb_Destination (bndl_PrimaryBlock b))" "wf_eid (pb_SourceNode (bndl_PrimaryBlock b))"
    "wf_eid (pb_ReportTo (bndl_PrimaryBlock b))" using assms(1) by (simp_all add: wf_bundle_def wf_primary_def)
  show ?thesis using js
    by (simp add: Bundle_MarshalJSON_def assms(2,3) CanonicalBlock_MarshalJSON_def PayloadBlock_MarshalJSON_def json_bytes_def
        base64_roundtrip json_field_def PrimaryBlock_MarshalJSON_def CreationTimestamp_MarshalJSON_def CreationTimestamp_DtnTime_def
        EndpointID_parse_print eids json_text_valid assms(5-7) DtnTime_String_read [OF assms(4)])
qed

theorem json_describes_bundle_witness:
  "\<exists>j. Bundle_MarshalJSON rfc8949 example_bundle = Inr j \<and>
     base64_decode (text_of (json_field ''data'' (json_field ''payloadBlock'' j))) = [1, 2, 3, 4, 5, 6, 7, 8] \<and>
     text_of (json_field ''data'' (json_field ''payloadBlock'' j)) = ''AQIDBAUGBwg='' \<and>
     text_of (json_field ''date'' (json_field ''creationTimestamp'' (json_field ''primaryBlock'' j))) = ''2000-01-01 00:00:01.000''"
proof -
  have "case Bundle_MarshalJSON rfc8949 example_bundle of Inl _ \<Rightarrow> False
    | Inr j \<Rightarrow> text_of (json_field ''data'' (json_field ''payloadBlock'' j)) = ''AQIDBAUGBwg='' \<and>
      text_of (json_field ''date'' (json_field ''creationTimestamp'' (json_field ''primaryBlock'' j))) = ''2000-01-01 00:00:01.000''"
    by code_simp
  moreover have "valid_utf8 (EndpointID_String (pb_Destination (bndl_PrimaryBlock example_bundle)))"
    "valid_utf8 (EndpointID_String (pb_SourceNode (bndl_PrimaryBlock example_bundle)))"
    "valid_utf8 (EndpointID_String (pb_ReportTo (bndl_PrimaryBlock example_bundle)))" by code_simp+
  ultimately show ?thesis
    using json_describes_bundle [OF example_bundle_wf, of "NewCanonicalBlock 1 0 (PayloadBlock [1, 2, 3, 4, 5, 6, 7, 8])"
        "[1, 2, 3, 4, 5, 6, 7, 8]" rfc8949]
    by (auto simp: example_bundle_def example_primary_def NewCanonicalBlock_def)
qed

text \<open>
  Without that condition a client cannot tell endpoints apart: two different well-formed endpoints whose service
  names are not UTF-8 have the same JSON form.
\<close>

definition latin_endpoint :: "nat \<Rightarrow> EndpointID" where
  "latin_endpoint n = Some (Dtn \<lparr>NodeName = ''n'', Demux = [char_of n], IsDtnNone = False\<rparr>)"

lemma json_endpoints_collide:
  "NewEndpointID (EndpointID_String (latin_endpoint 228)) = Inr (latin_endpoint 228) \<and>
   NewEndpointID (EndpointID_String (latin_endpoint 246)) = Inr (latin_endpoint 246) \<and>
   latin_endpoint 228 \<noteq> latin_endpoint 246 \<and>
   EndpointID_MarshalJSON (latin_endpoint 228) = EndpointID_MarshalJSON (latin_endpoint 246)"
  by code_simp

end
