(* ===== verification/Bundle_Fuzz.thy ===== *)
theory Bundle_Fuzz
  imports Bundle
begin

text \<open>
  The entry point for fuzzing (\<open>pkg/bpv7/bundle_parse_fuzz.go\<close>) and the property it looks for: a bundle that
  was parsed without error can be written again. The panic of the program is \<open>Inl\<close>.
\<close>

definition Fuzz :: "cboring \<Rightarrow> ExtensionBlockManager \<Rightarrow> time \<Rightarrow> bytes \<Rightarrow> int res" where
  "Fuzz L ebm now data =
     (if 0 < length data \<and> data ! 0 \<noteq> 0x9f then Inr (- 1)
      else case ParseBundle L ebm now data of
        Inl e \<Rightarrow> if is_panic e then Inl e else Inr 0
      | Inr (b, errs) \<Rightarrow>
          if errs \<noteq> [] then Inr 0
          else (case Bundle_MarshalCbor L b of Inl _ \<Rightarrow> Inl (Panic ''panic(err)'') | Inr _ \<Rightarrow> Inr 1))"

section \<open>Which bundles can be serialised\<close>

definition known_crcs :: "Bundle \<Rightarrow> bool" where
  "known_crcs b \<longleftrightarrow> known_crc (pb_CRCType (bndl_PrimaryBlock b)) \<and>
     list_all (\<lambda>cb. known_crc (cb_CRCType cb)) (bndl_ExtensionBlocks b) \<and>
     (case bndl_PayloadBlock b of None \<Rightarrow> False | Some cb \<Rightarrow> known_crc (cb_CRCType cb))"

lemma calculateCRCBuff_iff: "(\<exists>d. calculateCRCBuff L buff c = Inr d) \<longleftrightarrow> known_crc c"
  using calculateCRCBuff_known [of c L buff] calculateCRCBuff_unknown [of c L buff] by (cases "known_crc c") auto

lemma EndpointID_valid_marshal: "EndpointID_CheckValid eid = [] \<Longrightarrow> \<exists>bs. EndpointID_MarshalCbor L eid = Inr bs"
  by (cases eid) (auto simp: EndpointID_CheckValid_def EndpointID_MarshalCbor_def)

lemma PrimaryBlock_valid_marshal:
  assumes "PrimaryBlock_CheckValid pb = []"
  shows "(\<exists>x. PrimaryBlock_MarshalCbor L pb = Inr x) \<longleftrightarrow> known_crc (pb_CRCType pb)"
proof -
  have eids: "EndpointID_CheckValid (pb_Destination pb) = []" "EndpointID_CheckValid (pb_SourceNode pb) = []"
    "EndpointID_CheckValid (pb_ReportTo pb) = []" using assms by (simp_all add: PrimaryBlock_CheckValid_def)
  obtain d s r where m: "EndpointID_MarshalCbor L (pb_Destination pb) = Inr d" "EndpointID_MarshalCbor L (pb_SourceNode pb) = Inr s"
    "EndpointID_MarshalCbor L (pb_ReportTo pb) = Inr r" using eids EndpointID_valid_marshal by meson
  then obtain buff where buff: "PrimaryBlock_fields L pb = Inr buff" by (simp add: PrimaryBlock_fields_def)
  show ?thesis using calculateCRCBuff_iff [of L buff "pb_CRCType pb"]
    by (auto simp: PrimaryBlock_MarshalCbor_def buff PrimaryBlock_HasCRC_def known_crc_def bindR_Inr_iff)
qed

lemma ExtensionBlock_valid_data:
  "ExtensionBlock_CheckValid eb = [] \<Longrightarrow> \<exists>d. ExtensionBlock_data L eb = Inr d"
  by (cases eb) (auto simp: EndpointID_valid_marshal)

lemma CanonicalBlock_valid_marshal:
  assumes "CanonicalBlock_CheckValid cb = []"
  shows "(\<exists>x. CanonicalBlock_MarshalCbor L cb = Inr x) \<longleftrightarrow> known_crc (cb_CRCType cb)"
proof -
  obtain d where "ExtensionBlock_data L (cb_Value cb) = Inr d"
    using ExtensionBlock_valid_data assms by (auto simp: CanonicalBlock_CheckValid_def)
  then obtain buff where buff: "CanonicalBlock_fields L cb = Inr buff" by (simp add: CanonicalBlock_fields_def ebm_WriteBlock_def)
  show ?thesis using calculateCRCBuff_iff [of L buff "cb_CRCType cb"]
    by (auto simp: CanonicalBlock_MarshalCbor_def buff CanonicalBlock_HasCRC_def known_crc_def bindR_Inr_iff)
qed

lemma marshal_blocks_iff:
  "(\<exists>x. marshal_blocks L cbs = Inr x) \<longleftrightarrow> list_all (\<lambda>cb. \<exists>x. CanonicalBlock_MarshalCbor L cb = Inr x) cbs"
proof (induction cbs)
  case (Cons cb cbs)
  then show ?case by (cases "CanonicalBlock_MarshalCbor L cb"; cases "marshal_blocks L cbs") auto
qed simp

lemma Bundle_valid_marshal:
  assumes "Bundle_CheckValid now b = Inr []"
  shows "(\<exists>x. Bundle_MarshalCbor L b = Inr x) \<longleftrightarrow> known_crcs b"
proof -
  obtain payload where v: "bndl_PayloadBlock b = Some payload" "CanonicalBlock_CheckValid payload = []"
    "PrimaryBlock_CheckValid (bndl_PrimaryBlock b) = []" "\<forall>cb \<in> set (bndl_ExtensionBlocks b). CanonicalBlock_CheckValid cb = []"
    using assms unfolding Bundle_CheckValid_Inr_Nil by blast
  have ext: "(\<exists>x. marshal_blocks L (bndl_ExtensionBlocks b) = Inr x) \<longleftrightarrow> list_all (\<lambda>cb. known_crc (cb_CRCType cb)) (bndl_ExtensionBlocks b)"
    unfolding marshal_blocks_iff using v(4) CanonicalBlock_valid_marshal by (auto simp: list_all_iff)
  have "(\<exists>x. Bundle_MarshalCbor L b = Inr x) \<longleftrightarrow> (\<exists>x. PrimaryBlock_MarshalCbor L (bndl_PrimaryBlock b) = Inr x) \<and>
      (\<exists>x. marshal_blocks L (bndl_ExtensionBlocks b) = Inr x) \<and> (\<exists>x. CanonicalBlock_MarshalCbor L payload = Inr x)"
    by (cases "PrimaryBlock_MarshalCbor L (bndl_PrimaryBlock b)"; cases "marshal_blocks L (bndl_ExtensionBlocks b)";
        cases "CanonicalBlock_MarshalCbor L payload") (auto simp: Bundle_MarshalCbor_def v(1))
  then show ?thesis using PrimaryBlock_valid_marshal [OF v(3)] CanonicalBlock_valid_marshal [OF v(2)] ext v(1) by (simp add: known_crcs_def)
qed

lemma ParseBundle_valid: "ParseBundle L ebm now data = Inr (b, errs) \<Longrightarrow> Bundle_CheckValid now b = Inr errs"
  by (auto simp: ParseBundle_def bindR_Inr_iff Let_def split: option.splits)

section \<open>Correctness\<close>

text \<open>
  C16. What a node has accepted it can pass on, or not: a parsed bundle that passes the validity check is
  serialised without error exactly when each of its blocks has one of the three checksum types. The
  fuzzing entry point reports success for exactly these inputs, and it panics on an accepted bundle exactly
  when a block names an unknown checksum type, which neither the decoder of a block without checksum field nor the
  validity check looks at.
\<close>

theorem Fuzz_outcome:
  assumes "ParseBundle L ebm now data = Inr (b, [])" "data ! 0 = 0x9f"
  shows "((\<exists>x. Bundle_MarshalCbor L b = Inr x) \<longleftrightarrow> known_crcs b) \<and>
    Fuzz L ebm now data = (if known_crcs b then Inr 1 else Inl (Panic ''panic(err)''))"
proof -
  have "(\<exists>x. Bundle_MarshalCbor L b = Inr x) \<longleftrightarrow> known_crcs b" using Bundle_valid_marshal ParseBundle_valid [OF assms(1)] .
  then show ?thesis using assms by (cases "Bundle_MarshalCbor L b") (auto simp: Fuzz_def)
qed

text \<open>The bytes of the example bundle, with a checksum type for its payload block.\<close>

definition fuzz_input :: "u8 \<Rightarrow> bytes" where
  "fuzz_input crcType =
     [159, 136, 7, 0, 0, 130, 2, 130, 2, 1, 130, 2, 130, 1, 1, 130, 2, 130, 1, 1, 130, 25, 3, 232, 0, 26, 0, 54, 238, 128,
      133, 10, 2, 1, 0, 67, 130, 5, 1, 133, 1, 1, 0, crcType, 72, 1, 2, 3, 4, 5, 6, 7, 8, 255]"

definition fuzz_bundle :: "u64 \<Rightarrow> Bundle" where
  "fuzz_bundle crcType = example_bundle\<lparr>bndl_PayloadBlock :=
     Some ((NewCanonicalBlock 1 0 (PayloadBlock [1, 2, 3, 4, 5, 6, 7, 8]))\<lparr>cb_CRCType := crcType\<rparr>)\<rparr>"

lemma fuzz_parse:
  "ParseBundle rfc8949 GetExtensionBlockManager 0 (fuzz_input 0) = Inr (fuzz_bundle 0, [])"
  "ParseBundle rfc8949 GetExtensionBlockManager 0 (fuzz_input 3) = Inr (fuzz_bundle 3, [])"
  by code_simp+

lemma fuzz_known: "known_crcs (fuzz_bundle 0)" "\<not> known_crcs (fuzz_bundle 3)"
  by code_simp+

theorem Fuzz_outcome_witness:
  "Fuzz rfc8949 GetExtensionBlockManager 0 (fuzz_input 0) = Inr 1 \<and>
   Fuzz rfc8949 GetExtensionBlockManager 0 (fuzz_input 3) = Inl (Panic ''panic(err)'')"
  using Fuzz_outcome [OF fuzz_parse(1)] Fuzz_outcome [OF fuzz_parse(2)] fuzz_known by (simp add: fuzz_input_def)

text \<open>A bundle of a peer that passes every check on arrival and can neither be stored nor forwarded.\<close>

lemma accepted_not_serialisable:
  "\<exists>b. ParseBundle rfc8949 GetExtensionBlockManager 0 (fuzz_input 3) = Inr (b, []) \<and> isl (Bundle_MarshalCbor rfc8949 b)"
  using Bundle_valid_marshal [OF ParseBundle_valid [OF fuzz_parse(2)], of rfc8949] fuzz_known(2) fuzz_parse(2)
  by (cases "Bundle_MarshalCbor rfc8949 (fuzz_bundle 3)") auto

end
