(* ===== verification/Cla_Manager.thy ===== *)
theory Cla_Manager
  imports Bundle
begin

text \<open>
  The manager of convergence layer adapters (\<open>pkg/cla/cla_manager.go\<close>, \<open>pkg/cla/convergence_layer.go\<close>,
  \<open>pkg/cla/cla_types.go\<close>). An adapter is known to the manager by its address, by the interfaces it
  implements and by the endpoint of its peer. Registration and activation run in goroutines: the
  started registrations are part of the state, the started activations are exactly the adapters in
  \<open>pendingStart\<close>. Disconnecting holds two mutexes one after the other and is two steps.
\<close>

section \<open>Adapter types\<close>

type_synonym CLAType = nat

definition TCPCLv4 :: CLAType where "TCPCLv4 = 0"
definition MTCP :: CLAType where "MTCP = 10"
definition QUICL :: CLAType where "QUICL = 20"
definition Dummy :: CLAType where "Dummy = 8080"

definition to_lower :: "char \<Rightarrow> char" where
  "to_lower c = (let n = (of_char c :: nat) in if 65 \<le> n \<and> n \<le> 90 then char_of (n + 32) else c)"

definition ToLower :: "string \<Rightarrow> string" where
  "ToLower s = map to_lower s"

definition TypeFromString :: "string \<Rightarrow> CLAType res" where
  "TypeFromString claType =
     (let claType = ToLower claType in
      if claType = ''tcpclv4'' then Inr TCPCLv4
      else if claType = ''mtcp'' then Inr MTCP
      else if claType = ''quicl'' then Inr QUICL
      else Inl (Errorf ''invalid CLA Type''))"

definition CLAType_String :: "CLAType \<Rightarrow> string" where
  "CLAType_String claType =
     (if claType = TCPCLv4 then ''TCPCLv4''
      else if claType = MTCP then ''MTCP''
      else if claType = QUICL then ''QUICL''
      else ''unknown CLA type'')"

definition CLAType_CheckValid :: "CLAType \<Rightarrow> err list" where
  "CLAType_CheckValid claType =
     (if CLAType_String claType = ''unknown CLA type'' then [Errorf ''unknown CLA type''] else [])"

section \<open>The manager\<close>

record Convergence =
  cla_Address :: string
  cla_IsReceiver :: bool
  cla_IsSender :: bool
  cla_PeerEndpointID :: EndpointID

record Manager =
  mgr_receivers :: "Convergence list"
  mgr_senders :: "Convergence list"
  mgr_pendingStart :: "Convergence list"
  mgr_listeners :: "string list"
  mgr_pendingRemoval :: "string set"
  mgr_registering :: "Convergence list"
  mgr_removing :: "Convergence list"
  mgr_disconnectCallbacks :: "EndpointID list"

definition InitialiseCLAManager :: Manager where
  "InitialiseCLAManager =
     \<lparr>mgr_receivers = [], mgr_senders = [], mgr_pendingStart = [], mgr_listeners = [],
      mgr_pendingRemoval = {}, mgr_registering = [], mgr_removing = [], mgr_disconnectCallbacks = []\<rparr>"

definition GetSenders :: "Manager \<Rightarrow> Convergence list" where
  "GetSenders manager = mgr_senders manager"

definition GetReceivers :: "Manager \<Rightarrow> Convergence list" where
  "GetReceivers manager = mgr_receivers manager"

definition checkPresent :: "Manager \<Rightarrow> Convergence \<Rightarrow> bool" where
  "checkPresent manager cla \<longleftrightarrow>
     list_ex (\<lambda>pending. cla_Address cla = cla_Address pending) (mgr_pendingStart manager) \<or>
     (cla_IsReceiver cla \<and> list_ex (\<lambda>r. cla_Address cla = cla_Address r) (mgr_receivers manager)) \<or>
     (cla_IsSender cla \<and> list_ex (\<lambda>s. cla_Address cla = cla_Address s) (mgr_senders manager))"

definition Register :: "Convergence \<Rightarrow> Manager \<Rightarrow> Manager" where
  "Register cla manager = manager\<lparr>mgr_registering := mgr_registering manager @ [cla]\<rparr>"

definition registerAsync :: "Convergence \<Rightarrow> Manager \<Rightarrow> Manager" where
  "registerAsync cla manager =
     (if checkPresent manager cla then manager
      else manager\<lparr>mgr_pendingStart := mgr_pendingStart manager @ [cla]\<rparr>)"

text \<open>The rest of \<open>activateCLA\<close> after \<open>Activate\<close> has returned, with or without error.\<close>

definition activateCLA :: "bool \<Rightarrow> Convergence \<Rightarrow> Manager \<Rightarrow> Manager" where
  "activateCLA ok cla manager =
     (let manager = manager\<lparr>mgr_pendingStart :=
            filter (\<lambda>pendingCLA. cla_Address cla \<noteq> cla_Address pendingCLA) (mgr_pendingStart manager)\<rparr>
      in if ok
         then manager\<lparr>mgr_receivers := mgr_receivers manager @ (if cla_IsReceiver cla then [cla] else []),
                      mgr_senders := mgr_senders manager @ (if cla_IsSender cla then [cla] else [])\<rparr>
         else manager)"

text \<open>\<open>NotifyDisconnect\<close> up to the release of the first mutex, and the rest of it.\<close>

definition NotifyDisconnect :: "Convergence \<Rightarrow> Manager \<Rightarrow> Manager" where
  "NotifyDisconnect cla manager =
     (if cla_Address cla \<in> mgr_pendingRemoval manager then manager
      else manager\<lparr>mgr_pendingRemoval := insert (cla_Address cla) (mgr_pendingRemoval manager),
                   mgr_removing := mgr_removing manager @ [cla]\<rparr>)"

definition finishDisconnect :: "Convergence \<Rightarrow> Manager \<Rightarrow> Manager" where
  "finishDisconnect cla manager =
     (let manager = (if cla_IsReceiver cla
            then manager\<lparr>mgr_receivers := filter (\<lambda>r. cla_Address cla \<noteq> cla_Address r) (mgr_receivers manager)\<rparr>
            else manager);
          manager = (if cla_IsSender cla
            then manager\<lparr>mgr_senders := filter (\<lambda>s. cla_Address cla \<noteq> cla_Address s) (mgr_senders manager),
                         mgr_disconnectCallbacks := mgr_disconnectCallbacks manager @ [cla_PeerEndpointID cla]\<rparr>
            else manager)
      in manager\<lparr>mgr_pendingRemoval := mgr_pendingRemoval manager - {cla_Address cla}\<rparr>)"

definition RegisterListener :: "bool \<Rightarrow> string \<Rightarrow> Manager \<Rightarrow> (err list \<times> Manager)" where
  "RegisterListener start_ok listener manager =
     (if \<not> start_ok then ([Errorf ''listener failed to start''], manager)
      else ([], manager\<lparr>mgr_listeners := mgr_listeners manager @ [listener]\<rparr>))"

definition mgr_shutdown :: "Manager \<Rightarrow> Manager" where
  "mgr_shutdown manager = manager\<lparr>mgr_receivers := [], mgr_senders := [], mgr_listeners := []\<rparr>"

section \<open>The manager as a transition system\<close>

inductive mgr_step :: "Manager \<Rightarrow> Manager \<Rightarrow> bool" where
  mgr_register: "mgr_step manager (Register cla manager)"
| mgr_registered: "mgr_registering manager = xs @ cla # ys \<Longrightarrow>
    mgr_step manager (registerAsync cla (manager\<lparr>mgr_registering := xs @ ys\<rparr>))"
| mgr_activated: "cla \<in> set (mgr_pendingStart manager) \<Longrightarrow> mgr_step manager (activateCLA ok cla manager)"
| mgr_disconnect: "mgr_step manager (NotifyDisconnect cla manager)"
| mgr_disconnected: "mgr_removing manager = xs @ cla # ys \<Longrightarrow>
    mgr_step manager (finishDisconnect cla (manager\<lparr>mgr_removing := xs @ ys\<rparr>))"
| mgr_listen: "mgr_step manager (snd (RegisterListener ok listener manager))"
| mgr_stop: "mgr_step manager (mgr_shutdown manager)"

inductive mgr_reach :: "Manager \<Rightarrow> bool" where
  mgr_reach_init: "mgr_reach InitialiseCLAManager"
| mgr_reach_step: "mgr_reach m \<Longrightarrow> mgr_step m m' \<Longrightarrow> mgr_reach m'"

text \<open>No address is started or registered twice; removals under way are marked, once each.\<close>

definition mgr_inv :: "Manager \<Rightarrow> bool" where
  "mgr_inv m \<longleftrightarrow>
     distinct (map cla_Address (mgr_pendingStart m)) \<and>
     distinct (map cla_Address (mgr_receivers m)) \<and> distinct (map cla_Address (mgr_senders m)) \<and>
     (\<forall>c \<in> set (mgr_pendingStart m).
        (cla_IsReceiver c \<longrightarrow> cla_Address c \<notin> cla_Address ` set (mgr_receivers m)) \<and>
        (cla_IsSender c \<longrightarrow> cla_Address c \<notin> cla_Address ` set (mgr_senders m))) \<and>
     distinct (map cla_Address (mgr_removing m)) \<and>
     cla_Address ` set (mgr_removing m) = mgr_pendingRemoval m"

lemma distinct_filter_map: "distinct (map f xs) \<Longrightarrow> distinct (map f (filter P xs))"
  by (induction xs) auto

lemma mgr_inv_init: "mgr_inv InitialiseCLAManager"
  by (simp add: mgr_inv_def InitialiseCLAManager_def)

lemma registerAsync_inv: "mgr_inv m \<Longrightarrow> mgr_inv (registerAsync cla m)"
  by (auto simp: mgr_inv_def registerAsync_def checkPresent_def list_ex_iff)

lemma activateCLA_inv:
  assumes "mgr_inv m" "cla \<in> set (mgr_pendingStart m)"
  shows "mgr_inv (activateCLA ok cla m)"
  using assms by (auto simp: mgr_inv_def activateCLA_def Let_def distinct_filter_map)

lemma NotifyDisconnect_inv: "mgr_inv m \<Longrightarrow> mgr_inv (NotifyDisconnect cla m)"
  by (auto simp: mgr_inv_def NotifyDisconnect_def)

lemma finishDisconnect_inv:
  assumes "mgr_inv m" "mgr_removing m = xs @ cla # ys"
  shows "mgr_inv (finishDisconnect cla (m\<lparr>mgr_removing := xs @ ys\<rparr>))"
proof -
  have "cla_Address ` set (xs @ ys) = mgr_pendingRemoval m - {cla_Address cla}"
  proof -
    have "insert (cla_Address cla) (cla_Address ` set (xs @ ys)) = mgr_pendingRemoval m"
      "cla_Address cla \<notin> cla_Address ` set (xs @ ys)"
      using assms by (auto simp: mgr_inv_def)
    then show ?thesis by blast
  qed
  then show ?thesis using assms by (auto simp: mgr_inv_def finishDisconnect_def Let_def distinct_filter_map)
qed

lemma mgr_inv_frame [simp]:
  "mgr_inv (m\<lparr>mgr_registering := x\<rparr>) = mgr_inv m"
  "mgr_inv (m\<lparr>mgr_listeners := ls\<rparr>) = mgr_inv m"
  by (simp_all add: mgr_inv_def)

lemma mgr_step_inv: "mgr_step m m' \<Longrightarrow> mgr_inv m \<Longrightarrow> mgr_inv m'"
proof (induction rule: mgr_step.induct)
  case (mgr_stop manager)
  then show ?case by (simp add: mgr_inv_def mgr_shutdown_def)
qed (simp_all add: registerAsync_inv activateCLA_inv NotifyDisconnect_inv finishDisconnect_inv Register_def
     RegisterListener_def)

lemma mgr_reach_inv: "mgr_reach m \<Longrightarrow> mgr_inv m"
  by (induction rule: mgr_reach.induct) (auto simp: mgr_inv_init intro: mgr_step_inv)

text \<open>C30. In every state the manager can reach, whatever the interleaving of registrations,
  activations, disconnections and shutdowns, no address is used by two senders or by two receivers,
  and a removal is under way at most once for an address.\<close>

theorem CLA_addresses_unique:
  assumes "mgr_reach m"
  shows "distinct (map cla_Address (GetSenders m)) \<and> distinct (map cla_Address (GetReceivers m)) \<and>
    distinct (map cla_Address (mgr_removing m))"
  using mgr_reach_inv [OF assms] by (simp add: mgr_inv_def GetSenders_def GetReceivers_def)

text \<open>A successful registration makes the adapter available: an adapter that is not present is
  entered among the pending ones, a successful activation moves it to the lists of the interfaces it
  implements, a failed one only drops it, and every other adapter stays where it was.\<close>

lemma registration_correct:
  assumes "\<not> checkPresent m cla"
  shows "let m1 = registerAsync cla m; ok = activateCLA True cla m1; bad = activateCLA False cla m1 in
    cla \<in> set (mgr_pendingStart m1) \<and> checkPresent m1 cla \<and>
    mgr_pendingStart ok = mgr_pendingStart m \<and>
    GetSenders ok = GetSenders m @ (if cla_IsSender cla then [cla] else []) \<and>
    GetReceivers ok = GetReceivers m @ (if cla_IsReceiver cla then [cla] else []) \<and>
    bad = m"
proof -
  have "filter (\<lambda>p. cla_Address cla \<noteq> cla_Address p) (mgr_pendingStart m) = mgr_pendingStart m"
    using assms by (auto simp: checkPresent_def list_ex_iff filter_id_conv)
  moreover have "registerAsync cla m = m\<lparr>mgr_pendingStart := mgr_pendingStart m @ [cla]\<rparr>"
    using assms by (simp add: registerAsync_def)
  ultimately show ?thesis
    by (simp add: activateCLA_def Let_def GetSenders_def GetReceivers_def checkPresent_def)
qed

text \<open>When a disconnection completes, no adapter with the address of the lost one is left in a list
  of an interface it implements, all others stay in order, the routing algorithm is told about the lost
  peer once, and the address can be disconnected again later.\<close>

lemma disconnect_correct:
  assumes "mgr_reach m" "cla_Address cla \<notin> mgr_pendingRemoval m"
  shows "let m1 = NotifyDisconnect cla m;
             m2 = finishDisconnect cla (m1\<lparr>mgr_removing := mgr_removing m\<rparr>) in
    mgr_removing m1 = mgr_removing m @ [cla] \<and>
    GetSenders m2 = (if cla_IsSender cla then filter (\<lambda>s. cla_Address s \<noteq> cla_Address cla) (GetSenders m) else GetSenders m) \<and>
    GetReceivers m2 = (if cla_IsReceiver cla then filter (\<lambda>r. cla_Address r \<noteq> cla_Address cla) (GetReceivers m) else GetReceivers m) \<and>
    mgr_disconnectCallbacks m2 = mgr_disconnectCallbacks m @ (if cla_IsSender cla then [cla_PeerEndpointID cla] else []) \<and>
    mgr_pendingRemoval m2 = mgr_pendingRemoval m \<and>
    mgr_reach m2"
proof -
  let ?m1 = "NotifyDisconnect cla m"
  have rm: "mgr_removing ?m1 = mgr_removing m @ cla # []" using assms(2) by (simp add: NotifyDisconnect_def)
  have "mgr_reach ?m1" using assms(1) mgr_disconnect by (rule mgr_reach_step)
  then have "mgr_reach (finishDisconnect cla (?m1\<lparr>mgr_removing := mgr_removing m @ []\<rparr>))"
    using mgr_disconnected [OF rm] by (rule mgr_reach_step)
  then show ?thesis using assms(2) rm
    by (auto simp: Let_def NotifyDisconnect_def finishDisconnect_def GetSenders_def GetReceivers_def
        intro!: filter_cong)
qed

definition example_cla :: Convergence where
  "example_cla = \<lparr>cla_Address = ''10.0.0.1:4556'', cla_IsReceiver = False, cla_IsSender = True,
     cla_PeerEndpointID = DtnNone\<rparr>"

text \<open>The example: two adapters are registered, one of them twice; both are activated, and the second is being disconnected.\<close>

definition example_cla2 :: Convergence where
  "example_cla2 = example_cla\<lparr>cla_Address := ''10.0.0.2:4556'', cla_IsReceiver := True\<rparr>"

lemma example_mgr:
  "\<exists>m. mgr_reach m \<and> GetSenders m = [example_cla, example_cla2] \<and> GetReceivers m = [example_cla2] \<and>
     mgr_removing m = [example_cla2] \<and> mgr_registering m = []"
proof -
  let ?m1 = "Register example_cla (Register example_cla2 (Register example_cla InitialiseCLAManager))"
  let ?m2 = "registerAsync example_cla (?m1\<lparr>mgr_registering := [] @ [example_cla2, example_cla]\<rparr>)"
  let ?m3 = "registerAsync example_cla2 (?m2\<lparr>mgr_registering := [] @ [example_cla]\<rparr>)"
  let ?m4 = "activateCLA True example_cla ?m3"
  let ?m5 = "registerAsync example_cla (?m4\<lparr>mgr_registering := [] @ []\<rparr>)"
  let ?m6 = "activateCLA True example_cla2 ?m5"
  let ?m7 = "NotifyDisconnect example_cla2 ?m6"
  note ds = InitialiseCLAManager_def Register_def registerAsync_def checkPresent_def NotifyDisconnect_def
    example_cla_def example_cla2_def activateCLA_def GetSenders_def GetReceivers_def Let_def
  have "mgr_reach ?m1" by (intro mgr_reach_step [OF _ mgr_register] mgr_reach_init)
  then have "mgr_reach ?m2" by (rule mgr_reach_step) (rule mgr_registered, simp add: ds)
  then have "mgr_reach ?m3" by (rule mgr_reach_step) (rule mgr_registered, simp add: ds)
  then have "mgr_reach ?m4" by (rule mgr_reach_step) (rule mgr_activated, simp add: ds)
  then have "mgr_reach ?m5" by (rule mgr_reach_step) (rule mgr_registered, simp add: ds)
  then have "mgr_reach ?m6" by (rule mgr_reach_step) (rule mgr_activated, simp add: ds)
  then have "mgr_reach ?m7" by (rule mgr_reach_step) (rule mgr_disconnect)
  moreover have "GetSenders ?m7 = [example_cla, example_cla2] \<and> GetReceivers ?m7 = [example_cla2] \<and>
     mgr_removing ?m7 = [example_cla2] \<and> mgr_registering ?m7 = []"
    by (simp add: ds)
  ultimately show ?thesis by blast
qed

theorem CLA_addresses_unique_witness:
  "\<exists>m. mgr_reach m \<and> GetSenders m = [example_cla, example_cla2] \<and> GetReceivers m = [example_cla2] \<and>
     mgr_removing m = [example_cla2] \<and> distinct (map cla_Address (GetSenders m)) \<and>
     distinct (map cla_Address (GetReceivers m)) \<and> distinct (map cla_Address (mgr_removing m))"
proof -
  obtain m where m: "mgr_reach m" "GetSenders m = [example_cla, example_cla2]" "GetReceivers m = [example_cla2]"
    "mgr_removing m = [example_cla2]" using example_mgr by blast
  show ?thesis using CLA_addresses_unique [OF m(1)] m by blast
qed

lemma example_cla_absent: "\<not> checkPresent InitialiseCLAManager example_cla"
  by (simp add: checkPresent_def InitialiseCLAManager_def)

text \<open>A connection that is lost before its activation has been recorded stays registered: the
  manager reaches a state in which the adapter is a sender although its disconnection is complete and
  its peer has been reported as gone.\<close>

lemma disconnect_during_activation_stays:
  "\<exists>m. mgr_reach m \<and> example_cla \<in> set (GetSenders m) \<and> mgr_pendingRemoval m = {} \<and>
     mgr_disconnectCallbacks m = [cla_PeerEndpointID example_cla] \<and> mgr_removing m = []"
proof -
  let ?m0 = "InitialiseCLAManager"
  let ?m1 = "Register example_cla ?m0"
  let ?m2 = "registerAsync example_cla (?m1\<lparr>mgr_registering := [] @ []\<rparr>)"
  let ?m3 = "NotifyDisconnect example_cla ?m2"
  let ?m4 = "finishDisconnect example_cla (?m3\<lparr>mgr_removing := [] @ []\<rparr>)"
  let ?m5 = "activateCLA True example_cla ?m4"
  note ds = InitialiseCLAManager_def Register_def registerAsync_def checkPresent_def NotifyDisconnect_def
    finishDisconnect_def example_cla_def activateCLA_def GetSenders_def Let_def
  have "mgr_reach ?m1" by (rule mgr_reach_step [OF mgr_reach_init mgr_register])
  then have "mgr_reach ?m2" by (rule mgr_reach_step) (rule mgr_registered, simp add: ds)
  then have "mgr_reach ?m3" by (rule mgr_reach_step) (rule mgr_disconnect)
  then have "mgr_reach ?m4" by (rule mgr_reach_step) (rule mgr_disconnected, simp add: ds)
  then have "mgr_reach ?m5" by (rule mgr_reach_step) (rule mgr_activated, simp add: ds)
  moreover have "example_cla \<in> set (GetSenders ?m5) \<and> mgr_pendingRemoval ?m5 = {} \<and>
     mgr_disconnectCallbacks ?m5 = [cla_PeerEndpointID example_cla] \<and> mgr_removing ?m5 = []"
    by (simp add: ds)
  ultimately show ?thesis by blast
qed

end
