(* ===== verification/Mtcp.thy ===== *)
theory Mtcp
  imports Cla_Manager
begin

text \<open>
  The minimal TCP convergence layer (\<open>pkg/cla/mtcp/client.go\<close>, \<open>pkg/cla/mtcp/server.go\<close>). A connection is
  the sequence of bytes the client has written and the server reads. What the operating system does with
  a write is an argument: it succeeds, or it fails after some bytes. Dialling, accepting and deadlines are
  I/O. The server decodes from the connection itself, so the decoder of this theory also returns
  what follows the bundle.
\<close>

section \<open>Decoding from a stream\<close>

text \<open>
  What a block decoder has consumed when it reports the break code: the fields before, and the byte of
  the break code itself. The code may stand in place of a block, of one of its four numbers or of its
  checksum; behind the block-type specific data the error would be wrapped.
\<close>

fun break_fields :: "nat \<Rightarrow> cboring \<Rightarrow> bytes \<Rightarrow> bytes" where
  "break_fields 0 L r = (case ReadByteString L r of Inl _ \<Rightarrow> r | Inr (_, r) \<Rightarrow> drop 1 r)"
| "break_fields (Suc k) L r = (case ReadUInt L r of Inl _ \<Rightarrow> drop 1 r | Inr (_, r) \<Rightarrow> break_fields k L r)"

definition break_rest :: "cboring \<Rightarrow> bytes \<Rightarrow> bytes" where
  "break_rest L r = (case ReadArrayLength L r of Inl _ \<Rightarrow> drop 1 r | Inr (_, r) \<Rightarrow> break_fields 4 L r)"

fun stream_blocks ::
    "nat \<Rightarrow> cboring \<Rightarrow> ExtensionBlockManager \<Rightarrow> bytes \<Rightarrow> CanonicalBlock list \<Rightarrow> CanonicalBlock option \<Rightarrow>
     (CanonicalBlock list \<times> CanonicalBlock option \<times> bytes) res option" where
  "stream_blocks 0 L ebm r ebs payload = None"
| "stream_blocks (Suc n) L ebm r ebs payload =
     (case CanonicalBlock_UnmarshalCbor L ebm r of
        Inl e \<Rightarrow> if e = FlagBreakCode then Some (Inr (ebs, payload, break_rest L r))
                 else Some (Inl (Wrapf ''CanonicalBlock failed'' e))
      | Inr (cb, r') \<Rightarrow>
          if TypeCode cb = BlockTypePayloadBlock then stream_blocks n L ebm r' ebs (Some cb)
          else stream_blocks n L ebm r' (ebs @ [cb]) payload)"

text \<open>
  The decoder: \<open>None\<close> when its loop does not end, which is neither an error nor a panic that a caller could
  recover from.
\<close>

definition Bundle_UnmarshalCbor ::
    "cboring \<Rightarrow> ExtensionBlockManager \<Rightarrow> time \<Rightarrow> bytes \<Rightarrow> (Bundle \<times> err list \<times> bytes) res option" where
  "Bundle_UnmarshalCbor L ebm now r =
     (case bindR (ReadExpect L (IndefiniteArray L) r)
             (\<lambda>r. mapErr (Wrapf ''PrimaryBlock failed'') (PrimaryBlock_UnmarshalCbor L r)) of
        Inl e \<Rightarrow> Some (Inl e)
      | Inr (pb, r) \<Rightarrow>
          map_option (\<lambda>res. bindR res (\<lambda>(ebs, payload, rest).
            let b = \<lparr>bndl_PrimaryBlock = pb, bndl_ExtensionBlocks = ebs, bndl_PayloadBlock = payload\<rparr>
            in bindR (Bundle_CheckValid now b) (\<lambda>errs. Inr (b, errs, rest))))
            (stream_blocks (Suc (length r)) L ebm r [] None))"

section \<open>The server\<close>

text \<open>
  \<open>handleSender\<close> on everything that arrives on a connection: the bundles passed to the callback, and the
  error that ended the loop. The length in front of a bundle is compared with zero only. A
  panic of the decoder is recovered and closes the connection as an error does. The validity check of
  the \<open>k\<close>-th bundle reads the clock. \<open>None\<close>: this loop, or the decoder's, does not end.
\<close>

fun handleSender_loop ::
    "nat \<Rightarrow> cboring \<Rightarrow> ExtensionBlockManager \<Rightarrow> (nat \<Rightarrow> time) \<Rightarrow> nat \<Rightarrow> bytes \<Rightarrow> (Bundle list \<times> err) option" where
  "handleSender_loop 0 L ebm clock k r = None"
| "handleSender_loop (Suc n) L ebm clock k r =
     (case ReadByteStringLen L r of
        Inl e \<Rightarrow> Some ([], e)
      | Inr (len, r) \<Rightarrow>
          if len = 0 then handleSender_loop n L ebm clock k r
          else (case Bundle_UnmarshalCbor L ebm (clock k) r of
            None \<Rightarrow> None
          | Some (Inl e) \<Rightarrow> Some ([], e)
          | Some (Inr (bndl, errs, r)) \<Rightarrow>
              if errs \<noteq> [] then Some ([], Multi errs)
              else map_option (\<lambda>(bs, e). (bndl # bs, e)) (handleSender_loop n L ebm clock (Suc k) r)))"

definition handleSender :: "cboring \<Rightarrow> ExtensionBlockManager \<Rightarrow> (nat \<Rightarrow> time) \<Rightarrow> bytes \<Rightarrow> (Bundle list \<times> err) option" where
  "handleSender L ebm clock r = handleSender_loop (Suc (length r)) L ebm clock 0 r"

definition MTCPServer_Address :: "string \<Rightarrow> string" where
  "MTCPServer_Address listenAddress = ''mtcp://'' @ listenAddress"

text \<open>
  The life of a server: the channels are given by whether they are closed, and the goroutine started by
  \<open>Start\<close> accepts connections, has ended, or waits inside its own call of \<open>Close\<close>.
\<close>

datatype server_loop = NotStarted | Accepting | Stopped | WaitsForItself

record MTCPServer =
  ms_listenAddress :: string
  ms_endpointID :: EndpointID
  ms_running :: bool
  ms_stopSyn :: bool
  ms_stopAck :: bool
  ms_loop :: server_loop

definition NewMTCPServer :: "string \<Rightarrow> EndpointID \<Rightarrow> MTCPServer" where
  "NewMTCPServer listenAddress endpointID =
     \<lparr>ms_listenAddress = listenAddress, ms_endpointID = endpointID, ms_running = False, ms_stopSyn = False,
      ms_stopAck = False, ms_loop = NotStarted\<rparr>"

definition MTCPServer_Start :: "unit res \<Rightarrow> MTCPServer \<Rightarrow> MTCPServer res" where
  "MTCPServer_Start listen serv = bindR listen (\<lambda>_. Inr (serv\<lparr>ms_running := True, ms_loop := Accepting\<rparr>))"

text \<open>\<open>Close\<close> up to the point where it waits for the acknowledgement, and a round of the goroutine.\<close>

definition MTCPServer_Close :: "MTCPServer \<Rightarrow> MTCPServer res" where
  "MTCPServer_Close serv =
     (if ms_stopSyn serv then Inl (Panic ''close of closed channel'') else Inr (serv\<lparr>ms_stopSyn := True\<rparr>))"

definition MTCPServer_loop :: "bool \<Rightarrow> MTCPServer \<Rightarrow> MTCPServer res" where
  "MTCPServer_loop deadline_ok serv =
     (if ms_loop serv \<noteq> Accepting then Inr serv
      else if ms_stopSyn serv then Inr (serv\<lparr>ms_running := False, ms_stopAck := True, ms_loop := Stopped\<rparr>)
      else if deadline_ok then Inr serv
      else bindR (MTCPServer_Close serv) (\<lambda>serv. Inr (serv\<lparr>ms_loop := WaitsForItself\<rparr>)))"

section \<open>The client\<close>

text \<open>\<open>mc_active\<close>: \<open>Activate\<close> has succeeded, so that there is a connection and a stop channel.\<close>

record MTCPClient =
  mc_address :: string
  mc_peer :: EndpointID
  mc_active :: bool
  mc_stopped :: bool
  mc_written :: bytes

definition NewMTCPClient :: "string \<Rightarrow> EndpointID \<Rightarrow> MTCPClient" where
  "NewMTCPClient address peer =
     \<lparr>mc_address = address, mc_peer = peer, mc_active = False, mc_stopped = False, mc_written = []\<rparr>"

definition NewAnonymousMTCPClient :: "string \<Rightarrow> MTCPClient" where
  "NewAnonymousMTCPClient address = NewMTCPClient address DtnNone"

text \<open>What the manager sees of a client: it implements the interface of a sender.\<close>

definition mtcp_cla :: "MTCPClient \<Rightarrow> Convergence" where
  "mtcp_cla client = \<lparr>cla_Address = mc_address client, cla_IsReceiver = False, cla_IsSender = True,
     cla_PeerEndpointID = mc_peer client\<rparr>"

text \<open>\<open>Activate\<close> and the start of the handler, which announces the peer: the endpoints announced.\<close>

definition MTCPClient_Activate :: "bool \<Rightarrow> MTCPClient \<Rightarrow> err list \<times> EndpointID list \<times> MTCPClient" where
  "MTCPClient_Activate dial_ok client =
     (if dial_ok then ([], [mc_peer client], client\<lparr>mc_active := True, mc_written := []\<rparr>)
      else ([Errorf ''dial failed''], [], client))"

definition fatal :: err where
  "fatal = Panic ''log.Fatalf: Attempting to access an uninitialised CLA manager''"

text \<open>\<open>Close\<close>, where the manager is absent after its shutdown.\<close>

definition MTCPClient_Close :: "MTCPClient \<Rightarrow> Manager option \<Rightarrow> unit res \<times> MTCPClient \<times> Manager option" where
  "MTCPClient_Close client manager =
     (if mc_stopped client then (Inr (), client, manager)
      else let client = client\<lparr>mc_stopped := True\<rparr> in
        (case manager of
           None \<Rightarrow> (Inl fatal, client, None)
         | Some m \<Rightarrow>
             (if mc_active client then Inr () else Inl (Panic ''close of nil channel''), client,
              Some (NotifyDisconnect (mtcp_cla client) m))))"

definition conn_write :: "nat option \<Rightarrow> bytes \<Rightarrow> MTCPClient \<Rightarrow> unit res \<times> MTCPClient" where
  "conn_write failure bs client =
     (case failure of
        None \<Rightarrow> (Inr (), client\<lparr>mc_written := mc_written client @ bs\<rparr>)
      | Some k \<Rightarrow> (Inl (Errorf ''write: broken pipe''), client\<lparr>mc_written := mc_written client @ take k bs\<rparr>))"

text \<open>The deferred function that closes the client after an error; ending the process is not recovered.\<close>

definition close_after :: "err \<Rightarrow> MTCPClient \<Rightarrow> Manager option \<Rightarrow> unit res \<times> MTCPClient \<times> Manager option" where
  "close_after e client manager =
     (case MTCPClient_Close client manager of
        (Inl p, client, manager) \<Rightarrow> (Inl (if p = fatal then p else e), client, manager)
      | (Inr _, client, manager) \<Rightarrow> (Inl e, client, manager))"

text \<open>
  \<open>Send\<close>. The deferred function that recovers from a panic runs after the one that closes the client on an
  error, which has not been set by then: a panic becomes an error, and the client stays open.
\<close>

definition MTCPClient_Send ::
    "cboring \<Rightarrow> nat option \<Rightarrow> nat option \<Rightarrow> Bundle \<Rightarrow> MTCPClient \<Rightarrow> Manager option \<Rightarrow> unit res \<times> MTCPClient \<times> Manager option" where
  "MTCPClient_Send L write probe bndl client manager =
     (case Bundle_MarshalCbor L bndl of
        Inl e \<Rightarrow> if is_panic e then (Inl (Wrapf ''MTCPClient.Send'' e), client, manager) else close_after e client manager
      | Inr (buff, _) \<Rightarrow>
          if \<not> mc_active client
          then (Inl (Wrapf ''MTCPClient.Send'' (Panic ''nil pointer dereference: conn'')), client, manager)
          else (case conn_write write (WriteByteStringLen L (of_nat (length buff)) @ buff) client of
            (Inl e, client) \<Rightarrow> close_after e client manager
          | (Inr _, client) \<Rightarrow> (case conn_write probe (WriteByteStringLen L 0) client of
              (Inl e, client) \<Rightarrow> close_after e client manager
            | (Inr _, client) \<Rightarrow> (Inr (), client, manager))))"

text \<open>A tick of the handler: the keepalive, and closing when it fails.\<close>

definition MTCPClient_keepalive ::
    "cboring \<Rightarrow> nat option \<Rightarrow> MTCPClient \<Rightarrow> Manager option \<Rightarrow> unit res \<times> MTCPClient \<times> Manager option" where
  "MTCPClient_keepalive L write client manager =
     (case conn_write write (WriteByteStringLen L 0) client of
        (Inl _, client) \<Rightarrow> MTCPClient_Close client manager
      | (Inr _, client) \<Rightarrow> (Inr (), client, manager))"

section \<open>The stream decoder\<close>

text \<open>It agrees with the decoder of whole buffers and gives back what follows.\<close>

lemma stream_blocks_forget:
  "map_option (map_sum id (\<lambda>(ebs, payload, _). (ebs, payload))) (stream_blocks n L ebm r ebs payload) =
   unmarshal_blocks n L ebm r ebs payload"
  by (induction n L ebm r ebs payload rule: stream_blocks.induct) (auto split: sum.split)

lemma Bundle_UnmarshalCbor_forget:
  assumes "Bundle_UnmarshalCbor L ebm now r = Some res"
  shows "map_sum id (\<lambda>(b, errs, _). (b, errs)) res = ParseBundle L ebm now r"
proof -
  have "map_option (map_sum id (\<lambda>(b, errs, _). (b, errs))) (Bundle_UnmarshalCbor L ebm now r) = Some (ParseBundle L ebm now r)"
    using assms unfolding Bundle_UnmarshalCbor_def ParseBundle_def stream_blocks_forget [symmetric]
    by (auto simp: bindR_def mapErr_def Let_def split: sum.split option.split simp del: stream_blocks.simps)
  then show ?thesis using assms by simp
qed

context cboring_lib
begin

lemma stream_blocks_read:
  assumes "\<forall>cb \<in> set cbs. wf_canonical ebm cb \<and> TypeCode cb \<noteq> BlockTypePayloadBlock" "marshal_blocks L cbs = Inr (bs, cbs')"
  shows "stream_blocks (length cbs + n) L ebm (bs @ r) ebs p = stream_blocks n L ebm r (ebs @ cbs') p"
  using assms
proof (induction cbs arbitrary: bs cbs' ebs)
  case (Cons cb cbs)
  obtain b cb' bs1 cbs1 where m: "CanonicalBlock_MarshalCbor L cb = Inr (b, cb')" "marshal_blocks L cbs = Inr (bs1, cbs1)"
    "bs = b @ bs1" "cbs' = cb' # cbs1" using Cons.prems(2) by (auto simp: bindR_Inr_iff)
  have "CanonicalBlock_UnmarshalCbor L ebm (b @ x) = Inr (cb', x)" for x
    using CanonicalBlock_roundtrip Cons.prems(1) m(1) by (metis list.set_intros(1) prod.inject sum.inject(2))
  moreover have "TypeCode cb' \<noteq> BlockTypePayloadBlock"
    using CanonicalBlock_MarshalCbor_frame [OF m(1)] Cons.prems(1) by (metis TypeCode_CRC list.set_intros(1))
  ultimately show ?case using Cons.IH [OF _ m(2)] Cons.prems(1) by (simp add: m(3,4))
qed simp

lemma break_rest_block: "break_rest L (BreakCode L # r) = r"
  by (simp add: break_rest_def read_break)

lemma Bundle_UnmarshalCbor_stream:
  assumes wf: "wf_bundle ebm b" and m: "Bundle_MarshalCbor L b = Inr (bs, b')"
  shows "Bundle_UnmarshalCbor L ebm now (bs @ r) = Some (bindR (Bundle_CheckValid now b) (\<lambda>errs. Inr (b', errs, r)))"
proof -
  obtain pl where pl: "bndl_PayloadBlock b = Some pl" "wf_canonical ebm pl" "TypeCode pl = BlockTypePayloadBlock"
    using wf by (auto simp: wf_bundle_def)
  obtain p pb' e ebs' d pl' where parts: "PrimaryBlock_MarshalCbor L (bndl_PrimaryBlock b) = Inr (p, pb')"
    "marshal_blocks L (bndl_ExtensionBlocks b) = Inr (e, ebs')" "CanonicalBlock_MarshalCbor L pl = Inr (d, pl')"
    "bs = [IndefiniteArray L] @ p @ e @ d @ [BreakCode L]"
    "b' = \<lparr>bndl_PrimaryBlock = pb', bndl_ExtensionBlocks = ebs', bndl_PayloadBlock = Some pl'\<rparr>"
    using m by (auto simp: Bundle_MarshalCbor_def bindR_Inr_iff pl(1))
  have prim: "PrimaryBlock_UnmarshalCbor L (p @ x) = Inr (pb', x)" for x
    using PrimaryBlock_roundtrip wf parts(1) unfolding wf_bundle_def by (metis prod.inject sum.inject(2))
  have pay: "CanonicalBlock_UnmarshalCbor L ebm (d @ x) = Inr (pl', x)" for x
    using CanonicalBlock_roundtrip pl(2) parts(3) by (metis prod.inject sum.inject(2))
  have code: "TypeCode pl' = BlockTypePayloadBlock" using CanonicalBlock_MarshalCbor_frame [OF parts(3)] pl(3) by (metis TypeCode_CRC)
  have ext: "\<forall>cb \<in> set (bndl_ExtensionBlocks b). wf_canonical ebm cb \<and> TypeCode cb \<noteq> BlockTypePayloadBlock"
    using wf by (simp add: wf_bundle_def)
  let ?r = "e @ d @ [BreakCode L] @ r"
  have "length (bndl_ExtensionBlocks b) \<le> length e" using marshal_blocks_length [OF _ parts(2)] ext by blast
  then have "length (bndl_ExtensionBlocks b) + 2 \<le> Suc (length ?r)" unfolding length_append list.size by linarith
  then obtain n where n: "Suc (length ?r) = length (bndl_ExtensionBlocks b) + Suc (Suc n)"
    by (metis add_2_eq_Suc' add_Suc_right le_Suc_ex add.assoc add_Suc)
  have "stream_blocks (length (bndl_ExtensionBlocks b) + Suc (Suc n)) L ebm ?r [] None = Some (Inr (ebs', Some pl', r))"
    using stream_blocks_read [OF ext parts(2), of "Suc (Suc n)" "d @ [BreakCode L] @ r" "[]" None] pay code unmarshal_break [of ebm r]
    by (simp add: break_rest_block)
  then have loop: "stream_blocks (Suc (length ?r)) L ebm ?r [] None = Some (Inr (ebs', Some pl', r))" by (simp only: n)
  have strip: "strip_crc b' = strip_crc b" using Bundle_roundtrip [OF wf] m by (metis prod.inject sum.inject(2))
  have "Bundle_UnmarshalCbor L ebm now (bs @ r) = Some (bindR (Bundle_CheckValid now b') (\<lambda>errs. Inr (b', errs, r)))"
    unfolding Bundle_UnmarshalCbor_def parts(4,5) append_assoc
    by (simp only: append.simps cbor bindR_simps prim mapErr_simps prod.case sum.case loop [simplified append.simps] Let_def option.map)
  then show ?thesis using Bundle_CheckValid_crc [OF strip] by simp
qed

lemma break_fields_le: "length (break_fields k L r) \<le> length r"
proof (induction k arbitrary: r)
  case 0
  show ?case by (auto split: sum.split dest!: bs_progress)
next
  case (Suc k)
  have "length (break_fields k L r') \<le> length r" if "ReadUInt L r = Inr (n, r')" for n r'
    using Suc.IH [of r'] uint_progress [OF that] by simp
  then show ?case by (auto split: sum.split)
qed

lemma break_rest_le: "length (break_rest L r) \<le> length r"
proof -
  have "length (break_fields 4 L r') \<le> length r" if "ReadArrayLength L r = Inr (n, r')" for n r'
    using break_fields_le [of 4 r'] array_progress [OF that] by simp
  then show ?thesis by (auto simp: break_rest_def split: sum.split)
qed

lemma stream_blocks_rest: "stream_blocks n L ebm r ebs p = Some (Inr (ebs', p', rest)) \<Longrightarrow> length rest \<le> length r"
proof (induction n arbitrary: r ebs p)
  case (Suc n)
  show ?case
  proof (cases "CanonicalBlock_UnmarshalCbor L ebm r")
    case (Inl e)
    then show ?thesis using Suc.prems break_rest_le by (auto split: if_splits)
  next
    case (Inr x)
    obtain cb r' where x: "x = (cb, r')" by (cases x)
    have "length rest \<le> length r'" using Suc.prems Inr x by (auto split: if_splits intro: Suc.IH)
    then show ?thesis using CanonicalBlock_progress [of ebm r cb r'] Inr x by simp
  qed
qed simp

text \<open>Every decoded block consumes input, so the decoder returns on every input.\<close>

lemma Bundle_UnmarshalCbor_ends: "\<exists>res. Bundle_UnmarshalCbor L ebm now r = Some res"
proof -
  have "\<exists>res. stream_blocks (Suc (length x)) L ebm x [] None = Some res" for x
    using unmarshal_blocks_enough [of x "Suc (length x)" ebm "[]" None]
    unfolding stream_blocks_forget [symmetric] by (auto simp del: stream_blocks.simps)
  then show ?thesis unfolding Bundle_UnmarshalCbor_def
    by (auto split: sum.split prod.split simp del: stream_blocks.simps)
qed

lemma Bundle_UnmarshalCbor_rest:
  assumes "Bundle_UnmarshalCbor L ebm now r = Some (Inr (b, errs, rest))"
  shows "length rest < length r"
proof -
  obtain r1 pb r2 ebs p where *: "ReadExpect L (IndefiniteArray L) r = Inr r1" "PrimaryBlock_UnmarshalCbor L r1 = Inr (pb, r2)"
    "stream_blocks (Suc (length r2)) L ebm r2 [] None = Some (Inr (ebs, p, rest))"
    using assms unfolding Bundle_UnmarshalCbor_def
    by (auto simp: bindR_Inr_iff Let_def split: sum.splits simp del: stream_blocks.simps)
  show ?thesis using expect_progress [OF *(1)] PrimaryBlock_progress [OF *(2)] stream_blocks_rest [OF *(3)] by linarith
qed

text \<open>One round per byte is enough: every round reads the length of a byte string.\<close>

lemma handleSender_enough:
  "length r < n \<Longrightarrow> handleSender_loop n L ebm clock k r = handleSender_loop (Suc (length r)) L ebm clock k r \<and>
     handleSender_loop n L ebm clock k r \<noteq> None"
proof (induction "length r" arbitrary: n k r rule: less_induct)
  case less
  obtain m where n: "n = Suc m" "length r \<le> m" using less.prems by (cases n) auto
  show ?case
  proof (cases "ReadByteStringLen L r")
    case (Inl e)
    then show ?thesis by (simp add: n(1))
  next
    case (Inr x)
    obtain len r1 where x: "x = (len, r1)" by (cases x)
    have lt: "length r1 < length r" using bslen_progress Inr x by blast
    have IH: "\<exists>y. handleSender_loop j L ebm clock k' r' = Some y \<and> handleSender_loop (length r) L ebm clock k' r' = Some y"
      if "length r' \<le> length r1" "length r \<le> j" for j k' r'
      using less.hyps [of r' j k'] less.hyps [of r' "length r" k'] that lt by (simp del: handleSender_loop.simps) metis
    have "\<exists>y. handleSender_loop (Suc j) L ebm clock k r = Some y \<and> handleSender_loop (Suc (length r)) L ebm clock k r = Some y"
      if "length r \<le> j" for j
    proof (cases "len = 0 \<or> (\<exists>e. Bundle_UnmarshalCbor L ebm (clock k) r1 = Some (Inl e))")
      case True
      then show ?thesis using Inr x IH [of r1 j k] that by auto
    next
      case False
      then obtain b errs r2 where u: "len \<noteq> 0" "Bundle_UnmarshalCbor L ebm (clock k) r1 = Some (Inr (b, errs, r2))"
        using Bundle_UnmarshalCbor_ends [of ebm "clock k" r1] by (metis sum.exhaust prod_cases3)
      then show ?thesis using Inr x IH [of r2 j "Suc k"] that Bundle_UnmarshalCbor_rest [OF u(2)] by auto
    qed
    from this [OF n(2)] show ?thesis unfolding n(1) by (metis option.distinct(1))
  qed
qed

text \<open>A frame and a keepalive.\<close>

lemma handleSender_keepalive:
  "handleSender_loop (Suc n) L ebm clock k (WriteByteStringLen L 0 @ r) = handleSender_loop n L ebm clock k r"
  by (simp add: read_bslen)

lemma handleSender_frame:
  assumes "wf_bundle ebm b" "Bundle_MarshalCbor L b = Inr (bs, b')" "length bs < 2 ^ 64" "Bundle_CheckValid (clock k) b = Inr []"
  shows "handleSender_loop (Suc n) L ebm clock k (WriteByteStringLen L (of_nat (length bs)) @ bs @ r) =
    map_option (\<lambda>(bs, e). (b' # bs, e)) (handleSender_loop n L ebm clock (Suc k) r)"
proof -
  have "bs \<noteq> []" using assms(2) by (auto simp: Bundle_MarshalCbor_def bindR_Inr_iff split: option.splits)
  then have "(of_nat (length bs) :: u64) \<noteq> 0" using assms(3) unat_length by (metis length_0_conv unat_0)
  then show ?thesis using Bundle_UnmarshalCbor_stream [OF assms(1,2)] assms(4) by (simp add: read_bslen)
qed

end

section \<open>Transfer\<close>

text \<open>What a client does with a connection, in order; every write succeeds.\<close>

datatype client_action = DoSend Bundle | DoKeepalive

fun client_act :: "cboring \<Rightarrow> client_action \<Rightarrow> MTCPClient \<times> Manager option \<Rightarrow> MTCPClient \<times> Manager option" where
  "client_act L (DoSend b) (client, manager) = snd (MTCPClient_Send L None None b client manager)"
| "client_act L DoKeepalive (client, manager) = snd (MTCPClient_keepalive L None client manager)"

fun sent :: "client_action list \<Rightarrow> Bundle list" where
  "sent [] = []"
| "sent (DoSend b # acts) = b # sent acts"
| "sent (DoKeepalive # acts) = sent acts"

fun action_bytes :: "cboring \<Rightarrow> client_action \<Rightarrow> bytes" where
  "action_bytes L (DoSend b) = (case Bundle_MarshalCbor L b of Inl _ \<Rightarrow> [] | Inr (bs, _) \<Rightarrow>
     WriteByteStringLen L (of_nat (length bs)) @ bs @ WriteByteStringLen L 0)"
| "action_bytes L DoKeepalive = WriteByteStringLen L 0"

text \<open>A bundle that can be sent: well-formed, of a size that fits the length field, and valid on arrival.\<close>

definition sendable :: "cboring \<Rightarrow> ExtensionBlockManager \<Rightarrow> (nat \<Rightarrow> time) \<Rightarrow> Bundle \<Rightarrow> bool" where
  "sendable L ebm clock b \<longleftrightarrow> wf_bundle ebm b \<and> (\<forall>k. Bundle_CheckValid (clock k) b = Inr []) \<and>
     (\<forall>bs b'. Bundle_MarshalCbor L b = Inr (bs, b') \<longrightarrow> length bs < 2 ^ 64)"

lemma client_acts_write:
  assumes "mc_active client" "\<forall>b \<in> set (sent acts). \<exists>x. Bundle_MarshalCbor L b = Inr x"
  shows "fold (client_act L) acts (client, manager) =
    (client\<lparr>mc_written := mc_written client @ concat (map (action_bytes L) acts)\<rparr>, manager)"
  using assms
proof (induction acts arbitrary: client rule: sent.induct)
  case (2 b acts)
  obtain bs b' where "Bundle_MarshalCbor L b = Inr (bs, b')" using "2.prems"(2) by force
  then show ?case using 2 by (simp add: MTCPClient_Send_def conn_write_def)
next
  case (3 acts)
  then show ?case by (simp add: MTCPClient_keepalive_def conn_write_def)
qed simp

context cboring_lib
begin

lemma handleSender_actions:
  assumes "\<forall>b \<in> set (sent acts). sendable L ebm clock b" "2 * length acts < n"
  shows "\<exists>bs e. handleSender_loop n L ebm clock k (concat (map (action_bytes L) acts)) = Some (bs, e) \<and>
    map strip_crc bs = map strip_crc (sent acts)"
  using assms
proof (induction acts arbitrary: n k rule: sent.induct)
  case 1
  then obtain m where "n = Suc m" by (cases n) auto
  moreover have "\<exists>e. ReadByteStringLen L [] = Inl e" using bslen_progress [of "[]"] by (cases "ReadByteStringLen L []") auto
  ultimately show ?case by auto
next
  case (2 b acts)
  obtain m where n: "n = Suc (Suc m)" "2 * length acts < m" using "2.prems"(2) by (cases n; cases "n - 1") auto
  have b: "sendable L ebm clock b" using "2.prems"(1) by simp
  then obtain bs b' where m: "Bundle_MarshalCbor L b = Inr (bs, b')" "strip_crc b' = strip_crc b"
    using Bundle_roundtrip [of ebm b] unfolding sendable_def by blast
  have frame: "handleSender_loop n L ebm clock k (concat (map (action_bytes L) (DoSend b # acts))) =
      map_option (\<lambda>(bs, e). (b' # bs, e)) (handleSender_loop m L ebm clock (Suc k) (concat (map (action_bytes L) acts)))"
    using b m(1) handleSender_frame [of ebm b bs b' clock k "Suc m"]
    by (simp add: n(1) sendable_def handleSender_keepalive del: handleSender_loop.simps)
  obtain bs1 e where "handleSender_loop m L ebm clock (Suc k) (concat (map (action_bytes L) acts)) = Some (bs1, e)"
    "map strip_crc bs1 = map strip_crc (sent acts)" using "2.IH" [of m "Suc k"] "2.prems"(1) n(2) by auto
  then show ?case unfolding frame using m(2) by simp
next
  case (3 acts)
  obtain m where n: "n = Suc m" "2 * length acts < m" using "3.prems"(2) by (cases n) auto
  then show ?case using "3.IH" [of m k] "3.prems"(1) by (simp add: handleSender_keepalive del: handleSender_loop.simps)
qed

text \<open>One bundle over a fresh connection: the server gets the bundle as serialising left it.\<close>

lemma mtcp_single:
  assumes "mc_active client" "mc_written client = []" "sendable L ebm clock b"
  shows "\<exists>client' bs b' e. MTCPClient_Send L None None b client mgr = (Inr (), client', mgr) \<and>
    Bundle_MarshalCbor L b = Inr (bs, b') \<and> strip_crc b' = strip_crc b \<and>
    handleSender L ebm clock (mc_written client') = Some ([b'], e)"
proof -
  obtain bs b' where m: "Bundle_MarshalCbor L b = Inr (bs, b')" "strip_crc b' = strip_crc b"
    using Bundle_roundtrip [of ebm b] assms(3) unfolding sendable_def by blast
  let ?r = "WriteByteStringLen L (of_nat (length bs)) @ bs @ WriteByteStringLen L 0"
  have "1 \<le> length (WriteByteStringLen L (of_nat (length bs)))" "length (WriteByteStringLen L 0) = 1"
    using size_bslen_mono [of 0 "of_nat (length bs)"] size_bslen_zero by simp_all
  then have "2 \<le> length ?r" by simp
  then obtain n where "length ?r = 2 + n" using le_Suc_ex by blast
  then have n: "length ?r = Suc (Suc n)" by linarith
  obtain e where e: "ReadByteStringLen L [] = Inl e" using bslen_progress [of "[]"] by (cases "ReadByteStringLen L []") auto
  have "handleSender_loop (Suc (Suc n)) L ebm clock (Suc 0) (WriteByteStringLen L 0) = Some ([], e)"
    using handleSender_keepalive [of "Suc n" ebm clock "Suc 0" "[]"] e by simp
  moreover have "handleSender_loop (Suc (length ?r)) L ebm clock 0 ?r =
      map_option (\<lambda>(bs, e). (b' # bs, e)) (handleSender_loop (Suc (Suc n)) L ebm clock (Suc 0) (WriteByteStringLen L 0))"
    unfolding n by (rule handleSender_frame) (use assms(3) m(1) in \<open>auto simp: sendable_def\<close>)
  ultimately have "handleSender L ebm clock ?r = Some ([b'], e)" unfolding handleSender_def by (simp del: handleSender_loop.simps)
  then show ?thesis using m assms(1,2) by (simp add: MTCPClient_Send_def conn_write_def)
qed

lemma transfer:
  assumes "mc_active client" "mc_written client = []" "\<forall>b \<in> set (sent acts). sendable L ebm clock b"
  shows "\<exists>client' bs e. fold (client_act L) acts (client, manager) = (client', manager) \<and> mc_stopped client' = mc_stopped client \<and>
    handleSender L ebm clock (mc_written client') = Some (bs, e) \<and> map strip_crc bs = map strip_crc (sent acts)"
proof -
  let ?r = "concat (map (action_bytes L) acts)"
  have "\<forall>b \<in> set (sent acts). \<exists>x. Bundle_MarshalCbor L b = Inr x"
    using assms(3) Bundle_roundtrip unfolding sendable_def by metis
  note w = client_acts_write [OF assms(1) this, of manager, unfolded assms(2)]
  let ?n = "Suc (length ?r + 2 * length acts)"
  obtain bs e where b: "handleSender_loop ?n L ebm clock 0 ?r = Some (bs, e)" "map strip_crc bs = map strip_crc (sent acts)"
    using handleSender_actions [OF assms(3), of ?n 0] by auto
  have "handleSender_loop ?n L ebm clock 0 ?r = handleSender L ebm clock ?r"
    using handleSender_enough [of ?r ?n] unfolding handleSender_def by (simp del: handleSender_loop.simps)
  then show ?thesis using w b by simp
qed

end

section \<open>Correctness\<close>

text \<open>
  C6. What a client sends over a connection arrives: for any sequence of bundles with keepalives in
  between, the server passes exactly these bundles to its callback, in order and unchanged up to the
  checksums that serialising fills in. The bundles are well-formed, valid at both ends, and their size fits
  the length field.
\<close>

theorem mtcp_transfer:
  assumes "cboring_lib L" "mc_active client" "mc_written client = []" "\<forall>b \<in> set (sent acts). sendable L ebm clock b"
  shows "\<exists>client' bs e. fold (client_act L) acts (client, manager) = (client', manager) \<and> mc_stopped client' = mc_stopped client \<and>
    handleSender L ebm clock (mc_written client') = Some (bs, e) \<and> map strip_crc bs = map strip_crc (sent acts)"
  using cboring_lib.transfer [OF assms] .

lemma example_sendable: "sendable rfc8949 GetExtensionBlockManager (\<lambda>_. 0) example_bundle"
proof -
  have "(case Bundle_MarshalCbor rfc8949 example_bundle of Inr (bs, _) \<Rightarrow> length bs < 100 | _ \<Rightarrow> False)" by code_simp
  then show ?thesis using example_bundle_wf example_bundle_valid by (auto simp: sendable_def)
qed

theorem mtcp_transfer_witness:
  "\<exists>client bs e. fold (client_act rfc8949) [DoKeepalive, DoSend example_bundle, DoSend example_bundle]
       (snd (snd (MTCPClient_Activate True (NewMTCPClient ''10.0.0.1:4556'' DtnNone))), None) = (client, None) \<and>
     handleSender rfc8949 GetExtensionBlockManager (\<lambda>_. 0) (mc_written client) = Some (bs, e) \<and>
     map strip_crc bs = [strip_crc example_bundle, strip_crc example_bundle]"
  using mtcp_transfer [OF rfc.cboring_lib_axioms, of "snd (snd (MTCPClient_Activate True (NewMTCPClient ''10.0.0.1:4556'' DtnNone)))"
      "[DoKeepalive, DoSend example_bundle, DoSend example_bundle]" GetExtensionBlockManager "\<lambda>_. 0" None] example_sendable
  by (auto simp: MTCPClient_Activate_def NewMTCPClient_def)

lemma Bundle_UnmarshalCbor_valid: "Bundle_UnmarshalCbor L ebm now r = Some (Inr (b, [], r')) \<Longrightarrow> Bundle_CheckValid now b = Inr []"
  by (auto simp: Bundle_UnmarshalCbor_def bindR_Inr_iff Let_def split: sum.splits simp del: stream_blocks.simps)

lemma handleSender_valid:
  "handleSender_loop n L ebm clock k r = Some (bs, e) \<Longrightarrow> b \<in> set bs \<Longrightarrow> \<exists>k. Bundle_CheckValid (clock k) b = Inr []"
proof (induction n L ebm clock k r arbitrary: bs rule: handleSender_loop.induct)
  case (2 n L ebm clock k r)
  obtain len r1 where len: "ReadByteStringLen L r = Inr (len, r1)"
    using "2.prems" by (cases "ReadByteStringLen L r") auto
  show ?case
  proof (cases "len = 0")
    case True
    then show ?thesis using "2.IH"(1) [OF len] "2.prems" len by auto
  next
    case False
    obtain b' r2 where u: "Bundle_UnmarshalCbor L ebm (clock k) r1 = Some (Inr (b', [], r2))"
      using "2.prems" len False by (auto split: option.splits sum.splits if_splits)
    then obtain bs' where "bs = b' # bs'" "handleSender_loop n L ebm clock (Suc k) r2 = Some (bs', e)"
      using "2.prems"(1) len False by auto
    then show ?thesis using "2.IH"(2) [OF len _ _ u] False "2.prems"(2) Bundle_UnmarshalCbor_valid [OF u] by auto
  qed
qed simp

text \<open>
  C33. The server loop ends on every input and cannot end the daemon: whatever bytes arrive, the decoder of a
  bundle returns (every block it decodes consumes input), the loop around it ends at the end of the input or
  before, the bundles it delivers have passed the validity check, and everything else, panics of the decoder
  included, only closes the connection. A decoder that does not return would make \<open>handleSender\<close> \<open>None\<close>.
\<close>

theorem handleSender_total:
  assumes "cboring_lib L"
  shows "\<exists>bs e. handleSender L ebm clock r = Some (bs, e) \<and> (\<forall>b \<in> set bs. \<exists>k. Bundle_CheckValid (clock k) b = Inr []) \<and>
    (\<forall>now. \<exists>res. Bundle_UnmarshalCbor L ebm now r = Some res)"
proof -
  obtain bs e where *: "handleSender L ebm clock r = Some (bs, e)"
    using cboring_lib.handleSender_enough [OF assms, of r "Suc (length r)" ebm clock 0] unfolding handleSender_def by fast
  then show ?thesis
    using handleSender_valid [of "Suc (length r)" L ebm clock 0 r bs e] cboring_lib.Bundle_UnmarshalCbor_ends [OF assms]
    unfolding handleSender_def by blast
qed

theorem handleSender_total_witness:
  "\<exists>bs e. handleSender rfc8949 GetExtensionBlockManager (\<lambda>_. 0) [64, 65, 255] = Some (bs, e) \<and>
     (\<forall>b \<in> set bs. Bundle_CheckValid 0 b = Inr []) \<and>
     (\<forall>now. \<exists>res. Bundle_UnmarshalCbor rfc8949 GetExtensionBlockManager now [64, 65, 255] = Some res)"
  using handleSender_total [OF rfc.cboring_lib_axioms, of GetExtensionBlockManager "\<lambda>_. 0" "[64, 65, 255]"] by simp

text \<open>
  A failed write closes the client: the manager is told once, whatever happens later.
\<close>

lemma MTCPClient_failure_disconnects:
  assumes "mc_active client" "\<not> mc_stopped client" "Bundle_MarshalCbor L b = Inr x" "write = Some k \<or> (write = None \<and> probe = Some k)"
    "MTCPClient_Send L write probe b client (Some m) = (res, client', m')"
  shows "(\<exists>e. res = Inl e) \<and> mc_stopped client' \<and> m' = Some (NotifyDisconnect (mtcp_cla client) m) \<and>
    MTCPClient_Close client' m' = (Inr (), client', m')"
  using assms by (cases x) (auto simp: MTCPClient_Send_def conn_write_def close_after_def MTCPClient_Close_def mtcp_cla_def)

text \<open>
  Shutting down with a connected client ends the process at once: the manager is gone before its
  senders are closed, and closing asks for it.
\<close>

lemma MTCPClient_shutdown_fatal:
  assumes "\<not> mc_stopped client"
  shows "fst (MTCPClient_Close client None) = Inl fatal"
  using assms by (simp add: MTCPClient_Close_def)

text \<open>
  A panic while sending is reported as an error, but unlike every other error it leaves the client
  open, and the manager is not told.
\<close>

lemma MTCPClient_panic_stays_open:
  assumes "bndl_PayloadBlock b = None" "Bundle_MarshalCbor L b = Inl e" "is_panic e"
  shows "\<exists>e'. MTCPClient_Send L write probe b client m = (Inl e', client, m)"
  using assms by (simp add: MTCPClient_Send_def)

section \<open>Closing a server\<close>

text \<open>Closing a started server ends its loop and returns; a second call panics.\<close>

lemma MTCPServer_Close_stops:
  assumes "MTCPServer_Start (Inr ()) (NewMTCPServer addr eid) = Inr serv"
  shows "\<exists>closed stopped. MTCPServer_Close serv = Inr closed \<and> MTCPServer_loop ok closed = Inr stopped \<and>
    ms_stopAck stopped \<and> \<not> ms_running stopped \<and> ms_loop stopped = Stopped \<and>
    (\<exists>msg. MTCPServer_Close closed = Inl (Panic msg)) \<and> (\<exists>msg. MTCPServer_Close stopped = Inl (Panic msg))"
  using assms by (auto simp: MTCPServer_Start_def NewMTCPServer_def MTCPServer_Close_def MTCPServer_loop_def)

text \<open>
  A deadline that cannot be set makes the loop close the server and wait for its own acknowledgement: it
  never runs again, the server stays marked as running, and closing it panics.
\<close>

lemma MTCPServer_deadline_deadlock:
  assumes "MTCPServer_Start (Inr ()) (NewMTCPServer addr eid) = Inr serv"
  shows "\<exists>s. MTCPServer_loop False serv = Inr s \<and> ms_running s \<and> \<not> ms_stopAck s \<and>
    (\<forall>ok. MTCPServer_loop ok s = Inr s) \<and> (\<exists>msg. MTCPServer_Close s = Inl (Panic msg))"
  using assms by (auto simp: MTCPServer_Start_def NewMTCPServer_def MTCPServer_Close_def MTCPServer_loop_def)

end
