(* ===== verification/Dummy_Cla.thy ===== *)
theory Dummy_Cla
  imports Mtcp "HOL-Library.Multiset"
begin

text \<open>
  The dummy convergence layer (\<open>pkg/cla/dummy_cla/dummy_cla.go\<close> and \<open>dummy_listener.go\<close>), which other
  components use in place of a network. Both ends of a pair share one unbuffered channel. Goroutines
  are interleaved by a step relation: a sender that has passed the check of \<open>Send\<close> offers its message on
  the channel until a receiving goroutine of either end takes it at one of the times of the run; sending on a closed channel and closing
  a channel twice panic, which ends the program.
\<close>

section \<open>Ends of a pair\<close>

text \<open>\<open>dc_transferChannel\<close>: a channel was made; without one the field is the nil channel.\<close>

record DummyCLA =
  dc_ownID :: EndpointID
  dc_peerID :: EndpointID
  dc_transferChannel :: bool
  dc_channelActive :: bool

definition NewSuperDummyCLA :: "EndpointID \<Rightarrow> DummyCLA" where
  "NewSuperDummyCLA peerID = \<lparr>dc_ownID = None, dc_peerID = peerID, dc_transferChannel = False, dc_channelActive = False\<rparr>"

definition NewDummyCLAPair :: "EndpointID \<Rightarrow> EndpointID \<Rightarrow> DummyCLA \<times> DummyCLA" where
  "NewDummyCLAPair peerAID peerBID =
     (\<lparr>dc_ownID = peerAID, dc_peerID = peerBID, dc_transferChannel = True, dc_channelActive = False\<rparr>,
      \<lparr>dc_ownID = peerBID, dc_peerID = peerAID, dc_transferChannel = True, dc_channelActive = False\<rparr>)"

definition DummyCLA_Address :: "DummyCLA \<Rightarrow> string" where
  "DummyCLA_Address cla = ''dummycla://'' @ EndpointID_String (dc_ownID cla) @ ''/''"

definition dummy_cla :: "DummyCLA \<Rightarrow> Convergence" where
  "dummy_cla cla = \<lparr>cla_Address = DummyCLA_Address cla, cla_IsReceiver = True, cla_IsSender = True,
     cla_PeerEndpointID = dc_peerID cla\<rparr>"

definition DummyCLA_Activate :: "DummyCLA \<Rightarrow> DummyCLA" where
  "DummyCLA_Activate cla = cla\<lparr>dc_channelActive := True\<rparr>"

text \<open>\<open>Close\<close>, given whether the shared channel is closed, and returning whether it is closed afterwards.\<close>

definition DummyCLA_Close :: "bool \<Rightarrow> DummyCLA \<Rightarrow> (bool \<times> DummyCLA) res" where
  "DummyCLA_Close closed cla =
     (if \<not> dc_channelActive cla then Inr (closed, cla\<lparr>dc_channelActive := False\<rparr>)
      else if \<not> dc_transferChannel cla then Inl (Panic ''close of nil channel'')
      else if closed then Inl (Panic ''close of closed channel'')
      else Inr (True, cla\<lparr>dc_channelActive := False\<rparr>))"

text \<open>\<open>Send\<close> up to the channel: the message it is about to put there, and the bundle after serialising.\<close>

definition DummyCLA_Send :: "cboring \<Rightarrow> Bundle \<Rightarrow> DummyCLA \<Rightarrow> (bytes \<times> Bundle) res" where
  "DummyCLA_Send L bundle cla =
     bindR (Bundle_MarshalCbor L bundle) (\<lambda>(bbytes, bundle).
     if \<not> dc_channelActive cla then Inl (Errorf (DummyCLA_Address cla @ '' shut down'')) else Inr (bbytes, bundle))"

text \<open>
  A round of \<open>handleReceive\<close> on a received message: the bundle the callback gets. Its error, as the
  decoder's, is only logged; a panic of the decoder is not recovered.
\<close>

definition DummyCLA_handleReceive :: "cboring \<Rightarrow> ExtensionBlockManager \<Rightarrow> time \<Rightarrow> bytes \<Rightarrow> Bundle option res" where
  "DummyCLA_handleReceive L ebm now bbytes =
     (case Bundle_UnmarshalCbor L ebm now bbytes of
        None \<Rightarrow> Inl Diverges
      | Some (Inl e) \<Rightarrow> if is_panic e then Inl e else Inr None
      | Some (Inr (bundle, errs, _)) \<Rightarrow> Inr (if errs = [] then Some bundle else None))"

record DummyListener =
  dl_address :: string
  dl_running :: bool

definition NewDummyListener :: "string \<Rightarrow> DummyListener" where
  "NewDummyListener address = \<lparr>dl_address = address, dl_running = False\<rparr>"

definition DummyListener_Start :: "DummyListener \<Rightarrow> DummyListener" where
  "DummyListener_Start listener = listener\<lparr>dl_running := True\<rparr>"

definition DummyListener_Close :: "DummyListener \<Rightarrow> DummyListener" where
  "DummyListener_Close listener = listener"

section \<open>A pair at work\<close>

text \<open>
  Both ends, the channel, how many goroutines of an end wait in \<open>handleReceive\<close>, the messages offered on
  the channel with the end that sends them, and the history of what was sent and received.
\<close>

datatype peer = PeerA | PeerB

record dummy_net =
  dn_cla :: "peer \<Rightarrow> DummyCLA"
  dn_closed :: bool
  dn_receivers :: "peer \<Rightarrow> nat"
  dn_offers :: "(peer \<times> bytes) list"
  dn_sent :: "(peer \<times> Bundle) list"
  dn_received :: "(peer \<times> Bundle) list"

definition fresh_net :: "EndpointID \<Rightarrow> EndpointID \<Rightarrow> dummy_net" where
  "fresh_net a b = (case NewDummyCLAPair a b of (claA, claB) \<Rightarrow>
     \<lparr>dn_cla = (\<lambda>p. case p of PeerA \<Rightarrow> claA | PeerB \<Rightarrow> claB), dn_closed = False, dn_receivers = (\<lambda>_. 0), dn_offers = [],
      dn_sent = [], dn_received = []\<rparr>)"

definition set_cla :: "peer \<Rightarrow> DummyCLA \<Rightarrow> dummy_net \<Rightarrow> dummy_net" where
  "set_cla p cla n = n\<lparr>dn_cla := (dn_cla n)(p := cla)\<rparr>"

inductive dummy_step :: "cboring \<Rightarrow> ExtensionBlockManager \<Rightarrow> time set \<Rightarrow> dummy_net \<Rightarrow> err + dummy_net \<Rightarrow> bool" for L ebm at where
  activate: "dummy_step L ebm at n
    (Inr (set_cla p (DummyCLA_Activate (dn_cla n p)) (n\<lparr>dn_receivers := (dn_receivers n)(p := Suc (dn_receivers n p))\<rparr>)))"
| send: "DummyCLA_Send L b (dn_cla n p) = Inr (bs, b') \<Longrightarrow>
    dummy_step L ebm at n (Inr (n\<lparr>dn_offers := dn_offers n @ [(p, bs)], dn_sent := dn_sent n @ [(p, b)]\<rparr>))"
| send_fails: "DummyCLA_Send L b (dn_cla n p) = Inl e \<Longrightarrow> dummy_step L ebm at n (if is_panic e then Inl e else Inr n)"
| transfer: "dn_offers n = xs @ (p, bs) # ys \<Longrightarrow> \<not> dn_closed n \<Longrightarrow> 0 < dn_receivers n q \<Longrightarrow>
    now \<in> at \<Longrightarrow> DummyCLA_handleReceive L ebm now bs = Inr r \<Longrightarrow>
    dummy_step L ebm at n (Inr (n\<lparr>dn_offers := xs @ ys,
      dn_received := dn_received n @ (case r of None \<Rightarrow> [] | Some b \<Rightarrow> [(q, b)])\<rparr>))"
| transfer_panics: "dn_offers n = xs @ (p, bs) # ys \<Longrightarrow> \<not> dn_closed n \<Longrightarrow> 0 < dn_receivers n q \<Longrightarrow>
    now \<in> at \<Longrightarrow> DummyCLA_handleReceive L ebm now bs = Inl e \<Longrightarrow> dummy_step L ebm at n (Inl e)"
| offer_panics: "dn_offers n \<noteq> [] \<Longrightarrow> dn_closed n \<Longrightarrow> dummy_step L ebm at n (Inl (Panic ''send on closed channel''))"
| closes: "DummyCLA_Close (dn_closed n) (dn_cla n p) = Inr (c, cla) \<Longrightarrow>
    dummy_step L ebm at n (Inr (set_cla p cla (n\<lparr>dn_closed := c\<rparr>)))"
| close_panics: "DummyCLA_Close (dn_closed n) (dn_cla n p) = Inl e \<Longrightarrow> dummy_step L ebm at n (Inl e)"
| receiver_ends: "dn_closed n \<Longrightarrow> 0 < dn_receivers n p \<Longrightarrow>
    dummy_step L ebm at n (Inr (n\<lparr>dn_receivers := (dn_receivers n)(p := dn_receivers n p - 1)\<rparr>))"

inductive dummy_reach :: "cboring \<Rightarrow> ExtensionBlockManager \<Rightarrow> time set \<Rightarrow> dummy_net \<Rightarrow> dummy_net \<Rightarrow> bool" for L ebm at n0 where
  start: "dummy_reach L ebm at n0 n0"
| step: "dummy_reach L ebm at n0 n \<Longrightarrow> dummy_step L ebm at n (Inr n') \<Longrightarrow> dummy_reach L ebm at n0 n'"


section \<open>Correctness\<close>

text \<open>A bundle that arrives whenever it is received: well-formed and valid at the times of the run.\<close>

definition always_valid :: "ExtensionBlockManager \<Rightarrow> time set \<Rightarrow> Bundle \<Rightarrow> bool" where
  "always_valid ebm at b \<longleftrightarrow> wf_bundle ebm b \<and> (\<forall>now \<in> at. Bundle_CheckValid now b = Inr [])"

text \<open>Every sent bundle has been received once or is still offered; checksums apart, as serialising fills them in.\<close>

definition offer_of :: "cboring \<Rightarrow> peer \<times> bytes \<Rightarrow> Bundle \<Rightarrow> bool" where
  "offer_of L offer b \<longleftrightarrow> (\<exists>b'. Bundle_MarshalCbor L b = Inr (snd offer, b'))"

definition conserved :: "cboring \<Rightarrow> dummy_net \<Rightarrow> bool" where
  "conserved L n \<longleftrightarrow> (\<exists>waiting. list_all2 (offer_of L) (dn_offers n) waiting \<and> set waiting \<subseteq> snd ` set (dn_sent n) \<and>
     mset (map (strip_crc \<circ> snd) (dn_sent n)) = mset (map (strip_crc \<circ> snd) (dn_received n)) + mset (map strip_crc waiting))"

text \<open>An end is active only if the channel is open and it has a receiver, or if the channel is closed.\<close>

definition served :: "dummy_net \<Rightarrow> bool" where
  "served n \<longleftrightarrow> (\<forall>p. dc_transferChannel (dn_cla n p)) \<and>
     (\<not> dn_closed n \<longrightarrow> (\<forall>p. dc_channelActive (dn_cla n p) \<longrightarrow> 0 < dn_receivers n p) \<and>
       (dn_offers n \<noteq> [] \<longrightarrow> (\<exists>p. 0 < dn_receivers n p)))"

lemma DummyCLA_Send_Inr:
  "DummyCLA_Send L b cla = Inr (bs, b') \<longleftrightarrow> Bundle_MarshalCbor L b = Inr (bs, b') \<and> dc_channelActive cla"
  by (auto simp: DummyCLA_Send_def bindR_Inr_iff split: if_splits)

lemma DummyCLA_Close_Inr:
  "DummyCLA_Close closed cla = Inr (c, cla') \<longleftrightarrow> cla' = cla\<lparr>dc_channelActive := False\<rparr> \<and>
     (if dc_channelActive cla then c \<and> dc_transferChannel cla \<and> \<not> closed else c = closed)"
  by (auto simp: DummyCLA_Close_def)

lemma served_step:
  assumes "served n" "dummy_step L ebm at n (Inr n')"
  shows "served n'"
  using assms(2,1)
proof (cases rule: dummy_step.cases)
  case (closes p c cla)
  then show ?thesis using assms(1) by (auto simp: served_def set_cla_def DummyCLA_Close_Inr split: if_splits)
qed (auto simp: served_def set_cla_def DummyCLA_Activate_def DummyCLA_Send_Inr split: if_splits)

lemma dummy_step_sent: "dummy_step L ebm at n (Inr n') \<Longrightarrow> set (dn_sent n) \<subseteq> set (dn_sent n')"
  by (cases rule: dummy_step.cases) (auto simp: set_cla_def split: if_splits)

context cboring_lib
begin

lemma handleReceive_sent:
  assumes "always_valid ebm at b" "now \<in> at" "Bundle_MarshalCbor L b = Inr (bs, b')"
  shows "DummyCLA_handleReceive L ebm now bs = Inr (Some b') \<and> strip_crc b' = strip_crc b"
proof -
  have "strip_crc b' = strip_crc b" using Bundle_roundtrip [of ebm b] assms unfolding always_valid_def by (metis prod.inject sum.inject(2))
  then show ?thesis using assms Bundle_UnmarshalCbor_stream [of ebm b bs b' now "[]"]
    by (simp add: always_valid_def DummyCLA_handleReceive_def)
qed

lemma conserved_transfer:
  assumes "conserved L n" "\<forall>(p, b) \<in> set (dn_sent n). always_valid ebm at b"
    and "dn_offers n = xs @ (p, bs) # ys" "now \<in> at" "DummyCLA_handleReceive L ebm now bs = Inr r"
  shows "conserved L (n\<lparr>dn_offers := xs @ ys, dn_received := dn_received n @ (case r of None \<Rightarrow> [] | Some b \<Rightarrow> [(q, b)])\<rparr>)"
proof -
  obtain waiting where w: "list_all2 (offer_of L) (dn_offers n) waiting" "set waiting \<subseteq> snd ` set (dn_sent n)"
    "mset (map (strip_crc \<circ> snd) (dn_sent n)) = mset (map (strip_crc \<circ> snd) (dn_received n)) + mset (map strip_crc waiting)"
    using assms(1) unfolding conserved_def by blast
  obtain us b vs where u: "waiting = us @ b # vs" "list_all2 (offer_of L) xs us" "offer_of L (p, bs) b" "list_all2 (offer_of L) ys vs"
    using w(1) unfolding assms(3) list_all2_append1 list_all2_Cons1 by blast
  obtain b' where b': "Bundle_MarshalCbor L b = Inr (bs, b')" using u(3) by (auto simp: offer_of_def)
  have "always_valid ebm at b" using w(2) assms(2) unfolding u(1) by auto
  then have r: "r = Some b'" "strip_crc b' = strip_crc b" using handleReceive_sent [OF _ assms(4) b', of ebm] assms(5) by auto
  have "list_all2 (offer_of L) (xs @ ys) (us @ vs)" using u(2,4) by (rule list_all2_appendI)
  moreover have "set (us @ vs) \<subseteq> snd ` set (dn_sent n)" using w(2) unfolding u(1) by auto
  ultimately show ?thesis unfolding conserved_def using w(3) r by (intro exI [of _ "us @ vs"]) (simp add: u(1))
qed

lemma conserved_step:
  assumes "conserved L n" "dummy_step L ebm at n (Inr n')" "\<forall>(p, b) \<in> set (dn_sent n'). always_valid ebm at b"
  shows "conserved L n'"
  using assms(2)
proof (cases rule: dummy_step.cases)
  case (send b p bs b')
  obtain waiting where w: "list_all2 (offer_of L) (dn_offers n) waiting" "set waiting \<subseteq> snd ` set (dn_sent n)"
    "mset (map (strip_crc \<circ> snd) (dn_sent n)) = mset (map (strip_crc \<circ> snd) (dn_received n)) + mset (map strip_crc waiting)"
    using assms(1) unfolding conserved_def by blast
  have "offer_of L (p, bs) b" using send by (auto simp: DummyCLA_Send_Inr offer_of_def)
  then have "list_all2 (offer_of L) (dn_offers n @ [(p, bs)]) (waiting @ [b])" using w(1) by (simp add: list_all2_appendI)
  then show ?thesis unfolding conserved_def using send(1) w(2,3) by (intro exI [of _ "waiting @ [b]"]) auto
next
  case (transfer xs p bs ys q now r)
  have "\<forall>(p, b) \<in> set (dn_sent n). always_valid ebm at b" using assms(3) dummy_step_sent [OF assms(2)] by blast
  then show ?thesis using conserved_transfer [OF assms(1) _ transfer(2,5,6)] transfer(1) by simp
qed (use assms(1) in \<open>auto simp: conserved_def set_cla_def split: if_splits\<close>)

text \<open>
  No bundle is lost or duplicated between the ends of a pair, and as long as the channel is open
  somebody waits for what is offered.
\<close>

lemma dummy_conserves:
  assumes "dummy_reach L ebm at (fresh_net a b) n" "\<forall>(p, b) \<in> set (dn_sent n). always_valid ebm at b"
  shows "conserved L n \<and> served n"
  using assms
proof (induction rule: dummy_reach.induct)
  case start
  then show ?case by (simp add: conserved_def served_def fresh_net_def NewDummyCLAPair_def split: peer.split)
next
  case (step n n')
  have "\<forall>(p, b) \<in> set (dn_sent n). always_valid ebm at b" using step.prems dummy_step_sent [OF step.hyps(2)] by blast
  then show ?case using step conserved_step served_step by blast
qed

end

text \<open>An offered bundle can be taken as long as the channel is open, and reaches a callback unchanged up to checksums.\<close>

lemma dummy_progress:
  assumes "cboring_lib L" "dummy_reach L ebm at (fresh_net a b) n" "\<forall>(p, b) \<in> set (dn_sent n). always_valid ebm at b"
    and "dn_offers n \<noteq> []" "\<not> dn_closed n" "now \<in> at"
  shows "\<exists>n' q b'. dummy_step L ebm at n (Inr n') \<and> dn_offers n' = tl (dn_offers n) \<and> dn_received n' = dn_received n @ [(q, b')]"
proof -
  have c: "conserved L n" "served n" using cboring_lib.dummy_conserves [OF assms(1-3)] by auto
  obtain p bs ys where o: "dn_offers n = (p, bs) # ys" using assms(4) by (cases "dn_offers n") auto
  obtain q where q: "0 < dn_receivers n q" using c(2) assms(4,5) by (auto simp: served_def)
  obtain w where w: "offer_of L (p, bs) w" "w \<in> snd ` set (dn_sent n)"
    using c(1) unfolding conserved_def o list_all2_Cons1 by auto
  obtain b' where b': "Bundle_MarshalCbor L w = Inr (bs, b')" using w(1) by (auto simp: offer_of_def)
  have "DummyCLA_handleReceive L ebm now bs = Inr (Some b')"
    using cboring_lib.handleReceive_sent [OF assms(1) _ assms(6) b', of ebm] w(2) assms(3) by auto
  from dummy_step.transfer [where xs = "[]", OF _ assms(5) q assms(6) this] o show ?thesis by fastforce
qed

text \<open>
  The ends do not know of each other: closing both of an active pair panics, as does a sender that has
  passed its check when the other end is closed. The channel has no direction, so that the receiver of an
  end can take what the same end sends.
\<close>

lemma dummy_close_both_panics:
  assumes "served n" "p \<noteq> q" "dc_channelActive (dn_cla n p)" "dc_channelActive (dn_cla n q)" "\<not> dn_closed n"
  shows "\<exists>n'. dummy_step L ebm at n (Inr n') \<and> dummy_step L ebm at n' (Inl (Panic ''close of closed channel''))"
proof -
  let ?n = "set_cla p ((dn_cla n p)\<lparr>dc_channelActive := False\<rparr>) (n\<lparr>dn_closed := True\<rparr>)"
  have "dummy_step L ebm at n (Inr ?n)" by (rule dummy_step.closes) (use assms in \<open>simp add: DummyCLA_Close_def served_def\<close>)
  moreover have "DummyCLA_Close (dn_closed ?n) (dn_cla ?n q) = Inl (Panic ''close of closed channel'')"
    using assms by (simp add: DummyCLA_Close_def served_def set_cla_def)
  ultimately show ?thesis using dummy_step.close_panics by blast
qed

lemma dummy_send_races_close:
  assumes "DummyCLA_Send L b (dn_cla n p) = Inr x" "DummyCLA_Close (dn_closed n) (dn_cla n q) = Inr (True, cla)"
  shows "\<exists>n1 n2. dummy_step L ebm at n (Inr n1) \<and> dummy_step L ebm at n1 (Inr n2) \<and>
    dummy_step L ebm at n2 (Inl (Panic ''send on closed channel''))"
proof -
  obtain bs b' where x: "x = (bs, b')" by force
  let ?n1 = "n\<lparr>dn_offers := dn_offers n @ [(p, bs)], dn_sent := dn_sent n @ [(p, b)]\<rparr>"
  let ?n2 = "set_cla q cla (?n1\<lparr>dn_closed := True\<rparr>)"
  have "dummy_step L ebm at n (Inr ?n1)" using assms(1) unfolding x by (rule dummy_step.send)
  moreover have "dummy_step L ebm at ?n1 (Inr ?n2)" by (rule dummy_step.closes) (use assms(2) in simp)
  moreover have "dummy_step L ebm at ?n2 (Inl (Panic ''send on closed channel''))"
    by (rule dummy_step.offer_panics) (simp_all add: set_cla_def)
  ultimately show ?thesis by blast
qed

lemma dummy_own_receiver:
  assumes "cboring_lib L" "always_valid ebm at b" "now \<in> at"
  shows "\<exists>n b'. dummy_reach L ebm at (fresh_net x y) n \<and> dn_sent n = [(PeerA, b)] \<and> dn_received n = [(PeerA, b')] \<and> strip_crc b' = strip_crc b"
proof -
  obtain bs b' where m: "Bundle_MarshalCbor L b = Inr (bs, b')"
    using cboring_lib.Bundle_roundtrip [OF assms(1)] assms(2) unfolding always_valid_def by blast
  note r = cboring_lib.handleReceive_sent [OF assms m]
  let ?n0 = "fresh_net x y"
  let ?n1 = "set_cla PeerA (DummyCLA_Activate (dn_cla ?n0 PeerA)) (?n0\<lparr>dn_receivers := (dn_receivers ?n0)(PeerA := Suc (dn_receivers ?n0 PeerA))\<rparr>)"
  let ?n2 = "?n1\<lparr>dn_offers := dn_offers ?n1 @ [(PeerA, bs)], dn_sent := dn_sent ?n1 @ [(PeerA, b)]\<rparr>"
  let ?n3 = "?n2\<lparr>dn_offers := [] @ [], dn_received := dn_received ?n2 @ (case Some b' of None \<Rightarrow> [] | Some b \<Rightarrow> [(PeerA, b)])\<rparr>"
  note simps = set_cla_def fresh_net_def NewDummyCLAPair_def
  have "dummy_reach L ebm at ?n0 ?n1" by (intro dummy_reach.step [OF dummy_reach.start] dummy_step.activate)
  then have "dummy_reach L ebm at ?n0 ?n2"
    by (rule dummy_reach.step) (rule dummy_step.send, simp add: DummyCLA_Send_Inr m simps DummyCLA_Activate_def)
  moreover have "dummy_step L ebm at ?n2 (Inr ?n3)"
    by (rule dummy_step.transfer [of _ "[]" PeerA bs "[]" PeerA]) (use r assms(3) in \<open>auto simp: simps\<close>)
  ultimately have "dummy_reach L ebm at ?n0 ?n3" by (rule dummy_reach.step)
  moreover have "dn_sent ?n3 = [(PeerA, b)]" "dn_received ?n3 = [(PeerA, b')]" by (simp_all add: simps)
  ultimately show ?thesis using r by blast
qed

text \<open>An end without a pair is never active, unless it is activated: then closing it panics, too.\<close>

lemma super_dummy_close:
  "DummyCLA_Close closed (NewSuperDummyCLA eid) = Inr (closed, NewSuperDummyCLA eid)"
  "DummyCLA_Close closed (DummyCLA_Activate (NewSuperDummyCLA eid)) = Inl (Panic ''close of nil channel'')"
  by (simp_all add: DummyCLA_Close_def DummyCLA_Activate_def NewSuperDummyCLA_def)

end
