(* ===== verification/Quicl.thy ===== *)
theory Quicl
  imports Mtcp
begin

text \<open>
  The QUIC convergence layer (\<open>pkg/cla/quicl/endpoint.go\<close>, its errors in \<open>internal/errors.go\<close> and the
  registration of accepted connections in \<open>listener.go\<close>). The QUIC implementation is a third-party
  package: what its calls return, and what arrives on a stream, are arguments. A stream is the sequence
  of bytes one side writes and the other one reads. Certificates and listening are I/O.
\<close>

section \<open>Errors and state\<close>

definition UnknownError :: nat where "UnknownError = 1"
definition ApplicationShutdown :: nat where "ApplicationShutdown = 2"
definition LocalError :: nat where "LocalError = 3"
definition PeerError :: nat where "PeerError = 4"
definition ConnectionError :: nat where "ConnectionError = 5"

record HandshakeError =
  he_Msg :: string
  he_Code :: nat

definition NewHandshakeError :: "string \<Rightarrow> nat \<Rightarrow> HandshakeError" where
  "NewHandshakeError message code = \<lparr>he_Msg = message, he_Code = code\<rparr>"

record QuiclEndpoint =
  qe_id :: EndpointID
  qe_peerId :: EndpointID
  qe_peerAddress :: string
  qe_dialer :: bool
  qe_active :: bool
  qe_handshake :: bool

definition NewListenerEndpoint :: "EndpointID \<Rightarrow> string \<Rightarrow> QuiclEndpoint" where
  "NewListenerEndpoint eid remoteAddr =
     \<lparr>qe_id = eid, qe_peerId = None, qe_peerAddress = remoteAddr, qe_dialer = False, qe_active = False, qe_handshake = False\<rparr>"

definition NewDialerEndpoint :: "string \<Rightarrow> EndpointID \<Rightarrow> QuiclEndpoint" where
  "NewDialerEndpoint peerAddress eid =
     \<lparr>qe_id = eid, qe_peerId = None, qe_peerAddress = peerAddress, qe_dialer = True, qe_active = False, qe_handshake = False\<rparr>"

text \<open>An endpoint implements the interfaces of a sender and of a receiver.\<close>

definition quicl_cla :: "QuiclEndpoint \<Rightarrow> Convergence" where
  "quicl_cla endpoint = \<lparr>cla_Address = qe_peerAddress endpoint, cla_IsReceiver = True, cla_IsSender = True,
     cla_PeerEndpointID = qe_peerId endpoint\<rparr>"

text \<open>\<open>cla.GetManagerSingleton().NotifyDisconnect(endpoint)\<close>.\<close>

definition notify_disconnect :: "QuiclEndpoint \<Rightarrow> Manager option \<Rightarrow> unit res \<times> Manager option" where
  "notify_disconnect endpoint manager =
     (case manager of None \<Rightarrow> (Inl fatal, None) | Some m \<Rightarrow> (Inr (), Some (NotifyDisconnect (quicl_cla endpoint) m)))"

section \<open>Handshake\<close>

text \<open>Sending the own identifier, which the configuration has set: the result, and the bytes that reach the stream.\<close>

definition sendEndpointID :: "cboring \<Rightarrow> nat option \<Rightarrow> QuiclEndpoint \<Rightarrow> (HandshakeError + unit) \<times> bytes" where
  "sendEndpointID L failure endpoint =
     (case EndpointID_MarshalCbor L (qe_id endpoint) of
        Inl _ \<Rightarrow> (Inl (NewHandshakeError ''error marshaling endpoint-id'' LocalError), [])
      | Inr buff \<Rightarrow>
          let bs = WriteByteStringLen L (of_nat (length buff)) @ buff
          in (case failure of
                None \<Rightarrow> (Inr (), bs)
              | Some k \<Rightarrow> (Inl (NewHandshakeError ''error flushing write-buffer'' ConnectionError), take k bs)))"

definition receiveEndpointID :: "cboring \<Rightarrow> bytes \<Rightarrow> QuiclEndpoint \<Rightarrow> HandshakeError + QuiclEndpoint" where
  "receiveEndpointID L input endpoint =
     (case ReadByteStringLen L input of
        Inl _ \<Rightarrow> Inl (NewHandshakeError ''error reading id length'' ConnectionError)
      | Inr (len, r) \<Rightarrow>
          if len = 0 then Inl (NewHandshakeError ''error reading id length'' ConnectionError)
          else (case EndpointID_UnmarshalCbor L r of
            Inl _ \<Rightarrow> Inl (NewHandshakeError ''error reading id'' ConnectionError)
          | Inr (eid, _) \<Rightarrow> Inr (endpoint\<lparr>qe_peerId := eid\<rparr>)))"

datatype accept_result =
    AcceptedStream bytes
  | DeadlineExceeded
  | ApplicationError bool
  | NetError bool
  | OtherAcceptError

definition handshakeListener ::
    "cboring \<Rightarrow> accept_result \<Rightarrow> nat option \<Rightarrow> bool \<Rightarrow> QuiclEndpoint \<Rightarrow> (HandshakeError + unit) \<times> QuiclEndpoint \<times> bytes" where
  "handshakeListener L accept failure close_ok endpoint =
     (case accept of
        AcceptedStream input \<Rightarrow>
          (case receiveEndpointID L input endpoint of
             Inl e \<Rightarrow> (Inl e, endpoint, [])
           | Inr endpoint \<Rightarrow> (case sendEndpointID L failure endpoint of
               (Inl e, bs) \<Rightarrow> (Inl e, endpoint, bs)
             | (Inr _, bs) \<Rightarrow>
                 if close_ok then (Inr (), endpoint\<lparr>qe_handshake := True\<rparr>, bs)
                 else (Inl (NewHandshakeError ''error closing handshake stream'' ConnectionError), endpoint, bs)))
      | DeadlineExceeded \<Rightarrow>
          (Inl (NewHandshakeError ''dialer took too long to initiate handshake'' PeerError), endpoint, [])
      | _ \<Rightarrow> (Inl (NewHandshakeError ''unanticipated error happened'' UnknownError), endpoint, []))"

definition handshakeDialer ::
    "cboring \<Rightarrow> bool \<Rightarrow> nat option \<Rightarrow> bytes \<Rightarrow> QuiclEndpoint \<Rightarrow> (HandshakeError + unit) \<times> QuiclEndpoint \<times> bytes" where
  "handshakeDialer L open_ok failure input endpoint =
     (if \<not> open_ok then (Inl (NewHandshakeError ''Error during stream initiation'' ConnectionError), endpoint, [])
      else (case sendEndpointID L failure endpoint of
        (Inl e, bs) \<Rightarrow> (Inl e, endpoint, bs)
      | (Inr _, bs) \<Rightarrow> (case receiveEndpointID L input endpoint of
          Inl e \<Rightarrow> (Inl e, endpoint, bs)
        | Inr endpoint \<Rightarrow> (Inr (), endpoint\<lparr>qe_handshake := True\<rparr>, bs))))"

text \<open>
  \<open>Activate\<close> behind the dialling: the error and the code the connection is closed with, or the peer that
  is announced to the manager while the loop of the connection is started.
\<close>

definition quicl_Activate ::
    "bool \<Rightarrow> (QuiclEndpoint \<Rightarrow> (HandshakeError + unit) \<times> QuiclEndpoint \<times> bytes) \<Rightarrow> QuiclEndpoint \<Rightarrow>
     (nat option + EndpointID) \<times> QuiclEndpoint \<times> bytes" where
  "quicl_Activate dial_ok shake endpoint =
     (if qe_dialer endpoint \<and> \<not> dial_ok then (Inl None, endpoint, [])
      else (case shake endpoint of
        (Inl herr, endpoint, bs) \<Rightarrow> (Inl (Some (he_Code herr)), endpoint, bs)
      | (Inr _, endpoint, bs) \<Rightarrow> (Inr (qe_peerId endpoint), endpoint\<lparr>qe_active := True\<rparr>, bs)))"

text \<open>
  \<open>Close\<close>: the code the connection is closed with, and the result of closing it. An endpoint that
  has not dialled yet has no connection; the fields of the endpoint stay.
\<close>

definition quicl_Close :: "bool \<Rightarrow> unit res \<Rightarrow> QuiclEndpoint \<Rightarrow> (nat \<times> unit res) res" where
  "quicl_Close dialled close endpoint =
     (if qe_dialer endpoint \<and> \<not> dialled then Inl (Panic ''nil pointer dereference: connection'')
      else Inr (ApplicationShutdown, close))"

section \<open>Bundles\<close>

text \<open>
  A failing call of the stream: the bytes written before, and whether it is a network error that
  reports a timeout.
\<close>

type_synonym stream_failure = "(nat \<times> bool) option"

definition after_failure :: "bool \<Rightarrow> err \<Rightarrow> QuiclEndpoint \<Rightarrow> Manager option \<Rightarrow> unit res \<times> Manager option" where
  "after_failure timeout e endpoint manager =
     (if timeout then (case notify_disconnect endpoint manager of (Inl f, manager) \<Rightarrow> (Inl f, manager) | (Inr _, manager) \<Rightarrow> (Inl e, manager))
      else (Inl e, manager))"

text \<open>\<open>Send\<close>: the result, the manager, and the bytes on the stream it opened, if it opened one.\<close>

definition quicl_Send ::
    "cboring \<Rightarrow> bool \<Rightarrow> bool option \<Rightarrow> stream_failure \<Rightarrow> stream_failure \<Rightarrow> Bundle \<Rightarrow> QuiclEndpoint \<Rightarrow> Manager option \<Rightarrow>
     unit res \<times> Manager option \<times> bytes option" where
  "quicl_Send L acquire_ok open_failure write flush bndl endpoint manager =
     (if \<not> qe_handshake endpoint then (Inl (Errorf ''Handshake not yet completed''), manager, None)
      else case Bundle_MarshalCbor L bndl of
        Inl e \<Rightarrow> (Inl e, manager, None)
      | Inr (buff, _) \<Rightarrow>
        if \<not> acquire_ok then (Inl (Errorf ''acquiring the rate limiter failed''), manager, None)
        else (case open_failure of
          Some timeout \<Rightarrow>
            (case after_failure timeout (Errorf ''opening the stream failed'') endpoint manager of (res, manager) \<Rightarrow> (res, manager, None))
        | None \<Rightarrow> (case write of
            Some (k, timeout) \<Rightarrow>
              (case after_failure timeout (Errorf ''writing to the stream failed'') endpoint manager of
                 (res, manager) \<Rightarrow> (res, manager, Some (take k buff)))
          | None \<Rightarrow> (case flush of
              Some (k, timeout) \<Rightarrow>
                (case after_failure timeout (Errorf ''flushing the stream failed'') endpoint manager of
                   (res, manager) \<Rightarrow> (res, manager, Some (take k buff)))
            | None \<Rightarrow> (Inr (), manager, Some buff)))))"

text \<open>
  \<open>handleStream\<close>: the bundle passed to the callback. A panic of the decoder is not recovered in the
  goroutine of the stream. The decoder formats the errors of its parts as text, so that a timeout of the
  network is recognised only where its first read fails.
\<close>

definition handleStream ::
    "cboring \<Rightarrow> ExtensionBlockManager \<Rightarrow> time \<Rightarrow> bool \<Rightarrow> bytes \<Rightarrow> QuiclEndpoint \<Rightarrow> Manager option \<Rightarrow>
     Bundle option res \<times> Manager option" where
  "handleStream L ebm now timeout input endpoint manager =
     (case Bundle_UnmarshalCbor L ebm now input of
        None \<Rightarrow> (Inl Diverges, manager)
      | Some (Inl e) \<Rightarrow>
          if is_panic e then (Inl e, manager)
          else if timeout \<and> isl (ReadExpect L (IndefiniteArray L) input) then (case notify_disconnect endpoint manager of
            (Inl f, manager) \<Rightarrow> (Inl f, manager) | (Inr _, manager) \<Rightarrow> (Inr None, manager))
          else (Inr None, manager)
      | Some (Inr (bundle, errs, _)) \<Rightarrow> (Inr (if errs = [] then Some bundle else None), manager))"

text \<open>
  One round of \<open>handleConnection\<close>: whether the loop goes on, the stream that is handed to
  \<open>handleStream\<close>, and the manager.
\<close>

definition handleConnection_step ::
    "accept_result \<Rightarrow> QuiclEndpoint \<Rightarrow> Manager option \<Rightarrow> unit res \<times> bool \<times> bytes option \<times> Manager option" where
  "handleConnection_step accept endpoint manager =
     (case accept of
        AcceptedStream input \<Rightarrow> (Inr (), True, Some input, manager)
      | ApplicationError remote \<Rightarrow>
          if remote then (case notify_disconnect endpoint manager of (res, manager) \<Rightarrow> (res, False, None, manager))
          else (Inr (), False, None, manager)
      | NetError timeout \<Rightarrow>
          if timeout then (case notify_disconnect endpoint manager of (res, manager) \<Rightarrow> (res, False, None, manager))
          else (Inr (), True, None, manager)
      | _ \<Rightarrow> (Inr (), True, None, manager))"

text \<open>The listener: \<open>ql_quicListener\<close> tells whether the socket is open.\<close>

record QuicListener =
  ql_listenAddress :: string
  ql_endpointID :: EndpointID
  ql_quicListener :: bool
  ql_running :: bool

definition NewQUICListener :: "string \<Rightarrow> EndpointID \<Rightarrow> QuicListener" where
  "NewQUICListener listenAddress endpointID =
     \<lparr>ql_listenAddress = listenAddress, ql_endpointID = endpointID, ql_quicListener = False, ql_running = False\<rparr>"

definition QuicListener_Start :: "unit res \<Rightarrow> QuicListener \<Rightarrow> QuicListener res" where
  "QuicListener_Start listen listener = bindR listen (\<lambda>_. Inr (listener\<lparr>ql_quicListener := True, ql_running := True\<rparr>))"

definition QuicListener_Close :: "unit res \<Rightarrow> QuicListener \<Rightarrow> unit res \<times> QuicListener" where
  "QuicListener_Close close listener =
     (let listener = listener\<lparr>ql_running := False\<rparr>
      in if ql_quicListener listener then (close, listener) else (Inl (Panic ''nil pointer dereference: quicListener''), listener))"

text \<open>The listener registers an endpoint for every connection it accepts.\<close>

definition listener_accept :: "EndpointID \<Rightarrow> string \<Rightarrow> Manager option \<Rightarrow> Manager option res" where
  "listener_accept eid remoteAddr manager =
     (case manager of None \<Rightarrow> Inl fatal | Some m \<Rightarrow> Inr (Some (Register (quicl_cla (NewListenerEndpoint eid remoteAddr)) m)))"

section \<open>Correctness\<close>

context cboring_lib
begin

lemma endpoint_exchange:
  assumes "wf_eid (qe_id a)" "short_eid (qe_id a)"
  shows "\<exists>bs. sendEndpointID L None a = (Inr (), bs) \<and> receiveEndpointID L bs b = Inr (b\<lparr>qe_peerId := qe_id a\<rparr>)"
proof -
  obtain buff where m: "EndpointID_MarshalCbor L (qe_id a) = Inr buff" "\<And>r. EndpointID_UnmarshalCbor L (buff @ r) = Inr (qe_id a, r)"
    using EndpointID_roundtrip [OF assms] by blast
  have "0 < length buff" using EndpointID_progress [OF m(2) [of "[]"]] by simp
  moreover have "length buff < 2 ^ 64" using EndpointID_marshal_size [OF assms(2) m(1)] by simp
  ultimately have "(of_nat (length buff) :: u64) \<noteq> 0" by (metis unat_length less_irrefl unat_0)
  then show ?thesis using m(1) m(2) [of "[]"]
    by (simp add: sendEndpointID_def receiveEndpointID_def Let_def read_bslen)
qed

lemma quicl_stream:
  assumes "wf_bundle ebm b" "Bundle_CheckValid now b = Inr []" "qe_handshake endpoint"
  shows "\<exists>bs b'. quicl_Send L True None None None b endpoint m = (Inr (), m, Some bs) \<and>
    handleStream L ebm now timeout bs peer m' = (Inr (Some b'), m') \<and> strip_crc b' = strip_crc b"
proof -
  obtain bs b' where m: "Bundle_MarshalCbor L b = Inr (bs, b')" "strip_crc b' = strip_crc b"
    using Bundle_roundtrip [OF assms(1)] by blast
  show ?thesis
    using m assms(2,3) Bundle_UnmarshalCbor_stream [OF assms(1) m(1), of now "[]"]
    by (auto simp: quicl_Send_def handleStream_def)
qed

lemma no_payload_stream:
  assumes "wf_primary pb" "PrimaryBlock_MarshalCbor L pb = Inr (p, pb')"
  shows "Bundle_UnmarshalCbor L ebm now ([IndefiniteArray L] @ p @ [BreakCode L]) = Some (Inl nil_value)"
proof -
  let ?r = "[IndefiniteArray L] @ p @ [BreakCode L]"
  obtain res where res: "Bundle_UnmarshalCbor L ebm now ?r = Some res" using Bundle_UnmarshalCbor_ends by blast
  have "ParseBundle L ebm now ?r = Inl nil_value" using ParseBundle_no_payload [OF assms] by blast
  then show ?thesis using Bundle_UnmarshalCbor_forget [OF res] res by (cases res) auto
qed

end

text \<open>
  C24. The handshake of a dialler with a listener succeeds on both sides when the streams work, and then each
  side knows the endpoint of the other: what the dialler writes is what the listener reads and the other
  way round. Both endpoints become active and announce their peer.
\<close>

theorem quicl_handshake_correct:
  assumes "cboring_lib L" "wf_eid (qe_id d)" "short_eid (qe_id d)" "wf_eid (qe_id l)" "short_eid (qe_id l)"
    "qe_dialer d" "\<not> qe_dialer l"
  shows "\<exists>out_d out_l.
    quicl_Activate True (handshakeDialer L True None out_l) d =
      (Inr (qe_id l), d\<lparr>qe_peerId := qe_id l, qe_handshake := True, qe_active := True\<rparr>, out_d) \<and>
    quicl_Activate dial (handshakeListener L (AcceptedStream out_d) None True) l =
      (Inr (qe_id d), l\<lparr>qe_peerId := qe_id d, qe_handshake := True, qe_active := True\<rparr>, out_l)"
proof -
  let ?l = "l\<lparr>qe_peerId := qe_id d\<rparr>"
  obtain out_d where d: "sendEndpointID L None d = (Inr (), out_d)" "receiveEndpointID L out_d l = Inr ?l"
    using cboring_lib.endpoint_exchange [OF assms(1-3)] by blast
  obtain out_l where l: "sendEndpointID L None ?l = (Inr (), out_l)" "receiveEndpointID L out_l d = Inr (d\<lparr>qe_peerId := qe_id l\<rparr>)"
    using cboring_lib.endpoint_exchange [OF assms(1), of ?l d] assms(4,5) by auto
  show ?thesis using d l assms(6,7)
    by (intro exI [of _ out_d] exI [of _ out_l]) (simp add: quicl_Activate_def handshakeDialer_def handshakeListener_def)
qed

definition example_dialer :: "QuiclEndpoint" where
  "example_dialer = NewDialerEndpoint ''10.0.0.2:4556'' (Some (Dtn \<lparr>NodeName = ''a'', Demux = [], IsDtnNone = False\<rparr>))"

definition example_listener :: "QuiclEndpoint" where
  "example_listener = NewListenerEndpoint (Some (Ipn \<lparr>Node = 23, Service = 42\<rparr>)) ''10.0.0.1:4556''"

theorem quicl_handshake_correct_witness:
  "qe_id example_dialer \<noteq> qe_id example_listener \<and> (\<exists>d l out_d out_l.
     quicl_Activate True (handshakeDialer rfc8949 True None out_l) example_dialer = (Inr (qe_id example_listener), d, out_d) \<and>
     quicl_Activate False (handshakeListener rfc8949 (AcceptedStream out_d) None True) example_listener =
       (Inr (qe_id example_dialer), l, out_l) \<and> qe_active d \<and> qe_active l)"
proof -
  have wf: "wf_eid (qe_id example_dialer)" "short_eid (qe_id example_dialer)" "wf_eid (qe_id example_listener)"
    "short_eid (qe_id example_listener)" "qe_dialer example_dialer" "\<not> qe_dialer example_listener"
    "qe_id example_dialer \<noteq> qe_id example_listener"
    by (simp_all add: example_dialer_def example_listener_def NewDialerEndpoint_def NewListenerEndpoint_def wf_eid_def wf_dtn_def
        wf_ipn_def short_eid_def dtn_ssp_def is_node_char_def is_alnum_def)
  then show ?thesis using quicl_handshake_correct [OF rfc.cboring_lib_axioms wf(1-6), of False] by fastforce
qed

text \<open>A bundle sent on a stream of its own arrives unchanged up to checksums.\<close>

lemma quicl_transfer:
  assumes "cboring_lib L" "wf_bundle ebm b" "Bundle_CheckValid now b = Inr []" "qe_handshake endpoint"
  shows "\<exists>bs b'. quicl_Send L True None None None b endpoint m = (Inr (), m, Some bs) \<and>
    handleStream L ebm now timeout bs peer m' = (Inr (Some b'), m') \<and> strip_crc b' = strip_crc b"
  using cboring_lib.quicl_stream [OF assms] .

text \<open>
  A peer ends the daemon with one stream: a bundle without payload block panics the decoder, and the
  goroutine of a stream does not recover.
\<close>

lemma quicl_stream_panics:
  assumes "cboring_lib L" "wf_primary pb" "PrimaryBlock_MarshalCbor L pb = Inr (p, pb')"
  shows "handleStream L ebm now timeout ([IndefiniteArray L] @ p @ [BreakCode L]) endpoint m = (Inl nil_value, m)"
  using cboring_lib.no_payload_stream [OF assms] by (simp add: handleStream_def nil_value_def)

text \<open>
  After an error of the connection that is neither sent by the peer nor a timeout the loop goes on and the
  manager keeps the endpoint; a timeout inside a bundle is not recognised.
\<close>

lemma quicl_lost_connection_kept:
  "handleConnection_step (NetError False) endpoint m = (Inr (), True, None, m)"
  "handleConnection_step OtherAcceptError endpoint m = (Inr (), True, None, m)"
  by (simp_all add: handleConnection_step_def)

lemma quicl_timeout_inside_bundle:
  assumes "Bundle_UnmarshalCbor L ebm now input = Some (Inl e)" "\<not> is_panic e" "ReadExpect L (IndefiniteArray L) input = Inr r"
  shows "handleStream L ebm now True input endpoint m = (Inr None, m)"
  using assms by (simp add: handleStream_def)

end
