(* ===== verification/Discovery.thy ===== *)
theory Discovery
  imports Quicl
begin

text \<open>
  Neighbour discovery (\<open>pkg/discovery/announcement.go\<close>, \<open>pkg/discovery/discovery_manager.go\<close>): the
  announcements a node multicasts, and what a node does with those it receives. Sending and receiving the
  packets is the third-party package \<open>peerdiscovery\<close>; the settings it is started with are the result of
  the initialisation, a received packet is an argument.
\<close>

section \<open>Announcements\<close>

record Announcement =
  an_Type :: CLAType
  an_Endpoint :: EndpointID
  an_Port :: u64

definition Announcement_MarshalCbor :: "cboring \<Rightarrow> Announcement \<Rightarrow> bytes res" where
  "Announcement_MarshalCbor L announcement =
     bindR (mapErr (Wrapf ''marshalling endpoint failed'') (EndpointID_MarshalCbor L (an_Endpoint announcement))) (\<lambda>eid.
       Inr (WriteArrayLength L 3 @ WriteUInt L (of_nat (an_Type announcement)) @ eid @ WriteUInt L (an_Port announcement)))"

definition Announcement_UnmarshalCbor :: "cboring \<Rightarrow> bytes \<Rightarrow> (Announcement \<times> bytes) res" where
  "Announcement_UnmarshalCbor L r =
     bindR (ReadArrayLength L r) (\<lambda>(l, r).
     if l \<noteq> 3 then Inl (Errorf ''wrong array length'') else
     bindR (ReadUInt L r) (\<lambda>(n, r).
     case CLAType_CheckValid (unat n) of e # _ \<Rightarrow> Inl e | [] \<Rightarrow>
     bindR (mapErr (Wrapf ''unmarshalling endpoint failed'') (EndpointID_UnmarshalCbor L r)) (\<lambda>(eid, r).
     bindR (ReadUInt L r) (\<lambda>(port, r). Inr (\<lparr>an_Type = unat n, an_Endpoint = eid, an_Port = port\<rparr>, r)))))"

fun marshal_announcements :: "cboring \<Rightarrow> Announcement list \<Rightarrow> bytes res" where
  "marshal_announcements L [] = Inr []"
| "marshal_announcements L (a # as) =
     bindR (mapErr (Wrapf ''marshalling Announcement failed'') (Announcement_MarshalCbor L a)) (\<lambda>bs.
     bindR (marshal_announcements L as) (\<lambda>bss. Inr (bs @ bss)))"

definition MarshalAnnouncements :: "cboring \<Rightarrow> Announcement list \<Rightarrow> bytes res" where
  "MarshalAnnouncements L announcements =
     bindR (marshal_announcements L announcements) (\<lambda>bs. Inr (WriteArrayLength L (of_nat (length announcements)) @ bs))"

fun read_announcements :: "nat \<Rightarrow> cboring \<Rightarrow> bytes \<Rightarrow> Announcement list res" where
  "read_announcements 0 L r = Inr []"
| "read_announcements (Suc k) L r =
     bindR (mapErr (Wrapf ''unmarshalling Announcement failed'') (Announcement_UnmarshalCbor L r)) (\<lambda>(a, r).
     bindR (read_announcements k L r) (\<lambda>as. Inr (a # as)))"

text \<open>\<open>make([]Announcement, l)\<close> panics when the slice, of 32 bytes each, exceeds the address space of \<open>2^48\<close> bytes.\<close>

definition UnmarshalAnnouncements :: "cboring \<Rightarrow> bytes \<Rightarrow> Announcement list res" where
  "UnmarshalAnnouncements L data =
     bindR (ReadArrayLength L data) (\<lambda>(l, r).
     if uint l * 32 > 2 ^ 48 then Inl (Panic ''makeslice: len out of range'')
     else read_announcements (unat l) L r)"

section \<open>The manager\<close>

record discovery_settings =
  set_MulticastAddress :: string
  set_Port :: nat
  set_Payload :: bytes

record DiscoveryManager =
  disc_NodeId :: EndpointID
  disc_running :: "discovery_settings list"

definition address4 :: string where "address4 = ''224.23.23.23''"
definition address6 :: string where "address6 = ''ff02::23''"
definition discovery_port :: nat where "discovery_port = 35039"

text \<open>Starting the discoveries that are active, in order; \<open>discover\<close> is the error one reports within a second.\<close>

fun start_discoveries :: "(string \<Rightarrow> err option) \<Rightarrow> bytes \<Rightarrow> (bool \<times> string) list \<Rightarrow> discovery_settings list res" where
  "start_discoveries discover msg [] = Inr []"
| "start_discoveries discover msg ((active, address) # sets) =
     (if \<not> active then start_discoveries discover msg sets
      else case discover address of
        Some e \<Rightarrow> Inl e
      | None \<Rightarrow> bindR (start_discoveries discover msg sets) (\<lambda>rest.
          Inr (\<lparr>set_MulticastAddress = address, set_Port = discovery_port, set_Payload = msg\<rparr> # rest)))"

definition InitialiseManager ::
    "cboring \<Rightarrow> DiscoveryManager option \<Rightarrow> EndpointID \<Rightarrow> Announcement list \<Rightarrow> bool \<Rightarrow> bool \<Rightarrow> (string \<Rightarrow> err option) \<Rightarrow>
     DiscoveryManager res" where
  "InitialiseManager L singleton nodeId announcements ipv4 ipv6 discover =
     (if singleton \<noteq> None then Inl (Panic ''log.Fatalf: the discovery manager exists'')
      else bindR (MarshalAnnouncements L announcements) (\<lambda>msg.
           bindR (start_discoveries discover msg [(ipv4, address4), (ipv6, address6)]) (\<lambda>running.
             Inr \<lparr>disc_NodeId = nodeId, disc_running = running\<rparr>)))"

text \<open>
  \<open>shutdown\<close> sends on the stop channel of every discovery, which has no buffer: it returns only if each
  of them still receives, which the argument tells.
\<close>

definition discovery_shutdown :: "(string \<Rightarrow> bool) \<Rightarrow> DiscoveryManager \<Rightarrow> bool" where
  "discovery_shutdown receives manager = list_all (\<lambda>running. receives (set_MulticastAddress running)) (disc_running manager)"

text \<open>The adapter for an announcement.\<close>

definition discovered_cla :: "EndpointID \<Rightarrow> Announcement \<Rightarrow> string \<Rightarrow> Convergence option" where
  "discovered_cla nodeId announcement addr =
     (let address = addr @ '':'' @ fmt_d (an_Port announcement) in
      if an_Type announcement = MTCP then Some (mtcp_cla (NewMTCPClient address (an_Endpoint announcement)))
      else if an_Type announcement = QUICL then Some (quicl_cla (NewDialerEndpoint address nodeId))
      else None)"

definition handleDiscovery :: "EndpointID \<Rightarrow> Announcement \<Rightarrow> string \<Rightarrow> Manager option \<Rightarrow> Manager option res" where
  "handleDiscovery nodeId announcement addr manager =
     (if SameNode nodeId (an_Endpoint announcement) then Inr manager
      else case discovered_cla nodeId announcement addr of
        None \<Rightarrow> Inr manager
      | Some conv \<Rightarrow> (case manager of
          None \<Rightarrow> Inl fatal
        | Some m \<Rightarrow> Inr (Some (if checkPresent m conv then m else Register conv m))))"

text \<open>
  \<open>notify\<close> and \<open>notify6\<close>: a goroutine for each announcement of a packet; they run in the order the
  scheduler gives.
\<close>

fun handle_all :: "EndpointID \<Rightarrow> string \<Rightarrow> Announcement list \<Rightarrow> Manager option \<Rightarrow> Manager option res" where
  "handle_all nodeId addr [] manager = Inr manager"
| "handle_all nodeId addr (a # as) manager = bindR (handleDiscovery nodeId a addr manager) (handle_all nodeId addr as)"

definition notify ::
    "cboring \<Rightarrow> (Announcement list \<Rightarrow> Announcement list) \<Rightarrow> EndpointID \<Rightarrow> string \<Rightarrow> bytes \<Rightarrow> Manager option \<Rightarrow> Manager option res" where
  "notify L schedule nodeId addr payload manager =
     (case UnmarshalAnnouncements L payload of
        Inl e \<Rightarrow> if is_panic e then Inl e else Inr manager
      | Inr announcements \<Rightarrow> handle_all nodeId addr (schedule announcements) manager)"

definition notify6 ::
    "cboring \<Rightarrow> (Announcement list \<Rightarrow> Announcement list) \<Rightarrow> EndpointID \<Rightarrow> string \<Rightarrow> bytes \<Rightarrow> Manager option \<Rightarrow> Manager option res" where
  "notify6 L schedule nodeId addr payload manager = notify L schedule nodeId (''['' @ addr @ '']'') payload manager"

section \<open>Announcements survive\<close>

definition wf_announcement :: "Announcement \<Rightarrow> bool" where
  "wf_announcement a \<longleftrightarrow> an_Type a \<in> {TCPCLv4, MTCP, QUICL} \<and> wf_eid (an_Endpoint a) \<and> short_eid (an_Endpoint a)"

lemma CLAType_CheckValid_iff: "CLAType_CheckValid t = [] \<longleftrightarrow> t \<in> {TCPCLv4, MTCP, QUICL}"
  by (auto simp: CLAType_CheckValid_def CLAType_String_def)

context cboring_lib
begin

lemma Announcement_roundtrip:
  assumes "wf_announcement a"
  shows "\<exists>bs. Announcement_MarshalCbor L a = Inr bs \<and> (\<forall>r. Announcement_UnmarshalCbor L (bs @ r) = Inr (a, r))"
proof -
  obtain eid where eid: "EndpointID_MarshalCbor L (an_Endpoint a) = Inr eid"
    "\<And>r. EndpointID_UnmarshalCbor L (eid @ r) = Inr (an_Endpoint a, r)"
    using EndpointID_roundtrip assms unfolding wf_announcement_def by blast
  have t: "unat (of_nat (an_Type a) :: u64) = an_Type a" "CLAType_CheckValid (an_Type a) = []"
    using assms unfolding wf_announcement_def CLAType_CheckValid_iff by (auto simp: TCPCLv4_def MTCP_def QUICL_def)
  show ?thesis using eid t
    by (simp add: Announcement_MarshalCbor_def Announcement_UnmarshalCbor_def cbor)
qed

lemma announcements_read:
  assumes "\<forall>a \<in> set as. wf_announcement a"
  shows "\<exists>bs. marshal_announcements L as = Inr bs \<and> read_announcements (length as) L bs = Inr as"
proof -
  have "\<exists>bs. marshal_announcements L as = Inr bs \<and> (\<forall>r. read_announcements (length as) L (bs @ r) = Inr as)"
    using assms
  proof (induction as)
    case (Cons a as)
    obtain bs bss where "Announcement_MarshalCbor L a = Inr bs" "\<And>r. Announcement_UnmarshalCbor L (bs @ r) = Inr (a, r)"
      "marshal_announcements L as = Inr bss" "\<And>r. read_announcements (length as) L (bss @ r) = Inr as"
      using Announcement_roundtrip [of a] Cons by (meson list.set_intros)
    then show ?case by simp
  qed simp
  then show ?thesis by (metis append_Nil2)
qed

end

section \<open>Correctness\<close>

lemma announcements_sent:
  assumes "cboring_lib L" "\<forall>a \<in> set as. wf_announcement a" "length as * 32 \<le> 2 ^ 48"
  shows "\<exists>bs. MarshalAnnouncements L as = Inr bs \<and> UnmarshalAnnouncements L bs = Inr as"
proof -
  obtain bs where bs: "marshal_announcements L as = Inr bs" "read_announcements (length as) L bs = Inr as"
    using cboring_lib.announcements_read [OF assms(1,2)] by blast
  have n: "unat (of_nat (length as) :: u64) = length as" using assms(3) by (intro unat_length) simp
  then have "uint (of_nat (length as) :: u64) * 32 \<le> 2 ^ 48" using assms(3) by (simp add: uint_nat)
  then show ?thesis using bs n
    by (simp add: MarshalAnnouncements_def UnmarshalAnnouncements_def cboring_lib.read_array [OF assms(1)])
qed

text \<open>The adapter a goroutine registers, if any; what is registered but not yet entered does not matter.\<close>

definition new_cla :: "EndpointID \<Rightarrow> string \<Rightarrow> Manager \<Rightarrow> Announcement \<Rightarrow> Convergence option" where
  "new_cla nodeId addr m a =
     (if SameNode nodeId (an_Endpoint a) then None
      else case discovered_cla nodeId a addr of None \<Rightarrow> None | Some c \<Rightarrow> if checkPresent m c then None else Some c)"

lemma new_cla_Some:
  "new_cla nodeId addr m a = Some c \<longleftrightarrow>
     \<not> SameNode nodeId (an_Endpoint a) \<and> discovered_cla nodeId a addr = Some c \<and> \<not> checkPresent m c"
  by (auto simp: new_cla_def split: option.splits)

lemma set_map_filter_Some: "set (List.map_filter f xs) = {y. \<exists>x \<in> set xs. f x = Some y}"
  by (force simp: List.map_filter_def image_iff)

lemma checkPresent_registering [simp]: "checkPresent (m\<lparr>mgr_registering := x\<rparr>) c = checkPresent m c"
  by (simp add: checkPresent_def)

lemma new_cla_Register [simp]: "new_cla nodeId addr (Register c m) = new_cla nodeId addr m"
  by (simp add: new_cla_def Register_def fun_eq_iff split: option.split)

lemma handleDiscovery_effect:
  "handleDiscovery nodeId a addr (Some m) = Inr (Some (case new_cla nodeId addr m a of None \<Rightarrow> m | Some c \<Rightarrow> Register c m))"
  by (simp add: handleDiscovery_def new_cla_def split: option.split)

lemma handle_all_effect:
  "handle_all nodeId addr as (Some m) = Inr (Some (m\<lparr>mgr_registering := mgr_registering m @ List.map_filter (new_cla nodeId addr m) as\<rparr>))"
proof (induction as arbitrary: m)
  case (Cons a as)
  have "mgr_registering (Register c m) = mgr_registering m @ [c]" "(Register c m)\<lparr>mgr_registering := x\<rparr> = m\<lparr>mgr_registering := x\<rparr>" for c x
    by (simp_all add: Register_def)
  then show ?case by (cases "new_cla nodeId addr m a") (simp_all add: Cons.IH handleDiscovery_effect List.map_filter_simps)
qed (simp add: List.map_filter_simps)

lemma handleDiscovery_reach:
  assumes "mgr_reach m" "handleDiscovery nodeId a addr (Some m) = Inr (Some m')"
  shows "mgr_reach m'"
  using assms mgr_reach_step [OF assms(1) mgr_register] by (auto simp: handleDiscovery_def split: if_splits option.splits)

lemma handle_all_reach: "mgr_reach m \<Longrightarrow> handle_all nodeId addr as (Some m) = Inr (Some m') \<Longrightarrow> mgr_reach m'"
proof (induction as arbitrary: m)
  case (Cons a as)
  obtain m1 where m1: "handleDiscovery nodeId a addr (Some m) = Inr (Some m1)"
    by (simp add: handleDiscovery_effect)
  then show ?case using Cons.IH [OF handleDiscovery_reach [OF Cons.prems(1) m1]] Cons.prems(2) by simp
qed simp

text \<open>
  C12. Discovery registers exactly the announced adapters that are missing: when a node receives the
  announcements another node has sent, in whatever order their goroutines run, an adapter is registered for
  each one of a supported type that does not announce the receiving node itself and whose address is not
  in use, with the announced address; connections that exist are left alone, and the manager stays in a
  state it can reach.
\<close>

theorem discovery_correct:
  assumes "cboring_lib L" "\<forall>a \<in> set as. wf_announcement a" "length as * 32 \<le> 2 ^ 48" "mgr_reach m"
    "\<forall>xs. set (schedule xs) = set xs"
  shows "\<exists>payload m'. MarshalAnnouncements L as = Inr payload \<and> notify L schedule nodeId addr payload (Some m) = Inr (Some m') \<and>
    mgr_reach m' \<and> GetSenders m' = GetSenders m \<and> GetReceivers m' = GetReceivers m \<and>
    set (mgr_registering m') = set (mgr_registering m) \<union>
      {c. \<exists>a \<in> set as. \<not> SameNode nodeId (an_Endpoint a) \<and> discovered_cla nodeId a addr = Some c \<and> \<not> checkPresent m c}"
proof -
  obtain payload where p: "MarshalAnnouncements L as = Inr payload" "UnmarshalAnnouncements L payload = Inr as"
    using announcements_sent [OF assms(1-3)] by blast
  let ?m' = "m\<lparr>mgr_registering := mgr_registering m @ List.map_filter (new_cla nodeId addr m) (schedule as)\<rparr>"
  have n: "handle_all nodeId addr (schedule as) (Some m) = Inr (Some ?m')" by (rule handle_all_effect)
  have "set (List.map_filter (new_cla nodeId addr m) (schedule as)) =
      {c. \<exists>a \<in> set as. \<not> SameNode nodeId (an_Endpoint a) \<and> discovered_cla nodeId a addr = Some c \<and> \<not> checkPresent m c}"
    using assms(5) by (simp add: set_map_filter_Some new_cla_Some)
  then show ?thesis using p n handle_all_reach [OF assms(4) n]
    by (intro exI [of _ payload] exI [of _ ?m']) (simp add: notify_def GetSenders_def GetReceivers_def)
qed

text \<open>A node that announces an MTCP server becomes a sender for its endpoint once its adapter is activated.\<close>

lemma discovered_peer_connects:
  assumes "discovered_cla nodeId a addr = Some c" "an_Type a = MTCP" "\<not> checkPresent m c"
  shows "c \<in> set (GetSenders (activateCLA True c (registerAsync c m))) \<and> cla_PeerEndpointID c = an_Endpoint a"
  using registration_correct [OF assms(3)] assms(1,2)
  by (auto simp: Let_def discovered_cla_def mtcp_cla_def NewMTCPClient_def)

definition example_announcement :: Announcement where
  "example_announcement = \<lparr>an_Type = MTCP, an_Endpoint = Some (Ipn \<lparr>Node = 1337, Service = 23\<rparr>), an_Port = 4556\<rparr>"

lemma example_announcement_few: "length [example_announcement] * 32 \<le> 2 ^ 48"
  by simp

theorem discovery_correct_witness:
  "\<exists>payload m' c. notify rfc8949 id DtnNone ''10.0.0.1'' payload (Some InitialiseCLAManager) = Inr (Some m') \<and>
     set (mgr_registering m') = {c} \<and> cla_Address c = ''10.0.0.1:4556''"
proof -
  let ?c = "mtcp_cla (NewMTCPClient ''10.0.0.1:4556'' (an_Endpoint example_announcement))"
  have wf: "\<forall>a \<in> set [example_announcement]. wf_announcement a"
    by (simp add: wf_announcement_def example_announcement_def wf_eid_def short_eid_def wf_ipn_def)
  have cla: "discovered_cla DtnNone example_announcement ''10.0.0.1'' = Some ?c"
    by (simp add: discovered_cla_def example_announcement_def) code_simp
  have other: "\<not> SameNode DtnNone (an_Endpoint example_announcement)" by code_simp
  have absent: "\<not> checkPresent InitialiseCLAManager ?c" by (simp add: checkPresent_def InitialiseCLAManager_def)
  obtain payload m' where n: "notify rfc8949 id DtnNone ''10.0.0.1'' payload (Some InitialiseCLAManager) = Inr (Some m')"
    "set (mgr_registering m') = set (mgr_registering InitialiseCLAManager) \<union>
       {c. \<exists>a \<in> set [example_announcement]. \<not> SameNode DtnNone (an_Endpoint a) \<and>
          discovered_cla DtnNone a ''10.0.0.1'' = Some c \<and> \<not> checkPresent InitialiseCLAManager c}"
    using discovery_correct [OF rfc.cboring_lib_axioms wf _ mgr_reach_init, where schedule = id and nodeId = DtnNone and addr = "''10.0.0.1''"]
    by (metis (no_types, lifting) id_apply example_announcement_few)
  have "set (mgr_registering m') = {?c}" unfolding n(2) using cla other absent by (auto simp: InitialiseCLAManager_def)
  moreover have "cla_Address ?c = ''10.0.0.1:4556''" by (simp add: mtcp_cla_def NewMTCPClient_def)
  ultimately show ?thesis using n(1) by blast
qed

text \<open>
  A single multicast packet ends the daemon: the length of the array is read from the packet and passed
  to \<open>make\<close>.
\<close>

lemma discovery_length_panics:
  assumes "cboring_lib L" "2 ^ 44 \<le> uint l"
  shows "notify L schedule nodeId addr (WriteArrayLength L l @ r) manager = Inl (Panic ''makeslice: len out of range'')"
  using assms(2) by (simp add: notify_def UnmarshalAnnouncements_def cboring_lib.read_array [OF assms(1)])

end
