(* ===== verification/Admin_Record.thy ===== *)
theory Admin_Record
  imports Bundle
begin

text \<open>
  Administrative records (\<open>pkg/bpv7/administrative_record.go\<close>,
  \<open>administrative_record_status_report.go\<close>): bundle status reports, their CBOR form, and the manager
  that reads and writes records by their type code.
\<close>

section \<open>Bundle status items\<close>

record BundleStatusItem =
  bsi_Asserted :: bool
  bsi_Time :: DtnTime
  bsi_StatusRequested :: bool

definition BundleStatusItem_MarshalCbor :: "cboring \<Rightarrow> BundleStatusItem \<Rightarrow> bytes" where
  "BundleStatusItem_MarshalCbor L bsi =
     (let arrLen = (if bsi_Asserted bsi \<and> bsi_StatusRequested bsi then 2 else 1)
      in WriteArrayLength L arrLen @ WriteBoolean L (bsi_Asserted bsi) @
         (if arrLen = 2 then WriteUInt L (bsi_Time bsi) else []))"

text \<open>The receiver is a fresh item, whose time is zero.\<close>

definition BundleStatusItem_UnmarshalCbor :: "cboring \<Rightarrow> bytes \<Rightarrow> (BundleStatusItem \<times> bytes) res" where
  "BundleStatusItem_UnmarshalCbor L r =
     bindR (ReadArrayLength L r) (\<lambda>(n, r).
     if n \<noteq> 1 \<and> n \<noteq> 2 then Inl (Errorf ''BundleStatusItem: Array's length is not 1 or 2'') else
     bindR (ReadBoolean L r) (\<lambda>(b, r).
     if n = 2
     then bindR (ReadUInt L r) (\<lambda>(t, r).
            Inr (\<lparr>bsi_Asserted = b, bsi_Time = t, bsi_StatusRequested = True\<rparr>, r))
     else Inr (\<lparr>bsi_Asserted = b, bsi_Time = 0, bsi_StatusRequested = False\<rparr>, r)))"

definition NewBundleStatusItem :: "bool \<Rightarrow> BundleStatusItem" where
  "NewBundleStatusItem asserted = \<lparr>bsi_Asserted = asserted, bsi_Time = DtnTimeEpoch, bsi_StatusRequested = False\<rparr>"

definition NewTimeReportingBundleStatusItem :: "DtnTime \<Rightarrow> BundleStatusItem" where
  "NewTimeReportingBundleStatusItem time = \<lparr>bsi_Asserted = True, bsi_Time = time, bsi_StatusRequested = True\<rparr>"

section \<open>Status reports\<close>

type_synonym StatusReportReason = u64

definition reason_names :: "string list" where
  "reason_names =
     [''No additional information'', ''Lifetime expired'', ''Forward over unidirectional link'',
      ''Transmission canceled'', ''Depleted storage'', ''Destination endpoint ID unintelligible'',
      ''No known route to destination from here'', ''No timely contact with next node on route'',
      ''Block unintelligible'', ''Hop limit exceeded'', ''Traffic pared'', ''Block unsupported'']"

definition StatusReportReason_String :: "StatusReportReason \<Rightarrow> string" where
  "StatusReportReason_String srr = (if srr < 12 then reason_names ! unat srr else ''unknown'')"

type_synonym StatusInformationPos = int

definition maxStatusInformationPos :: nat where "maxStatusInformationPos = 4"
definition ReceivedBundle :: StatusInformationPos where "ReceivedBundle = 0"
definition ForwardedBundle :: StatusInformationPos where "ForwardedBundle = 1"
definition DeliveredBundle :: StatusInformationPos where "DeliveredBundle = 2"
definition DeletedBundle :: StatusInformationPos where "DeletedBundle = 3"

definition StatusInformationPos_String :: "StatusInformationPos \<Rightarrow> string" where
  "StatusInformationPos_String sip =
     (if sip = ReceivedBundle then ''received bundle''
      else if sip = ForwardedBundle then ''forwarded bundle''
      else if sip = DeliveredBundle then ''delivered bundle''
      else if sip = DeletedBundle then ''deleted bundle''
      else ''unknown'')"

record StatusReport =
  sr_StatusInformation :: "BundleStatusItem list"
  sr_ReportReason :: StatusReportReason
  sr_RefBundle :: BundleID

definition NewStatusReport :: "Bundle \<Rightarrow> StatusInformationPos \<Rightarrow> StatusReportReason \<Rightarrow> DtnTime \<Rightarrow> StatusReport" where
  "NewStatusReport bndl statusItem reason time =
     \<lparr>sr_StatusInformation =
        map (\<lambda>i. if int i = statusItem \<and> BundleControlFlags_Has (pb_BundleControlFlags (bndl_PrimaryBlock bndl)) RequestStatusTime
                 then NewTimeReportingBundleStatusItem time
                 else if int i = statusItem then NewBundleStatusItem True
                 else NewBundleStatusItem False) [0..<maxStatusInformationPos],
      sr_ReportReason = reason, sr_RefBundle = Bundle_ID bndl\<rparr>"

definition StatusInformations :: "StatusReport \<Rightarrow> StatusInformationPos list" where
  "StatusInformations sr =
     map int (filter (\<lambda>i. bsi_Asserted (sr_StatusInformation sr ! i)) [0..<length (sr_StatusInformation sr)])"

definition StatusReport_MarshalCbor :: "cboring \<Rightarrow> StatusReport \<Rightarrow> bytes res" where
  "StatusReport_MarshalCbor L sr =
     bindR (mapErr (Wrapf ''Marshalling BundleID failed'') (BundleID_MarshalCbor L (sr_RefBundle sr))) (\<lambda>ref.
       Inr (WriteArrayLength L (2 + BundleID_Len (sr_RefBundle sr)) @
            WriteArrayLength L (of_nat (length (sr_StatusInformation sr))) @
            concat (map (BundleStatusItem_MarshalCbor L) (sr_StatusInformation sr)) @
            WriteUInt L (sr_ReportReason sr) @ ref))"

fun read_items :: "nat \<Rightarrow> cboring \<Rightarrow> bytes \<Rightarrow> (BundleStatusItem list \<times> bytes) res" where
  "read_items 0 L r = Inr ([], r)"
| "read_items (Suc n) L r =
     bindR (mapErr (Wrapf ''Unmarshalling BundleStatusItem failed'') (BundleStatusItem_UnmarshalCbor L r)) (\<lambda>(i, r).
     bindR (read_items n L r) (\<lambda>(is, r). Inr (i # is, r)))"

text \<open>
  \<open>make\<close> of a slice of items, 24 bytes each, panics when the length is negative as an \<open>int\<close> or the
  slice exceeds the address space of \<open>2^48\<close> bytes.
\<close>

definition make_items_ok :: "u64 \<Rightarrow> bool" where
  "make_items_ok n \<longleftrightarrow> uint n * 24 \<le> 2 ^ 48"

definition StatusReport_UnmarshalCbor :: "cboring \<Rightarrow> bytes \<Rightarrow> (StatusReport \<times> bytes) res" where
  "StatusReport_UnmarshalCbor L r =
     bindR (ReadArrayLength L r) (\<lambda>(n, r).
     if n \<noteq> 4 \<and> n \<noteq> 6 then Inl (Errorf ''Expected array of length 4 or 6'') else
     bindR (ReadArrayLength L r) (\<lambda>(k, r).
     if \<not> make_items_ok k then Inl (Panic ''makeslice: len out of range'') else
     bindR (read_items (unat k) L r) (\<lambda>(items, r).
     bindR (ReadUInt L r) (\<lambda>(reason, r).
     bindR (mapErr (Wrapf ''Unmarshalling BundleID failed'') (BundleID_UnmarshalCbor L (n = 6) r)) (\<lambda>(ref, r).
       Inr (\<lparr>sr_StatusInformation = items, sr_ReportReason = reason, sr_RefBundle = ref\<rparr>, r))))))"

section \<open>The manager\<close>

datatype AdministrativeRecord = AdminStatusReport StatusReport

datatype ar_kind = KStatusReport

type_synonym AdministrativeRecordManager = "u64 \<rightharpoonup> ar_kind"

definition AdminRecordTypeStatusReport :: u64 where "AdminRecordTypeStatusReport = 1"

fun RecordTypeCode :: "AdministrativeRecord \<Rightarrow> u64" where
  "RecordTypeCode (AdminStatusReport _) = AdminRecordTypeStatusReport"

fun ar_kind_of :: "AdministrativeRecord \<Rightarrow> ar_kind" where
  "ar_kind_of (AdminStatusReport _) = KStatusReport"

definition NewAdministrativeRecordManager :: AdministrativeRecordManager where
  "NewAdministrativeRecordManager = Map.empty"

definition arm_Register :: "AdministrativeRecord \<Rightarrow> AdministrativeRecordManager \<Rightarrow> err list \<times> AdministrativeRecordManager" where
  "arm_Register ar arm =
     (if arm (RecordTypeCode ar) \<noteq> None then ([Errorf ''record type code is already registered''], arm)
      else ([], arm(RecordTypeCode ar \<mapsto> ar_kind_of ar)))"

definition arm_Unregister :: "AdministrativeRecord \<Rightarrow> AdministrativeRecordManager \<Rightarrow> AdministrativeRecordManager" where
  "arm_Unregister ar arm = arm(RecordTypeCode ar := None)"

definition arm_IsKnown :: "u64 \<Rightarrow> AdministrativeRecordManager \<Rightarrow> bool" where
  "arm_IsKnown typeCode arm \<longleftrightarrow> arm typeCode \<noteq> None"

fun AdministrativeRecord_MarshalCbor :: "cboring \<Rightarrow> AdministrativeRecord \<Rightarrow> bytes res" where
  "AdministrativeRecord_MarshalCbor L (AdminStatusReport sr) = StatusReport_MarshalCbor L sr"

definition WriteAdministrativeRecord :: "cboring \<Rightarrow> AdministrativeRecord \<Rightarrow> bytes res" where
  "WriteAdministrativeRecord L ar =
     bindR (mapErr (Wrapf ''marshalling AdministrativeRecord erred'') (AdministrativeRecord_MarshalCbor L ar)) (\<lambda>bs.
       Inr (WriteArrayLength L 2 @ WriteUInt L (RecordTypeCode ar) @ bs))"

definition read_record :: "cboring \<Rightarrow> ar_kind \<Rightarrow> bytes \<Rightarrow> (AdministrativeRecord \<times> bytes) res" where
  "read_record L k r = (case k of
     KStatusReport \<Rightarrow> bindR (StatusReport_UnmarshalCbor L r) (\<lambda>(sr, r). Inr (AdminStatusReport sr, r)))"

text \<open>An error of the record's decoder is wrapped, a panic is not.\<close>

definition wrap_err :: "string \<Rightarrow> 'a res \<Rightarrow> 'a res" where
  "wrap_err s x = (case x of Inl e \<Rightarrow> Inl (if is_panic e then e else Wrapf s e) | Inr y \<Rightarrow> Inr y)"

definition ReadAdministrativeRecord ::
    "cboring \<Rightarrow> AdministrativeRecordManager \<Rightarrow> bytes \<Rightarrow> (AdministrativeRecord \<times> bytes) res" where
  "ReadAdministrativeRecord L arm r =
     bindR (ReadArrayLength L r) (\<lambda>(n, r).
     if n \<noteq> 2 then Inl (Errorf ''expected CBOR array of length 2'') else
     bindR (ReadUInt L r) (\<lambda>(typeCode, r).
     case arm typeCode of
       None \<Rightarrow> Inl (Errorf ''no AdministrativeRecord registered for record type code'')
     | Some k \<Rightarrow> wrap_err ''unmarshalling AdministrativeRecord failed'' (read_record L k r)))"

definition GetAdministrativeRecordManager :: AdministrativeRecordManager where
  "GetAdministrativeRecordManager =
     snd (arm_Register (AdminStatusReport \<lparr>sr_StatusInformation = [], sr_ReportReason = 0,
       sr_RefBundle = \<lparr>bid_SourceNode = None, bid_Timestamp = (0, 0), bid_IsFragment = False,
                       bid_FragmentOffset = 0, bid_TotalDataLength = 0\<rparr>\<rparr>) NewAdministrativeRecordManager)"

definition NewAdministrativeRecordFromCbor :: "cboring \<Rightarrow> bytes \<Rightarrow> AdministrativeRecord res" where
  "NewAdministrativeRecordFromCbor L data =
     bindR (ReadAdministrativeRecord L GetAdministrativeRecordManager data) (\<lambda>(ar, _). Inr ar)"

definition AdministrativeRecordToCbor :: "cboring \<Rightarrow> AdministrativeRecord \<Rightarrow> CanonicalBlock res" where
  "AdministrativeRecordToCbor L ar =
     bindR (WriteAdministrativeRecord L ar) (\<lambda>data. Inr (NewCanonicalBlock 1 0 (NewPayloadBlock data)))"

text \<open>\<open>AdministrativeRecord\<close> of a bundle. The assertion that its payload is a payload block panics on another value.\<close>

definition Bundle_AdministrativeRecord :: "cboring \<Rightarrow> Bundle \<Rightarrow> AdministrativeRecord res" where
  "Bundle_AdministrativeRecord L b =
     (if \<not> IsAdministrativeRecord b then Inl (Errorf ''bundle is not an administrative record'')
      else case bndl_PayloadBlock b of
        None \<Rightarrow> Inl nil_value
      | Some cb \<Rightarrow> (case cb_Value cb of
          PayloadBlock data \<Rightarrow> bindR (ReadAdministrativeRecord L GetAdministrativeRecordManager data) (\<lambda>(ar, _). Inr ar)
        | _ \<Rightarrow> Inl (Panic ''interface conversion: the payload is not a PayloadBlock'')))"

section \<open>Properties\<close>

text \<open>Items that survive encoding: a time is kept only where it is reported.\<close>

definition item_ok :: "BundleStatusItem \<Rightarrow> bool" where
  "item_ok bsi \<longleftrightarrow> (if bsi_StatusRequested bsi then bsi_Asserted bsi else bsi_Time bsi = 0)"

lemma NewStatusReport_items: "\<forall>i \<in> set (sr_StatusInformation (NewStatusReport b pos reason t)). item_ok i"
  by (auto simp: NewStatusReport_def item_ok_def NewBundleStatusItem_def NewTimeReportingBundleStatusItem_def DtnTimeEpoch_def)

lemma StatusInformations_New:
  "StatusInformations (NewStatusReport b pos reason t) = (if 0 \<le> pos \<and> pos < 4 then [pos] else [])"
proof -
  have u: "[0..<4] = [0, 1, 2, 3 :: nat]" by (simp add: upt_rec)
  have *: "bsi_Asserted (sr_StatusInformation (NewStatusReport b pos reason t) ! i) \<longleftrightarrow> int i = pos" if "i < 4" for i
    using that by (simp add: NewStatusReport_def NewBundleStatusItem_def NewTimeReportingBundleStatusItem_def maxStatusInformationPos_def)
  have "length (sr_StatusInformation (NewStatusReport b pos reason t)) = 4"
    by (simp add: NewStatusReport_def maxStatusInformationPos_def)
  then have "StatusInformations (NewStatusReport b pos reason t) = map int (filter (\<lambda>i. int i = pos) [0..<4])"
    unfolding StatusInformations_def using * by (intro arg_cong [where f = "map int"] filter_cong) auto
  then show ?thesis unfolding u by auto
qed

context cboring_lib
begin

lemma BundleStatusItem_roundtrip:
  "item_ok bsi \<Longrightarrow> BundleStatusItem_UnmarshalCbor L (BundleStatusItem_MarshalCbor L bsi @ r) = Inr (bsi, r)"
  by (cases bsi) (auto simp: item_ok_def BundleStatusItem_UnmarshalCbor_def BundleStatusItem_MarshalCbor_def cbor
      split: if_splits)

lemma read_items_roundtrip:
  "\<forall>i \<in> set is. item_ok i \<Longrightarrow>
   read_items (length is) L (concat (map (BundleStatusItem_MarshalCbor L) is) @ r) = Inr (is, r)"
  by (induction "is") (simp_all add: BundleStatusItem_roundtrip)

lemma StatusReport_roundtrip:
  assumes "wf_bid (sr_RefBundle sr)" "short_eid (bid_SourceNode (sr_RefBundle sr))"
    "\<forall>i \<in> set (sr_StatusInformation sr). item_ok i" "length (sr_StatusInformation sr) \<le> 10000"
  shows "\<exists>bs. StatusReport_MarshalCbor L sr = Inr bs \<and> (\<forall>r. StatusReport_UnmarshalCbor L (bs @ r) = Inr (sr, r))"
proof -
  obtain ref where ref: "BundleID_MarshalCbor L (sr_RefBundle sr) = Inr ref"
    "\<And>r. BundleID_UnmarshalCbor L (bid_IsFragment (sr_RefBundle sr)) (ref @ r) = Inr (sr_RefBundle sr, r)"
    using BundleID_roundtrip [OF assms(1,2)] by blast
  let ?n = "of_nat (length (sr_StatusInformation sr)) :: u64"
  have n: "unat ?n = length (sr_StatusInformation sr)" using assms(4) by (simp add: unat_of_nat)
  then have ok: "make_items_ok ?n" using assms(4) by (simp add: make_items_ok_def uint_nat)
  have frag: "(2 + BundleID_Len (sr_RefBundle sr) = 6) = bid_IsFragment (sr_RefBundle sr)"
    "2 + BundleID_Len (sr_RefBundle sr) \<noteq> 4 \<longrightarrow> 2 + BundleID_Len (sr_RefBundle sr) = 6" by (simp_all add: BundleID_Len_def)
  have "StatusReport_UnmarshalCbor L ((WriteArrayLength L (2 + BundleID_Len (sr_RefBundle sr)) @ WriteArrayLength L ?n @
      concat (map (BundleStatusItem_MarshalCbor L) (sr_StatusInformation sr)) @ WriteUInt L (sr_ReportReason sr) @ ref) @ r) = Inr (sr, r)" for r
    using frag by (auto simp: StatusReport_UnmarshalCbor_def cbor ok n read_items_roundtrip [OF assms(3)] ref(2))
  then show ?thesis using ref(1) by (simp add: StatusReport_MarshalCbor_def)
qed

end

lemma record_type_codes [simp]:
  "GetAdministrativeRecordManager AdminRecordTypeStatusReport = Some KStatusReport"
  by (simp add: GetAdministrativeRecordManager_def arm_Register_def NewAdministrativeRecordManager_def)

section \<open>Correctness\<close>

text \<open>
  C36. Status reports survive encoding: the report about a bundle, written as an administrative record and
  read again, is the same report, and it asserts exactly the status it was created for.
\<close>

theorem status_report_roundtrip:
  assumes "cboring_lib L" "wf_bid (Bundle_ID b)" "short_eid (bid_SourceNode (Bundle_ID b))"
  shows "\<exists>bs. WriteAdministrativeRecord L (AdminStatusReport (NewStatusReport b pos reason t)) = Inr bs \<and>
    NewAdministrativeRecordFromCbor L bs = Inr (AdminStatusReport (NewStatusReport b pos reason t)) \<and>
    StatusInformations (NewStatusReport b pos reason t) = (if 0 \<le> pos \<and> pos < 4 then [pos] else [])"
proof -
  let ?sr = "NewStatusReport b pos reason t"
  have "sr_RefBundle ?sr = Bundle_ID b" "length (sr_StatusInformation ?sr) \<le> 10000"
    by (simp_all add: NewStatusReport_def maxStatusInformationPos_def)
  then obtain bs where bs: "StatusReport_MarshalCbor L ?sr = Inr bs" "\<And>r. StatusReport_UnmarshalCbor L (bs @ r) = Inr (?sr, r)"
    using cboring_lib.StatusReport_roundtrip [OF assms(1), of ?sr] assms(2,3) NewStatusReport_items by auto
  have "NewAdministrativeRecordFromCbor L (WriteArrayLength L 2 @ WriteUInt L AdminRecordTypeStatusReport @ bs) = Inr (AdminStatusReport ?sr)"
    using bs(2) [of "[]"] by (simp add: NewAdministrativeRecordFromCbor_def ReadAdministrativeRecord_def read_record_def
        wrap_err_def cboring_lib.read_array [OF assms(1)] cboring_lib.read_uint [OF assms(1)])
  then show ?thesis using bs(1) StatusInformations_New by (simp add: WriteAdministrativeRecord_def)
qed

theorem status_report_roundtrip_witness:
  "\<exists>bs. WriteAdministrativeRecord rfc8949 (AdminStatusReport (NewStatusReport example_bundle DeliveredBundle 0 5)) = Inr bs \<and>
     NewAdministrativeRecordFromCbor rfc8949 bs = Inr (AdminStatusReport (NewStatusReport example_bundle DeliveredBundle 0 5))"
proof -
  have "wf_bid (Bundle_ID example_bundle)" "short_eid (bid_SourceNode (Bundle_ID example_bundle))"
    by (simp_all add: wf_bid_def Bundle_ID_def example_bundle_def example_primary_def wf_eid_def wf_ipn_def short_eid_def
        Has_bit_simps)
  from status_report_roundtrip [OF rfc.cboring_lib_axioms this, of DeliveredBundle 0 5] show ?thesis by blast
qed

text \<open>The record a bundle was built from is the record it is read as, provided that its flag is set.\<close>

lemma Bundle_AdministrativeRecord_payload:
  assumes "AdministrativeRecordToCbor L ar = Inr cb" "bndl_PayloadBlock b = Some cb" "IsAdministrativeRecord b"
    "\<And>bs. WriteAdministrativeRecord L ar = Inr bs \<Longrightarrow> NewAdministrativeRecordFromCbor L bs = Inr ar"
  shows "Bundle_AdministrativeRecord L b = Inr ar"
  using assms by (auto simp: Bundle_AdministrativeRecord_def AdministrativeRecordToCbor_def NewAdministrativeRecordFromCbor_def
      NewCanonicalBlock_def bindR_Inr_iff)

text \<open>
  A report whose array of status items claims more elements than fit into memory crashes the decoder,
  before any of them is read.
\<close>

lemma status_report_length_panics:
  assumes "cboring_lib L" "2 ^ 45 \<le> uint k"
  shows "StatusReport_UnmarshalCbor L (WriteArrayLength L 4 @ WriteArrayLength L k @ r) =
    Inl (Panic ''makeslice: len out of range'')"
  using assms(2) by (simp add: StatusReport_UnmarshalCbor_def make_items_ok_def cboring_lib.read_array [OF assms(1)])

end
