(* ===== verification/Go_Duration.thy ===== *)
theory Go_Duration
  imports Prelude
begin

text \<open>
  The part of Go's \<open>time\<close> package and of its floating-point arithmetic that the bundle builder uses:
  \<open>time.ParseDuration\<close>, the sign of a \<open>float64\<close> and its conversion to \<open>uint64\<close>. A \<open>float64\<close> is its
  64 bits (\<open>math.Float64bits\<close>). What the conversion of a value outside of \<open>uint64\<close> gives is left open
  by the language and is a parameter.
\<close>

section \<open>Floating-point numbers\<close>

definition f64_exponent :: "u64 \<Rightarrow> nat" where
  "f64_exponent b = unat (drop_bit 52 b AND 0x7FF)"

definition f64_fraction :: "u64 \<Rightarrow> nat" where
  "f64_fraction b = unat (b AND 0xFFFFFFFFFFFFF)"

definition f64_is_nan :: "u64 \<Rightarrow> bool" where
  "f64_is_nan b \<longleftrightarrow> f64_exponent b = 2047 \<and> f64_fraction b \<noteq> 0"

text \<open>The comparison with zero: minus zero is not below zero, nor is a NaN.\<close>

definition f64_negative :: "u64 \<Rightarrow> bool" where
  "f64_negative b \<longleftrightarrow> 0x8000000000000000 \<le> b \<and> b \<noteq> 0x8000000000000000 \<and> \<not> f64_is_nan b"

text \<open>The magnitude without its fractional part.\<close>

definition f64_trunc :: "u64 \<Rightarrow> nat" where
  "f64_trunc b =
     (let e = f64_exponent b; m = 4503599627370496 + f64_fraction b
      in if e = 0 then 0 else if 1075 \<le> e then m * 2 ^ (e - 1075) else m div 2 ^ (1075 - e))"

definition f64_to_uint64 :: "(u64 \<Rightarrow> u64) \<Rightarrow> u64 \<Rightarrow> u64" where
  "f64_to_uint64 conv b =
     (if f64_exponent b = 2047 \<or> 18446744073709551616 \<le> f64_trunc b then conv b else of_nat (f64_trunc b))"

text \<open>The number of binary digits, and rounding of a positive fraction \<open>p / q\<close> to 53 of them, to even on ties.\<close>

fun bit_length :: "nat \<Rightarrow> nat" where
  "bit_length n = (if n = 0 then 0 else Suc (bit_length (n div 2)))"

declare bit_length.simps [simp del]

definition f64_round :: "nat \<Rightarrow> nat \<Rightarrow> nat \<times> nat" where
  "f64_round p q =
     (let k = int (bit_length p) - int (bit_length q);
          e = (if q * 2 ^ nat k \<le> p * 2 ^ nat (- k) then k else k - 1) - 52;
          num = p * 2 ^ nat (- e); den = q * 2 ^ nat e;
          m = num div den; r = num mod den;
          m' = (if den < 2 * r \<or> (den = 2 * r \<and> odd m) then m + 1 else m)
      in (m' * 2 ^ nat e, 2 ^ nat (- e)))"

text \<open>\<open>uint64(float64(f) * (float64(unit) / scale))\<close> for the fraction of a duration.\<close>

definition f64_scale :: "nat \<Rightarrow> nat \<Rightarrow> nat \<Rightarrow> nat" where
  "f64_scale f unit scale =
     (case f64_round f 1 of (fn, fd) \<Rightarrow> case f64_round unit scale of (un, ud) \<Rightarrow>
      case f64_round (fn * un) (fd * ud) of (n, d) \<Rightarrow> n div d)"

section \<open>Durations\<close>

definition max_digits :: nat where "max_digits = 9223372036854775808"

definition err_duration :: err where "err_duration = Errorf ''time: invalid duration''"

fun leadingInt :: "nat \<Rightarrow> string \<Rightarrow> (nat \<times> string) res" where
  "leadingInt x [] = Inr (x, [])"
| "leadingInt x (c # s) =
     (if \<not> is_digit c then Inr (x, c # s)
      else if max_digits div 10 < x then Inl err_duration
      else if max_digits < x * 10 + digit_val c then Inl err_duration
      else leadingInt (x * 10 + digit_val c) s)"

fun leadingFraction :: "bool \<Rightarrow> nat \<Rightarrow> nat \<Rightarrow> string \<Rightarrow> nat \<times> nat \<times> string" where
  "leadingFraction overflow x scale [] = (x, scale, [])"
| "leadingFraction overflow x scale (c # s) =
     (if \<not> is_digit c then (x, scale, c # s)
      else if overflow \<or> (max_digits - 1) div 10 < x \<or> max_digits < x * 10 + digit_val c
      then leadingFraction True x scale s
      else leadingFraction False (x * 10 + digit_val c) (scale * 10) s)"

definition unitMap :: "(string \<times> nat) list" where
  "unitMap =
     [(''ns'', 1), (''us'', 1000), ([CHR 0xC2, CHR 0xB5, CHR ''s''], 1000), ([CHR 0xCE, CHR 0xBC, CHR ''s''], 1000),
      (''ms'', 1000000), (''s'', 1000000000), (''m'', 60000000000), (''h'', 3600000000000)]"

definition unit_char :: "char \<Rightarrow> bool" where
  "unit_char c \<longleftrightarrow> c \<noteq> CHR ''.'' \<and> \<not> is_digit c"

text \<open>The optional fractional part: digits, their scale, the rest, and whether there were digits.\<close>

definition fraction_part :: "string \<Rightarrow> nat \<times> nat \<times> string \<times> bool" where
  "fraction_part s =
     (if s \<noteq> [] \<and> hd s = CHR ''.''
      then (case leadingFraction False 0 1 (tl s) of (f, scale, s') \<Rightarrow> (f, scale, s', length (tl s) \<noteq> length s'))
      else (0, 1, s, False))"

text \<open>The value of a number with its unit, in nanoseconds.\<close>

definition unit_value :: "nat \<Rightarrow> nat \<Rightarrow> nat \<Rightarrow> string \<Rightarrow> nat res" where
  "unit_value v f scale u =
     (if u = [] then Inl (Errorf ''time: missing unit in duration'')
      else case map_of unitMap u of
        None \<Rightarrow> Inl (Errorf ''time: unknown unit in duration'')
      | Some unit \<Rightarrow>
          if max_digits div unit < v then Inl err_duration
          else let v' = v * unit + (if 0 < f then f64_scale f unit scale else 0)
               in if 0 < f \<and> max_digits < v' then Inl err_duration else Inr v')"

text \<open>One round of the loop.\<close>

definition duration_part :: "string \<Rightarrow> (nat \<times> string) res" where
  "duration_part s =
     (if s = [] \<or> unit_char (hd s) then Inl err_duration else
      bindR (leadingInt 0 s) (\<lambda>(v, s1).
      case fraction_part s1 of (f, scale, s2, post) \<Rightarrow>
      if length s = length s1 \<and> \<not> post then Inl err_duration
      else bindR (unit_value v f scale (takeWhile unit_char s2)) (\<lambda>v'. Inr (v', dropWhile unit_char s2))))"

lemma leadingInt_length: "leadingInt x s = Inr (v, s') \<Longrightarrow> length s' \<le> length s"
  by (induction x s arbitrary: v s' rule: leadingInt.induct) (auto split: if_splits intro: le_SucI)

lemma leadingFraction_length: "leadingFraction ov x sc s = (f, sc', s') \<Longrightarrow> length s' \<le> length s"
  by (induction ov x sc s arbitrary: f sc' s' rule: leadingFraction.induct)
     (auto split: if_splits intro: le_SucI)

lemma fraction_part_length: "fraction_part s = (f, sc, s', p) \<Longrightarrow> length s' \<le> length s"
  by (cases s) (auto simp: fraction_part_def split: if_splits prod.splits dest: leadingFraction_length)

lemma dropWhile_shorter: "takeWhile P t \<noteq> [] \<Longrightarrow> length (dropWhile P t) < length t"
  by (cases t) (auto simp: le_imp_less_Suc length_dropWhile_le split: if_splits)

lemma duration_part_length:
  assumes "duration_part s = Inr (v, s')"
  shows "length s' < length s"
proof -
  obtain a s1 where 1: "leadingInt 0 s = Inr (a, s1)"
    using assms by (auto simp: duration_part_def bindR_Inr_iff split: if_splits)
  obtain f sc s2 p where 2: "fraction_part s1 = (f, sc, s2, p)" by (metis prod_cases4)
  have 3: "unit_value a f sc (takeWhile unit_char s2) = Inr v" "s' = dropWhile unit_char s2"
    using assms by (auto simp: duration_part_def 1 2 bindR_Inr_iff split: if_splits)
  from 3(1) have "takeWhile unit_char s2 \<noteq> []" by (auto simp: unit_value_def)
  then show ?thesis
    using leadingInt_length [OF 1] fraction_part_length [OF 2] dropWhile_shorter [of unit_char s2] 3(2) by simp
qed

function durations :: "nat \<Rightarrow> string \<Rightarrow> nat res" where
  "durations d s =
     (if s = [] then Inr d
      else case duration_part s of
             Inl e \<Rightarrow> Inl e
           | Inr (v, s') \<Rightarrow> if max_digits < d + v then Inl err_duration else durations (d + v) s')"
  by pat_completeness auto

termination
  by (relation "measure (length \<circ> snd)") (auto dest: duration_part_length)

declare durations.simps [simp del]

text \<open>\<open>time.ParseDuration\<close>, in nanoseconds; the \<open>int64\<close> negation of \<open>2^63\<close> is itself.\<close>

definition ParseDuration :: "string \<Rightarrow> int res" where
  "ParseDuration s =
     (let neg = (s \<noteq> [] \<and> hd s = CHR ''-'');
          s = (if s \<noteq> [] \<and> (hd s = CHR ''-'' \<or> hd s = CHR ''+'') then tl s else s)
      in if s = ''0'' then Inr 0
         else if s = [] then Inl err_duration
         else bindR (durations 0 s) (\<lambda>d.
           if neg then Inr (- int d)
           else if max_digits - 1 < d then Inl err_duration
           else Inr (int d)))"

section \<open>Properties\<close>

lemma leadingInt_digits:
  assumes "\<forall>c \<in> set ds. is_digit c" "parse_digits x ds = Inr n" "n \<le> max_digits" "s = [] \<or> \<not> is_digit (hd s)"
  shows "leadingInt x (ds @ s) = Inr (n, s)"
  using assms
proof (induction ds arbitrary: x)
  case Nil
  then show ?case by (cases s) auto
next
  case (Cons c ds)
  let ?y = "x * 10 + digit_val c"
  have p: "parse_digits ?y ds = Inr n" and c: "is_digit c" using Cons.prems(1,2) by (auto split: if_splits)
  have mono: "y \<le> m" if "parse_digits y zs = Inr m" for y zs m
    using that by (induction zs arbitrary: y) (fastforce split: if_splits)+
  have "?y \<le> max_digits" using mono [OF p] Cons.prems(3) by linarith
  then have "x \<le> max_digits div 10" by (simp add: max_digits_def)
  then show ?case using Cons.IH [of ?y] Cons.prems \<open>?y \<le> max_digits\<close> p c by simp
qed

text \<open>A decimal number followed by a unit is read as that many units.\<close>

lemma ParseDuration_unit:
  assumes "map_of unitMap u = Some unit" "n * unit < max_digits" "0 < unit" "n < 2 ^ 64"
    "u \<noteq> []" "list_all unit_char u" "hd u \<noteq> CHR ''.''"
  shows "ParseDuration (dec n @ u) = Inr (int (n * unit))"
proof -
  have digits: "\<forall>c \<in> set (dec n). is_digit c" using dec_digits by blast
  obtain c cs where dn: "dec n = c # cs" using dec_nonempty [of n] by (cases "dec n") auto
  have c: "is_digit c" using digits dn by simp
  have nosign: "c \<noteq> CHR ''-''" "c \<noteq> CHR ''+''" using c by (auto simp: is_digit_def)
  have u: "\<not> is_digit (hd u)" "takeWhile unit_char u = u" "dropWhile unit_char u = []"
    using assms(5,6) by (auto simp: unit_char_def neq_Nil_conv takeWhile_eq_all_conv dropWhile_eq_Nil_conv list_all_iff)
  have n: "n \<le> max_digits div unit" using assms(2,3) by (simp add: less_eq_div_iff_mult_less_eq)
  then have "n \<le> max_digits" using div_le_dividend le_trans by blast
  then have "leadingInt 0 (dec n @ u) = Inr (n, u)"
    using leadingInt_digits [OF digits parse_digits_dec [OF assms(4)]] u(1) by simp
  moreover have "fraction_part u = (0, 1, u, False)" using assms(7) by (simp add: fraction_part_def)
  moreover have "unit_value n 0 1 u = Inr (n * unit)" using assms(1,5) n by (simp add: unit_value_def not_less)
  ultimately have "duration_part (dec n @ u) = Inr (n * unit, [])"
    using c unfolding dn by (simp add: duration_part_def unit_char_def [of c] u del: leadingInt.simps)
  then have "durations 0 (dec n @ u) = Inr (n * unit)"
    using assms(2) by (subst durations.simps) (simp add: durations.simps [of _ "[]"] dn)
  moreover have "dec n @ u \<noteq> ''0''" using assms(5) dn by auto
  ultimately show ?thesis using assms(2,5) nosign by (simp add: ParseDuration_def Let_def dn not_less)
qed

lemma ParseDuration_hours: "ParseDuration ''1h'' = Inr 3600000000000" "ParseDuration ''24h'' = Inr 86400000000000"
proof -
  have d: "dec 1 = ''1''" "dec 24 = ''24''" by (simp add: dec.simps digit_char_def, code_simp)+
  have u: "map_of unitMap ''h'' = Some 3600000000000" "list_all unit_char ''h''"
    by (simp_all add: unitMap_def unit_char_def is_digit_def)
  show "ParseDuration ''1h'' = Inr 3600000000000" "ParseDuration ''24h'' = Inr 86400000000000"
    using ParseDuration_unit [OF u(1), of 1] ParseDuration_unit [OF u(1), of 24] u(2) by (simp_all add: max_digits_def d d(1) [simplified])
qed

end
