(* ===== verification/Builder.thy ===== *)
theory Builder
  imports Admin_Record Go_Duration
begin

text \<open>
  The bundle builder (\<open>pkg/bpv7/bundle_builder.go\<close>). A builder is the state its chained methods
  update; the first error sticks and turns the later methods into no-ops. An argument of type
  \<open>interface{}\<close> is a value of \<open>arg\<close>, whose constructors are the dynamic types the methods distinguish and
  those the decoders of the application agents produce. Methods that index their argument list can
  panic and return \<open>BundleBuilder res\<close>. The conversion of floating-point numbers outside of
  \<open>uint64\<close> is the parameter \<open>conv\<close>; the current time is an argument of the methods that read the clock.
\<close>

section \<open>The builder\<close>

datatype arg =
    ArgNil
  | ArgBool bool
  | ArgInt int
  | ArgUint64 u64
  | ArgSized nat int
  | ArgFloat64 u64
  | ArgString string
  | ArgBytes bytes
  | ArgDuration int
  | ArgTime time
  | ArgEndpointID EndpointID
  | ArgBlockFlags BlockControlFlags
  | ArgExtensionBlock ExtensionBlock
  | ArgCanonicalBlock CanonicalBlock
  | ArgBundle Bundle
  | ArgPos StatusInformationPos
  | ArgReason StatusReportReason
  | ArgDtnTime DtnTime
  | ArgSlice "arg list"
  | ArgMap

record BundleBuilder =
  bldr_err :: "err option"
  bldr_primary :: PrimaryBlock
  bldr_canonicals :: "CanonicalBlock list"
  bldr_canonicalCounter :: u64
  bldr_payload :: "CanonicalBlock option"
  bldr_crcType :: CRCType

definition Builder :: BundleBuilder where
  "Builder =
     \<lparr>bldr_err = None,
      bldr_primary =
        \<lparr>pb_Version = dtnVersion, pb_BundleControlFlags = 0, pb_CRCType = CRCNo, pb_Destination = None,
         pb_SourceNode = None, pb_ReportTo = None, pb_CreationTimestamp = (0, 0), pb_Lifetime = 0,
         pb_FragmentOffset = 0, pb_TotalDataLength = 0, pb_CRC = []\<rparr>,
      bldr_canonicals = [], bldr_canonicalCounter = 2, bldr_payload = None, bldr_crcType = CRCNo\<rparr>"

definition set_err :: "err \<Rightarrow> BundleBuilder \<Rightarrow> BundleBuilder" where
  "set_err e bldr = bldr\<lparr>bldr_err := Some e\<rparr>"

definition set_primary :: "(PrimaryBlock \<Rightarrow> PrimaryBlock) \<Rightarrow> BundleBuilder \<Rightarrow> BundleBuilder" where
  "set_primary f bldr = bldr\<lparr>bldr_primary := f (bldr_primary bldr)\<rparr>"

definition Builder_CRC :: "CRCType \<Rightarrow> BundleBuilder \<Rightarrow> BundleBuilder" where
  "Builder_CRC crcType bldr = (if bldr_err bldr = None then bldr\<lparr>bldr_crcType := crcType\<rparr> else bldr)"

definition Builder_Build :: "cboring \<Rightarrow> time \<Rightarrow> BundleBuilder \<Rightarrow> Bundle res" where
  "Builder_Build L now bldr =
     (case bldr_err bldr of Some e \<Rightarrow> Inl e | None \<Rightarrow>
      let primary = (bldr_primary bldr)\<lparr>pb_ReportTo :=
            (if pb_ReportTo (bldr_primary bldr) = None then pb_SourceNode (bldr_primary bldr)
             else pb_ReportTo (bldr_primary bldr))\<rparr>
      in if pb_SourceNode primary = None \<or> pb_Destination primary = None
         then Inl (Errorf ''both Source and Destination must be set'')
         else bindR (NewBundle now primary (bldr_canonicals bldr) (bldr_payload bldr)) (\<lambda>(bndl, errs).
           if errs = [] then Inr (Bundle_SetCRCType L (bldr_crcType bldr) bndl) else Inl (Multi errs)))"

definition Builder_mustBuild :: "cboring \<Rightarrow> time \<Rightarrow> BundleBuilder \<Rightarrow> Bundle res" where
  "Builder_mustBuild L now bldr = mapErr (\<lambda>_. Panic ''mustBuild'') (Builder_Build L now bldr)"

section \<open>Helper functions\<close>

definition bldrParseEndpoint :: "arg \<Rightarrow> EndpointID res" where
  "bldrParseEndpoint eid = (case eid of
     ArgEndpointID e \<Rightarrow> Inr e
   | ArgString s \<Rightarrow> NewEndpointID s
   | _ \<Rightarrow> Inl (Errorf ''neither an EndpointID nor a string''))"

definition bldrParseLifetime :: "(u64 \<Rightarrow> u64) \<Rightarrow> arg \<Rightarrow> u64 res" where
  "bldrParseLifetime conv duration = (case duration of
     ArgUint64 n \<Rightarrow> Inr n
   | ArgInt n \<Rightarrow> if n < 0 then Inl (Errorf ''lifetime's duration <= 0'') else Inr (u64_of_int n)
   | ArgFloat64 x \<Rightarrow> if f64_negative x then Inl (Errorf ''lifetime's duration <= 0'') else Inr (f64_to_uint64 conv x)
   | ArgString s \<Rightarrow> bindR (ParseDuration s) (\<lambda>dur.
       if dur \<le> 0 then Inl (Errorf ''lifetime's duration <= 0'') else Inr (u64_of_int (quot dur 1000000)))
   | ArgDuration dur \<Rightarrow> Inr (u64_of_int (quot dur 1000000))
   | _ \<Rightarrow> Inl (Errorf ''unsupported type to parse a Duration from''))"

section \<open>Methods for the primary block\<close>

definition Builder_Destination :: "arg \<Rightarrow> BundleBuilder \<Rightarrow> BundleBuilder" where
  "Builder_Destination eid bldr =
     (if bldr_err bldr \<noteq> None then bldr
      else case bldrParseEndpoint eid of
             Inl e \<Rightarrow> set_err e bldr
           | Inr e \<Rightarrow> set_primary (pb_Destination_update (\<lambda>_. e)) bldr)"

definition Builder_Source :: "arg \<Rightarrow> BundleBuilder \<Rightarrow> BundleBuilder" where
  "Builder_Source eid bldr =
     (if bldr_err bldr \<noteq> None then bldr
      else case bldrParseEndpoint eid of
             Inl e \<Rightarrow> set_err e bldr
           | Inr e \<Rightarrow> set_primary (pb_SourceNode_update (\<lambda>_. e)) bldr)"

definition Builder_ReportTo :: "arg \<Rightarrow> BundleBuilder \<Rightarrow> BundleBuilder" where
  "Builder_ReportTo eid bldr =
     (if bldr_err bldr \<noteq> None then bldr
      else case bldrParseEndpoint eid of
             Inl e \<Rightarrow> set_err e bldr
           | Inr e \<Rightarrow> set_primary (pb_ReportTo_update (\<lambda>_. e)) bldr)"

definition Builder_creationTimestamp :: "DtnTime \<Rightarrow> BundleBuilder \<Rightarrow> BundleBuilder" where
  "Builder_creationTimestamp t bldr =
     (if bldr_err bldr = None
      then set_primary (pb_CreationTimestamp_update (\<lambda>_. NewCreationTimestamp t 0)) bldr else bldr)"

definition Builder_CreationTimestampEpoch :: "BundleBuilder \<Rightarrow> BundleBuilder" where
  "Builder_CreationTimestampEpoch bldr = Builder_creationTimestamp DtnTimeEpoch bldr"

definition Builder_CreationTimestampNow :: "time \<Rightarrow> BundleBuilder \<Rightarrow> BundleBuilder" where
  "Builder_CreationTimestampNow now bldr = Builder_creationTimestamp (DtnTimeFromTime now) bldr"

definition Builder_CreationTimestampTime :: "time \<Rightarrow> BundleBuilder \<Rightarrow> BundleBuilder" where
  "Builder_CreationTimestampTime t bldr = Builder_creationTimestamp (DtnTimeFromTime t) bldr"

definition Builder_Lifetime :: "(u64 \<Rightarrow> u64) \<Rightarrow> arg \<Rightarrow> BundleBuilder \<Rightarrow> BundleBuilder" where
  "Builder_Lifetime conv duration bldr =
     (if bldr_err bldr \<noteq> None then bldr
      else case bldrParseLifetime conv duration of
             Inl e \<Rightarrow> set_err e bldr
           | Inr us \<Rightarrow> set_primary (pb_Lifetime_update (\<lambda>_. us)) bldr)"

definition Builder_BundleCtrlFlags :: "BundleControlFlags \<Rightarrow> BundleBuilder \<Rightarrow> BundleBuilder" where
  "Builder_BundleCtrlFlags bcf bldr =
     (if bldr_err bldr = None then set_primary (pb_BundleControlFlags_update (\<lambda>_. bcf)) bldr else bldr)"

section \<open>Methods for the other blocks\<close>

text \<open>The payload block gets number 1, every other block the next number of the counter.\<close>

definition add_canonical :: "CanonicalBlock \<Rightarrow> BundleBuilder \<Rightarrow> BundleBuilder" where
  "add_canonical cb bldr =
     (if TypeCode cb = BlockTypePayloadBlock then bldr\<lparr>bldr_payload := Some (cb\<lparr>cb_BlockNumber := 1\<rparr>)\<rparr>
      else bldr\<lparr>bldr_canonicalCounter := bldr_canonicalCounter bldr + 1,
                bldr_canonicals := bldr_canonicals bldr @ [cb\<lparr>cb_BlockNumber := bldr_canonicalCounter bldr\<rparr>]\<rparr>)"

definition Builder_Canonical :: "arg list \<Rightarrow> BundleBuilder \<Rightarrow> BundleBuilder" where
  "Builder_Canonical args bldr =
     (if bldr_err bldr \<noteq> None then bldr else
      case args of
        [] \<Rightarrow> set_err (Errorf ''canonical was called with no parameters'') bldr
      | ArgExtensionBlock data # rest \<Rightarrow>
          (case rest of
             [] \<Rightarrow> add_canonical (NewCanonicalBlock 0 0 data) bldr
           | [ArgBlockFlags flags] \<Rightarrow> add_canonical (NewCanonicalBlock 0 flags data) bldr
           | [_] \<Rightarrow> set_err (Errorf ''Canonical received wrong parameter types'') bldr
           | _ \<Rightarrow> set_err (Errorf ''Canonical was called with neither one nor two parameters'') bldr)
      | ArgCanonicalBlock cb # _ \<Rightarrow> add_canonical cb bldr
      | _ \<Rightarrow> set_err (Errorf ''canonicals received unknown type'') bldr)"

definition canonicalParseFlags :: "arg list \<Rightarrow> BundleBuilder \<Rightarrow> BlockControlFlags \<times> BundleBuilder" where
  "canonicalParseFlags args bldr =
     (if length args = 2
      then (case args ! 1 of
              ArgBlockFlags flags \<Rightarrow> (flags, bldr)
            | _ \<Rightarrow> (0, set_err (Errorf ''second parameter are no BlockControlFlags'') bldr))
      else (0, bldr))"

definition index_panic :: err where "index_panic = Panic ''index out of range''"

text \<open>
  The calls of \<open>canonicalParseFlags(args)\<close> pass the slice itself, without \<open>...\<close>: the callee receives
  one argument, the slice.
\<close>

definition Builder_BundleAgeBlock :: "(u64 \<Rightarrow> u64) \<Rightarrow> arg list \<Rightarrow> BundleBuilder \<Rightarrow> BundleBuilder res" where
  "Builder_BundleAgeBlock conv args bldr =
     (if bldr_err bldr \<noteq> None then Inr bldr else
      case args of [] \<Rightarrow> Inl index_panic | a # _ \<Rightarrow>
      let (ms, bldr) = (case bldrParseLifetime conv a of Inl e \<Rightarrow> (0, set_err e bldr) | Inr ms \<Rightarrow> (ms, bldr));
          (flags, bldr) = canonicalParseFlags [ArgSlice args] bldr
      in Inr (Builder_Canonical [ArgExtensionBlock (NewBundleAgeBlock ms), ArgBlockFlags (flags OR ReplicateBlock)] bldr))"

definition Builder_HopCountBlock :: "arg list \<Rightarrow> BundleBuilder \<Rightarrow> BundleBuilder res" where
  "Builder_HopCountBlock args bldr =
     (if bldr_err bldr \<noteq> None then Inr bldr else
      case args of [] \<Rightarrow> Inl index_panic | a # _ \<Rightarrow>
      let (limit, bldr) = (case a of ArgInt n \<Rightarrow> (n, bldr)
            | _ \<Rightarrow> (0, set_err (Errorf ''HopCountBlock received wrong parameter type'') bldr));
          (flags, bldr) = canonicalParseFlags [ArgSlice args] bldr
      in Inr (Builder_Canonical [ArgExtensionBlock (NewHopCountBlock (word_of_int limit)),
                                 ArgBlockFlags (flags OR ReplicateBlock)] bldr))"

text \<open>
  \<open>binary.Write\<close> in little-endian order: values of fixed size, and pointers to them. Everything else is
  an error, whose text names the dynamic type; nil has none, and asking for it panics.
\<close>

definition le_bytes :: "nat \<Rightarrow> int \<Rightarrow> bytes" where
  "le_bytes k n = map (\<lambda>i. word_of_int (n div 256 ^ i)) [0..<k]"

definition not_fixed_size :: err where "not_fixed_size = Errorf ''binary.Write: some values are not fixed-sized in type''"

definition binary_Write :: "arg \<Rightarrow> bytes res" where
  "binary_Write a = (case a of
     ArgNil \<Rightarrow> Inl (Panic ''nil pointer dereference: reflect.TypeOf(nil)'')
   | ArgBool v \<Rightarrow> Inr [if v then 1 else 0]
   | ArgUint64 n \<Rightarrow> Inr (le_bytes 8 (uint n))
   | ArgSized k n \<Rightarrow> Inr (le_bytes k n)
   | ArgFloat64 x \<Rightarrow> Inr (le_bytes 8 (uint x))
   | ArgBytes bs \<Rightarrow> Inr bs
   | ArgDuration d \<Rightarrow> Inr (le_bytes 8 d)
   | ArgBlockFlags f \<Rightarrow> Inr (le_bytes 8 (uint f))
   | ArgReason r \<Rightarrow> Inr (le_bytes 8 (uint r))
   | ArgDtnTime t \<Rightarrow> Inr (le_bytes 8 (uint t))
   | ArgExtensionBlock (PayloadBlock bs) \<Rightarrow> Inr bs
   | ArgExtensionBlock (BundleAgeBlock n) \<Rightarrow> Inr (le_bytes 8 (uint n))
   | ArgExtensionBlock (HopCountBlock limit count) \<Rightarrow> Inr [limit, count]
   | ArgExtensionBlock (BinarySprayBlock n) \<Rightarrow> Inr (le_bytes 8 (uint n))
   | ArgExtensionBlock (RECBundleTypeBlock n) \<Rightarrow> Inr (le_bytes 8 (uint n))
   | _ \<Rightarrow> Inl not_fixed_size)"

definition Builder_PayloadBlock :: "arg list \<Rightarrow> BundleBuilder \<Rightarrow> BundleBuilder res" where
  "Builder_PayloadBlock args bldr =
     (case args of [] \<Rightarrow> Inl index_panic | a # rest \<Rightarrow>
      case binary_Write a of
        Inl e \<Rightarrow> if is_panic e then Inl e else Inr (set_err e bldr)
      | Inr pBytes \<Rightarrow> Inr (Builder_Canonical (ArgExtensionBlock (NewPayloadBlock pBytes) # rest) bldr))"

definition Builder_PreviousNodeBlock :: "arg list \<Rightarrow> BundleBuilder \<Rightarrow> BundleBuilder res" where
  "Builder_PreviousNodeBlock args bldr =
     (if bldr_err bldr \<noteq> None then Inr bldr else
      case args of [] \<Rightarrow> Inl index_panic | a # _ \<Rightarrow>
      let (eid, bldr) = (case bldrParseEndpoint a of Inl e \<Rightarrow> (None, set_err e bldr) | Inr eid \<Rightarrow> (eid, bldr));
          (flags, bldr) = canonicalParseFlags [ArgSlice args] bldr
      in Inr (Builder_Canonical [ArgExtensionBlock (NewPreviousNodeBlock eid), ArgBlockFlags (flags OR ReplicateBlock)] bldr))"

definition Builder_AdministrativeRecord :: "cboring \<Rightarrow> AdministrativeRecord \<Rightarrow> BundleBuilder \<Rightarrow> BundleBuilder res" where
  "Builder_AdministrativeRecord L ar bldr =
     (if bldr_err bldr \<noteq> None then Inr bldr else
      case WriteAdministrativeRecord L ar of
        Inl e \<Rightarrow> Inr (set_err e bldr)
      | Inr buff \<Rightarrow>
          let noRequests = NOT (StatusRequestReception OR StatusRequestForward OR StatusRequestDelivery OR StatusRequestDeletion)
          in Builder_PayloadBlock [ArgBytes buff]
               (set_primary (pb_BundleControlFlags_update
                  (\<lambda>f. (f OR AdministrativeRecordPayload) AND noRequests)) bldr))"

definition Builder_StatusReport :: "cboring \<Rightarrow> time \<Rightarrow> arg list \<Rightarrow> BundleBuilder \<Rightarrow> BundleBuilder res" where
  "Builder_StatusReport L now args bldr =
     (if bldr_err bldr \<noteq> None then Inr bldr
      else if length args \<noteq> 3 \<and> length args \<noteq> 4
      then Inr (set_err (Errorf ''StatusReport expects three or four arguments'') bldr)
      else case args ! 0 of
        ArgBundle bundle \<Rightarrow>
          (case args ! 1 of
             ArgPos statusItem \<Rightarrow>
               (case args ! 2 of
                  ArgReason reason \<Rightarrow>
                    (if length args = 4
                     then (case args ! 3 of
                             ArgDtnTime t \<Rightarrow> Builder_AdministrativeRecord L (AdminStatusReport (NewStatusReport bundle statusItem reason t)) bldr
                           | _ \<Rightarrow> Inr (set_err (Errorf ''StatusReport's fourth argument is not a DtnTime'') bldr))
                     else Builder_AdministrativeRecord L
                            (AdminStatusReport (NewStatusReport bundle statusItem reason (DtnTimeFromTime now))) bldr)
                | _ \<Rightarrow> Inr (set_err (Errorf ''StatusReport's third argument is not a StatusReportReason'') bldr))
           | _ \<Rightarrow> Inr (set_err (Errorf ''StatusReport's second argument is not an StatusInformationPos'') bldr))
      | _ \<Rightarrow> Inr (set_err (Errorf ''StatusReport's first argument is not a Bundle'') bldr))"

section \<open>Building from a map\<close>

text \<open>
  One round of the loop over the map, with the early return when the call or the builder has an error.
  \<open>DtnTimeNow\<close> and the checks of \<open>Build\<close> read the same clock \<open>now\<close>.
\<close>

definition build_call :: "(u64 \<Rightarrow> u64) \<Rightarrow> time \<Rightarrow> string \<Rightarrow> arg \<Rightarrow> BundleBuilder \<Rightarrow> BundleBuilder res" where
  "build_call conv now method args bldr =
     (if method = ''destination'' then Inr (Builder_Destination args bldr)
      else if method = ''source'' then Inr (Builder_Source args bldr)
      else if method = ''report_to'' then Inr (Builder_ReportTo args bldr)
      else if method = ''creation_timestamp_epoch'' then Inr (Builder_CreationTimestampEpoch bldr)
      else if method = ''creation_timestamp_now'' then Inr (Builder_CreationTimestampNow now bldr)
      else if method = ''creation_timestamp_time'' then
        (case args of ArgTime t \<Rightarrow> Inr (Builder_CreationTimestampTime t bldr)
         | _ \<Rightarrow> Inl (Errorf ''creation_timestamp_time needs a time.Time''))
      else if method = ''lifetime'' then Inr (Builder_Lifetime conv args bldr)
      else if method = ''bundle_ctrl_flags'' then Inl (Errorf ''bundle_ctrl_flags is not yet implemented'')
      else if method = ''canonical'' then Inl (Errorf ''canonical is not impelemtend'')
      else if method = ''bundle_age_block'' then Builder_BundleAgeBlock conv [args] bldr
      else if method = ''hop_count_block'' then Builder_HopCountBlock [args] bldr
      else if method = ''payload_block'' then
        Builder_PayloadBlock [case args of ArgString s \<Rightarrow> ArgBytes (bytes_of s) | _ \<Rightarrow> args] bldr
      else if method = ''previous_node_block'' then Builder_PreviousNodeBlock [args] bldr
      else Inl (Errorf ''method is either not implemented or not existing''))"

fun build_calls :: "(u64 \<Rightarrow> u64) \<Rightarrow> time \<Rightarrow> (string \<times> arg) list \<Rightarrow> BundleBuilder \<Rightarrow> BundleBuilder res" where
  "build_calls conv now [] bldr = Inr bldr"
| "build_calls conv now ((method, args) # m) bldr =
     bindR (build_call conv now method args bldr) (\<lambda>bldr.
       case bldr_err bldr of Some e \<Rightarrow> Inl e | None \<Rightarrow> build_calls conv now m bldr)"

text \<open>The map is the list of its entries in the order of the iteration, which Go leaves open.\<close>

definition BuildFromMap :: "cboring \<Rightarrow> (u64 \<Rightarrow> u64) \<Rightarrow> time \<Rightarrow> (string \<times> arg) list \<Rightarrow> Bundle res" where
  "BuildFromMap L conv now m = bindR (build_calls conv now m Builder) (Builder_Build L now)"

section \<open>Properties\<close>

subsection \<open>Calls as effects\<close>

text \<open>
  What a successful call of the map does to the builder, as a value: the reference against which the
  methods are compared.
\<close>

datatype effect =
    SetDestination EndpointID
  | SetSource EndpointID
  | SetReportTo EndpointID
  | SetTimestamp DtnTime
  | SetLifetime u64
  | AddBlock BlockControlFlags ExtensionBlock

fun apply_effect :: "effect \<Rightarrow> BundleBuilder \<Rightarrow> BundleBuilder" where
  "apply_effect (SetDestination e) bldr = set_primary (pb_Destination_update (\<lambda>_. e)) bldr"
| "apply_effect (SetSource e) bldr = set_primary (pb_SourceNode_update (\<lambda>_. e)) bldr"
| "apply_effect (SetReportTo e) bldr = set_primary (pb_ReportTo_update (\<lambda>_. e)) bldr"
| "apply_effect (SetTimestamp t) bldr = set_primary (pb_CreationTimestamp_update (\<lambda>_. (t, 0))) bldr"
| "apply_effect (SetLifetime n) bldr = set_primary (pb_Lifetime_update (\<lambda>_. n)) bldr"
| "apply_effect (AddBlock flags eb) bldr = add_canonical (NewCanonicalBlock 0 flags eb) bldr"

definition mapR :: "('a \<Rightarrow> 'b) \<Rightarrow> 'a res \<Rightarrow> 'b res" where
  "mapR f x = bindR x (\<lambda>y. Inr (f y))"

lemma mapR_simps [simp]: "mapR f (Inr x) = Inr (f x)" "mapR f (Inl e) = Inl e"
  by (simp_all add: mapR_def)

lemma mapR_Inr_iff: "mapR f x = Inr y \<longleftrightarrow> (\<exists>z. x = Inr z \<and> y = f z)"
  by (cases x) auto

definition payload_arg :: "arg \<Rightarrow> bytes res" where
  "payload_arg a = binary_Write (case a of ArgString s \<Rightarrow> ArgBytes (bytes_of s) | _ \<Rightarrow> a)"

definition call_effect :: "(u64 \<Rightarrow> u64) \<Rightarrow> time \<Rightarrow> string \<Rightarrow> arg \<Rightarrow> effect res" where
  "call_effect conv now method a =
     (if method = ''destination'' then mapR SetDestination (bldrParseEndpoint a)
      else if method = ''source'' then mapR SetSource (bldrParseEndpoint a)
      else if method = ''report_to'' then mapR SetReportTo (bldrParseEndpoint a)
      else if method = ''creation_timestamp_epoch'' then Inr (SetTimestamp DtnTimeEpoch)
      else if method = ''creation_timestamp_now'' then Inr (SetTimestamp (DtnTimeFromTime now))
      else if method = ''creation_timestamp_time'' then
        (case a of ArgTime t \<Rightarrow> Inr (SetTimestamp (DtnTimeFromTime t)) | _ \<Rightarrow> Inl (Errorf ''creation_timestamp_time needs a time.Time''))
      else if method = ''lifetime'' then mapR SetLifetime (bldrParseLifetime conv a)
      else if method = ''bundle_age_block'' then
        mapR (\<lambda>ms. AddBlock ReplicateBlock (BundleAgeBlock ms)) (bldrParseLifetime conv a)
      else if method = ''hop_count_block'' then
        (case a of ArgInt n \<Rightarrow> Inr (AddBlock ReplicateBlock (HopCountBlock (word_of_int n) 0))
         | _ \<Rightarrow> Inl (Errorf ''HopCountBlock received wrong parameter type''))
      else if method = ''payload_block'' then mapR (\<lambda>bs. AddBlock 0 (PayloadBlock bs)) (payload_arg a)
      else if method = ''previous_node_block'' then
        mapR (\<lambda>e. AddBlock ReplicateBlock (PreviousNodeBlock e)) (bldrParseEndpoint a)
      else Inl (Errorf ''method is either not implemented or not existing''))"

lemma bldr_err_simps [simp]:
  "bldr_err (set_err e bldr) = Some e" "bldr_err (set_primary f bldr) = bldr_err bldr"
  "bldr_err (add_canonical cb bldr) = bldr_err bldr"
  by (simp_all add: set_err_def set_primary_def add_canonical_def)

lemma bldr_err_apply [simp]: "bldr_err (apply_effect e bldr) = bldr_err bldr"
  by (cases e) simp_all

lemma bldr_err_fold [simp]: "bldr_err (fold apply_effect es bldr) = bldr_err bldr"
  by (induction es arbitrary: bldr) simp_all

text \<open>One argument in a slice: the flags are never read.\<close>

lemma canonicalParseFlags_slice [simp]: "canonicalParseFlags [ArgSlice args] bldr = (0, bldr)"
  by (simp add: canonicalParseFlags_def)

lemma Builder_Canonical_simps [simp]:
  "bldr_err bldr \<noteq> None \<Longrightarrow> Builder_Canonical args bldr = bldr"
  "bldr_err bldr = None \<Longrightarrow> Builder_Canonical [ArgExtensionBlock eb] bldr = apply_effect (AddBlock 0 eb) bldr"
  "bldr_err bldr = None \<Longrightarrow> Builder_Canonical [ArgExtensionBlock eb, ArgBlockFlags f] bldr = apply_effect (AddBlock f eb) bldr"
  by (simp_all add: Builder_Canonical_def)

text \<open>A block method on one argument either stores the error of its argument or adds its block.\<close>

lemma block_methods:
  assumes "bldr_err bldr = None"
  shows "Builder_BundleAgeBlock conv [a] bldr = Inr (case bldrParseLifetime conv a of Inl e \<Rightarrow> set_err e bldr
      | Inr ms \<Rightarrow> apply_effect (AddBlock ReplicateBlock (BundleAgeBlock ms)) bldr)"
    "Builder_PreviousNodeBlock [a] bldr = Inr (case bldrParseEndpoint a of Inl e \<Rightarrow> set_err e bldr
      | Inr eid \<Rightarrow> apply_effect (AddBlock ReplicateBlock (PreviousNodeBlock eid)) bldr)"
    "Builder_PayloadBlock [a] bldr = (case binary_Write a of
        Inl e \<Rightarrow> if is_panic e then Inl e else Inr (set_err e bldr)
      | Inr bs \<Rightarrow> Inr (apply_effect (AddBlock 0 (PayloadBlock bs)) bldr))"
    "Builder_HopCountBlock [a] bldr = Inr (case a of
        ArgInt n \<Rightarrow> apply_effect (AddBlock ReplicateBlock (HopCountBlock (word_of_int n) 0)) bldr
      | _ \<Rightarrow> set_err (Errorf ''HopCountBlock received wrong parameter type'') bldr)"
proof -
  show "Builder_BundleAgeBlock conv [a] bldr = Inr (case bldrParseLifetime conv a of Inl e \<Rightarrow> set_err e bldr
      | Inr ms \<Rightarrow> apply_effect (AddBlock ReplicateBlock (BundleAgeBlock ms)) bldr)"
    using assms by (cases "bldrParseLifetime conv a") (simp_all add: Builder_BundleAgeBlock_def NewBundleAgeBlock_def)
  show "Builder_PreviousNodeBlock [a] bldr = Inr (case bldrParseEndpoint a of Inl e \<Rightarrow> set_err e bldr
      | Inr eid \<Rightarrow> apply_effect (AddBlock ReplicateBlock (PreviousNodeBlock eid)) bldr)"
    using assms by (cases "bldrParseEndpoint a") (simp_all add: Builder_PreviousNodeBlock_def NewPreviousNodeBlock_def)
  show "Builder_PayloadBlock [a] bldr = (case binary_Write a of
        Inl e \<Rightarrow> if is_panic e then Inl e else Inr (set_err e bldr)
      | Inr bs \<Rightarrow> Inr (apply_effect (AddBlock 0 (PayloadBlock bs)) bldr))"
    using assms by (cases "binary_Write a") (simp_all add: Builder_PayloadBlock_def NewPayloadBlock_def)
  show "Builder_HopCountBlock [a] bldr = Inr (case a of
        ArgInt n \<Rightarrow> apply_effect (AddBlock ReplicateBlock (HopCountBlock (word_of_int n) 0)) bldr
      | _ \<Rightarrow> set_err (Errorf ''HopCountBlock received wrong parameter type'') bldr)"
    using assms by (cases a) (simp_all add: Builder_HopCountBlock_def NewHopCountBlock_def)
qed

lemma primary_methods:
  assumes "bldr_err bldr = None"
  shows "Builder_Destination a bldr = (case bldrParseEndpoint a of Inl e \<Rightarrow> set_err e bldr | Inr e \<Rightarrow> apply_effect (SetDestination e) bldr)"
    "Builder_Source a bldr = (case bldrParseEndpoint a of Inl e \<Rightarrow> set_err e bldr | Inr e \<Rightarrow> apply_effect (SetSource e) bldr)"
    "Builder_ReportTo a bldr = (case bldrParseEndpoint a of Inl e \<Rightarrow> set_err e bldr | Inr e \<Rightarrow> apply_effect (SetReportTo e) bldr)"
    "Builder_Lifetime conv a bldr = (case bldrParseLifetime conv a of Inl e \<Rightarrow> set_err e bldr | Inr n \<Rightarrow> apply_effect (SetLifetime n) bldr)"
    "Builder_CreationTimestampEpoch bldr = apply_effect (SetTimestamp DtnTimeEpoch) bldr"
    "Builder_CreationTimestampNow now bldr = apply_effect (SetTimestamp (DtnTimeFromTime now)) bldr"
    "Builder_CreationTimestampTime t bldr = apply_effect (SetTimestamp (DtnTimeFromTime t)) bldr"
  using assms by (simp_all add: Builder_Destination_def Builder_Source_def Builder_ReportTo_def Builder_Lifetime_def
      Builder_creationTimestamp_def Builder_CreationTimestampEpoch_def Builder_CreationTimestampNow_def
      Builder_CreationTimestampTime_def NewCreationTimestamp_def split: sum.splits)

definition succeeds :: "BundleBuilder res \<Rightarrow> BundleBuilder \<Rightarrow> bool" where
  "succeeds x bldr \<longleftrightarrow> x = Inr bldr \<and> bldr_err bldr = None"

definition effect_result :: "effect res \<Rightarrow> BundleBuilder \<Rightarrow> BundleBuilder \<Rightarrow> bool" where
  "effect_result x bldr bldr' \<longleftrightarrow> (\<exists>e. x = Inr e \<and> bldr' = apply_effect e bldr)"

lemma succeeds_case:
  assumes "bldr_err bldr = None"
  shows "succeeds (Inr (case x of Inl e \<Rightarrow> set_err e bldr | Inr v \<Rightarrow> apply_effect (f v) bldr)) bldr' \<longleftrightarrow>
      effect_result (mapR f x) bldr bldr'"
    "succeeds (case x of Inl e \<Rightarrow> if is_panic e then Inl e else Inr (set_err e bldr)
      | Inr v \<Rightarrow> Inr (apply_effect (f v) bldr)) bldr' \<longleftrightarrow> effect_result (mapR f x) bldr bldr'"
    "succeeds (Inr (apply_effect e bldr)) bldr' \<longleftrightarrow> effect_result (Inr e) bldr bldr'"
    "\<not> succeeds (Inl err) bldr'" "\<not> effect_result (Inl err) bldr bldr'" "\<not> succeeds (Inr (set_err err bldr)) bldr'"
  using assms by (cases x; auto simp: succeeds_def effect_result_def)+

lemma build_call_effect:
  assumes "bldr_err bldr = None"
  shows "succeeds (build_call conv now k a bldr) bldr' \<longleftrightarrow> effect_result (call_effect conv now k a) bldr bldr'"
proof -
  note m = primary_methods [OF assms] block_methods [OF assms] succeeds_case [OF assms]
  have hop: "succeeds (build_call conv now ''hop_count_block'' a bldr) bldr' \<longleftrightarrow>
      effect_result (call_effect conv now ''hop_count_block'' a) bldr bldr'"
    by (cases a) (simp_all add: build_call_def call_effect_def m del: apply_effect.simps)
  have time: "succeeds (build_call conv now ''creation_timestamp_time'' a bldr) bldr' \<longleftrightarrow>
      effect_result (call_effect conv now ''creation_timestamp_time'' a) bldr bldr'"
    by (cases a) (simp_all add: build_call_def call_effect_def m del: apply_effect.simps)
  show ?thesis
  proof (cases "k = ''hop_count_block'' \<or> k = ''creation_timestamp_time''")
    case True
    then show ?thesis using hop time by blast
  next
    case False
    then show ?thesis
      by (simp add: build_call_def call_effect_def payload_arg_def m del: apply_effect.simps)
  qed
qed

definition map_effects :: "(u64 \<Rightarrow> u64) \<Rightarrow> time \<Rightarrow> (string \<times> arg) list \<Rightarrow> effect list \<Rightarrow> bool" where
  "map_effects conv now m es = list_all2 (\<lambda>(k, a) e. call_effect conv now k a = Inr e) m es"

lemma map_effects_simps [simp]:
  "map_effects conv now [] es \<longleftrightarrow> es = []"
  "map_effects conv now ((k, a) # m) es \<longleftrightarrow> (\<exists>e es'. es = e # es' \<and> call_effect conv now k a = Inr e \<and> map_effects conv now m es')"
  by (auto simp: map_effects_def list_all2_Cons1)

text \<open>The loop over the map succeeds exactly when every call has an effect, and applies them in order.\<close>

lemma build_calls_effects:
  assumes "bldr_err bldr = None"
  shows "build_calls conv now m bldr = Inr bldr' \<longleftrightarrow> (\<exists>es. map_effects conv now m es \<and> bldr' = fold apply_effect es bldr)"
  using assms
proof (induction m arbitrary: bldr)
  case (Cons p m)
  obtain k a where p: "p = (k, a)" by (cases p)
  have "build_calls conv now (p # m) bldr = Inr bldr' \<longleftrightarrow>
      (\<exists>b. succeeds (build_call conv now k a bldr) b \<and> build_calls conv now m b = Inr bldr')"
    by (auto simp: p bindR_Inr_iff succeeds_def split: option.splits)
  also have "\<dots> \<longleftrightarrow> (\<exists>e. call_effect conv now k a = Inr e \<and> build_calls conv now m (apply_effect e bldr) = Inr bldr')"
    unfolding build_call_effect [OF Cons.prems] effect_result_def by blast
  also have "\<dots> \<longleftrightarrow> (\<exists>es. map_effects conv now (p # m) es \<and> bldr' = fold apply_effect es bldr)"
    unfolding Cons.IH [OF bldr_err_apply [THEN trans, OF Cons.prems]] p map_effects_simps
    by (metis (no_types, lifting) comp_apply fold_Cons)
  finally show ?case .
qed auto

text \<open>
  A field that only the calls of one key set, a key that occurs at most once: its final value is the
  one this call sets, wherever it stands in the order.
\<close>

lemma field_of_key:
  assumes step: "\<And>e b. f (apply_effect e b) = (case h e of None \<Rightarrow> f b | Some v \<Rightarrow> v)"
    and key: "\<And>k' a e. call_effect conv now k' a = Inr e \<Longrightarrow> (if k' = k then (\<exists>v. h e = Some v \<and> P a v) else h e = None)"
    and "map_effects conv now m es" "distinct (map fst m)"
  shows "case map_of m k of None \<Rightarrow> f (fold apply_effect es b) = f b | Some a \<Rightarrow> P a (f (fold apply_effect es b))"
  using assms(3,4)
proof (induction m arbitrary: es b)
  case (Cons p m)
  obtain k' a where p: "p = (k', a)" by (cases p)
  obtain e es' where es: "es = e # es'" "call_effect conv now k' a = Inr e" "map_effects conv now m es'"
    using Cons.prems(1) by (auto simp: p)
  have IH: "case map_of m k of None \<Rightarrow> f (fold apply_effect es' (apply_effect e b)) = f (apply_effect e b)
      | Some a \<Rightarrow> P a (f (fold apply_effect es' (apply_effect e b)))"
    using Cons.IH [OF es(3)] Cons.prems(2) by simp
  show ?case
  proof (cases "k' = k")
    case True
    then have "map_of m k = None" using Cons.prems(2) by (simp add: p map_of_eq_None_iff)
    then show ?thesis using IH key [OF es(2)] True step [of e b] by (auto simp: p es(1))
  next
    case False
    then show ?thesis using IH key [OF es(2)] step [of e b] by (simp add: p es(1) split: option.splits)
  qed
qed simp

lemma if_InrE:
  assumes "(if c then x else y) = Inr e"
  obtains "c" "x = Inr e" | "\<not> c" "y = Inr e"
  using assms by (cases c) auto

lemma call_effect_cases:
  assumes "call_effect conv now k a = Inr e"
  shows "k = ''destination'' \<and> (\<exists>x. bldrParseEndpoint a = Inr x \<and> e = SetDestination x) \<or>
    k = ''source'' \<and> (\<exists>x. bldrParseEndpoint a = Inr x \<and> e = SetSource x) \<or>
    k = ''report_to'' \<and> (\<exists>x. bldrParseEndpoint a = Inr x \<and> e = SetReportTo x) \<or>
    k \<in> {''creation_timestamp_epoch'', ''creation_timestamp_now'', ''creation_timestamp_time''} \<and> (\<exists>t. e = SetTimestamp t) \<or>
    k = ''lifetime'' \<and> (\<exists>n. bldrParseLifetime conv a = Inr n \<and> e = SetLifetime n) \<or>
    k = ''bundle_age_block'' \<and> (\<exists>n. bldrParseLifetime conv a = Inr n \<and> e = AddBlock ReplicateBlock (BundleAgeBlock n)) \<or>
    k = ''hop_count_block'' \<and> (\<exists>n. a = ArgInt n \<and> e = AddBlock ReplicateBlock (HopCountBlock (word_of_int n) 0)) \<or>
    k = ''payload_block'' \<and> (\<exists>bs. payload_arg a = Inr bs \<and> e = AddBlock 0 (PayloadBlock bs)) \<or>
    k = ''previous_node_block'' \<and> (\<exists>x. bldrParseEndpoint a = Inr x \<and> e = AddBlock ReplicateBlock (PreviousNodeBlock x))"
proof -
  have hop: "\<exists>n. a = ArgInt n \<and> x = AddBlock ReplicateBlock (HopCountBlock (word_of_int n) 0)"
    if "(case a of ArgInt n \<Rightarrow> Inr (AddBlock ReplicateBlock (HopCountBlock (word_of_int n) 0))
         | _ \<Rightarrow> Inl (Errorf ''HopCountBlock received wrong parameter type'')) = Inr x" for x
    using that by (cases a) simp_all
  have time: "\<exists>t. x = SetTimestamp t"
    if "(case a of ArgTime t \<Rightarrow> Inr (SetTimestamp (DtnTimeFromTime t))
         | _ \<Rightarrow> Inl (Errorf ''creation_timestamp_time needs a time.Time'')) = Inr x" for x
    using that by (cases a) auto
  show ?thesis
    using assms unfolding call_effect_def
    by (elim if_InrE; simp add: mapR_Inr_iff hop time; blast)
qed

text \<open>The fields of the primary block, by the key that sets them.\<close>

definition endpoint_field :: "arg option \<Rightarrow> EndpointID \<Rightarrow> EndpointID \<Rightarrow> bool" where
  "endpoint_field arg e0 e = (case arg of None \<Rightarrow> e = e0 | Some a \<Rightarrow> bldrParseEndpoint a = Inr e)"

definition lifetime_field :: "(u64 \<Rightarrow> u64) \<Rightarrow> arg option \<Rightarrow> u64 \<Rightarrow> bool" where
  "lifetime_field conv arg n = (case arg of None \<Rightarrow> n = 0 | Some a \<Rightarrow> bldrParseLifetime conv a = Inr n)"

definition payload_field :: "arg option \<Rightarrow> CanonicalBlock option \<Rightarrow> bool" where
  "payload_field arg cb = (case arg of None \<Rightarrow> cb = None
     | Some a \<Rightarrow> (\<exists>bs. payload_arg a = Inr bs \<and> cb = Some (NewCanonicalBlock 1 0 (PayloadBlock bs))))"

lemma set_primary_simps [simp]:
  "bldr_primary (set_primary f b) = f (bldr_primary b)" "bldr_payload (set_primary f b) = bldr_payload b"
  "bldr_canonicals (set_primary f b) = bldr_canonicals b" "bldr_crcType (set_primary f b) = bldr_crcType b"
  by (simp_all add: set_primary_def)

lemma add_canonical_simps [simp]:
  "bldr_primary (add_canonical cb b) = bldr_primary b" "bldr_crcType (add_canonical cb b) = bldr_crcType b"
  by (simp_all add: add_canonical_def)

lemma payload_step:
  "bldr_payload (apply_effect e b) = (case e of
     AddBlock f eb \<Rightarrow> if BlockTypeCode eb = BlockTypePayloadBlock then Some (NewCanonicalBlock 1 f eb) else bldr_payload b
   | _ \<Rightarrow> bldr_payload b)"
  by (cases e) (simp_all add: add_canonical_def NewCanonicalBlock_def TypeCode_def)

lemma block_codes [simp]:
  "BlockTypePayloadBlock \<noteq> BlockTypeBundleAgeBlock" "BlockTypePayloadBlock \<noteq> BlockTypeHopCountBlock"
  "BlockTypePayloadBlock \<noteq> BlockTypePreviousNodeBlock"
  "BlockTypeBundleAgeBlock \<noteq> BlockTypePayloadBlock" "BlockTypeHopCountBlock \<noteq> BlockTypePayloadBlock"
  "BlockTypePreviousNodeBlock \<noteq> BlockTypePayloadBlock"
  by (simp_all add: block_type_defs)

lemma destination_field:
  assumes "map_effects conv now m es" "distinct (map fst m)"
  shows "endpoint_field (map_of m ''destination'') (pb_Destination (bldr_primary b)) (pb_Destination (bldr_primary (fold apply_effect es b)))"
  unfolding endpoint_field_def
proof (rule field_of_key [OF _ _ assms, where f = "\<lambda>b. pb_Destination (bldr_primary b)" and h = "\<lambda>e. case e of SetDestination x \<Rightarrow> Some x | _ \<Rightarrow> None"])
qed (auto split: effect.splits dest!: call_effect_cases)

lemma source_field:
  assumes "map_effects conv now m es" "distinct (map fst m)"
  shows "endpoint_field (map_of m ''source'') (pb_SourceNode (bldr_primary b)) (pb_SourceNode (bldr_primary (fold apply_effect es b)))"
  unfolding endpoint_field_def
proof (rule field_of_key [OF _ _ assms, where f = "\<lambda>b. pb_SourceNode (bldr_primary b)" and h = "\<lambda>e. case e of SetSource x \<Rightarrow> Some x | _ \<Rightarrow> None"])
qed (auto split: effect.splits dest!: call_effect_cases)

lemma report_to_field:
  assumes "map_effects conv now m es" "distinct (map fst m)"
  shows "endpoint_field (map_of m ''report_to'') (pb_ReportTo (bldr_primary b)) (pb_ReportTo (bldr_primary (fold apply_effect es b)))"
  unfolding endpoint_field_def
proof (rule field_of_key [OF _ _ assms, where f = "\<lambda>b. pb_ReportTo (bldr_primary b)" and h = "\<lambda>e. case e of SetReportTo x \<Rightarrow> Some x | _ \<Rightarrow> None"])
qed (auto split: effect.splits dest!: call_effect_cases)

lemma lifetime_field_key:
  assumes "map_effects conv now m es" "distinct (map fst m)" "pb_Lifetime (bldr_primary b) = 0"
  shows "lifetime_field conv (map_of m ''lifetime'') (pb_Lifetime (bldr_primary (fold apply_effect es b)))"
  unfolding lifetime_field_def assms(3) [symmetric]
proof (rule field_of_key [OF _ _ assms(1,2), where f = "\<lambda>b. pb_Lifetime (bldr_primary b)" and h = "\<lambda>e. case e of SetLifetime x \<Rightarrow> Some x | _ \<Rightarrow> None"])
qed (auto split: effect.splits dest!: call_effect_cases)

lemma payload_field_key:
  assumes "map_effects conv now m es" "distinct (map fst m)" "bldr_payload b = None"
  shows "payload_field (map_of m ''payload_block'') (bldr_payload (fold apply_effect es b))"
  unfolding payload_field_def assms(3) [symmetric]
proof (rule field_of_key [OF _ _ assms(1,2), where f = bldr_payload and h = "\<lambda>e. case e of
    AddBlock f eb \<Rightarrow> if BlockTypeCode eb = BlockTypePayloadBlock then Some (Some (NewCanonicalBlock 1 f eb)) else None | _ \<Rightarrow> None"])
qed (auto simp: payload_step split: effect.splits dest!: call_effect_cases)

text \<open>
  The creation timestamp can be set by three keys. The loop runs through the map in an order that Go leaves open, and the
  last of these keys counts.
\<close>

definition key_timestamp :: "time \<Rightarrow> string \<Rightarrow> arg \<Rightarrow> DtnTime option" where
  "key_timestamp now k a =
     (if k = ''creation_timestamp_epoch'' then Some DtnTimeEpoch
      else if k = ''creation_timestamp_now'' then Some (DtnTimeFromTime now)
      else if k = ''creation_timestamp_time'' then (case a of ArgTime t \<Rightarrow> Some (DtnTimeFromTime t) | _ \<Rightarrow> None)
      else None)"

fun map_timestamp :: "time \<Rightarrow> (string \<times> arg) list \<Rightarrow> DtnTime option" where
  "map_timestamp now [] = None"
| "map_timestamp now ((k, a) # m) = (case map_timestamp now m of Some t \<Rightarrow> Some t | None \<Rightarrow> key_timestamp now k a)"

lemma call_effect_timestamp:
  assumes "call_effect conv now k a = Inr e"
  shows "key_timestamp now k a = (case e of SetTimestamp t \<Rightarrow> Some t | _ \<Rightarrow> None)"
proof -
  have time: "key_timestamp now ''creation_timestamp_time'' a = (case x of SetTimestamp t \<Rightarrow> Some t | _ \<Rightarrow> None)"
    if "(case a of ArgTime t \<Rightarrow> Inr (SetTimestamp (DtnTimeFromTime t))
         | _ \<Rightarrow> Inl (Errorf ''creation_timestamp_time needs a time.Time'')) = Inr x" for x
    using that by (cases a) (auto simp: key_timestamp_def)
  show ?thesis
    using assms unfolding call_effect_def
    by (elim if_InrE; (simp add: time)?; auto simp: mapR_Inr_iff key_timestamp_def split: arg.splits)
qed

lemma timestamp_fold:
  assumes "map_effects conv now m es"
  shows "pb_CreationTimestamp (bldr_primary (fold apply_effect es b)) =
    (case map_timestamp now m of None \<Rightarrow> pb_CreationTimestamp (bldr_primary b) | Some t \<Rightarrow> (t, 0))"
  using assms
proof (induction m arbitrary: es b)
  case (Cons p m)
  obtain k a where p: "p = (k, a)" by (cases p)
  obtain e es' where es: "es = e # es'" "call_effect conv now k a = Inr e" "map_effects conv now m es'"
    using Cons.prems by (auto simp: p)
  have "pb_CreationTimestamp (bldr_primary (apply_effect e b)) =
      (case key_timestamp now k a of None \<Rightarrow> pb_CreationTimestamp (bldr_primary b) | Some t \<Rightarrow> (t, 0))"
    unfolding call_effect_timestamp [OF es(2)] by (cases e) simp_all
  then show ?case using Cons.IH [OF es(3), of "apply_effect e b"] by (simp add: p es(1) split: option.split)
qed simp

text \<open>Where at most one of the keys occurs, the order does not matter.\<close>

lemma map_timestamp_only:
  assumes "(k, a) \<in> set m" "key_timestamp now k a = Some t" "\<And>k' a'. (k', a') \<in> set m \<Longrightarrow> (k', a') \<noteq> (k, a) \<Longrightarrow> key_timestamp now k' a' = None"
  shows "map_timestamp now m = Some t"
  using assms
proof (induction m)
  case (Cons p m)
  obtain k' a' where p: "p = (k', a')" by (cases p)
  have none: "map_timestamp now m = None" if "\<And>k' a'. (k', a') \<in> set m \<Longrightarrow> key_timestamp now k' a' = None" for m
    using that by (induction m) (auto split: option.splits)
  show ?case
  proof (cases "(k, a) \<in> set m")
    case True
    then show ?thesis using Cons.IH [OF True Cons.prems(2)] Cons.prems(3) by (auto simp: p)
  next
    case False
    then have "map_timestamp now m = None" using Cons.prems(3) by (intro none) (metis list.set_intros(2))
    then show ?thesis using False Cons.prems(1,2) by (auto simp: p)
  qed
qed simp

text \<open>What no call changes.\<close>

lemma builder_frame:
  "bldr_crcType (fold apply_effect es b) = bldr_crcType b"
  "pb_Version (bldr_primary (fold apply_effect es b)) = pb_Version (bldr_primary b)"
  "pb_BundleControlFlags (bldr_primary (fold apply_effect es b)) = pb_BundleControlFlags (bldr_primary b)"
  "pb_FragmentOffset (bldr_primary (fold apply_effect es b)) = pb_FragmentOffset (bldr_primary b)"
  "pb_TotalDataLength (bldr_primary (fold apply_effect es b)) = pb_TotalDataLength (bldr_primary b)"
proof (induction es arbitrary: b)
  case (Cons e es)
  {
    case 1
    show ?case using Cons.IH(1) by (cases e) simp_all
  next
    case 2
    show ?case using Cons.IH(2) by (cases e) simp_all
  next
    case 3
    show ?case using Cons.IH(3) by (cases e) simp_all
  next
    case 4
    show ?case using Cons.IH(4) by (cases e) simp_all
  next
    case 5
    show ?case using Cons.IH(5) by (cases e) simp_all
  }
qed simp_all

text \<open>The extension blocks a list of effects adds, in order.\<close>

fun added_block :: "effect \<Rightarrow> (BlockControlFlags \<times> ExtensionBlock) list" where
  "added_block (AddBlock f eb) = (if BlockTypeCode eb = BlockTypePayloadBlock then [] else [(f, eb)])"
| "added_block _ = []"

lemma canonicals_step:
  "map (\<lambda>cb. (cb_BlockControlFlags cb, cb_Value cb)) (bldr_canonicals (apply_effect e b)) =
     map (\<lambda>cb. (cb_BlockControlFlags cb, cb_Value cb)) (bldr_canonicals b) @ added_block e"
  by (cases e) (auto simp: add_canonical_def NewCanonicalBlock_def TypeCode_def)

lemma canonicals_fold:
  "map (\<lambda>cb. (cb_BlockControlFlags cb, cb_Value cb)) (bldr_canonicals (fold apply_effect es b)) =
     map (\<lambda>cb. (cb_BlockControlFlags cb, cb_Value cb)) (bldr_canonicals b) @ concat (map added_block es)"
  by (induction es arbitrary: b) (simp_all add: canonicals_step)

lemma canonicals_crc:
  "\<forall>cb \<in> set (bldr_canonicals b). cb_CRC cb = [] \<Longrightarrow>
   \<forall>cb \<in> set (bldr_canonicals (fold apply_effect es b)). cb_CRC cb = []"
proof (induction es arbitrary: b)
  case (Cons e es)
  have "\<forall>cb \<in> set (bldr_canonicals (apply_effect e b)). cb_CRC cb = []"
    using Cons.prems by (cases e) (auto simp: add_canonical_def NewCanonicalBlock_def)
  then show ?case using Cons.IH by simp
qed simp

text \<open>The keys that add an extension block, and the values they add.\<close>

definition block_of_key :: "(u64 \<Rightarrow> u64) \<Rightarrow> string \<Rightarrow> arg \<Rightarrow> ExtensionBlock \<Rightarrow> bool" where
  "block_of_key conv k a eb \<longleftrightarrow>
     k = ''bundle_age_block'' \<and> (\<exists>n. bldrParseLifetime conv a = Inr n \<and> eb = BundleAgeBlock n) \<or>
     k = ''hop_count_block'' \<and> (\<exists>n. a = ArgInt n \<and> eb = HopCountBlock (word_of_int n) 0) \<or>
     k = ''previous_node_block'' \<and> (\<exists>x. bldrParseEndpoint a = Inr x \<and> eb = PreviousNodeBlock x)"

lemma call_effect_block:
  assumes "call_effect conv now k a = Inr e"
  shows "(f, eb) \<in> set (added_block e) \<longleftrightarrow> f = ReplicateBlock \<and> block_of_key conv k a eb"
  using call_effect_cases [OF assms] by (elim disjE conjE exE) (auto simp: block_of_key_def)

lemma effects_blocks:
  assumes "map_effects conv now m es"
  shows "(f, eb) \<in> set (concat (map added_block es)) \<longleftrightarrow>
    f = ReplicateBlock \<and> (\<exists>(k, a) \<in> set m. block_of_key conv k a eb)"
  using assms
proof (induction m arbitrary: es)
  case (Cons p m)
  obtain k a where p: "p = (k, a)" by (cases p)
  obtain e es' where es: "es = e # es'" "call_effect conv now k a = Inr e" "map_effects conv now m es'"
    using Cons.prems by (auto simp: p)
  show ?case using call_effect_block [OF es(2)] Cons.IH [OF es(3)] by (auto simp: p es(1))
qed simp

subsection \<open>Well-formedness of built bundles\<close>

text \<open>Arguments whose contents fit into the length fields of CBOR; given endpoints are well-formed.\<close>

definition small_arg :: "arg \<Rightarrow> bool" where
  "small_arg a = (case a of
     ArgEndpointID e \<Rightarrow> wf_eid e \<and> short_eid e
   | ArgString s \<Rightarrow> length s < 2 ^ 62
   | ArgBytes bs \<Rightarrow> length bs < 2 ^ 63
   | ArgSized k _ \<Rightarrow> k \<le> 8
   | ArgExtensionBlock (PayloadBlock bs) \<Rightarrow> length bs < 2 ^ 63
   | _ \<Rightarrow> True)"

lemma NewEndpointID_short:
  assumes "NewEndpointID s = Inr eid" "length s < 2 ^ 62"
  shows "short_eid eid"
proof (cases eid)
  case (Some t)
  show ?thesis
  proof (cases t)
    case (Dtn e)
    then have "NewDtnEndpoint s = Inr (Dtn e)"
      using assms(1) Some by (auto simp: NewEndpointID_def bindR_Inr_iff split: option.splits if_splits dest!: NewIpnEndpoint_wf)
    then have e: "wf_dtn e" "DtnEndpoint_String e = s" using NewDtnEndpoint_wf by auto
    then have "length (dtn_ssp e) \<le> max 3 (length s)"
      by (cases "IsDtnNone e") (auto simp: dtn_ssp_def wf_dtn_def DtnEndpoint_String_def)
    then show ?thesis using assms(2) Some Dtn by (simp add: short_eid_def)
  qed (simp add: short_eid_def Some)
qed (simp add: short_eid_def)

lemma bldrParseEndpoint_wf:
  assumes "bldrParseEndpoint a = Inr e" "small_arg a"
  shows "wf_eid e \<and> short_eid e"
  using assms NewEndpointID_wf NewEndpointID_short by (cases a) (auto simp: bldrParseEndpoint_def small_arg_def)

lemma wf_eid_Some: "wf_eid e \<Longrightarrow> e \<noteq> None"
  by (cases e) (auto simp: wf_eid_def)

lemma payload_arg_small:
  assumes "payload_arg a = Inr bs" "small_arg a"
  shows "length bs < 2 ^ 63"
proof (cases a)
  case (ArgExtensionBlock eb)
  then show ?thesis using assms by (cases eb) (auto simp: payload_arg_def binary_Write_def small_arg_def le_bytes_def)
qed (use assms in \<open>auto simp: payload_arg_def binary_Write_def small_arg_def le_bytes_def\<close>)

text \<open>What \<open>Build\<close> returns.\<close>

definition built_primary :: "BundleBuilder \<Rightarrow> PrimaryBlock" where
  "built_primary bldr = (bldr_primary bldr)\<lparr>pb_ReportTo :=
     (if pb_ReportTo (bldr_primary bldr) = None then pb_SourceNode (bldr_primary bldr) else pb_ReportTo (bldr_primary bldr))\<rparr>"

lemma MustNewBundle_simps [simp]:
  "bndl_PrimaryBlock (MustNewBundle p ebs pl) = p" "bndl_PayloadBlock (MustNewBundle p ebs pl) = pl"
  "set (bndl_ExtensionBlocks (MustNewBundle p ebs pl)) = set ebs"
  by (simp_all add: MustNewBundle_def sortExtensionBlocks_def)

lemma no_payload_panics: "bndl_PayloadBlock b = None \<Longrightarrow> Bundle_CheckValid now b = Inl nil_value"
  by (simp add: Bundle_CheckValid_def)

lemma Builder_Build_eq:
  "Builder_Build L now bldr = (case bldr_err bldr of Some e \<Rightarrow> Inl e | None \<Rightarrow>
     if pb_SourceNode (bldr_primary bldr) = None \<or> pb_Destination (bldr_primary bldr) = None
     then Inl (Errorf ''both Source and Destination must be set'')
     else bindR (NewBundle now (built_primary bldr) (bldr_canonicals bldr) (bldr_payload bldr)) (\<lambda>(bndl, errs).
       if errs = [] then Inr (Bundle_SetCRCType L (bldr_crcType bldr) bndl) else Inl (Multi errs)))"
proof -
  have p: "pb_SourceNode (built_primary bldr) = pb_SourceNode (bldr_primary bldr)"
    "pb_Destination (built_primary bldr) = pb_Destination (bldr_primary bldr)" by (simp_all add: built_primary_def)
  show ?thesis unfolding Builder_Build_def Let_def built_primary_def [symmetric] p by (rule refl)
qed

lemma Builder_Build_Inr:
  assumes "Builder_Build L now bldr = Inr b"
  obtains b0 where "b0 = MustNewBundle (built_primary bldr) (bldr_canonicals bldr) (bldr_payload bldr)"
    "Bundle_CheckValid now b0 = Inr []" "b = Bundle_SetCRCType L (bldr_crcType bldr) b0"
    "pb_SourceNode (bldr_primary bldr) \<noteq> None" "pb_Destination (bldr_primary bldr) \<noteq> None"
  using assms unfolding Builder_Build_eq NewBundle_def
  by (auto simp: Let_def bindR_Inr_iff split: option.splits if_splits)

lemma PrimaryBlock_SetCRCType_fields:
  obtains c where "PrimaryBlock_SetCRCType L t p = p\<lparr>pb_CRCType := (if t = CRCNo then CRC32 else t), pb_CRC := c\<rparr>"
  using that PrimaryBlock_calculateCRC_frame [of L "p\<lparr>pb_CRCType := (if t = CRCNo then CRC32 else t)\<rparr>"]
  unfolding PrimaryBlock_SetCRCType_def by blast

lemma block_of_key_wf:
  assumes "block_of_key conv k a eb" "small_arg a"
  shows "wf_ext GetExtensionBlockManager eb \<and> BlockTypeCode eb \<noteq> BlockTypePayloadBlock"
  using assms bldrParseEndpoint_wf by (auto simp: block_of_key_def wf_ext_def)

lemma fold_Builder_wf:
  assumes "map_effects conv now m es" "distinct (map fst m)" "\<forall>(k, a) \<in> set m. small_arg a"
    "bldr = fold apply_effect es Builder" "b0 = MustNewBundle (built_primary bldr) (bldr_canonicals bldr) (bldr_payload bldr)"
    "bldr_payload bldr \<noteq> None" "pb_SourceNode (bldr_primary bldr) \<noteq> None" "pb_Destination (bldr_primary bldr) \<noteq> None"
  shows "wf_bundle GetExtensionBlockManager (Bundle_SetCRCType L CRCNo b0)"
proof -
  have small: "small_arg a" if "map_of m k = Some a" for k a using assms(3) map_of_SomeD [OF that] by blast
  have eid: "e \<noteq> None \<longrightarrow> wf_eid e \<and> short_eid e" if "endpoint_field (map_of m k) None e" for k e
    using that small bldrParseEndpoint_wf by (auto simp: endpoint_field_def split: option.splits)
  have B: "pb_Destination (bldr_primary Builder) = None" "pb_SourceNode (bldr_primary Builder) = None"
    "pb_ReportTo (bldr_primary Builder) = None" "bldr_payload Builder = None" "bldr_canonicals Builder = []"
    by (simp_all add: Builder_def)
  note f = destination_field [OF assms(1,2), of Builder, folded assms(4), unfolded B]
    source_field [OF assms(1,2), of Builder, folded assms(4), unfolded B]
    report_to_field [OF assms(1,2), of Builder, folded assms(4), unfolded B]
  have eids: "list_all (\<lambda>e. wf_eid e \<and> short_eid e) [pb_Destination (built_primary bldr), pb_SourceNode (built_primary bldr), pb_ReportTo (built_primary bldr)]"
    using eid [OF f(1)] eid [OF f(2)] eid [OF f(3)] assms(7,8) by (simp add: built_primary_def)
  have frame: "pb_Version (built_primary bldr) = dtnVersion" "pb_BundleControlFlags (built_primary bldr) = 0"
    "pb_FragmentOffset (built_primary bldr) = 0" "pb_TotalDataLength (built_primary bldr) = 0"
    by (simp_all add: built_primary_def assms(4) builder_frame) (simp_all add: Builder_def)
  obtain c where c: "PrimaryBlock_SetCRCType L CRCNo (built_primary bldr) = (built_primary bldr)\<lparr>pb_CRCType := CRC32, pb_CRC := c\<rparr>"
    by (rule PrimaryBlock_SetCRCType_fields [of L CRCNo "built_primary bldr"]) simp
  have pb: "wf_primary (PrimaryBlock_SetCRCType L CRCNo (built_primary bldr))"
    unfolding c using eids frame by (simp add: wf_primary_def known_crc_def PrimaryBlock_HasFragmentation_def PrimaryBlock_HasCRC_def crc_type_defs)
  have "payload_field (map_of m ''payload_block'') (bldr_payload bldr)"
    using payload_field_key [OF assms(1,2), of Builder] by (simp add: B assms(4))
  then obtain a bs where pl: "map_of m ''payload_block'' = Some a" "payload_arg a = Inr bs"
    "bldr_payload bldr = Some (NewCanonicalBlock 1 0 (PayloadBlock bs))"
    using assms(6) by (auto simp: payload_field_def split: option.splits)
  have wfpl: "wf_ext GetExtensionBlockManager (PayloadBlock bs)"
    using payload_arg_small [OF pl(2) small [OF pl(1)]] by (simp add: wf_ext_def)
  have ext: "wf_ext GetExtensionBlockManager (cb_Value cb) \<and> BlockTypeCode (cb_Value cb) \<noteq> BlockTypePayloadBlock \<and> cb_CRC cb = []"
    if "cb \<in> set (bldr_canonicals bldr)" for cb
  proof -
    have "(cb_BlockControlFlags cb, cb_Value cb) \<in> set (concat (map added_block es))"
      unfolding canonicals_fold [of es Builder, unfolded B list.map append_Nil, symmetric] using that by (simp add: assms(4))
    then obtain k a where "(k, a) \<in> set m" "block_of_key conv k a (cb_Value cb)"
      using effects_blocks [OF assms(1)] by blast
    then show ?thesis using block_of_key_wf assms(3) canonicals_crc [of Builder es] that unfolding assms(4) by (auto simp: B)
  qed
  show ?thesis using pb wfpl ext
    by (auto simp: wf_bundle_def Bundle_SetCRCType_def assms(5) MustNewBundle_def sortExtensionBlocks_def pl(3)
        CanonicalBlock_SetCRCType_def wf_canonical_def TypeCode_def NewCanonicalBlock_def known_crc_def)
qed

text \<open>The contents of the bundle, in terms of the builder.\<close>

lemma built_bundle:
  assumes "b = Bundle_SetCRCType L CRCNo (MustNewBundle (built_primary bldr) (bldr_canonicals bldr) (bldr_payload bldr))"
  shows "pb_Destination (bndl_PrimaryBlock b) = pb_Destination (bldr_primary bldr)"
    "pb_SourceNode (bndl_PrimaryBlock b) = pb_SourceNode (bldr_primary bldr)"
    "pb_ReportTo (bndl_PrimaryBlock b) = (if pb_ReportTo (bldr_primary bldr) = None then pb_SourceNode (bldr_primary bldr)
      else pb_ReportTo (bldr_primary bldr))"
    "pb_Lifetime (bndl_PrimaryBlock b) = pb_Lifetime (bldr_primary bldr)"
    "cb_Value ` set (bndl_ExtensionBlocks b) =
      snd ` set (map (\<lambda>cb. (cb_BlockControlFlags cb, cb_Value cb)) (bldr_canonicals bldr))"
    "bldr_payload bldr = Some (NewCanonicalBlock 1 0 (PayloadBlock bs)) \<Longrightarrow> Bundle_Payload b = Inr bs"
    "pb_CreationTimestamp (bndl_PrimaryBlock b) = pb_CreationTimestamp (bldr_primary bldr)"
    "pb_BundleControlFlags (bndl_PrimaryBlock b) = pb_BundleControlFlags (bldr_primary bldr)"
proof -
  obtain c where "bndl_PrimaryBlock b = (built_primary bldr)\<lparr>pb_CRCType := CRC32, pb_CRC := c\<rparr>"
    using PrimaryBlock_SetCRCType_fields [of L CRCNo "built_primary bldr"]
    by (auto simp: assms Bundle_SetCRCType_def)
  then show "pb_Destination (bndl_PrimaryBlock b) = pb_Destination (bldr_primary bldr)"
    "pb_SourceNode (bndl_PrimaryBlock b) = pb_SourceNode (bldr_primary bldr)"
    "pb_ReportTo (bndl_PrimaryBlock b) = (if pb_ReportTo (bldr_primary bldr) = None then pb_SourceNode (bldr_primary bldr)
      else pb_ReportTo (bldr_primary bldr))"
    "pb_Lifetime (bndl_PrimaryBlock b) = pb_Lifetime (bldr_primary bldr)"
    "pb_CreationTimestamp (bndl_PrimaryBlock b) = pb_CreationTimestamp (bldr_primary bldr)"
    "pb_BundleControlFlags (bndl_PrimaryBlock b) = pb_BundleControlFlags (bldr_primary bldr)"
    by (simp_all add: built_primary_def)
  show "cb_Value ` set (bndl_ExtensionBlocks b) =
      snd ` set (map (\<lambda>cb. (cb_BlockControlFlags cb, cb_Value cb)) (bldr_canonicals bldr))"
    by (simp add: assms Bundle_SetCRCType_def CanonicalBlock_SetCRCType_def image_image)
  show "Bundle_Payload b = Inr bs" if "bldr_payload bldr = Some (NewCanonicalBlock 1 0 (PayloadBlock bs))"
    using that by (simp add: Bundle_Payload_def assms Bundle_SetCRCType_def CanonicalBlock_SetCRCType_def NewCanonicalBlock_def)
qed

text \<open>What a successful build has built.\<close>

lemma BuildFromMap_facts:
  assumes "distinct (map fst m)" "\<forall>(k, a) \<in> set m. small_arg a" "BuildFromMap L conv now m = Inr b"
  shows "(\<exists>a. map_of m ''destination'' = Some a \<and> bldrParseEndpoint a = Inr (pb_Destination (bndl_PrimaryBlock b))) \<and>
    (\<exists>a. map_of m ''source'' = Some a \<and> bldrParseEndpoint a = Inr (pb_SourceNode (bndl_PrimaryBlock b))) \<and>
    endpoint_field (map_of m ''report_to'') (pb_SourceNode (bndl_PrimaryBlock b)) (pb_ReportTo (bndl_PrimaryBlock b)) \<and>
    lifetime_field conv (map_of m ''lifetime'') (pb_Lifetime (bndl_PrimaryBlock b)) \<and>
    (\<exists>a. map_of m ''payload_block'' = Some a \<and> payload_arg a = Bundle_Payload b) \<and>
    cb_Value ` set (bndl_ExtensionBlocks b) = {eb. \<exists>(k, a) \<in> set m. block_of_key conv k a eb} \<and>
    Bundle_CheckValid now b = Inr [] \<and>
    wf_bundle GetExtensionBlockManager b"
proof -
  have B: "bldr_err Builder = None" "pb_Destination (bldr_primary Builder) = None" "pb_SourceNode (bldr_primary Builder) = None"
    "pb_ReportTo (bldr_primary Builder) = None" "pb_Lifetime (bldr_primary Builder) = 0" "bldr_payload Builder = None"
    "bldr_canonicals Builder = []" "bldr_crcType Builder = CRCNo"
    by (simp_all add: Builder_def)
  obtain es where es: "map_effects conv now m es" and build: "Builder_Build L now (fold apply_effect es Builder) = Inr b"
    using assms(3) by (auto simp: BuildFromMap_def bindR_Inr_iff build_calls_effects [OF B(1)])
  define bldr where "bldr = fold apply_effect es Builder"
  note build = build [folded bldr_def]
  have crc: "bldr_crcType bldr = CRCNo" by (simp add: bldr_def builder_frame B)
  obtain b0 where b0: "b0 = MustNewBundle (built_primary bldr) (bldr_canonicals bldr) (bldr_payload bldr)"
    "Bundle_CheckValid now b0 = Inr []" "b = Bundle_SetCRCType L CRCNo b0"
    "pb_SourceNode (bldr_primary bldr) \<noteq> None" "pb_Destination (bldr_primary bldr) \<noteq> None"
    using Builder_Build_Inr [OF build] unfolding crc by blast
  have pl: "bldr_payload bldr \<noteq> None" 
  proof
    assume "bldr_payload bldr = None"
    then show False using b0(2) no_payload_panics [of b0 now] by (simp add: b0(1))
  qed
  have wf: "wf_bundle GetExtensionBlockManager b"
    unfolding b0(3) by (rule fold_Builder_wf [OF es assms(1,2) bldr_def b0(1) pl b0(4,5)])
  have valid: "Bundle_CheckValid now b = Inr []" using Bundle_CheckValid_same [OF same_content_SetCRCType] b0(2,3) by simp
  note built = built_bundle [OF b0(3) [unfolded b0(1)]]
  have ext: "cb_Value ` set (bndl_ExtensionBlocks b) = {eb. \<exists>(k, a) \<in> set m. block_of_key conv k a eb}"
    using effects_blocks [OF es] unfolding built(5) bldr_def canonicals_fold B by (force simp del: set_concat)
  have payload: "\<exists>a. map_of m ''payload_block'' = Some a \<and> payload_arg a = Bundle_Payload b"
    using payload_field_key [OF es assms(1) B(6)] pl built(6)
    by (auto simp: bldr_def [symmetric] payload_field_def split: option.splits)
  have small: "small_arg a" if "map_of m k = Some a" for k a using assms(2) map_of_SomeD [OF that] by blast
  have rep: "endpoint_field (map_of m ''report_to'') (pb_SourceNode (bndl_PrimaryBlock b)) (pb_ReportTo (bndl_PrimaryBlock b))"
    using report_to_field [OF es assms(1), of Builder] small bldrParseEndpoint_wf wf_eid_Some
    by (fastforce simp: built bldr_def B endpoint_field_def split: option.splits)
  show ?thesis
    using destination_field [OF es assms(1), of Builder] source_field [OF es assms(1), of Builder] rep ext payload valid
      lifetime_field_key [OF es assms(1) B(5)] b0(4,5) wf
    by (auto simp: built bldr_def [symmetric] B endpoint_field_def split: option.splits)
qed

lemma BuildFromMap_timestamp:
  assumes "BuildFromMap L conv now m = Inr b"
  shows "pb_CreationTimestamp (bndl_PrimaryBlock b) = (case map_timestamp now m of None \<Rightarrow> 0 | Some t \<Rightarrow> t, 0)"
    "pb_BundleControlFlags (bndl_PrimaryBlock b) = 0"
proof -
  have B: "bldr_err Builder = None" "pb_CreationTimestamp (bldr_primary Builder) = (0, 0)" "bldr_crcType Builder = CRCNo"
    "pb_BundleControlFlags (bldr_primary Builder) = 0"
    by (simp_all add: Builder_def)
  obtain es where es: "map_effects conv now m es" and build: "Builder_Build L now (fold apply_effect es Builder) = Inr b"
    using assms by (auto simp: BuildFromMap_def bindR_Inr_iff build_calls_effects [OF B(1)])
  let ?bldr = "fold apply_effect es Builder"
  have crc: "bldr_crcType ?bldr = CRCNo" by (simp add: builder_frame B)
  have "b = Bundle_SetCRCType L CRCNo (MustNewBundle (built_primary ?bldr) (bldr_canonicals ?bldr) (bldr_payload ?bldr))"
    using Builder_Build_Inr [OF build] unfolding crc by blast
  note built = built_bundle(7,8) [OF this]
  show "pb_CreationTimestamp (bndl_PrimaryBlock b) = (case map_timestamp now m of None \<Rightarrow> 0 | Some t \<Rightarrow> t, 0)"
    unfolding built(1) timestamp_fold [OF es] B by (simp split: option.split)
  show "pb_BundleControlFlags (bndl_PrimaryBlock b) = 0" unfolding built(2) builder_frame by (rule B)
qed

section \<open>Correctness\<close>

text \<open>
  C18. A bundle built from a map of arguments is the one the arguments describe: whatever the order in
  which the map is traversed, destination, source, report-to address (the source when it is not given),
  lifetime and payload are those of their keys, and the extension blocks are exactly the ones asked for. The creation time is
  the one of the \<open>creation_timestamp_*\<close> key, with sequence number 0, and zero when there is none; where several of
  these keys are given, the last one traversed counts, so that the result depends on the order. No control flag is set, the
  bundle is valid, and it can be sent: it serialises, and decoding gives it back, up to checksums.
\<close>

theorem BuildFromMap_correct:
  assumes "cboring_lib L" "distinct (map fst m)" "\<forall>(k, a) \<in> set m. small_arg a" "BuildFromMap L conv now m = Inr b"
  shows "(\<exists>a. map_of m ''destination'' = Some a \<and> bldrParseEndpoint a = Inr (pb_Destination (bndl_PrimaryBlock b))) \<and>
    (\<exists>a. map_of m ''source'' = Some a \<and> bldrParseEndpoint a = Inr (pb_SourceNode (bndl_PrimaryBlock b))) \<and>
    endpoint_field (map_of m ''report_to'') (pb_SourceNode (bndl_PrimaryBlock b)) (pb_ReportTo (bndl_PrimaryBlock b)) \<and>
    lifetime_field conv (map_of m ''lifetime'') (pb_Lifetime (bndl_PrimaryBlock b)) \<and>
    (\<exists>a. map_of m ''payload_block'' = Some a \<and> payload_arg a = Bundle_Payload b) \<and>
    cb_Value ` set (bndl_ExtensionBlocks b) = {eb. \<exists>(k, a) \<in> set m. block_of_key conv k a eb} \<and>
    pb_CreationTimestamp (bndl_PrimaryBlock b) = (case map_timestamp now m of None \<Rightarrow> 0 | Some t \<Rightarrow> t, 0) \<and>
    (\<forall>k a t. (k, a) \<in> set m \<and> key_timestamp now k a = Some t \<and>
       (\<forall>(k', a') \<in> set m. k' \<noteq> k \<longrightarrow> key_timestamp now k' a' = None) \<longrightarrow> pb_CreationTimestamp (bndl_PrimaryBlock b) = (t, 0)) \<and>
    pb_BundleControlFlags (bndl_PrimaryBlock b) = 0 \<and>
    Bundle_CheckValid now b = Inr [] \<and>
    (\<exists>bs b'. Bundle_MarshalCbor L b = Inr (bs, b') \<and> strip_crc b' = strip_crc b \<and>
       ParseBundle L GetExtensionBlockManager now bs = Inr (b', []))"
proof -
  have time: "pb_CreationTimestamp (bndl_PrimaryBlock b) = (t, 0)" if k: "(k, a) \<in> set m" "key_timestamp now k a = Some t"
    "\<forall>(k', a') \<in> set m. k' \<noteq> k \<longrightarrow> key_timestamp now k' a' = None" for k a t
  proof -
    have "key_timestamp now k' a' = None" if x: "(k', a') \<in> set m" "(k', a') \<noteq> (k, a)" for k' a'
    proof -
      have "k' \<noteq> k" using eq_key_imp_eq_value [OF assms(2)] x k(1) by blast
      then show ?thesis using k(3) x(1) by blast
    qed
    then have "map_timestamp now m = Some t" by (rule map_timestamp_only [OF k(1,2)])
    then show ?thesis using BuildFromMap_timestamp(1) [OF assms(4)] by simp
  qed
  note facts = BuildFromMap_facts [OF assms(2-4)] BuildFromMap_timestamp [OF assms(4)]
  have "\<exists>bs b'. Bundle_MarshalCbor L b = Inr (bs, b') \<and> strip_crc b' = strip_crc b \<and>
       ParseBundle L GetExtensionBlockManager now bs = Inr (b', [])"
    using ParseBundle_encode [OF assms(1), of GetExtensionBlockManager b now] facts(1) by auto
  then show ?thesis using facts time by (intro conjI allI impI) blast+
qed

definition example_map :: "(string \<times> arg) list" where
  "example_map =
     [(''lifetime'', ArgString ''1h''), (''payload_block'', ArgString ''hi''), (''destination'', ArgString ''dtn://d/x''),
      (''creation_timestamp_now'', ArgBool True), (''source'', ArgString ''dtn://s/'')]"

definition example_now :: time where "example_now = 946684801000000000"

definition example_dst :: EndpointID where "example_dst = Some (Dtn \<lparr>NodeName = ''d'', Demux = ''x'', IsDtnNone = False\<rparr>)"
definition example_src :: EndpointID where "example_src = Some (Dtn \<lparr>NodeName = ''s'', Demux = [], IsDtnNone = False\<rparr>)"

lemma example_endpoints: "NewEndpointID ''dtn://d/x'' = Inr example_dst" "NewEndpointID ''dtn://s/'' = Inr example_src"
  by code_simp+

lemma example_time: "DtnTimeFromTime example_now = 1000"
  by (simp add: DtnTimeFromTime_def example_now_def u64_of_int_def int64_eq quot_def nanoToMilli_def milliseconds1970To2k_def)

definition example_effects :: "effect list" where
  "example_effects = [SetLifetime 3600000, AddBlock 0 (PayloadBlock (bytes_of ''hi'')), SetDestination example_dst,
     SetTimestamp 1000, SetSource example_src]"

lemma example_map_effects: "map_effects conv example_now example_map example_effects"
  by (simp add: example_map_def example_effects_def call_effect_def bldrParseLifetime_def bldrParseEndpoint_def payload_arg_def
      binary_Write_def ParseDuration_hours example_endpoints example_time quot_def u64_of_int_def)

definition example_builder :: BundleBuilder where
  "example_builder = fold apply_effect example_effects Builder"

lemma example_builder_valid:
  "Bundle_CheckValid example_now (MustNewBundle (built_primary example_builder) (bldr_canonicals example_builder)
     (bldr_payload example_builder)) = Inr []"
  by code_simp

lemma example_build: "\<exists>b. BuildFromMap L conv example_now example_map = Inr b"
proof -
  have "build_calls conv example_now example_map Builder = Inr example_builder"
    unfolding example_builder_def using example_map_effects
    by (subst build_calls_effects) (auto simp: Builder_def)
  moreover have "bldr_err example_builder = None" "pb_SourceNode (bldr_primary example_builder) \<noteq> None"
    "pb_Destination (bldr_primary example_builder) \<noteq> None"
    by (simp_all add: example_builder_def example_effects_def Builder_def example_src_def example_dst_def)
  ultimately show ?thesis
    using example_builder_valid by (simp add: BuildFromMap_def Builder_Build_eq NewBundle_def)
qed

theorem BuildFromMap_correct_witness:
  "\<exists>b. BuildFromMap rfc8949 (\<lambda>_. 0) example_now example_map = Inr b \<and>
     pb_Destination (bndl_PrimaryBlock b) = example_dst \<and> pb_ReportTo (bndl_PrimaryBlock b) = example_src \<and>
     pb_Lifetime (bndl_PrimaryBlock b) = 3600000 \<and> Bundle_Payload b = Inr (bytes_of ''hi'') \<and>
     pb_CreationTimestamp (bndl_PrimaryBlock b) = (1000, 0) \<and> bndl_ExtensionBlocks b = [] \<and> Bundle_CheckValid example_now b = Inr []"
proof -
  obtain b where b: "BuildFromMap rfc8949 (\<lambda>_. 0) example_now example_map = Inr b" using example_build by blast
  have m: "distinct (map fst example_map)" "\<forall>(k, a) \<in> set example_map. small_arg a"
    by (simp_all add: example_map_def small_arg_def)
  have blocks: "{eb. \<exists>(k, a) \<in> set example_map. block_of_key (\<lambda>_. 0) k a eb} = {}"
    by (simp add: example_map_def block_of_key_def)
  note * = BuildFromMap_correct [OF rfc.cboring_lib_axioms m b, unfolded blocks]
  have "map_timestamp example_now example_map = Some 1000" by (simp add: example_map_def key_timestamp_def example_time)
  then show ?thesis using b *
    by (auto simp: example_map_def bldrParseEndpoint_def example_endpoints endpoint_field_def lifetime_field_def
        bldrParseLifetime_def ParseDuration_hours quot_def u64_of_int_def payload_arg_def binary_Write_def)
qed

text \<open>
  A map without a payload block panics: when every call succeeds and source and destination are
  set, the validity check of the new bundle calls a method of the payload block's nil value. The comment
  of \<open>BuildFromMap\<close> calls it safe for unchecked data; the UNIX socket agent calls it, without a
  recovery from panics, on what a client sends.
\<close>

lemma BuildFromMap_without_payload_panics:
  assumes "map_effects conv now m es" "distinct (map fst m)" "\<forall>(k, a) \<in> set m. small_arg a"
    "{''source'', ''destination''} \<subseteq> set (map fst m)" "''payload_block'' \<notin> set (map fst m)"
  shows "BuildFromMap L conv now m = Inl nil_value"
proof -
  define bldr where "bldr = fold apply_effect es Builder"
  have B: "bldr_err Builder = None" "bldr_payload Builder = None" by (simp_all add: Builder_def)
  have calls: "build_calls conv now m Builder = Inr bldr"
    unfolding bldr_def using assms(1) by (subst build_calls_effects) (auto simp: B)
  have present: "\<exists>a. map_of m k = Some a \<and> small_arg a" if "k \<in> {''source'', ''destination''}" for k
  proof -
    have "k \<in> set (map fst m)" using that assms(4) by (rule rev_subsetD)
    then obtain a where a: "map_of m k = Some a" by (cases "map_of m k") (auto simp: map_of_eq_None_iff)
    then show ?thesis using assms(3) map_of_SomeD [OF a] by blast
  qed
  have eid: "e \<noteq> None" if "endpoint_field (map_of m k) e0 e" "k \<in> {''source'', ''destination''}" for k e0 e
    using that(1) present [OF that(2)] bldrParseEndpoint_wf wf_eid_Some by (fastforce simp: endpoint_field_def)
  have "pb_SourceNode (bldr_primary bldr) \<noteq> None" "pb_Destination (bldr_primary bldr) \<noteq> None"
    unfolding bldr_def
    using eid [OF source_field [OF assms(1,2)]] eid [OF destination_field [OF assms(1,2)]] by simp_all
  moreover have "map_of m ''payload_block'' = None" using assms(5) by (simp add: map_of_eq_None_iff)
  then have "bldr_payload bldr = None"
    using payload_field_key [OF assms(1,2) B(2)] by (simp add: payload_field_def bldr_def)
  moreover have "bldr_err bldr = None" by (simp add: bldr_def B)
  ultimately show ?thesis by (auto simp: BuildFromMap_def calls Builder_Build_eq NewBundle_def no_payload_panics)
qed

text \<open>
  The flags that may follow the argument of the block methods are ignored, and a hop limit from a JSON
  document, a \<open>float64\<close>, is always refused.
\<close>

lemma block_flags_ignored:
  "Builder_BundleAgeBlock conv (a # rest) = Builder_BundleAgeBlock conv [a]"
  "Builder_HopCountBlock (a # rest) = Builder_HopCountBlock [a]"
  "Builder_PreviousNodeBlock (a # rest) = Builder_PreviousNodeBlock [a]"
  by (simp_all add: fun_eq_iff Builder_BundleAgeBlock_def Builder_HopCountBlock_def Builder_PreviousNodeBlock_def)

lemma json_hop_count_refused:
  "build_calls conv now ((''hop_count_block'', ArgFloat64 x) # m) Builder =
     Inl (Errorf ''HopCountBlock received wrong parameter type'')"
  by (simp add: build_call_def block_methods Builder_def [THEN arg_cong, of bldr_err])

end
