(* ===== verification/Routing.thy ===== *)
theory Routing
  imports Store Cla_Manager
begin

text \<open>
  Routing (\<open>pkg/routing/algorithm.go\<close>, \<open>epidemic.go\<close>, \<open>spray_and_wait.go\<close>): the algorithms behind the
  interface \<open>Algorithm\<close> that choose the peers a bundle is forwarded to, and the copies that spray and
  wait keeps in the descriptor's miscellaneous data. The contract every algorithm fulfils towards the
  processing pipeline is the locale \<open>routing_algorithm\<close>.
\<close>

section \<open>The environment of a call\<close>

text \<open>
  What an operation reads beside its arguments: the CBOR and the database packages, the registered
  block types, the clock, what a failed decoding leaves in a bundle (see \<open>loadEntireBundle\<close>), and the
  next value of the random generator.
\<close>

record 'db runtime =
  rt_cboring :: cboring
  rt_badgerhold :: "'db badgerhold"
  rt_ebm :: ExtensionBlockManager
  rt_now :: time
  rt_incomplete :: Bundle
  rt_rand :: nat

definition rand_Intn :: "'db runtime \<Rightarrow> nat \<Rightarrow> nat" where
  "rand_Intn rt n = rt_rand rt mod n"

definition store_panic :: "store_err \<Rightarrow> bool" where
  "store_panic e = (case e of OtherError e \<Rightarrow> is_panic e | _ \<Rightarrow> False)"

definition load_bundle :: "'db runtime \<Rightarrow> nat \<Rightarrow> 'db BundleStore \<Rightarrow> store_err + Bundle" where
  "load_bundle rt p st =
     (case Load (rt_cboring rt) (rt_ebm rt) (rt_now rt) p st of
        Inl e \<Rightarrow> Inl e
      | Inr (Some b) \<Rightarrow> Inr b
      | Inr None \<Rightarrow> Inr (rt_incomplete rt))"

section \<open>Algorithms\<close>

type_synonym AlgorithmEnum = u32

definition AlgorithmEpidemic :: AlgorithmEnum where "AlgorithmEpidemic = 1"
definition AlgorithmSprayAndWait :: AlgorithmEnum where "AlgorithmSprayAndWait = 2"

definition AlgorithmEnumFromString :: "string \<Rightarrow> AlgorithmEnum res" where
  "AlgorithmEnumFromString name =
     (let name = ToLower name in
      if name = ''epidemic'' then Inr AlgorithmEpidemic
      else if name = ''spray&wait'' then Inr AlgorithmSprayAndWait
      else Inl (Errorf ''not a valid algorithm name''))"

text \<open>The two implementations of the interface, with the fields of \<open>SprayAndWait\<close>: copies and binary.\<close>

datatype Algorithm = EpidemicRouting | SprayAndWait u64 bool

definition NewSprayAndWait :: "u64 \<Rightarrow> bool \<Rightarrow> Algorithm" where
  "NewSprayAndWait copies binary = SprayAndWait copies binary"

definition filterPeers :: "BundleDescriptor \<Rightarrow> Convergence list \<Rightarrow> Convergence list" where
  "filterPeers bd clas =
     (case GetKnownHolders bd of
        Inl _ \<Rightarrow> []
      | Inr sentEids \<Rightarrow> filter (\<lambda>cs. \<not> list_ex (\<lambda>eid. cla_PeerEndpointID cs = eid) sentEids) clas)"

definition getFilteredPeers :: "BundleDescriptor \<Rightarrow> Manager \<Rightarrow> Convergence list" where
  "getFilteredPeers bd manager = filterPeers bd (GetSenders manager)"

fun unique_peers :: "EndpointID list \<Rightarrow> Convergence list \<Rightarrow> Convergence list" where
  "unique_peers endpoints [] = []"
| "unique_peers endpoints (sender # peers) =
     (if cla_PeerEndpointID sender \<in> set endpoints then unique_peers endpoints peers
      else sender # unique_peers (cla_PeerEndpointID sender # endpoints) peers)"

definition uniquePeers :: "Convergence list \<Rightarrow> Convergence list" where
  "uniquePeers peers = unique_peers [] peers"

section \<open>Spray and wait\<close>

definition sprayBundleCopiesKey :: string where
  "sprayBundleCopiesKey = ''spray_and_wait/copies''"

definition setSprayCopies :: "'db badgerhold \<Rightarrow> nat \<Rightarrow> u64 \<Rightarrow> 'db BundleStore \<Rightarrow> 'db BundleStore" where
  "setSprayCopies D p copies st = snd (SetMiscData D sprayBundleCopiesKey (MiscUint64 copies) p st)"

definition getSprayCopies :: "BundleDescriptor \<Rightarrow> u64 option res" where
  "getSprayCopies bd =
     (case GetMiscData sprayBundleCopiesKey bd of
        None \<Rightarrow> Inr None
      | Some (MiscUint64 copies) \<Rightarrow> Inr (Some copies)
      | Some (MiscOther _) \<Rightarrow> Inl (Panic ''interface conversion: not a uint64''))"

type_synonym 'db notify_result = "unit res \<times> 'db BundleStore"

fun NotifyNewBundle :: "'db badgerhold \<Rightarrow> Algorithm \<Rightarrow> nat \<Rightarrow> Bundle \<Rightarrow> 'db BundleStore \<Rightarrow> 'db notify_result" where
  "NotifyNewBundle D EpidemicRouting p bundle st = (Inr (), st)"
| "NotifyNewBundle D (SprayAndWait copies binary) p bundle st = (Inr (), setSprayCopies D p copies st)"

fun NotifyReceivedBundle :: "'db badgerhold \<Rightarrow> Algorithm \<Rightarrow> nat \<Rightarrow> Bundle \<Rightarrow> 'db BundleStore \<Rightarrow> 'db notify_result" where
  "NotifyReceivedBundle D EpidemicRouting p bundle st = (Inr (), st)"
| "NotifyReceivedBundle D (SprayAndWait _ _) p bundle st =
     (case ExtensionBlockByType bundle BlockTypeBinarySprayBlock of
        Inl _ \<Rightarrow> (Inr (), setSprayCopies D p 0 st)
      | Inr i \<Rightarrow> (case cb_Value (bndl_ExtensionBlocks bundle ! i) of
          BinarySprayBlock copies \<Rightarrow> (Inr (), setSprayCopies D p copies st)
        | _ \<Rightarrow> (Inl (Panic ''interface conversion: not a BinarySprayBlock''), st)))"

type_synonym 'db select_result = "(Convergence list \<times> Bundle option) res \<times> 'db BundleStore"

definition selectBasicSpray ::
    "'db badgerhold \<Rightarrow> nat \<Rightarrow> u64 \<Rightarrow> Convergence list \<Rightarrow> u64 \<Rightarrow> 'db BundleStore \<Rightarrow> Convergence list \<times> 'db BundleStore" where
  "selectBasicSpray D p copies peers nPeers st =
     (let (remainingCopies, selectedPeers) =
        (if nPeers \<le> copies then (copies - nPeers, peers) else (0, take (unat copies) peers))
      in (selectedPeers, setSprayCopies D p remainingCopies st))"

text \<open>
  The loop that removes the previous spray blocks. The pointers in \<open>blocks\<close> are indices into the
  array behind the slice of extension blocks; removing a block shifts the later ones within that
  array and leaves the last element behind the shortened slice, so later pointers refer to what has
  been shifted. \<open>stale\<close> is the part of the array behind the slice.
\<close>

fun remove_blocks :: "nat list \<Rightarrow> CanonicalBlock list \<Rightarrow> CanonicalBlock list \<Rightarrow> CanonicalBlock list" where
  "remove_blocks [] cbs stale = cbs"
| "remove_blocks (i # blocks) cbs stale =
     (let cbs' = remove_number (cb_BlockNumber ((cbs @ stale) ! i)) cbs
      in remove_blocks blocks cbs' (if length cbs' < length cbs then last cbs # stale else stale))"

definition selectBinarySpray ::
    "'db runtime \<Rightarrow> nat \<Rightarrow> u64 \<Rightarrow> Convergence list \<Rightarrow> 'db BundleStore \<Rightarrow> 'db select_result" where
  "selectBinarySpray rt p copies peers st =
     (let sendCopies = copies div 2;
          retainedCopies = copies div 2 + (if copies mod 2 \<noteq> 0 then 1 else 0)
      in case load_bundle rt p st of
           Inl e \<Rightarrow> (if store_panic e then Inl (Panic ''panic while loading'') else Inr ([], None), st)
         | Inr bundle \<Rightarrow>
           let bundle = (case ExtensionBlocksByType bundle BlockTypeBinarySprayBlock of
                 Inl _ \<Rightarrow> bundle
               | Inr blocks \<Rightarrow> bundle\<lparr>bndl_ExtensionBlocks := remove_blocks blocks (bndl_ExtensionBlocks bundle) []\<rparr>)
           in case AddExtensionBlock (NewCanonicalBlock 0 0 (NewBinarySprayBlock sendCopies)) bundle of
                Inl e \<Rightarrow> (if is_panic e then Inl e else Inr ([], None), st)
              | Inr bundle \<Rightarrow>
                (Inr ([peers ! rand_Intn rt (length peers)], Some bundle),
                 setSprayCopies (rt_badgerhold rt) p retainedCopies st))"

section \<open>Selecting peers\<close>

definition SprayAndWait_SelectPeersForForwarding ::
    "'db runtime \<Rightarrow> u64 \<Rightarrow> bool \<Rightarrow> nat \<Rightarrow> BundleDescriptor \<Rightarrow> Convergence list \<Rightarrow> 'db BundleStore \<Rightarrow> 'db select_result" where
  "SprayAndWait_SelectPeersForForwarding rt routerCopies binary p bd peers st =
     (case getSprayCopies bd of
        Inl e \<Rightarrow> (Inl e, st)
      | Inr saved \<Rightarrow>
        let (copies, st) = (case saved of
              Some copies \<Rightarrow> (copies, st)
            | None \<Rightarrow> (routerCopies, setSprayCopies (rt_badgerhold rt) p routerCopies st))
        in if \<not> binary \<and> \<not> copies > 0 then (Inr ([], None), st)
           else if binary \<and> \<not> copies > 1 then (Inr ([], None), st)
           else let peers = filterPeers bd peers; nPeers = (of_nat (length peers) :: u64)
             in if \<not> nPeers > 0 then (Inr ([], None), st)
                else if binary then selectBinarySpray rt p copies peers st
                else (case selectBasicSpray (rt_badgerhold rt) p copies peers nPeers st of
                        (selected, st) \<Rightarrow> (Inr (selected, None), st)))"

fun SelectPeersForForwarding ::
    "'db runtime \<Rightarrow> Algorithm \<Rightarrow> nat \<Rightarrow> Convergence list \<Rightarrow> 'db BundleStore \<Rightarrow> 'db select_result" where
  "SelectPeersForForwarding rt alg p peers st =
     (case bst_heap st p of
        None \<Rightarrow> (Inl (Panic ''dangling descriptor''), st)
      | Some bd \<Rightarrow> (case alg of
          EpidemicRouting \<Rightarrow> (Inr (filterPeers bd peers, None), st)
        | SprayAndWait copies binary \<Rightarrow>
            SprayAndWait_SelectPeersForForwarding rt copies binary p bd peers st))"

definition NotifyPeerAppeared :: "Algorithm \<Rightarrow> EndpointID \<Rightarrow> 'db BundleStore \<Rightarrow> 'db BundleStore" where
  "NotifyPeerAppeared alg peer st = st"

definition NotifyPeerDisappeared :: "Algorithm \<Rightarrow> EndpointID \<Rightarrow> 'db BundleStore \<Rightarrow> 'db BundleStore" where
  "NotifyPeerDisappeared alg peer st = st"

section \<open>Properties\<close>

lemma set_filterPeers:
  "set (filterPeers bd clas) =
     (if bd_deleted bd then {} else {c \<in> set clas. cla_PeerEndpointID c \<notin> set (md_KnownHolders (bd_metadata bd))})"
  by (auto simp: filterPeers_def GetKnownHolders_def list_ex_iff)

lemma unique_peers_props:
  "distinct (map cla_PeerEndpointID (unique_peers es ps))"
  "cla_PeerEndpointID ` set (unique_peers es ps) = cla_PeerEndpointID ` set ps - set es"
  "set (unique_peers es ps) \<subseteq> set ps"
  by (induction es ps rule: unique_peers.induct) auto

subsection \<open>The state after a call\<close>

text \<open>The only change of a state: the miscellaneous data of one descriptor, and the database.\<close>

definition misc_only :: "nat \<Rightarrow> 'db BundleStore \<Rightarrow> 'db BundleStore \<Rightarrow> bool" where
  "misc_only p st st' \<longleftrightarrow>
     (\<exists>bd mm. bst_heap st p = Some bd \<and>
        bst_heap st' = (bst_heap st)(p \<mapsto> bd\<lparr>bd_metadata := (bd_metadata bd)\<lparr>md_MiscellaneousData := mm\<rparr>\<rparr>)) \<and>
     bst_bundles st' = bst_bundles st \<and> bst_files st' = bst_files st \<and> bst_next st' = bst_next st \<and>
     bst_pending st' = bst_pending st \<and> bst_nodeID st' = bst_nodeID st"

lemma misc_only_refl: "bst_heap st p = Some bd \<Longrightarrow> misc_only p st st"
  unfolding misc_only_def
  by (intro conjI exI [of _ bd] exI [of _ "md_MiscellaneousData (bd_metadata bd)"]) (auto simp: fun_upd_idem)

lemma misc_only_trans: "misc_only p st st1 \<Longrightarrow> misc_only p st1 st2 \<Longrightarrow> misc_only p st st2"
  unfolding misc_only_def by auto (rule exI, rule refl)

lemma misc_onlyD:
  assumes "misc_only p st st'" "bst_heap st p = Some bd"
  obtains bd' where "bst_heap st' p = Some bd'" "bd_deleted bd' = bd_deleted bd" "bd_ID bd' = bd_ID bd"
    "bd_retentionConstraints bd' = bd_retentionConstraints bd" "bd_shouldDelete bd' = bd_shouldDelete bd"
    "md_KnownHolders (bd_metadata bd') = md_KnownHolders (bd_metadata bd)"
    "md_SerialisedFileName (bd_metadata bd') = md_SerialisedFileName (bd_metadata bd)"
    "bst_files st' = bst_files st" "bst_bundles st' = bst_bundles st"
  using assms by (auto simp: misc_only_def bd_ID_def)

lemma setSprayCopies_misc: "bst_heap st p = Some bd \<Longrightarrow> misc_only p st (setSprayCopies D p c st)"
  by (auto simp: setSprayCopies_def SetMiscData_def Let_def misc_only_def updateBundleMetadata_def set_metadata_def
      bindR_def split: sum.splits)

lemma setSprayCopies_get:
  assumes "bst_heap st p = Some bd"
  shows "\<exists>bd'. bst_heap (setSprayCopies D p c st) p = Some bd' \<and> getSprayCopies bd' = Inr (Some c)"
  using assms by (auto simp: setSprayCopies_def SetMiscData_def Let_def updateBundleMetadata_def set_metadata_def
      bindR_def getSprayCopies_def GetMiscData_def split: sum.splits)

lemma misc_only_filterPeers:
  "misc_only p st st' \<Longrightarrow> bst_heap st p = Some bd \<Longrightarrow> bst_heap st' p = Some bd' \<Longrightarrow> filterPeers bd' = filterPeers bd"
  by (auto simp: misc_only_def filterPeers_def GetKnownHolders_def bd_ID_def fun_eq_iff)

subsection \<open>The contract of a routing algorithm\<close>

text \<open>
  What the pipeline relies on: selecting peers never picks one that is not offered or already holds the
  bundle, changes nothing but miscellaneous data of the bundle at hand, and keeps the store invariant.
\<close>

locale routing_algorithm =
  fixes get :: "'db \<Rightarrow> string \<rightharpoonup> BundleMetadata"
    and select :: "nat \<Rightarrow> Convergence list \<Rightarrow> 'db BundleStore \<Rightarrow> 'db select_result"
  assumes select_peers: "bst_heap st p = Some bd \<Longrightarrow> select p peers st = (Inr (sel, b), st') \<Longrightarrow>
      set sel \<subseteq> set (filterPeers bd peers)"
    and select_frame: "bst_heap st p = Some bd \<Longrightarrow> misc_only p st (snd (select p peers st))"
    and select_inv: "store_inv get st \<Longrightarrow> bst_heap st p = Some bd \<Longrightarrow> \<not> bd_deleted bd \<Longrightarrow>
      store_inv get (snd (select p peers st))"

lemma selectBinarySpray_cases:
  obtains (no) r where "selectBinarySpray rt p copies peers st = (r, st)" "\<And>sel b. r = Inr (sel, b) \<Longrightarrow> sel = [] \<and> b = None"
  | (yes) b where "selectBinarySpray rt p copies peers st = (Inr ([peers ! rand_Intn rt (length peers)], Some b),
      setSprayCopies (rt_badgerhold rt) p (copies div 2 + (if copies mod 2 \<noteq> 0 then 1 else 0)) st)"
proof (cases "\<exists>b. fst (selectBinarySpray rt p copies peers st) = Inr ([peers ! rand_Intn rt (length peers)], Some b)")
  case True
  then show thesis using yes
    by (auto simp: selectBinarySpray_def Let_def split: sum.splits if_splits)
next
  case False
  show thesis
    by (rule no [of "fst (selectBinarySpray rt p copies peers st)"])
      (use False in \<open>auto simp: selectBinarySpray_def Let_def split: sum.splits if_splits\<close>)
qed

text \<open>A call without saved copies saves the default first, and then acts on the copies it has.\<close>

definition spray_start :: "'db badgerhold \<Rightarrow> u64 \<Rightarrow> nat \<Rightarrow> u64 option \<Rightarrow> 'db BundleStore \<Rightarrow> u64 \<times> 'db BundleStore" where
  "spray_start D c0 p saved st =
     (case saved of Some copies \<Rightarrow> (copies, st) | None \<Rightarrow> (c0, setSprayCopies D p c0 st))"

definition spray_select :: "'db runtime \<Rightarrow> bool \<Rightarrow> nat \<Rightarrow> u64 \<Rightarrow> Convergence list \<Rightarrow> 'db BundleStore \<Rightarrow> 'db select_result" where
  "spray_select rt binary p copies ps st =
     (if (if binary then copies \<le> 1 else copies = 0) \<or> (of_nat (length ps) :: u64) = 0 then (Inr ([], None), st)
      else if binary then selectBinarySpray rt p copies ps st
      else (case selectBasicSpray (rt_badgerhold rt) p copies ps (of_nat (length ps)) st of
              (selected, st) \<Rightarrow> (Inr (selected, None), st)))"

lemma SprayAndWait_eq:
  "SprayAndWait_SelectPeersForForwarding rt c0 binary p bd peers st =
     (case getSprayCopies bd of Inl e \<Rightarrow> (Inl e, st)
      | Inr saved \<Rightarrow> (case spray_start (rt_badgerhold rt) c0 p saved st of
          (copies, st1) \<Rightarrow> spray_select rt binary p copies (filterPeers bd peers) st1))"
proof -
  have "(0 < x) = (x \<noteq> 0)" for x :: u64 by (simp add: word_gt_0)
  then show ?thesis
    by (auto simp: SprayAndWait_SelectPeersForForwarding_def spray_start_def spray_select_def Let_def not_less
        split: sum.split option.split)
qed

lemma spray_select_frame:
  assumes "bst_heap st p = Some bd"
  shows "misc_only p st (snd (spray_select rt binary p copies ps st))"
  using misc_only_refl [OF assms] setSprayCopies_misc [OF assms]
  by (cases rule: selectBinarySpray_cases [of rt p copies ps st])
    (auto simp: spray_select_def selectBasicSpray_def Let_def)

lemma spray_select_peers:
  assumes "spray_select rt binary p copies ps st = (Inr (sel, b), st')"
  shows "set sel \<subseteq> set ps"
proof (cases "ps = []")
  case True
  then show ?thesis using assms by (simp add: spray_select_def)
next
  case False
  then have "ps ! rand_Intn rt (length ps) \<in> set ps" by (simp add: rand_Intn_def)
  then show ?thesis using assms
    by (cases rule: selectBinarySpray_cases [of rt p copies ps st])
      (auto simp: spray_select_def selectBasicSpray_def Let_def dest: in_set_takeD split: if_splits)
qed

lemma spray_start_frame:
  "bst_heap st p = Some bd \<Longrightarrow> spray_start D c0 p saved st = (copies, st1) \<Longrightarrow> misc_only p st st1"
  by (auto simp: spray_start_def setSprayCopies_misc misc_only_refl split: option.splits)

lemma SprayAndWait_frame:
  assumes "bst_heap st p = Some bd"
  shows "misc_only p st (snd (SprayAndWait_SelectPeersForForwarding rt c0 binary p bd peers st))"
proof (cases "getSprayCopies bd")
  case (Inl e)
  then show ?thesis using misc_only_refl [OF assms] by (simp add: SprayAndWait_eq)
next
  case (Inr saved)
  obtain copies st1 where s: "spray_start (rt_badgerhold rt) c0 p saved st = (copies, st1)" by (cases "spray_start (rt_badgerhold rt) c0 p saved st")
  note m = spray_start_frame [OF assms s]
  obtain bd1 where "bst_heap st1 p = Some bd1" using misc_onlyD [OF m assms] by metis
  then show ?thesis using misc_only_trans [OF m spray_select_frame] Inr s by (simp add: SprayAndWait_eq)
qed

lemma SelectPeers_subset:
  assumes "SelectPeersForForwarding rt alg p peers st = (Inr (sel, b), st')" "bst_heap st p = Some bd"
  shows "set sel \<subseteq> set (filterPeers bd peers)"
  using assms
  by (auto simp: SprayAndWait_eq dest: spray_select_peers split: Algorithm.splits sum.splits prod.splits)

context badger
begin

lemma setSprayCopies_inv:
  assumes "store_inv get st" "bst_heap st p = Some bd" "\<not> bd_deleted bd"
  shows "store_inv get (setSprayCopies D p c st)"
  using SetMiscData_inv(1) [OF assms(1,2)] inv_heapD(4) [of st p bd] assms
  by (simp add: setSprayCopies_def store_inv_def)

lemma spray_select_inv:
  assumes "store_inv get st" "bst_heap st p = Some bd" "\<not> bd_deleted bd" "rt_badgerhold rt = D"
  shows "store_inv get (snd (spray_select rt binary p copies ps st))"
  using setSprayCopies_inv [OF assms(1-3)] assms(1,4)
  by (cases rule: selectBinarySpray_cases [of rt p copies ps st])
    (auto simp: spray_select_def selectBasicSpray_def Let_def)

lemma SprayAndWait_inv:
  assumes "store_inv get st" "bst_heap st p = Some bd" "\<not> bd_deleted bd" "rt_badgerhold rt = D"
  shows "store_inv get (snd (SprayAndWait_SelectPeersForForwarding rt c0 binary p bd peers st))"
proof (cases "getSprayCopies bd")
  case (Inl e)
  then show ?thesis using assms(1) by (simp add: SprayAndWait_eq)
next
  case (Inr saved)
  obtain copies st1 where s: "spray_start D c0 p saved st = (copies, st1)" by (cases "spray_start D c0 p saved st")
  have "store_inv get st1" using s setSprayCopies_inv [OF assms(1-3)] assms(1)
    by (auto simp: spray_start_def split: option.splits)
  moreover obtain bd1 where "bst_heap st1 p = Some bd1" "\<not> bd_deleted bd1"
    using misc_onlyD [OF spray_start_frame [OF assms(2) s] assms(2)] assms(3) by metis
  ultimately show ?thesis using spray_select_inv [OF _ _ _ assms(4)] Inr s assms(4) by (simp add: SprayAndWait_eq)
qed

text \<open>Both algorithms fulfil the contract, whatever the environment of the call.\<close>

lemma algorithms_routing:
  assumes "rt_badgerhold rt = D"
  shows "routing_algorithm get (SelectPeersForForwarding rt alg)"
proof
  fix st :: "'db BundleStore" and p bd peers
  assume p: "bst_heap st p = Some bd"
  show "misc_only p st (snd (SelectPeersForForwarding rt alg p peers st))"
    using p misc_only_refl [OF p] SprayAndWait_frame [OF p] by (cases alg) auto
  show "store_inv get (snd (SelectPeersForForwarding rt alg p peers st))" if "store_inv get st" "\<not> bd_deleted bd"
    using SprayAndWait_inv [OF that(1) p that(2) assms] p that(1) by (cases alg) auto
  fix sel b st' assume "SelectPeersForForwarding rt alg p peers st = (Inr (sel, b), st')"
  then show "set sel \<subseteq> set (filterPeers bd peers)" using p by (rule SelectPeers_subset)
qed

end

interpretation epidemic: routing_algorithm map_of "SelectPeersForForwarding (rt\<lparr>rt_badgerhold := alist_db\<rparr>) EpidemicRouting" for rt
  by (rule alist.algorithms_routing) simp

interpretation spray_and_wait: routing_algorithm map_of
    "SelectPeersForForwarding (rt\<lparr>rt_badgerhold := alist_db\<rparr>) (SprayAndWait copies binary)" for rt copies binary
  by (rule alist.algorithms_routing) simp

subsection \<open>Blocks that spray and wait replaces\<close>

lemma set_remove_number:
  "distinct (map cb_BlockNumber cbs) \<Longrightarrow> set (remove_number no cbs) = {cb \<in> set cbs. cb_BlockNumber cb \<noteq> no}"
  by (induction cbs) (auto simp: image_iff)

lemma distinct_remove_number:
  "distinct (map cb_BlockNumber cbs) \<Longrightarrow> distinct (map cb_BlockNumber (remove_number no cbs))"
  by (induction cbs) (auto simp: set_remove_number)

lemma length_remove_number: "length (remove_number no cbs) \<le> length cbs"
  by (induction cbs) auto

definition without_type :: "u64 \<Rightarrow> Bundle \<Rightarrow> CanonicalBlock set" where
  "without_type t b = {cb \<in> set (bndl_ExtensionBlocks b). TypeCode cb \<noteq> t}"

lemma remove_single_type:
  assumes "distinct (block_numbers b)" "ExtensionBlockByType b t = Inr i"
  shows "set (remove_number (cb_BlockNumber (bndl_ExtensionBlocks b ! i)) (bndl_ExtensionBlocks b)) = without_type t b"
proof -
  let ?cbs = "bndl_ExtensionBlocks b"
  have d: "distinct (map cb_BlockNumber ?cbs)" using assms(1) by (simp add: block_numbers_def)
  have i: "filter (\<lambda>i. TypeCode (?cbs ! i) = t) [0..<length ?cbs] = [i]"
    using assms(2) unfolding ExtensionBlockByType_def
    by (auto simp: bindR_Inr_iff ExtensionBlocksByType_iff length_Suc_conv split: if_splits)
  then have *: "j < length ?cbs \<and> TypeCode (?cbs ! j) = t \<longleftrightarrow> j = i" for j
  proof -
    have "j \<in> set (filter (\<lambda>i. TypeCode (?cbs ! i) = t) [0..<length ?cbs]) \<longleftrightarrow> j = i" unfolding i by simp
    then show ?thesis by simp
  qed
  have "cb_BlockNumber (?cbs ! j) = cb_BlockNumber (?cbs ! i) \<longleftrightarrow> j = i" if "j < length ?cbs" for j
    using d that * [of i] by (auto simp: distinct_conv_nth)
  then have "cb_BlockNumber cb \<noteq> cb_BlockNumber (?cbs ! i) \<longleftrightarrow> TypeCode cb \<noteq> t" if "cb \<in> set ?cbs" for cb
    using that * by (metis in_set_conv_nth)
  then show ?thesis using set_remove_number [OF d] by (auto simp: without_type_def)
qed

lemma load_bundle_misc: "misc_only p st st' \<Longrightarrow> load_bundle rt p st' = load_bundle rt p st"
  by (auto simp: misc_only_def load_bundle_def Load_def loadEntireBundle_def bd_ID_def split: option.splits)

text \<open>The copies a call works with: the saved ones, or the default.\<close>

definition spray_copies :: "u64 \<Rightarrow> BundleDescriptor \<Rightarrow> u64" where
  "spray_copies c0 bd = (case getSprayCopies bd of Inr (Some c) \<Rightarrow> c | _ \<Rightarrow> c0)"

lemma spray_start_copies:
  assumes "bst_heap st p = Some bd" "getSprayCopies bd = Inr saved" "spray_start D c0 p saved st = (copies, st1)"
  shows "copies = spray_copies c0 bd" "\<exists>bd1. bst_heap st1 p = Some bd1 \<and> getSprayCopies bd1 = Inr (Some copies)"
  using assms setSprayCopies_get [OF assms(1), of D c0]
  by (auto simp: spray_start_def spray_copies_def split: option.splits)

lemma SprayAndWait_select:
  assumes "bst_heap st p = Some bd" "getSprayCopies bd = Inr saved"
  obtains st1 bd1 where "misc_only p st st1" "bst_heap st1 p = Some bd1"
    "getSprayCopies bd1 = Inr (Some (spray_copies c0 bd))"
    "SelectPeersForForwarding rt (SprayAndWait c0 binary) p peers st =
       spray_select rt binary p (spray_copies c0 bd) (filterPeers bd peers) st1"
proof -
  obtain copies st1 where s: "spray_start (rt_badgerhold rt) c0 p saved st = (copies, st1)"
    by (cases "spray_start (rt_badgerhold rt) c0 p saved st")
  from spray_start_copies [OF assms s] obtain bd1 where "copies = spray_copies c0 bd"
    "bst_heap st1 p = Some bd1" "getSprayCopies bd1 = Inr (Some copies)" by blast
  then show thesis using that [OF spray_start_frame [OF assms(1) s]] assms s by (simp add: SprayAndWait_eq)
qed

lemma unat_halves:
  fixes c :: u64
  shows "unat (c div 2) = unat c div 2" "unat (c div 2 + (if c mod 2 \<noteq> 0 then 1 else 0)) = (unat c + 1) div 2"
proof -
  have d: "unat (c div 2) = unat c div 2" "unat (c mod 2) = unat c mod 2" by (simp_all add: unat_div unat_mod)
  have lt: "unat c < 2 ^ 64" using unsigned_less [of c] by simp
  show "unat (c div 2) = unat c div 2" by (fact d)
  show "unat (c div 2 + (if c mod 2 \<noteq> 0 then 1 else 0)) = (unat c + 1) div 2"
  proof (cases "c mod 2 = 0")
    case True
    then have "unat c mod 2 = 0" using d(2) by simp
    then show ?thesis using True d(1) by simp presburger
  next
    case False
    then have "unat c mod 2 = 1" using d(2) by (metis mod2_eq_if unat_eq_zero)
    moreover have "unat (c div 2 + 1) = unat c div 2 + 1"
      using d(1) lt by (subst unat_plus_if') auto
    ultimately show ?thesis using False by simp presburger
  qed
qed

lemma selectBinarySpray_yes:
  assumes "load_bundle rt p st = Inr b0" "distinct (block_numbers b0)" "length (bndl_ExtensionBlocks b0) < 2 ^ 64"
    "\<not> HasExtensionBlock b0 BlockTypeBinarySprayBlock \<or> (\<exists>i. ExtensionBlockByType b0 BlockTypeBinarySprayBlock = Inr i)"
  shows "\<exists>b no. selectBinarySpray rt p c peers st = (Inr ([peers ! rand_Intn rt (length peers)], Some b),
      setSprayCopies (rt_badgerhold rt) p (c div 2 + (if c mod 2 \<noteq> 0 then 1 else 0)) st) \<and>
    set (bndl_ExtensionBlocks b) =
      insert (NewCanonicalBlock no 0 (BinarySprayBlock (c div 2))) (without_type BlockTypeBinarySprayBlock b0) \<and>
    distinct (block_numbers b) \<and> bndl_PrimaryBlock b = bndl_PrimaryBlock b0 \<and> bndl_PayloadBlock b = bndl_PayloadBlock b0"
proof -
  let ?T = BlockTypeBinarySprayBlock
  define b1 where "b1 = (case ExtensionBlocksByType b0 ?T of Inl _ \<Rightarrow> b0
    | Inr blocks \<Rightarrow> b0\<lparr>bndl_ExtensionBlocks := remove_blocks blocks (bndl_ExtensionBlocks b0) []\<rparr>)"
  have b1: "set (bndl_ExtensionBlocks b1) = without_type ?T b0 \<and> distinct (block_numbers b1) \<and>
    length (bndl_ExtensionBlocks b1) < 2 ^ 64 \<and> bndl_PrimaryBlock b1 = bndl_PrimaryBlock b0 \<and>
    bndl_PayloadBlock b1 = bndl_PayloadBlock b0"
  proof (cases "HasExtensionBlock b0 ?T")
    case False
    then obtain e where "ExtensionBlocksByType b0 ?T = Inl e" by (auto simp: HasExtensionBlock_def split: sum.splits)
    moreover have "without_type ?T b0 = set (bndl_ExtensionBlocks b0)"
      using False by (auto simp: without_type_def HasExtensionBlock_iff)
    ultimately show ?thesis using assms(2,3) by (simp add: b1_def)
  next
    case True
    then obtain i where i: "ExtensionBlockByType b0 ?T = Inr i" using assms(4) by blast
    then have "ExtensionBlocksByType b0 ?T = Inr [i]"
      by (auto simp: ExtensionBlockByType_def bindR_Inr_iff length_Suc_conv split: if_splits)
    moreover have "i < length (bndl_ExtensionBlocks b0)" using ExtensionBlockByType_Inr [OF i] by simp
    ultimately have "b1 = b0\<lparr>bndl_ExtensionBlocks :=
        remove_number (cb_BlockNumber (bndl_ExtensionBlocks b0 ! i)) (bndl_ExtensionBlocks b0)\<rparr>"
      by (simp add: b1_def)
    then show ?thesis using remove_single_type [OF assms(2) i] assms(2,3) le_less_trans [OF length_remove_number]
      by (simp add: block_numbers_def distinct_remove_number)
  qed
  let ?cb = "NewCanonicalBlock 0 0 (NewBinarySprayBlock (c div 2))"
  obtain b where b: "AddExtensionBlock ?cb b1 = Inr b" using AddExtensionBlock_total [of b1 ?cb] b1 by blast
  note f = AddExtensionBlock_frame [OF b]
  obtain no where "set (bndl_ExtensionBlocks b) = insert (?cb\<lparr>cb_BlockNumber := no\<rparr>) (set (bndl_ExtensionBlocks b1))"
    using f(4) by blast
  moreover have "?cb\<lparr>cb_BlockNumber := no\<rparr> = NewCanonicalBlock no 0 (BinarySprayBlock (c div 2))"
    by (simp add: NewCanonicalBlock_def)
  moreover have "selectBinarySpray rt p c peers st = (Inr ([peers ! rand_Intn rt (length peers)], Some b),
      setSprayCopies (rt_badgerhold rt) p (c div 2 + (if c mod 2 \<noteq> 0 then 1 else 0)) st)"
    using assms(1) b by (simp add: selectBinarySpray_def Let_def b1_def [symmetric])
  ultimately show ?thesis using f b1 by metis
qed

section \<open>Examples\<close>

definition example_runtime :: "(string \<times> BundleMetadata) list runtime" where
  "example_runtime = \<lparr>rt_cboring = rfc8949, rt_badgerhold = alist_db, rt_ebm = GetExtensionBlockManager, rt_now = 0,
     rt_incomplete = example_bundle, rt_rand = 4\<rparr>"

definition example_peer :: Convergence where
  "example_peer = example_cla\<lparr>cla_PeerEndpointID := Some (Ipn \<lparr>Node = 7, Service = 1\<rparr>)\<rparr>"

text \<open>A store that holds one given bundle, and what loading it gives.\<close>

lemma example_holds_marshalled:
  assumes "wf_bundle GetExtensionBlockManager b" "Bundle_CheckValid 0 b = Inr []" "previous_node b = Inr None"
  obtains st b' where "store_inv map_of st" "bst_heap st 0 = Some (NewBundleDescriptor (new_metadata DtnNone b None))"
    "load_bundle example_runtime 0 st = Inr b'" "strip_crc b' = strip_crc b" "\<exists>bs. Bundle_MarshalCbor rfc8949 b = Inr (bs, b')"
proof -
  obtain p st b' where i: "InsertBundle rfc8949 alist_db example_env b example_store = (Inr p, st)" "store_inv map_of st"
    "Load rfc8949 GetExtensionBlockManager 0 p st = Inr (Some b')" "strip_crc b' = strip_crc b" "\<exists>bs. Bundle_MarshalCbor rfc8949 b = Inr (bs, b')"
    using alist.insert_load [OF rfc.cboring_lib_axioms example_store_inv assms(1) example_fresh(1,2)
        assms(3) example_fresh(3,4) assms(2)] by blast
  have "p = 0 \<and> bst_heap st 0 = Some (NewBundleDescriptor (new_metadata DtnNone b None))"
    using i(1) assms(3) by (auto simp: InsertBundle_def insertNewBundleUnsafe_def example_store_def Let_def
        alist_db_def example_env_def split: sum.splits prod.splits)
  then show thesis using that i by (simp add: load_bundle_def example_runtime_def)
qed

lemma example_holds:
  assumes "wf_bundle GetExtensionBlockManager b" "Bundle_CheckValid 0 b = Inr []" "previous_node b = Inr None"
  obtains st b' where "store_inv map_of st" "bst_heap st 0 = Some (NewBundleDescriptor (new_metadata DtnNone b None))"
    "load_bundle example_runtime 0 st = Inr b'" "strip_crc b' = strip_crc b"
  using example_holds_marshalled [OF assms] by metis

lemma new_descriptor_simps:
  "getSprayCopies (NewBundleDescriptor (new_metadata n b prev)) = Inr None"
  "filterPeers (NewBundleDescriptor (new_metadata n b None)) ps = filter (\<lambda>c. cla_PeerEndpointID c \<noteq> n) ps"
  "\<not> bd_deleted (NewBundleDescriptor m)"
  by (simp_all add: getSprayCopies_def GetMiscData_def NewBundleDescriptor_def new_metadata_def Let_def filterPeers_def
      GetKnownHolders_def)

lemma strip_crc_numbers: "strip_crc b' = strip_crc b \<Longrightarrow> block_numbers b' = block_numbers b"
proof -
  have "block_numbers (strip_crc b) = block_numbers b" for b by (simp add: block_numbers_def strip_crc_def)
  then show "strip_crc b' = strip_crc b \<Longrightarrow> block_numbers b' = block_numbers b" by metis
qed

lemma strip_crc_types:
  "strip_crc b' = strip_crc b \<Longrightarrow> HasExtensionBlock b' t = HasExtensionBlock b t"
  "strip_crc b' = strip_crc b \<Longrightarrow> ExtensionBlockByType b' t = ExtensionBlockByType b t"
  by (metis ExtensionBlockByType_strip)+

definition example_spray_bundle :: Bundle where
  "example_spray_bundle = example_bundle\<lparr>bndl_ExtensionBlocks :=
     [NewCanonicalBlock 2 0 (GenericExtensionBlock [5] 192), NewCanonicalBlock 3 0 (GenericExtensionBlock [6] 192),
      NewCanonicalBlock 4 0 (HopCountBlock 5 1)]\<rparr>"

lemmas example_wf_simps = wf_bundle_def wf_primary_def wf_canonical_def wf_ext_def example_bundle_def example_primary_def
  default_manager NewCanonicalBlock_def TypeCode_def block_type_defs known_crc_def crc_type_defs dtnVersion_def
  CanonicalBlock_HasCRC_def PrimaryBlock_HasFragmentation_def PrimaryBlock_HasCRC_def Has_bit_simps
  wf_eid_def wf_ipn_def short_eid_def

lemma example_spray_wf: "wf_bundle GetExtensionBlockManager example_spray_bundle"
  by (simp add: example_wf_simps example_spray_bundle_def)

section \<open>Correctness\<close>

text \<open>
  C19. Whatever the algorithm and its state, a bundle is only forwarded to connected peers that are not
  known to hold it already, and a deleted bundle is forwarded to nobody.
\<close>

theorem SelectPeers_avoids_holders:
  assumes "bst_heap st p = Some bd" "SelectPeersForForwarding rt alg p (GetSenders m) st = (Inr (sel, b), st')"
  shows "set sel \<subseteq> set (GetSenders m) \<and>
    (\<forall>c \<in> set sel. GetKnownHolders bd \<noteq> Inl (BundleDeletedError (bd_ID bd)) \<and>
       (\<exists>hs. GetKnownHolders bd = Inr hs \<and> cla_PeerEndpointID c \<notin> set hs))"
  using SelectPeers_subset [OF assms(2,1)] by (auto simp: set_filterPeers GetKnownHolders_def split: if_splits)

theorem SelectPeers_avoids_holders_witness:
  "\<exists>(st :: (string \<times> BundleMetadata) list BundleStore) m sel. store_inv map_of st \<and>
     SelectPeersForForwarding example_runtime EpidemicRouting 0 (GetSenders m) st = (Inr (sel, None), st) \<and>
     sel = [example_peer] \<and> set sel \<subseteq> set (GetSenders m)"
proof -
  obtain st b' where st: "store_inv map_of st" "bst_heap st 0 = Some (NewBundleDescriptor (new_metadata DtnNone example_bundle None))"
    using example_holds [OF example_bundle_wf example_bundle_valid example_previous_node] by metis
  let ?m = "InitialiseCLAManager\<lparr>mgr_senders := [example_cla, example_peer]\<rparr>"
  have r: "SelectPeersForForwarding example_runtime EpidemicRouting 0 (GetSenders ?m) st = (Inr ([example_peer], None), st)"
    using st(2) by (simp add: new_descriptor_simps GetSenders_def example_peer_def example_cla_def DtnNone_def)
  show ?thesis using SelectPeers_avoids_holders [OF st(2) r] r st(1) by blast
qed

text \<open>
  Epidemic routing floods: it selects exactly the connected peers that do not hold the bundle.
\<close>

lemma Epidemic_floods:
  assumes "bst_heap st p = Some bd" "\<not> bd_deleted bd"
  shows "\<exists>sel. SelectPeersForForwarding rt EpidemicRouting p peers st = (Inr (sel, None), st) \<and>
    set sel = {c \<in> set peers. cla_PeerEndpointID c \<notin> set (md_KnownHolders (bd_metadata bd))}"
  using assms by (simp add: set_filterPeers)

text \<open>
  Basic spray and wait never exceeds its copies: it selects as many eligible peers as it has copies,
  in order, and the copies it saves are the old ones less one for each selected peer.
\<close>

lemma basic_spray_conserves_copies:
  assumes "bst_heap st p = Some bd" "getSprayCopies bd = Inr saved" "length (filterPeers bd peers) < 2 ^ 64"
  shows "\<exists>sel st' bd' left. SelectPeersForForwarding rt (SprayAndWait c0 False) p peers st = (Inr (sel, None), st') \<and>
    sel = take (unat (spray_copies c0 bd)) (filterPeers bd peers) \<and>
    bst_heap st' p = Some bd' \<and> getSprayCopies bd' = Inr (Some left) \<and>
    unat left + length sel = unat (spray_copies c0 bd)"
proof -
  let ?c = "spray_copies c0 bd" and ?ps = "filterPeers bd peers"
  obtain st1 bd1 where s: "bst_heap st1 p = Some bd1" "getSprayCopies bd1 = Inr (Some ?c)"
    "SelectPeersForForwarding rt (SprayAndWait c0 False) p peers st = spray_select rt False p ?c ?ps st1"
    using SprayAndWait_select [OF assms(1,2)] by metis
  have n: "unat (of_nat (length ?ps) :: u64) = length ?ps" using assms(3) by (simp add: unat_of_nat)
  have le: "(of_nat (length ?ps) :: u64) \<le> ?c \<longleftrightarrow> length ?ps \<le> unat ?c" using n by (simp add: word_le_nat_alt)
  have z: "(of_nat (length ?ps) :: u64) = 0 \<longleftrightarrow> ?ps = []" 
  proof
    assume "(of_nat (length ?ps) :: u64) = 0"
    then have "unat (of_nat (length ?ps) :: u64) = 0" by (simp only: unsigned_0)
    then show "?ps = []" unfolding n by simp
  qed simp
  have sub: "unat (?c - of_nat (length ?ps)) = unat ?c - length ?ps" if "length ?ps \<le> unat ?c"
    using that le n by (simp add: unat_sub)
  show ?thesis
  proof (cases "?c = 0 \<or> ?ps = []")
    case True
    then show ?thesis using s z by (auto simp: spray_select_def)
  next
    case False
    let ?left = "if length ?ps \<le> unat ?c then ?c - of_nat (length ?ps) else 0"
    obtain bd' where "bst_heap (setSprayCopies (rt_badgerhold rt) p ?left st1) p = Some bd'" "getSprayCopies bd' = Inr (Some ?left)"
      using setSprayCopies_get [OF s(1)] by blast
    then show ?thesis using False s(3) z le sub by (auto simp: spray_select_def selectBasicSpray_def Let_def)
  qed
qed

text \<open>
  C13. Binary spray and wait halves its copies: with at least two of them, an eligible peer and a bundle
  that has at most one spray block, exactly one peer is selected; the bundle it gets is the stored one
  with a single spray block that carries the rounded-down half, the rounded-up half is saved, and no
  copy is lost or created.
\<close>

theorem binary_spray_conserves_copies:
  assumes "bst_heap st p = Some bd" "getSprayCopies bd = Inr saved" "spray_copies c0 bd > 1"
    "filterPeers bd peers \<noteq> []" "length (filterPeers bd peers) < 2 ^ 64" "load_bundle rt p st = Inr b0"
    "distinct (block_numbers b0)" "length (bndl_ExtensionBlocks b0) < 2 ^ 64"
    "\<not> HasExtensionBlock b0 BlockTypeBinarySprayBlock \<or> (\<exists>i. ExtensionBlockByType b0 BlockTypeBinarySprayBlock = Inr i)"
  shows "\<exists>peer b st' bd' send keep no.
    SelectPeersForForwarding rt (SprayAndWait c0 True) p peers st = (Inr ([peer], Some b), st') \<and>
    peer \<in> set (filterPeers bd peers) \<and> bst_heap st' p = Some bd' \<and> getSprayCopies bd' = Inr (Some keep) \<and>
    unat send + unat keep = unat (spray_copies c0 bd) \<and> 0 < send \<and> send \<le> keep \<and> unat keep \<le> unat send + 1 \<and>
    set (bndl_ExtensionBlocks b) =
      insert (NewCanonicalBlock no 0 (BinarySprayBlock send)) (without_type BlockTypeBinarySprayBlock b0) \<and>
    distinct (block_numbers b) \<and> bndl_PrimaryBlock b = bndl_PrimaryBlock b0 \<and> bndl_PayloadBlock b = bndl_PayloadBlock b0"
proof -
  let ?c = "spray_copies c0 bd" and ?ps = "filterPeers bd peers"
  let ?keep = "?c div 2 + (if ?c mod 2 \<noteq> 0 then 1 else 0)"
  obtain st1 bd1 where s: "misc_only p st st1" "bst_heap st1 p = Some bd1"
    "SelectPeersForForwarding rt (SprayAndWait c0 True) p peers st = spray_select rt True p ?c ?ps st1"
    using SprayAndWait_select [OF assms(1,2)] by metis
  have "unat (of_nat (length ?ps) :: u64) = length ?ps" using assms(5) by (simp add: unat_of_nat)
  then have "(of_nat (length ?ps) :: u64) \<noteq> 0" using assms(4) by (metis length_0_conv unsigned_0)
  moreover have "\<not> ?c \<le> 1" using assms(3) by (simp only: not_le)
  ultimately have sel: "spray_select rt True p ?c ?ps st1 = selectBinarySpray rt p ?c ?ps st1"
    by (simp add: spray_select_def)
  have "load_bundle rt p st1 = Inr b0" using load_bundle_misc [OF s(1)] assms(6) by simp
  from selectBinarySpray_yes [OF this assms(7-9), of ?c ?ps] obtain b no where
    b: "selectBinarySpray rt p ?c ?ps st1 = (Inr ([?ps ! rand_Intn rt (length ?ps)], Some b), setSprayCopies (rt_badgerhold rt) p ?keep st1)"
    "set (bndl_ExtensionBlocks b) = insert (NewCanonicalBlock no 0 (BinarySprayBlock (?c div 2))) (without_type BlockTypeBinarySprayBlock b0)"
    "distinct (block_numbers b)" "bndl_PrimaryBlock b = bndl_PrimaryBlock b0" "bndl_PayloadBlock b = bndl_PayloadBlock b0" by metis
  have peer: "?ps ! rand_Intn rt (length ?ps) \<in> set ?ps" using assms(4) by (simp add: rand_Intn_def)
  obtain bd' where bd': "bst_heap (setSprayCopies (rt_badgerhold rt) p ?keep st1) p = Some bd'" "getSprayCopies bd' = Inr (Some ?keep)"
    using setSprayCopies_get [OF s(2)] by blast
  have gt: "1 < unat ?c" using assms(3) by (simp add: word_less_nat_alt)
  have nums: "unat (?c div 2) + unat ?keep = unat ?c" "0 < ?c div 2" "?c div 2 \<le> ?keep" "unat ?keep \<le> unat (?c div 2) + 1"
    using gt unfolding word_less_nat_alt word_le_nat_alt unat_halves by auto
  show ?thesis using s(3) sel b peer bd' nums by metis
qed

theorem binary_spray_conserves_copies_witness:
  "\<exists>(st :: (string \<times> BundleMetadata) list BundleStore) peer b st' bd' keep.
     SelectPeersForForwarding example_runtime (SprayAndWait 7 True) 0 [example_peer] st = (Inr ([peer], Some b), st') \<and>
     bst_heap st' 0 = Some bd' \<and> getSprayCopies bd' = Inr (Some keep) \<and> 3 \<le> unat keep"
proof -
  let ?bd = "NewBundleDescriptor (new_metadata DtnNone example_bundle None)"
  obtain st b' where st: "bst_heap st 0 = Some ?bd" "load_bundle example_runtime 0 st = Inr b'" "strip_crc b' = strip_crc example_bundle"
    using example_holds [OF example_bundle_wf example_bundle_valid example_previous_node] by metis
  have c: "spray_copies 7 ?bd = 7" by (simp add: spray_copies_def new_descriptor_simps)
  then have c1: "1 < spray_copies 7 ?bd" by simp
  have f: "filterPeers ?bd [example_peer] = [example_peer]" by (simp add: new_descriptor_simps example_peer_def DtnNone_def)
  have b: "distinct (block_numbers b')" "length (bndl_ExtensionBlocks b') < 2 ^ 64" "\<not> HasExtensionBlock b' BlockTypeBinarySprayBlock"
    using strip_crc_numbers [OF st(3)] strip_crc_types(1) [OF st(3)]
    by (simp_all add: example_bundle_def block_numbers_def HasExtensionBlock_iff TypeCode_def NewCanonicalBlock_def block_type_defs)
      (metis length_map One_nat_def length_Cons list.size(3) numeral_One one_less_numeral_iff semiring_norm(76) power_one_right)
  have "\<exists>peer b st' bd' send keep no.
    SelectPeersForForwarding example_runtime (SprayAndWait 7 True) 0 [example_peer] st = (Inr ([peer], Some b), st') \<and>
    peer \<in> set (filterPeers ?bd [example_peer]) \<and> bst_heap st' 0 = Some bd' \<and> getSprayCopies bd' = Inr (Some keep) \<and>
    unat (send :: u64) + unat keep = unat (spray_copies 7 ?bd) \<and> 0 < send \<and> send \<le> keep \<and> unat keep \<le> unat send + 1 \<and>
    set (bndl_ExtensionBlocks b) =
      insert (NewCanonicalBlock no 0 (BinarySprayBlock send)) (without_type BlockTypeBinarySprayBlock b') \<and>
    distinct (block_numbers b) \<and> bndl_PrimaryBlock b = bndl_PrimaryBlock b' \<and> bndl_PayloadBlock b = bndl_PayloadBlock b'"
    by (rule binary_spray_conserves_copies [OF st(1) new_descriptor_simps(1) c1 _ _ st(2) b(1,2)]) (use f b in simp_all)
  then obtain peer b st' bd' send keep where
    "SelectPeersForForwarding example_runtime (SprayAndWait 7 True) 0 [example_peer] st = (Inr ([peer], Some b), st')"
    "bst_heap st' 0 = Some bd'" "getSprayCopies bd' = Inr (Some keep)" "unat (send :: u64) + unat keep = 7" "unat send \<le> unat keep"
    unfolding c by (auto simp: word_le_nat_alt simp del: SelectPeersForForwarding.simps)
  then show ?thesis by (intro exI conjI) auto
qed

text \<open>
  Replacing several spray blocks removes a wrong one: when the first two of three extension blocks
  are spray blocks, the pointer to the second refers to the third block after the first removal, so the
  third block is lost and the forwarded bundle has two spray blocks.
\<close>

lemma binary_spray_removes_wrong_block:
  assumes "load_bundle rt p st = Inr b0" "bndl_ExtensionBlocks b0 = [s1, s2, cb]" "distinct (block_numbers b0)"
    "TypeCode s1 = BlockTypeBinarySprayBlock" "TypeCode s2 = BlockTypeBinarySprayBlock" "TypeCode cb \<noteq> BlockTypeBinarySprayBlock"
  shows "\<exists>sel b st' no. selectBinarySpray rt p c peers st = (Inr (sel, Some b), st') \<and>
    set (bndl_ExtensionBlocks b) = {NewCanonicalBlock no 0 (BinarySprayBlock (c div 2)), s2}"
proof -
  let ?T = BlockTypeBinarySprayBlock
  let ?cb = "NewCanonicalBlock 0 0 (NewBinarySprayBlock (c div 2))"
  have up: "[0..<3] = [0, 1, 2 :: nat]" by (simp add: upt_rec)
  have l: "ExtensionBlocksByType b0 ?T = Inr [0, 1]"
    using assms(2,4-6) by (simp add: ExtensionBlocksByType_def up eval_nat_numeral)
  have n: "cb_BlockNumber s1 \<noteq> cb_BlockNumber s2" "cb_BlockNumber s1 \<noteq> cb_BlockNumber cb" "cb_BlockNumber s2 \<noteq> cb_BlockNumber cb"
    using assms(2,3) by (auto simp: block_numbers_def)
  have r: "remove_blocks [0, 1] [s1, s2, cb] [] = [s2]" using n by simp
  obtain b where b: "AddExtensionBlock ?cb (b0\<lparr>bndl_ExtensionBlocks := [s2]\<rparr>) = Inr b"
    using AddExtensionBlock_total [of "b0\<lparr>bndl_ExtensionBlocks := [s2]\<rparr>" ?cb] by auto
  obtain no where "set (bndl_ExtensionBlocks b) = insert (?cb\<lparr>cb_BlockNumber := no\<rparr>) {s2}"
    using AddExtensionBlock_frame(4) [OF b] by auto
  then have "set (bndl_ExtensionBlocks b) = {NewCanonicalBlock no 0 (BinarySprayBlock (c div 2)), s2}"
    by (simp add: NewCanonicalBlock_def)
  moreover have "\<exists>sel st'. selectBinarySpray rt p c peers st = (Inr (sel, Some b), st')"
    using assms(1,2) l r b by (simp add: selectBinarySpray_def Let_def)
  ultimately show ?thesis by metis
qed

lemma unmarshal_blocks_spray:
  assumes "unmarshal_blocks n L GetExtensionBlockManager r ebs payload = Some (Inr (ebs', payload'))"
    "\<And>cb. cb \<in> set ebs \<Longrightarrow> TypeCode cb = BlockTypeBinarySprayBlock \<Longrightarrow> \<exists>d. cb_Value cb = GenericExtensionBlock d BlockTypeBinarySprayBlock"
    "cb \<in> set ebs'" "TypeCode cb = BlockTypeBinarySprayBlock"
  shows "\<exists>d. cb_Value cb = GenericExtensionBlock d BlockTypeBinarySprayBlock"
  using assms
proof (induction n arbitrary: r ebs payload)
  case (Suc n)
  show ?case
  proof (cases "CanonicalBlock_UnmarshalCbor L GetExtensionBlockManager r")
    case (Inl e)
    then show ?thesis using Suc.prems by (simp split: if_splits)
  next
    case (Inr a)
    obtain c r' where a: "a = (c, r')" by (cases a)
    show ?thesis
    proof (cases "TypeCode c = BlockTypePayloadBlock")
      case True
      then show ?thesis using Suc.IH [of r' ebs "Some c"] Suc.prems Inr a by simp
    next
      case False
      then have "unmarshal_blocks n L GetExtensionBlockManager r' (ebs @ [c]) payload = Some (Inr (ebs', payload'))"
        using Suc.prems(1) Inr a by simp
      then show ?thesis using Suc.IH Suc.prems(2-4) UnmarshalCbor_spray_generic Inr a by (metis Un_iff empty_iff insert_iff list.set set_append)
    qed
  qed
qed simp

text \<open>
  A node running spray and wait crashes on every received bundle that carries a spray block: the
  decoder has no reader for the block and makes it generic, and the algorithm asserts its type.
\<close>

lemma spray_block_received_panics:
  assumes "ParseBundle L GetExtensionBlockManager now r = Inr (b, errs)"
    "ExtensionBlockByType b BlockTypeBinarySprayBlock = Inr i"
  shows "fst (NotifyReceivedBundle D (SprayAndWait copies binary) p b st) =
    Inl (Panic ''interface conversion: not a BinarySprayBlock'')"
proof -
  let ?cb = "bndl_ExtensionBlocks b ! i"
  obtain n r' payload where "unmarshal_blocks n L GetExtensionBlockManager r' [] None = Some (Inr (bndl_ExtensionBlocks b, payload))"
    using assms(1) by (auto simp: ParseBundle_def bindR_Inr_iff Let_def simp del: unmarshal_blocks.simps split: option.splits)
  moreover have "?cb \<in> set (bndl_ExtensionBlocks b)" "TypeCode ?cb = BlockTypeBinarySprayBlock"
    using ExtensionBlockByType_Inr [OF assms(2)] by simp_all
  ultimately obtain d where "cb_Value ?cb = GenericExtensionBlock d BlockTypeBinarySprayBlock"
    using unmarshal_blocks_spray [of n L r' "[]"] by (metis empty_iff empty_set)
  then show ?thesis using assms(2) by simp
qed

end
