(* ===== verification/Config.thy ===== *)
theory Config
  imports Discovery Builder Routing
begin

text \<open>
  The configuration of the daemon (\<open>cmd/dtnd/config.go\<close>). Decoding the TOML file and the names of
  log levels belong to third-party packages: the decoded file and the parser of log levels are arguments.
  \<open>net.SplitHostPort\<close> and \<open>strconv.Atoi\<close> of the standard library are defined here.
\<close>

section \<open>The standard library\<close>

definition missing_port :: err where "missing_port = Errorf ''missing port in address''"
definition too_many_colons :: err where "too_many_colons = Errorf ''too many colons in address''"

text \<open>The port starts after the last colon; a host in brackets must end just before it.\<close>

definition SplitHostPort :: "string \<Rightarrow> (string \<times> string) res" where
  "SplitHostPort hostport =
     (if CHR '':'' \<notin> set hostport then Inl missing_port
      else let port = rev (takeWhile (\<lambda>c. c \<noteq> CHR '':'') (rev hostport));
               i = length hostport - length port - 1
      in bindR (if hd hostport = CHR ''['' then
                  (if CHR '']'' \<notin> set hostport then Inl (Errorf ''missing ] in address'')
                   else let end = length (takeWhile (\<lambda>c. c \<noteq> CHR '']'') hostport)
                     in if end + 1 = length hostport then Inl missing_port
                        else if end + 1 = i then Inr (drop 1 (take end hostport), 1, end + 1)
                        else if hostport ! (end + 1) = CHR '':'' then Inl too_many_colons else Inl missing_port)
                else if CHR '':'' \<in> set (take i hostport) then Inl too_many_colons
                else Inr (take i hostport, 0, 0)) (\<lambda>(host, j, k).
           if CHR ''['' \<in> set (drop j hostport) then Inl (Errorf ''unexpected [ in address'')
           else if CHR '']'' \<in> set (drop k hostport) then Inl (Errorf ''unexpected ] in address'')
           else Inr (host, port)))"

definition Atoi :: "string \<Rightarrow> int res" where
  "Atoi s =
     (let neg = (s \<noteq> [] \<and> hd s = CHR ''-'');
          digits = (if s \<noteq> [] \<and> (hd s = CHR ''-'' \<or> hd s = CHR ''+'') then tl s else s)
      in if digits = [] then Inl err_syntax
         else bindR (parse_digits 0 digits) (\<lambda>n.
           if \<not> neg \<and> 2 ^ 63 \<le> n \<or> 2 ^ 63 < n then Inl err_range
           else Inr (if neg then - int n else int n)))"

section \<open>The configuration\<close>

record RoutingSprayConfig =
  rsc_Binary :: bool
  rsc_Copies :: u64

record listenerTomlConfig =
  lt_Type :: string
  lt_Address :: string

record tomlConfig =
  tc_NodeID :: string
  tc_LogLevel :: string
  tc_StorePath :: string
  tc_Algorithm :: string
  tc_Spray :: RoutingSprayConfig
  tc_Listener :: "listenerTomlConfig list"
  tc_REST :: string
  tc_UNIX :: string
  tc_REC :: string
  tc_Dispatch :: string
  tc_GC :: string

record ListenerConfig =
  lc_Type :: CLAType
  lc_Address :: string
  lc_EndpointId :: EndpointID

record 'level config =
  cfg_NodeID :: EndpointID
  cfg_LogLevel :: 'level
  cfg_StorePath :: string
  cfg_Algorithm :: AlgorithmEnum
  cfg_Spray :: RoutingSprayConfig
  cfg_Listener :: "ListenerConfig list"
  cfg_REST :: string
  cfg_UNIX :: string
  cfg_REC :: string
  cfg_Discovery :: "Announcement list"
  cfg_Dispatch :: int
  cfg_GC :: int

definition parseListenPort :: "string \<Rightarrow> int res" where
  "parseListenPort endpoint = bindR (SplitHostPort endpoint) (\<lambda>(_, portStr). Atoi portStr)"

definition ConfigError :: "string \<Rightarrow> 'a res \<Rightarrow> 'a res" where
  "ConfigError message x = mapErr (Wrapf message) x"

fun parse_listeners :: "EndpointID \<Rightarrow> listenerTomlConfig list \<Rightarrow> (ListenerConfig list \<times> Announcement list) res" where
  "parse_listeners nodeID [] = Inr ([], [])"
| "parse_listeners nodeID (listener # ls) =
     bindR (ConfigError ''Error parsing Listener Type'' (TypeFromString (lt_Type listener))) (\<lambda>claType.
     bindR (ConfigError ''Error parsing listener port'' (parseListenPort (lt_Address listener))) (\<lambda>port.
     bindR (parse_listeners nodeID ls) (\<lambda>(cs, as).
       Inr (\<lparr>lc_Type = claType, lc_Address = lt_Address listener, lc_EndpointId = nodeID\<rparr> # cs,
            \<lparr>an_Type = claType, an_Endpoint = nodeID, an_Port = word_of_int port\<rparr> # as))))"

definition parse :: "(string \<Rightarrow> 'level res) \<Rightarrow> tomlConfig res \<Rightarrow> 'level config res" where
  "parse ParseLevel decoded =
     bindR (ConfigError ''Error parsing toml'' decoded) (\<lambda>tomlConf.
     bindR (ConfigError ''Error parsing NodeID'' (NewEndpointID (tc_NodeID tomlConf))) (\<lambda>nodeID.
     bindR (ConfigError ''Error parsing log level'' (ParseLevel (tc_LogLevel tomlConf))) (\<lambda>logLevel.
     bindR (ConfigError ''Error parsing routing Algorithm'' (AlgorithmEnumFromString (tc_Algorithm tomlConf))) (\<lambda>algorithm.
     bindR (parse_listeners nodeID (tc_Listener tomlConf)) (\<lambda>(listeners, announcements).
     bindR (ConfigError ''Error parsing dispatch period'' (ParseDuration (tc_Dispatch tomlConf))) (\<lambda>dispatchTime.
     bindR (ConfigError ''Error parsing gc period'' (ParseDuration (tc_GC tomlConf))) (\<lambda>gcTime.
       Inr \<lparr>cfg_NodeID = nodeID, cfg_LogLevel = logLevel, cfg_StorePath = tc_StorePath tomlConf,
            cfg_Algorithm = algorithm, cfg_Spray = tc_Spray tomlConf, cfg_Listener = listeners,
            cfg_REST = tc_REST tomlConf, cfg_UNIX = tc_UNIX tomlConf, cfg_REC = tc_REC tomlConf,
            cfg_Discovery = announcements, cfg_Dispatch = dispatchTime, cfg_GC = gcTime\<rparr>)))))))"

section \<open>Properties\<close>

lemma TypeFromString_known: "TypeFromString s = Inr t \<Longrightarrow> t \<in> {TCPCLv4, MTCP, QUICL}"
  by (auto simp: TypeFromString_def Let_def split: if_splits)

lemma parse_listeners_Inr:
  assumes "parse_listeners nodeID ls = Inr (cs, as)"
  shows "map lc_Address cs = map lt_Address ls" "list_all (\<lambda>c. lc_Type c \<in> {TCPCLv4, MTCP, QUICL} \<and> lc_EndpointId c = nodeID) cs"
    "list_all2 (\<lambda>c a. an_Type a = lc_Type c \<and> an_Endpoint a = nodeID \<and>
       (\<exists>port. parseListenPort (lc_Address c) = Inr port \<and> an_Port a = word_of_int port)) cs as"
  using assms
  by (induction ls arbitrary: cs as) (auto simp: bindR_Inr_iff ConfigError_def dest: TypeFromString_known)

lemma parse_Inr:
  assumes "parse ParseLevel (Inr toml) = Inr conf"
  shows "NewEndpointID (tc_NodeID toml) = Inr (cfg_NodeID conf)"
    "AlgorithmEnumFromString (tc_Algorithm toml) = Inr (cfg_Algorithm conf)"
    "parse_listeners (cfg_NodeID conf) (tc_Listener toml) = Inr (cfg_Listener conf, cfg_Discovery conf)"
    "cfg_Spray conf = tc_Spray toml" "cfg_UNIX conf = tc_UNIX toml"
  using assms by (auto simp: parse_def bindR_Inr_iff ConfigError_def)

text \<open>
  A configuration that is accepted has a well-formed node identifier and a known algorithm; it announces
  exactly its listeners, in order, with the node's identifier and the port of the listener, and
  the announcements can be sent.
\<close>

lemma parse_correct:
  assumes "parse ParseLevel (Inr toml) = Inr conf" "length (tc_NodeID toml) < 2 ^ 62"
  shows "wf_eid (cfg_NodeID conf)" "cfg_Algorithm conf \<in> {AlgorithmEpidemic, AlgorithmSprayAndWait}"
    "map lc_Address (cfg_Listener conf) = map lt_Address (tc_Listener toml)"
    "list_all2 (\<lambda>c a. an_Type a = lc_Type c \<and> an_Endpoint a = cfg_NodeID conf \<and>
       (\<exists>port. parseListenPort (lc_Address c) = Inr port \<and> an_Port a = word_of_int port)) (cfg_Listener conf) (cfg_Discovery conf)"
    "\<forall>a \<in> set (cfg_Discovery conf). wf_announcement a"
proof -
  note p = parse_Inr [OF assms(1)] and l = parse_listeners_Inr [OF parse_Inr(3) [OF assms(1)]]
  show wf: "wf_eid (cfg_NodeID conf)" using NewEndpointID_wf [OF p(1)] .
  show "cfg_Algorithm conf \<in> {AlgorithmEpidemic, AlgorithmSprayAndWait}"
    using p(2) by (auto simp: AlgorithmEnumFromString_def Let_def split: if_splits)
  show "map lc_Address (cfg_Listener conf) = map lt_Address (tc_Listener toml)" by (rule l(1))
  show *: "list_all2 (\<lambda>c a. an_Type a = lc_Type c \<and> an_Endpoint a = cfg_NodeID conf \<and>
       (\<exists>port. parseListenPort (lc_Address c) = Inr port \<and> an_Port a = word_of_int port)) (cfg_Listener conf) (cfg_Discovery conf)"
    by (rule l(3))
  have short: "short_eid (cfg_NodeID conf)" using NewEndpointID_short [OF p(1) assms(2)] .
  show "\<forall>a \<in> set (cfg_Discovery conf). wf_announcement a"
  proof
    fix a assume "a \<in> set (cfg_Discovery conf)"
    then obtain i where i: "i < length (cfg_Discovery conf)" "a = cfg_Discovery conf ! i" by (auto simp: in_set_conv_nth)
    then have "i < length (cfg_Listener conf)" "an_Type a = lc_Type (cfg_Listener conf ! i)" "an_Endpoint a = cfg_NodeID conf"
      using list_all2_lengthD [OF *] list_all2_nthD2 [OF * i(1)] by auto
    then show "wf_announcement a" using l(2) wf short unfolding wf_announcement_def list_all_length by metis
  qed
qed

text \<open>A negative port is accepted and announced as a number far beyond the range of ports.\<close>

lemma negative_port_announced:
  "parseListenPort ''localhost:-1'' = Inr (- 1) \<and> unat (word_of_int (- 1) :: u64) = 2 ^ 64 - 1"
proof
  show "parseListenPort ''localhost:-1'' = Inr (- 1)" 
    by (simp add: parseListenPort_def SplitHostPort_def Atoi_def Let_def is_digit_def digit_val_def)
qed (simp add: unsigned_minus_1_eq_mask mask_eq_exp_minus_1)

end
