(* ===== verification/Id_Keeper.thy ===== *)
theory Id_Keeper
  imports Bundle
begin

text \<open>
  The keeper of sequence numbers (\<open>pkg/id_keeper/id_keeper.go\<close>): every locally created bundle gets
  the next number for its source and creation time. The singleton is the state, an association of
  pairs of source and time with the number last issued; the mutex makes every operation atomic.
\<close>

type_synonym idTuple = "EndpointID \<times> DtnTime"
type_synonym IdKeeper = "idTuple \<rightharpoonup> u64"

definition newIdTuple :: "Bundle \<Rightarrow> idTuple" where
  "newIdTuple bndl =
     (pb_SourceNode (bndl_PrimaryBlock bndl),
      CreationTimestamp_DtnTime (pb_CreationTimestamp (bndl_PrimaryBlock bndl)))"

definition InitializeIdKeeper :: IdKeeper where
  "InitializeIdKeeper = Map.empty"

definition set_sequence :: "u64 \<Rightarrow> Bundle \<Rightarrow> Bundle" where
  "set_sequence n bndl = bndl\<lparr>bndl_PrimaryBlock := (bndl_PrimaryBlock bndl)
     \<lparr>pb_CreationTimestamp := (fst (pb_CreationTimestamp (bndl_PrimaryBlock bndl)), n)\<rparr>\<rparr>"

definition IdKeeper_Update :: "IdKeeper \<Rightarrow> Bundle \<Rightarrow> IdKeeper \<times> Bundle" where
  "IdKeeper_Update idk bndl =
     (let tpl = newIdTuple bndl;
          n = (case idk tpl of Some state \<Rightarrow> state + 1 | None \<Rightarrow> 0)
      in (idk(tpl \<mapsto> n), set_sequence n bndl))"

definition hour :: int where "hour = 3600000000000"

definition IdKeeper_Clean :: "time \<Rightarrow> IdKeeper \<Rightarrow> IdKeeper" where
  "IdKeeper_Clean now idk =
     (let threshold = DtnTimeFromTime (now - hour)
      in (\<lambda>tpl. if snd tpl < threshold then None else idk tpl))"

section \<open>Properties\<close>

fun IdKeeper_Updates :: "IdKeeper \<Rightarrow> Bundle list \<Rightarrow> Bundle list" where
  "IdKeeper_Updates idk [] = []"
| "IdKeeper_Updates idk (b # bs) = (case IdKeeper_Update idk b of (idk', b') \<Rightarrow> b' # IdKeeper_Updates idk' bs)"

definition sequence_number :: "Bundle \<Rightarrow> u64" where
  "sequence_number b = SequenceNumber (pb_CreationTimestamp (bndl_PrimaryBlock b))"

lemma set_sequence_simps [simp]:
  "newIdTuple (set_sequence n b) = newIdTuple b" "sequence_number (set_sequence n b) = n"
  by (simp_all add: newIdTuple_def set_sequence_def CreationTimestamp_DtnTime_def sequence_number_def SequenceNumber_def)

text \<open>How often a pair of source and time is still to be numbered bounds the numbers that are issued.\<close>

definition next_number :: "IdKeeper \<Rightarrow> idTuple \<Rightarrow> nat" where
  "next_number idk t = (case idk t of None \<Rightarrow> 0 | Some n \<Rightarrow> Suc (unat n))"

lemma next_number_Update:
  assumes "next_number idk (newIdTuple b) < 2 ^ 64"
  shows "unat (sequence_number (snd (IdKeeper_Update idk b))) = next_number idk (newIdTuple b)"
    "next_number (fst (IdKeeper_Update idk b)) t = next_number idk t + (if t = newIdTuple b then 1 else 0)"
proof -
  have inc: "idk (newIdTuple b) = Some n \<Longrightarrow> unat (n + 1) = Suc (unat n)" for n
  proof -
    assume "idk (newIdTuple b) = Some n"
    then have "Suc (unat n) < 2 ^ 64" using assms by (simp add: next_number_def)
    then show ?thesis by (simp add: unat_word_ariths)
  qed
  show "unat (sequence_number (snd (IdKeeper_Update idk b))) = next_number idk (newIdTuple b)"
    using inc by (auto simp: IdKeeper_Update_def Let_def next_number_def split: option.splits)
  show "next_number (fst (IdKeeper_Update idk b)) t = next_number idk t + (if t = newIdTuple b then 1 else 0)"
    using inc by (auto simp: IdKeeper_Update_def Let_def next_number_def split: option.splits)
qed

lemma IdKeeper_Updates_numbers:
  assumes "\<And>t. next_number idk t + length bs < 2 ^ 64" "b \<in> set (IdKeeper_Updates idk bs)"
  shows "next_number idk (newIdTuple b) \<le> unat (sequence_number b)"
  using assms
proof (induction bs arbitrary: idk)
  case (Cons c bs)
  have lt: "next_number idk (newIdTuple c) < 2 ^ 64" using Cons.prems(1) [of "newIdTuple c"] by simp
  note u = next_number_Update [OF lt]
  obtain idk' c' where c: "IdKeeper_Update idk c = (idk', c')" by (cases "IdKeeper_Update idk c")
  have t: "newIdTuple c' = newIdTuple c" using c by (auto simp: IdKeeper_Update_def Let_def)
  show ?case
  proof (cases "b = c'")
    case True
    then show ?thesis using u(1) c t by simp
  next
    case False
    then have b: "b \<in> set (IdKeeper_Updates idk' bs)" using Cons.prems(2) c by simp
    have "next_number idk' t + length bs < 2 ^ 64" for t
      using u(2) [of t] Cons.prems(1) [of t] c by (simp split: if_splits)
    from Cons.IH [OF this b] show ?thesis using u(2) [of "newIdTuple b"] c by (simp split: if_splits)
  qed
qed simp

lemma IdKeeper_Updates_distinct:
  assumes "\<And>t. next_number idk t + length bs < 2 ^ 64"
  shows "distinct (map (\<lambda>b. (newIdTuple b, sequence_number b)) (IdKeeper_Updates idk bs))"
  using assms
proof (induction bs arbitrary: idk)
  case (Cons c bs)
  have lt: "next_number idk (newIdTuple c) < 2 ^ 64" using Cons.prems [of "newIdTuple c"] by simp
  note u = next_number_Update [OF lt]
  obtain idk' c' where c: "IdKeeper_Update idk c = (idk', c')" by (cases "IdKeeper_Update idk c")
  have t: "newIdTuple c' = newIdTuple c" using c by (auto simp: IdKeeper_Update_def Let_def)
  have room: "next_number idk' t + length bs < 2 ^ 64" for t
    using u(2) [of t] Cons.prems [of t] c by (simp split: if_splits)
  have "sequence_number b \<noteq> sequence_number c'"
    if "b \<in> set (IdKeeper_Updates idk' bs)" "newIdTuple b = newIdTuple c'" for b
    using IdKeeper_Updates_numbers [OF room that(1)] u(1) u(2) [of "newIdTuple b"] c t that(2) by auto
  then have "(newIdTuple c', sequence_number c') \<notin> (\<lambda>b. (newIdTuple b, sequence_number b)) ` set (IdKeeper_Updates idk' bs)"
    by (metis (no_types, lifting) imageE prod.inject)
  then show ?case using Cons.IH [OF room] c by simp
qed simp

section \<open>Correctness\<close>

text \<open>
  C31. The identifiers of locally created bundles are unique: fewer than \<open>2^64\<close> bundles that pass
  through the keeper after its start get pairwise different combinations of source, creation time and
  sequence number, and each bundle is numbered consecutively from zero.
\<close>

theorem IdKeeper_unique:
  assumes "length bs < 2 ^ 64"
  shows "distinct (map Bundle_ID (IdKeeper_Updates InitializeIdKeeper bs))"
proof -
  have "distinct (map (\<lambda>b. (newIdTuple b, sequence_number b)) (IdKeeper_Updates InitializeIdKeeper bs))"
    using assms by (intro IdKeeper_Updates_distinct) (simp add: next_number_def InitializeIdKeeper_def)
  moreover have "(newIdTuple b, sequence_number b) = (newIdTuple c, sequence_number c)"
    if "Bundle_ID b = Bundle_ID c" for b c
    using that by (simp add: Bundle_ID_def newIdTuple_def sequence_number_def)
  ultimately show ?thesis by (rule distinct_map_finer)
qed

theorem IdKeeper_unique_witness:
  "distinct (map Bundle_ID (IdKeeper_Updates InitializeIdKeeper [example_bundle, example_bundle, example_bundle]))"
  by (rule IdKeeper_unique) simp

text \<open>
  Cleaning forgets the counter of the epoch time as well, contrary to its comment: a bundle
  without creation time that is created after a clean-up gets the identifier of an earlier one.
\<close>

lemma IdKeeper_Clean_forgets_epoch:
  assumes "IsZeroTime (pb_CreationTimestamp (bndl_PrimaryBlock b))" "DtnTimeFromTime (now - hour) \<noteq> 0"
  shows "Bundle_ID (snd (IdKeeper_Update (IdKeeper_Clean now (fst (IdKeeper_Update InitializeIdKeeper b))) b)) =
         Bundle_ID (snd (IdKeeper_Update InitializeIdKeeper b))"
proof -
  have "snd (newIdTuple b) < DtnTimeFromTime (now - hour)"
    using assms by (simp add: newIdTuple_def IsZeroTime_def DtnTimeEpoch_def word_greater_zero_iff)
  then show ?thesis by (simp add: IdKeeper_Update_def IdKeeper_Clean_def InitializeIdKeeper_def Let_def)
qed

end
