(* ===== verification/Mailbox.thy ===== *)
theory Mailbox
  imports Routing Id_Keeper
begin

text \<open>
  Application agents (\<open>pkg/application_agent/mailbox.go\<close>, \<open>mailbox_bank.go\<close>, \<open>agent_manager.go\<close>,
  \<open>errors.go\<close>, \<open>agent.go\<close>): mailboxes remember which bundles have been delivered to an endpoint and
  whether they have been retrieved, a bank has one mailbox for each registered endpoint, the manager
  delivers a bundle to every registered agent. The three agents of the daemon deliver through their bank,
  so an agent is its bank here. A loop over a map takes the order of the keys as an argument. A panic
  while a bundle is loaded is passed on as an error value that \<open>store_panic\<close> recognises.
\<close>

section \<open>Errors\<close>

datatype agent_err =
    AgentAlreadyRegisteredError string
  | NoSuchAgentError string
  | IDAlreadyRegisteredError EndpointID
  | NoSuchIDError EndpointID
  | AlreadyDeliveredError BundleID
  | MailboxNoSuchBundleError BundleID
  | StoreError store_err
  | StartError err

section \<open>Mailboxes\<close>

text \<open>The boolean of a message says whether it has been retrieved.\<close>

type_synonym Mailbox = "BundleID \<rightharpoonup> bool"

definition NewMailbox :: Mailbox where
  "NewMailbox = Map.empty"

definition Mailbox_Deliver :: "BundleDescriptor \<Rightarrow> 'db BundleStore \<Rightarrow> Mailbox \<Rightarrow> agent_err list \<times> Mailbox" where
  "Mailbox_Deliver bndl st mailbox =
     (let bid = bd_ID bndl in
      if mailbox bid \<noteq> None then ([AlreadyDeliveredError bid], mailbox)
      else case GetBundleDescriptor bid st of
        Inl e \<Rightarrow> ([StoreError e], mailbox)
      | Inr _ \<Rightarrow> ([], mailbox(bid \<mapsto> False)))"

definition Mailbox_List :: "BundleID list \<Rightarrow> Mailbox \<Rightarrow> BundleID list" where
  "Mailbox_List order mailbox = filter (\<lambda>bid. mailbox bid \<noteq> None) order"

definition Mailbox_ListNew :: "BundleID list \<Rightarrow> Mailbox \<Rightarrow> BundleID list" where
  "Mailbox_ListNew order mailbox = filter (\<lambda>bid. mailbox bid = Some False) order"

definition load_message :: "'db runtime \<Rightarrow> BundleID \<Rightarrow> 'db BundleStore \<Rightarrow> store_err + Bundle" where
  "load_message rt bid st =
     (case GetBundleDescriptor bid st of Inl e \<Rightarrow> Inl e | Inr p \<Rightarrow> load_bundle rt p st)"

definition Mailbox_Get ::
    "'db runtime \<Rightarrow> BundleID \<Rightarrow> bool \<Rightarrow> 'db BundleStore \<Rightarrow> Mailbox \<Rightarrow> (agent_err + Bundle) \<times> Mailbox" where
  "Mailbox_Get rt bid remove st mailbox =
     (if mailbox bid = None then (Inl (MailboxNoSuchBundleError bid), mailbox)
      else case load_message rt bid st of
        Inl e \<Rightarrow> (Inl (StoreError e), mailbox)
      | Inr bndl \<Rightarrow> (Inr bndl, if remove then mailbox(bid := None) else mailbox(bid \<mapsto> True)))"

text \<open>
  The loops of \<open>GetAll\<close> and \<open>GetNew\<close>, which skips the retrieved messages. An error of the lookup
  returns no bundles at all, an error while loading those loaded before.
\<close>

fun get_loop ::
    "'db runtime \<Rightarrow> bool \<Rightarrow> BundleID list \<Rightarrow> 'db BundleStore \<Rightarrow> Bundle list \<Rightarrow> Mailbox \<Rightarrow>
     (Bundle list \<times> agent_err option) \<times> Mailbox" where
  "get_loop rt onlyNew [] st bndls mailbox = ((bndls, None), mailbox)"
| "get_loop rt onlyNew (bid # order) st bndls mailbox =
     (if onlyNew \<and> mailbox bid = Some True then get_loop rt onlyNew order st bndls mailbox
      else case GetBundleDescriptor bid st of
        Inl e \<Rightarrow> (([], Some (StoreError e)), mailbox)
      | Inr p \<Rightarrow> (case load_bundle rt p st of
          Inl e \<Rightarrow> ((bndls, Some (StoreError e)), mailbox)
        | Inr bndl \<Rightarrow> get_loop rt onlyNew order st (bndls @ [bndl]) (mailbox(bid \<mapsto> True))))"

definition get_messages ::
    "'db runtime \<Rightarrow> bool \<Rightarrow> bool \<Rightarrow> BundleID list \<Rightarrow> 'db BundleStore \<Rightarrow> Mailbox \<Rightarrow>
     (Bundle list \<times> agent_err option) \<times> Mailbox" where
  "get_messages rt onlyNew remove order st mailbox =
     (case get_loop rt onlyNew (Mailbox_List order mailbox) st [] mailbox of
        ((bndls, Some e), mailbox) \<Rightarrow> ((bndls, Some e), mailbox)
      | ((bndls, None), mailbox) \<Rightarrow> ((bndls, None), if remove then Map.empty else mailbox))"

definition Mailbox_GetAll where
  "Mailbox_GetAll rt remove order st mailbox = get_messages rt False remove order st mailbox"

definition Mailbox_GetNew where
  "Mailbox_GetNew rt remove order st mailbox = get_messages rt True remove order st mailbox"

definition Mailbox_Delete :: "BundleID \<Rightarrow> Mailbox \<Rightarrow> Mailbox" where
  "Mailbox_Delete bid mailbox = mailbox(bid := None)"

definition Mailbox_Clear :: "Mailbox \<Rightarrow> Mailbox" where
  "Mailbox_Clear mailbox = Map.empty"

fun Mailbox_GC :: "BundleID list \<Rightarrow> 'db BundleStore \<Rightarrow> Mailbox \<Rightarrow> Mailbox" where
  "Mailbox_GC [] st mailbox = mailbox"
| "Mailbox_GC (bid # order) st mailbox =
     Mailbox_GC order st
       (case GetBundleDescriptor bid st of
          Inl _ \<Rightarrow> mailbox(bid := None)
        | Inr p \<Rightarrow> if (case bst_heap st p of Some bd \<Rightarrow> Deleted bd | None \<Rightarrow> True)
                   then mailbox(bid := None) else mailbox)"

section \<open>Banks of mailboxes\<close>

record MailboxBank =
  bank_registeredIDs :: "EndpointID list"
  bank_mailboxes :: "EndpointID \<rightharpoonup> Mailbox"

definition NewMailboxBank :: MailboxBank where
  "NewMailboxBank = \<lparr>bank_registeredIDs = [], bank_mailboxes = Map.empty\<rparr>"

definition Bank_Register :: "EndpointID \<Rightarrow> MailboxBank \<Rightarrow> agent_err list \<times> MailboxBank" where
  "Bank_Register eid bank =
     (if bank_mailboxes bank eid \<noteq> None then ([IDAlreadyRegisteredError eid], bank)
      else ([], bank\<lparr>bank_registeredIDs := bank_registeredIDs bank @ [eid],
                     bank_mailboxes := (bank_mailboxes bank)(eid \<mapsto> NewMailbox)\<rparr>))"

definition Bank_Unregister :: "EndpointID \<Rightarrow> MailboxBank \<Rightarrow> agent_err list \<times> MailboxBank" where
  "Bank_Unregister eid bank =
     (if bank_mailboxes bank eid = None then ([NoSuchIDError eid], bank)
      else ([], bank\<lparr>bank_registeredIDs := filter (\<lambda>reid. reid \<noteq> eid) (bank_registeredIDs bank),
                     bank_mailboxes := (bank_mailboxes bank)(eid := None)\<rparr>))"

definition RegisteredIDs :: "MailboxBank \<Rightarrow> EndpointID list" where
  "RegisteredIDs bank = bank_registeredIDs bank"

definition GetMailbox :: "EndpointID \<Rightarrow> MailboxBank \<Rightarrow> agent_err + Mailbox" where
  "GetMailbox eid bank = (case bank_mailboxes bank eid of None \<Rightarrow> Inl (NoSuchIDError eid) | Some m \<Rightarrow> Inr m)"

definition Bank_Deliver :: "BundleDescriptor \<Rightarrow> 'db BundleStore \<Rightarrow> MailboxBank \<Rightarrow> agent_err list \<times> MailboxBank" where
  "Bank_Deliver bd st bank =
     (case Metadata bd of
        Inl e \<Rightarrow> ([StoreError e], bank)
      | Inr m \<Rightarrow> (case bank_mailboxes bank (md_Destination m) of
          None \<Rightarrow> ([NoSuchIDError (md_Destination m)], bank)
        | Some mailbox \<Rightarrow> (case Mailbox_Deliver bd st mailbox of
            (e, mailbox') \<Rightarrow> (e, bank\<lparr>bank_mailboxes := (bank_mailboxes bank)(md_Destination m \<mapsto> mailbox')\<rparr>))))"

text \<open>\<open>GC\<close> starts a goroutine for every mailbox; this is the one for the mailbox of \<open>eid\<close>.\<close>

definition Bank_GC :: "EndpointID \<Rightarrow> BundleID list \<Rightarrow> 'db BundleStore \<Rightarrow> MailboxBank \<Rightarrow> MailboxBank" where
  "Bank_GC eid order st bank =
     (case bank_mailboxes bank eid of
        None \<Rightarrow> bank
      | Some mailbox \<Rightarrow> bank\<lparr>bank_mailboxes :=
          (bank_mailboxes bank)(eid \<mapsto> Mailbox_GC (filter (\<lambda>bid. mailbox bid \<noteq> None) order) st mailbox)\<rparr>)"

section \<open>The agent manager\<close>

type_synonym Agents = "string \<rightharpoonup> MailboxBank"

definition InitialiseApplicationAgentManager :: Agents where
  "InitialiseApplicationAgentManager = Map.empty"

definition RegisterAgent :: "bool \<Rightarrow> string \<Rightarrow> MailboxBank \<Rightarrow> Agents \<Rightarrow> agent_err list \<times> Agents" where
  "RegisterAgent start_ok agentName newAgent agents =
     (if agents agentName \<noteq> None then ([AgentAlreadyRegisteredError agentName], agents)
      else if \<not> start_ok then ([StartError (Errorf ''agent failed to start'')], agents)
      else ([], agents(agentName \<mapsto> newAgent)))"

definition UnregisterAgent :: "string \<Rightarrow> Agents \<Rightarrow> agent_err list \<times> Agents" where
  "UnregisterAgent agentName agents =
     (if agents agentName = None then ([NoSuchAgentError agentName], agents)
      else ([], agents(agentName := None)))"

fun Delivery :: "string list \<Rightarrow> BundleDescriptor \<Rightarrow> 'db BundleStore \<Rightarrow> Agents \<Rightarrow> Agents" where
  "Delivery [] bd st agents = agents"
| "Delivery (n # order) bd st agents =
     Delivery order bd st
       (case agents n of None \<Rightarrow> agents | Some bank \<Rightarrow> agents(n \<mapsto> snd (Bank_Deliver bd st bank)))"

section \<open>Properties\<close>

subsection \<open>Mailboxes\<close>

lemma get_loop_all:
  assumes "distinct order" "\<forall>bid \<in> set order. \<exists>b. load_message rt bid st = Inr b \<and> (\<not> onlyNew \<or> mailbox bid = Some False)"
  shows "get_loop rt onlyNew order st bndls mailbox =
    ((bndls @ map (\<lambda>bid. projr (load_message rt bid st)) order, None),
     \<lambda>bid. if bid \<in> set order then Some True else mailbox bid)"
  using assms
proof (induction order arbitrary: bndls mailbox)
  case (Cons a order)
  then obtain b where b: "load_message rt a st = Inr b" "\<not> onlyNew \<or> mailbox a = Some False" by auto
  then obtain p where p: "GetBundleDescriptor a st = Inr p" "load_bundle rt p st = Inr b"
    by (auto simp: load_message_def split: sum.splits)
  have "get_loop rt onlyNew order st (bndls @ [b]) (mailbox(a \<mapsto> True)) =
    (((bndls @ [b]) @ map (\<lambda>bid. projr (load_message rt bid st)) order, None),
     \<lambda>bid. if bid \<in> set order then Some True else (mailbox(a \<mapsto> True)) bid)"
    using Cons.prems by (intro Cons.IH) auto
  then show ?case using b p by (auto simp: fun_eq_iff)
qed simp

lemma get_loop_skip:
  assumes "\<And>bid. \<not> Q bid \<Longrightarrow> mailbox bid = Some True"
  shows "get_loop rt True order st bndls mailbox = get_loop rt True (filter Q order) st bndls mailbox"
  using assms
proof (induction order arbitrary: bndls mailbox)
  case (Cons a order)
  have "get_loop rt True order st bs (mailbox(a \<mapsto> True)) = get_loop rt True (filter Q order) st bs (mailbox(a \<mapsto> True))" for bs
    using Cons.prems by (intro Cons.IH) simp
  then show ?case using Cons.IH [of mailbox bndls] Cons.prems [of a] Cons.prems by (cases "Q a") (auto split: sum.split)
qed simp

lemma Mailbox_GC_eq:
  "Mailbox_GC order st mailbox bid =
     (if bid \<in> set order \<and> (\<forall>p. GetBundleDescriptor bid st \<noteq> Inr p) then None else mailbox bid)"
proof (induction order arbitrary: mailbox)
  case (Cons a order)
  have "GetBundleDescriptor a st = Inr p \<Longrightarrow> \<exists>bd. bst_heap st p = Some bd \<and> \<not> Deleted bd" for p
    by (auto simp: GetBundleDescriptor_Inr Deleted_def)
  then show ?case using Cons.IH by (auto split: sum.split option.splits)
qed simp

subsection \<open>Banks\<close>

text \<open>Whatever happens to the mailboxes, a bank knows exactly the endpoints it has mailboxes for.\<close>

inductive bank_reach :: "'db itself \<Rightarrow> MailboxBank \<Rightarrow> bool" for T :: "'db itself" where
  bank_new: "bank_reach T NewMailboxBank"
| bank_register: "bank_reach T bank \<Longrightarrow> bank_reach T (snd (Bank_Register eid bank))"
| bank_unregister: "bank_reach T bank \<Longrightarrow> bank_reach T (snd (Bank_Unregister eid bank))"
| bank_deliver: "bank_reach T bank \<Longrightarrow> bank_reach T (snd (Bank_Deliver bd (st :: 'db BundleStore) bank))"
| bank_gc: "bank_reach T bank \<Longrightarrow> bank_reach T (Bank_GC eid order (st :: 'db BundleStore) bank)"
| bank_mailbox: "bank_reach T bank \<Longrightarrow> GetMailbox eid bank = Inr mailbox \<Longrightarrow>
    bank_reach T (bank\<lparr>bank_mailboxes := (bank_mailboxes bank)(eid \<mapsto> mailbox')\<rparr>)"

definition bank_inv :: "MailboxBank \<Rightarrow> bool" where
  "bank_inv bank \<longleftrightarrow> distinct (bank_registeredIDs bank) \<and> set (bank_registeredIDs bank) = dom (bank_mailboxes bank)"

lemma bank_reach_inv: "bank_reach T bank \<Longrightarrow> bank_inv bank"
proof (induction rule: bank_reach.induct)
  case (bank_mailbox bank eid mailbox mailbox')
  then show ?case by (auto simp: bank_inv_def GetMailbox_def split: option.splits)
next
  case (bank_deliver bank bd st)
  then show ?case by (auto simp: bank_inv_def Bank_Deliver_def split: sum.splits option.splits prod.splits)
next
  case (bank_gc bank eid order st)
  then show ?case by (auto simp: bank_inv_def Bank_GC_def split: option.splits)
qed (auto simp: bank_inv_def NewMailboxBank_def Bank_Register_def Bank_Unregister_def)

subsection \<open>Delivery\<close>

text \<open>What delivering a stored bundle does to one bank.\<close>

definition delivered :: "EndpointID \<Rightarrow> BundleID \<Rightarrow> MailboxBank \<Rightarrow> MailboxBank" where
  "delivered dest bid bank =
     (case bank_mailboxes bank dest of
        None \<Rightarrow> bank
      | Some m \<Rightarrow> bank\<lparr>bank_mailboxes := (bank_mailboxes bank)(dest \<mapsto> (if m bid = None then m(bid \<mapsto> False) else m))\<rparr>)"

lemma Bank_Deliver_stored:
  assumes "\<not> bd_deleted bd" "GetBundleDescriptor (bd_ID bd) st = Inr p"
  shows "snd (Bank_Deliver bd st bank) = delivered (md_Destination (bd_metadata bd)) (bd_ID bd) bank"
  using assms by (auto simp: Bank_Deliver_def delivered_def Metadata_def Mailbox_Deliver_def Let_def split: option.splits)

lemma Delivery_stored:
  assumes "\<not> bd_deleted bd" "GetBundleDescriptor (bd_ID bd) st = Inr p" "distinct order"
  shows "Delivery order bd st agents n =
    (if n \<in> set order then map_option (delivered (md_Destination (bd_metadata bd)) (bd_ID bd)) (agents n) else agents n)"
  using assms(3)
proof (induction order arbitrary: agents)
  case (Cons a order)
  then show ?case using Bank_Deliver_stored [OF assms(1,2)] by (auto split: option.splits)
qed simp

section \<open>Correctness\<close>

text \<open>
  Delivery reaches exactly the mailboxes of the destination: in every registered agent that has a
  mailbox for the destination of a stored bundle, the bundle is afterwards in that mailbox, as new unless
  it was there before; no other mailbox and no other agent changes, in whatever order they are visited.
\<close>

lemma Delivery_correct:
  assumes "\<not> bd_deleted bd" "GetBundleDescriptor (bd_ID bd) st = Inr p" "distinct order" "agents n = Some bank" "n \<in> set order"
  shows "\<exists>bank'. Delivery order bd st agents n = Some bank' \<and> RegisteredIDs bank' = RegisteredIDs bank \<and>
    (case GetMailbox (md_Destination (bd_metadata bd)) bank of
       Inl _ \<Rightarrow> bank' = bank
     | Inr m \<Rightarrow> \<exists>m'. GetMailbox (md_Destination (bd_metadata bd)) bank' = Inr m' \<and>
         m' (bd_ID bd) = (if m (bd_ID bd) = None then Some False else m (bd_ID bd)) \<and>
         (\<forall>bid. bid = bd_ID bd \<or> m' bid = m bid) \<and>
         (\<forall>eid. eid = md_Destination (bd_metadata bd) \<or> GetMailbox eid bank' = GetMailbox eid bank))"
  using Delivery_stored [OF assms(1-3), of agents n] assms(4,5)
  by (auto simp: delivered_def GetMailbox_def RegisteredIDs_def split: option.split)

lemma get_all_complete:
  assumes "distinct order" "dom mailbox = set order" "\<And>bid. bid \<in> set order \<Longrightarrow> \<exists>b. load_message rt bid st = Inr b"
  shows "Mailbox_GetAll rt remove order st mailbox =
      ((map (\<lambda>bid. projr (load_message rt bid st)) order, None), if remove then Map.empty else map_option (\<lambda>_. True) \<circ> mailbox) \<and>
    Mailbox_GetNew rt remove order st mailbox =
      ((map (\<lambda>bid. projr (load_message rt bid st)) (Mailbox_ListNew order mailbox), None),
       if remove then Map.empty else map_option (\<lambda>_. True) \<circ> mailbox)"
proof -
  have l: "Mailbox_List order mailbox = order" using assms(2) by (auto simp: Mailbox_List_def filter_id_conv)
  have all: "get_loop rt False order st [] mailbox =
    (([] @ map (\<lambda>bid. projr (load_message rt bid st)) order, None), \<lambda>bid. if bid \<in> set order then Some True else mailbox bid)"
    using assms(1,3) by (intro get_loop_all) auto
  have new: "get_loop rt True order st [] mailbox = get_loop rt True (Mailbox_ListNew order mailbox) st [] mailbox"
  proof -
    have "get_loop rt True order st [] mailbox = get_loop rt True (filter (\<lambda>bid. mailbox bid \<noteq> Some True) order) st [] mailbox"
      by (rule get_loop_skip) simp
    moreover have "filter (\<lambda>bid. mailbox bid \<noteq> Some True) order = Mailbox_ListNew order mailbox"
      unfolding Mailbox_ListNew_def
    proof (rule filter_cong)
      show "(mailbox bid \<noteq> Some True) = (mailbox bid = Some False)" if "bid \<in> set order" for bid
        using that assms(2) by (cases "mailbox bid") auto
    qed simp
    ultimately show ?thesis by simp
  qed
  have new': "get_loop rt True (Mailbox_ListNew order mailbox) st [] mailbox =
    (([] @ map (\<lambda>bid. projr (load_message rt bid st)) (Mailbox_ListNew order mailbox), None),
     \<lambda>bid. if bid \<in> set (Mailbox_ListNew order mailbox) then Some True else mailbox bid)"
    using assms(1,3) by (intro get_loop_all) (auto simp: Mailbox_ListNew_def)
  have m1: "(\<lambda>bid. if bid \<in> set order then Some True else mailbox bid) = map_option (\<lambda>_. True) \<circ> mailbox"
  proof
    fix bid
    show "(if bid \<in> set order then Some True else mailbox bid) = (map_option (\<lambda>_. True) \<circ> mailbox) bid"
      using assms(2) by (cases "mailbox bid") auto
  qed
  have m2: "(\<lambda>bid. if bid \<in> set (Mailbox_ListNew order mailbox) then Some True else mailbox bid) = map_option (\<lambda>_. True) \<circ> mailbox"
  proof
    fix bid
    show "(if bid \<in> set (Mailbox_ListNew order mailbox) then Some True else mailbox bid) = (map_option (\<lambda>_. True) \<circ> mailbox) bid"
      using assms(2) by (cases "mailbox bid") (auto simp: Mailbox_ListNew_def)
  qed
  show ?thesis unfolding Mailbox_GetAll_def Mailbox_GetNew_def get_messages_def l new all new' m1 m2 by simp
qed

text \<open>
  Retrieving all messages is complete when every one can be loaded: all bundles of the mailbox come
  back, once each, in the order of the traversal, and afterwards the mailbox is empty or has only
  retrieved messages. \<open>GetNew\<close> does the same for the messages not retrieved before.
\<close>

lemma Mailbox_GetAll_complete:
  assumes "distinct order" "dom mailbox = set order" "\<And>bid. bid \<in> set order \<Longrightarrow> \<exists>b. load_message rt bid st = Inr b"
  shows "Mailbox_GetAll rt remove order st mailbox =
      ((map (\<lambda>bid. projr (load_message rt bid st)) order, None), if remove then Map.empty else map_option (\<lambda>_. True) \<circ> mailbox) \<and>
    Mailbox_GetNew rt remove order st mailbox =
      ((map (\<lambda>bid. projr (load_message rt bid st)) (Mailbox_ListNew order mailbox), None),
       if remove then Map.empty else map_option (\<lambda>_. True) \<circ> mailbox)"
  using get_all_complete [OF assms] .

text \<open>
  A message whose bundle is gone makes retrieving new messages lose the others: an error of the
  lookup returns no bundles, but the messages visited before are marked as retrieved, so that they are
  not returned when the stale message has been collected either.
\<close>

lemma Mailbox_GetNew_loses_messages:
  assumes "a \<noteq> b" "load_message rt a st = Inr bndl" "GetBundleDescriptor b st = Inl e"
  shows "Mailbox_GetNew rt False [a, b] st [a \<mapsto> False, b \<mapsto> False] = (([], Some (StoreError e)), [a \<mapsto> True, b \<mapsto> False]) \<and>
    Mailbox_GetNew rt False [a, b] st (Mailbox_GC [a, b] st [a \<mapsto> True, b \<mapsto> False]) = (([], None), [a \<mapsto> True])"
proof -
  obtain p where p: "GetBundleDescriptor a st = Inr p" "load_bundle rt p st = Inr bndl"
    using assms(2) by (auto simp: load_message_def split: sum.splits)
  have gc: "Mailbox_GC [a, b] st [a \<mapsto> True, b \<mapsto> False] = [a \<mapsto> True]"
    using p(1) assms(1,3) by (auto simp: Mailbox_GC_eq fun_eq_iff simp del: Mailbox_GC.simps)
  show ?thesis unfolding gc using p assms(1,3)
    by (auto simp: Mailbox_GetNew_def get_messages_def Mailbox_List_def fun_eq_iff)
qed

text \<open>
  A bank knows exactly the endpoints it has a mailbox for, each once, whatever the sequence of
  registrations, deliveries, retrievals and collections.
\<close>

lemma bank_mailboxes_registered:
  assumes "bank_reach T bank"
  shows "distinct (RegisteredIDs bank) \<and> (eid \<in> set (RegisteredIDs bank) \<longleftrightarrow> (\<exists>m. GetMailbox eid bank = Inr m))"
  using bank_reach_inv [OF assms] by (auto simp: bank_inv_def RegisteredIDs_def GetMailbox_def split: option.splits)

end
