(* ===== verification/Processing.thy ===== *)
theory Processing
  imports Mailbox
begin

text \<open>
  Bundle processing (\<open>pkg/processing/processing.go\<close>, \<open>reception.go\<close>): receiving, dispatching and
  forwarding, which tie the store, the routing algorithm, the convergence layers and the application
  agents together. A handler that runs in a goroutine is a function on the state of the node; the
  forwardings that have been started and not yet run are part of the state. \<open>Inl\<close> is a panic, which
  ends the daemon.
\<close>

section \<open>The node\<close>

record 'db Node =
  nd_store :: "'db BundleStore"
  nd_manager :: Manager
  nd_agents :: Agents
  nd_sent :: "(Convergence \<times> Bundle) list"
  nd_forwarding :: "nat list"

text \<open>
  The configuration of the daemon and what its environment does during a call: the outcome of sending
  to a peer, the order in which the goroutines of one forwarding finish, the file system, and the order
  in which the map of agents is traversed.
\<close>

record 'db daemon =
  dm_runtime :: "'db runtime"
  dm_algorithm :: Algorithm
  dm_ownNodeID :: EndpointID
  dm_send :: "Convergence \<Rightarrow> bool"
  dm_schedule :: "Convergence list \<Rightarrow> Convergence list"
  dm_io :: io_env
  dm_agents :: "string list"

abbreviation dm_db :: "'db daemon \<Rightarrow> 'db badgerhold" where
  "dm_db dm \<equiv> rt_badgerhold (dm_runtime dm)"

definition crash :: "store_err \<Rightarrow> unit res" where
  "crash e = (if store_panic e then Inl (Panic ''panic in the store'') else Inr ())"

section \<open>Forwarding\<close>

definition forwardBundleToPeer :: "'db daemon \<Rightarrow> nat \<Rightarrow> Bundle \<Rightarrow> Convergence \<Rightarrow> 'db Node \<Rightarrow> 'db Node" where
  "forwardBundleToPeer dm p bundle peer nd =
     (if \<not> dm_send dm peer then nd
      else nd\<lparr>nd_sent := nd_sent nd @ [(peer, bundle)],
              nd_store := snd (AddKnownHolder (dm_db dm) [cla_PeerEndpointID peer] p (nd_store nd))\<rparr>)"

definition bundleContraindicated :: "nat \<Rightarrow> 'db Node \<Rightarrow> 'db Node" where
  "bundleContraindicated p nd = nd\<lparr>nd_store := snd (on_descriptor ResetConstraints p (nd_store nd))\<rparr>"

text \<open>Steps 4.1 and 4.2 of \<open>forwardingAsync\<close>.\<close>

definition replace_previous_node :: "EndpointID \<Rightarrow> Bundle \<Rightarrow> Bundle res" where
  "replace_previous_node ownNodeID bundle =
     (let bundle = (case ExtensionBlockByType bundle BlockTypePreviousNodeBlock of
            Inl _ \<Rightarrow> bundle
          | Inr i \<Rightarrow> RemoveExtensionBlockByBlockNumber (cb_BlockNumber (bndl_ExtensionBlocks bundle ! i)) bundle)
      in case AddExtensionBlock (NewCanonicalBlock 0 0 (NewPreviousNodeBlock ownNodeID)) bundle of
           Inl e \<Rightarrow> if is_panic e then Inl e else Inr bundle
         | Inr bundle \<Rightarrow> Inr bundle)"

definition forwardingAsync :: "'db daemon \<Rightarrow> nat \<Rightarrow> 'db Node \<Rightarrow> unit res \<times> 'db Node" where
  "forwardingAsync dm p nd =
     (case on_descriptor (AddConstraint ForwardPending) p (nd_store nd) of
        (Inl e, st) \<Rightarrow> (crash e, nd)
      | (Inr _, st) \<Rightarrow>
     (case on_descriptor (RemoveConstraint DispatchPending) p st of
        (Inl e, _) \<Rightarrow> (crash e, nd\<lparr>nd_store := st\<rparr>)
      | (Inr _, st) \<Rightarrow>
     (case SelectPeersForForwarding (dm_runtime dm) (dm_algorithm dm) p (GetSenders (nd_manager nd)) st of
        (Inl e, st) \<Rightarrow> (Inl e, nd\<lparr>nd_store := st\<rparr>)
      | (Inr (forwardToPeers, bundle), st) \<Rightarrow>
        let nd = nd\<lparr>nd_store := st\<rparr> in
        if length forwardToPeers = 0 then (Inr (), bundleContraindicated p nd)
        else case (case bundle of Some b \<Rightarrow> Inr b | None \<Rightarrow> load_bundle (dm_runtime dm) p st) of
          Inl e \<Rightarrow> (crash e, nd)
        | Inr bundle \<Rightarrow> (case replace_previous_node (dm_ownNodeID dm) bundle of
            Inl e \<Rightarrow> (Inl e, nd)
          | Inr bundle \<Rightarrow>
            let nd = fold (forwardBundleToPeer dm p bundle) (dm_schedule dm forwardToPeers) nd;
                (res, st) = on_descriptor (RemoveConstraint ForwardPending) p (nd_store nd)
            in ((case res of Inl e \<Rightarrow> crash e | Inr _ \<Rightarrow> Inr ()), nd\<lparr>nd_store := st\<rparr>)))))"

definition BundleForwarding :: "nat \<Rightarrow> 'db Node \<Rightarrow> 'db Node" where
  "BundleForwarding p nd = nd\<lparr>nd_forwarding := nd_forwarding nd @ [p]\<rparr>"

definition dispatchPending :: "BundleID list \<Rightarrow> 'db Node \<Rightarrow> 'db Node" where
  "dispatchPending order nd = fold BundleForwarding (GetDispatchable order (nd_store nd)) nd"

definition NewPeer :: "'db daemon \<Rightarrow> BundleID list \<Rightarrow> EndpointID \<Rightarrow> 'db Node \<Rightarrow> 'db Node" where
  "NewPeer dm order peerID nd =
     dispatchPending order (nd\<lparr>nd_store := NotifyPeerAppeared (dm_algorithm dm) peerID (nd_store nd)\<rparr>)"

section \<open>Reception\<close>

definition receiveAsync :: "'db daemon \<Rightarrow> Bundle \<Rightarrow> bool \<Rightarrow> 'db Node \<Rightarrow> unit res \<times> 'db Node" where
  "receiveAsync dm bundle new nd =
     (case InsertBundle (rt_cboring (dm_runtime dm)) (dm_db dm) (dm_io dm) bundle (nd_store nd) of
        (Inl e, st) \<Rightarrow> (crash e, nd\<lparr>nd_store := st\<rparr>)
      | (Inr p, st) \<Rightarrow> (case bst_heap st p of
          None \<Rightarrow> (Inl (Panic ''dangling descriptor''), nd\<lparr>nd_store := st\<rparr>)
        | Some bd \<Rightarrow>
          let nd = nd\<lparr>nd_store := st, nd_agents := Delivery (dm_agents dm) bd st (nd_agents nd)\<rparr>
          in case (if new then NotifyNewBundle (dm_db dm) (dm_algorithm dm) p bundle st
                   else NotifyReceivedBundle (dm_db dm) (dm_algorithm dm) p bundle st) of
               (Inl e, st) \<Rightarrow> (Inl e, nd\<lparr>nd_store := st\<rparr>)
             | (Inr _, st) \<Rightarrow>
               let nd = nd\<lparr>nd_store := st\<rparr> in
               case bst_heap st p of
                 None \<Rightarrow> (Inl (Panic ''dangling descriptor''), nd)
               | Some bd \<Rightarrow> (Inr (), if HasConstraint DispatchPending bd = Inr True then BundleForwarding p nd else nd)))"

definition ReceiveBundle :: "'db daemon \<Rightarrow> Bundle \<Rightarrow> 'db Node \<Rightarrow> unit res \<times> 'db Node" where
  "ReceiveBundle dm bundle nd = receiveAsync dm bundle False nd"

definition NewBundle_created :: "'db daemon \<Rightarrow> Bundle \<Rightarrow> 'db Node \<Rightarrow> unit res \<times> 'db Node" where
  "NewBundle_created dm bundle nd = receiveAsync dm bundle True nd"

section \<open>Properties\<close>

subsection \<open>Known holders\<close>

definition add_holders :: "EndpointID list \<Rightarrow> BundleDescriptor \<Rightarrow> BundleDescriptor" where
  "add_holders es bd = bd\<lparr>bd_metadata := (bd_metadata bd)\<lparr>md_KnownHolders := md_KnownHolders (bd_metadata bd) @ es\<rparr>\<rparr>"

lemma add_holders_simps [simp]:
  "add_holders [] bd = bd" "add_holders ds (add_holders es bd) = add_holders (es @ ds) bd"
  "bd_deleted (add_holders es bd) = bd_deleted bd" "bd_retentionConstraints (add_holders es bd) = bd_retentionConstraints bd"
  "bd_shouldDelete (add_holders es bd) = bd_shouldDelete bd"
  "md_KnownHolders (bd_metadata (add_holders es bd)) = md_KnownHolders (bd_metadata bd) @ es"
  by (simp_all add: add_holders_def)

lemma AddKnownHolder_live:
  assumes "bst_heap st p = Some bd" "\<not> bd_deleted bd"
  shows "bst_heap (snd (AddKnownHolder D es p st)) = (bst_heap st)(p \<mapsto> add_holders es bd)"
    "bst_files (snd (AddKnownHolder D es p st)) = bst_files st"
  using assms by (auto simp: AddKnownHolder_def Let_def set_metadata_def updateBundleMetadata_def add_holders_def
      bindR_def split: sum.splits)

lemma forward_fold:
  assumes "bst_heap (nd_store nd) p = Some bd" "\<not> bd_deleted bd"
  shows "nd_sent (fold (forwardBundleToPeer dm p b) cs nd) = nd_sent nd @ map (\<lambda>c. (c, b)) (filter (dm_send dm) cs) \<and>
    bst_heap (nd_store (fold (forwardBundleToPeer dm p b) cs nd)) p =
      Some (add_holders (map cla_PeerEndpointID (filter (dm_send dm) cs)) bd)"
  using assms
proof (induction cs arbitrary: nd bd)
  case (Cons c cs)
  show ?case
  proof (cases "dm_send dm c")
    case True
    let ?nd = "forwardBundleToPeer dm p b c nd"
    have h: "bst_heap (nd_store ?nd) p = Some (add_holders [cla_PeerEndpointID c] bd)" "nd_sent ?nd = nd_sent nd @ [(c, b)]"
      using True AddKnownHolder_live [OF Cons.prems] by (simp_all add: forwardBundleToPeer_def)
    then show ?thesis using Cons.IH [OF h(1)] Cons.prems True by simp
  next
    case False
    then show ?thesis using Cons.IH [OF Cons.prems] by (simp add: forwardBundleToPeer_def)
  qed
qed simp

subsection \<open>The beginning of a forwarding\<close>

definition forward_constraints :: "BundleDescriptor \<Rightarrow> Constraint list" where
  "forward_constraints bd = filter (\<lambda>c. c \<noteq> DispatchPending) (bd_retentionConstraints bd) @ [ForwardPending]"

definition forward_marked :: "BundleDescriptor \<Rightarrow> BundleDescriptor" where
  "forward_marked bd = bd\<lparr>bd_retentionConstraints := forward_constraints bd, bd_retain := True, bd_dispatch := False\<rparr>"

lemma forward_marked_simps [simp]:
  "bd_metadata (forward_marked bd) = bd_metadata bd" "bd_deleted (forward_marked bd) = bd_deleted bd"
  "bd_shouldDelete (forward_marked bd) = bd_shouldDelete bd" "bd_ID (forward_marked bd) = bd_ID bd"
  "bd_retentionConstraints (forward_marked bd) = forward_constraints bd"
  by (simp_all add: forward_marked_def bd_ID_def)

definition set_heap :: "nat \<Rightarrow> BundleDescriptor \<Rightarrow> 'db BundleStore \<Rightarrow> 'db BundleStore" where
  "set_heap p bd st = st\<lparr>bst_heap := (bst_heap st)(p \<mapsto> bd)\<rparr>"

lemma set_heap_simps [simp]:
  "bst_heap (set_heap p bd st) = (bst_heap st)(p \<mapsto> bd)" "bst_files (set_heap p bd st) = bst_files st"
  "bst_bundles (set_heap p bd st) = bst_bundles st"
  by (simp_all add: set_heap_def)

lemma Forward_ne_Dispatch [simp]: "ForwardPending \<noteq> DispatchPending" "DispatchPending \<noteq> ForwardPending"
  by (simp_all add: constraint_defs)

lemma mark_forwarding:
  assumes "bst_heap st p = Some bd" "\<not> bd_deleted bd"
  obtains st1 where "on_descriptor (AddConstraint ForwardPending) p st = (Inr (), st1)"
    "on_descriptor (RemoveConstraint DispatchPending) p st1 = (Inr (), set_heap p (forward_marked bd) st)"
proof -
  let ?bd1 = "bd\<lparr>bd_retentionConstraints := bd_retentionConstraints bd @ [ForwardPending], bd_retain := True, bd_dispatch := False\<rparr>"
  have "AddConstraint ForwardPending bd = Inr (?bd1, [])"
    using assms(2) by (simp add: AddConstraint_def Constraint_Valid_def constraint_defs)
  then have 1: "on_descriptor (AddConstraint ForwardPending) p st = (Inr (), set_heap p ?bd1 st)"
    using assms(1) by (simp add: on_descriptor_def set_heap_def)
  have "RemoveConstraint DispatchPending ?bd1 = Inr (forward_marked bd, [])"
    using assms(2) by (simp add: RemoveConstraint_def keep_constraints_eq forward_marked_def forward_constraints_def Let_def)
  then have "on_descriptor (RemoveConstraint DispatchPending) p (set_heap p ?bd1 st) = (Inr (), set_heap p (forward_marked bd) st)"
    by (simp add: on_descriptor_def set_heap_def)
  then show thesis using that 1 by blast
qed

lemma load_bundle_cong:
  assumes "bst_heap st p = Some bd" "bst_heap st' p = Some bd'" "bst_files st' = bst_files st"
    "bd_deleted bd' = bd_deleted bd" "bd_ID bd' = bd_ID bd"
    "md_SerialisedFileName (bd_metadata bd') = md_SerialisedFileName (bd_metadata bd)"
  shows "load_bundle rt p st' = load_bundle rt p st"
  using assms by (simp add: load_bundle_def Load_def loadEntireBundle_def)

text \<open>The ways in which a forwarding of a bundle that is not deleted can return.\<close>

abbreviation sending :: "'db daemon \<Rightarrow> nat \<Rightarrow> Bundle \<Rightarrow> Convergence list \<Rightarrow> 'db Node \<Rightarrow> 'db Node" where
  "sending dm p b sel nd \<equiv> fold (forwardBundleToPeer dm p b) (dm_schedule dm sel) nd"

lemma forwardingAsync_returns:
  assumes "bst_heap (nd_store nd) p = Some bd" "\<not> bd_deleted bd" "forwardingAsync dm p nd = (Inr (), nd')"
  obtains sel b st2 where
    "SelectPeersForForwarding (dm_runtime dm) (dm_algorithm dm) p (GetSenders (nd_manager nd))
       (set_heap p (forward_marked bd) (nd_store nd)) = (Inr (sel, b), st2)"
    "(sel = [] \<and> nd' = bundleContraindicated p (nd\<lparr>nd_store := st2\<rparr>)) \<or>
     (sel \<noteq> [] \<and> b = None \<and> (\<exists>e. load_bundle (dm_runtime dm) p st2 = Inl e) \<and> nd' = nd\<lparr>nd_store := st2\<rparr>) \<or>
     (sel \<noteq> [] \<and> (\<exists>b1 b2. (b = Some b1 \<or> load_bundle (dm_runtime dm) p st2 = Inr b1) \<and>
        replace_previous_node (dm_ownNodeID dm) b1 = Inr b2 \<and>
        nd' = (sending dm p b2 sel (nd\<lparr>nd_store := st2\<rparr>))\<lparr>nd_store :=
          snd (on_descriptor (RemoveConstraint ForwardPending) p (nd_store (sending dm p b2 sel (nd\<lparr>nd_store := st2\<rparr>))))\<rparr>))"
proof -
  obtain st1 where m: "on_descriptor (AddConstraint ForwardPending) p (nd_store nd) = (Inr (), st1)"
    "on_descriptor (RemoveConstraint DispatchPending) p st1 = (Inr (), set_heap p (forward_marked bd) (nd_store nd))"
    using mark_forwarding [OF assms(1,2)] .
  note f = assms(3) [unfolded forwardingAsync_def m(1) prod.case sum.case m(2)]
  obtain res st2 where s: "SelectPeersForForwarding (dm_runtime dm) (dm_algorithm dm) p (GetSenders (nd_manager nd))
       (set_heap p (forward_marked bd) (nd_store nd)) = (res, st2)" by (metis surj_pair)
  then obtain sel b where r: "res = Inr (sel, b)" using f by (cases res) (auto simp del: SelectPeersForForwarding.simps)
  show thesis
    using f s r by (intro that [of sel b st2])
      (auto simp: Let_def simp del: SelectPeersForForwarding.simps split: if_splits option.splits sum.splits prod.splits)
qed

lemma remove_on_descriptor:
  assumes "bst_heap st p = Some bd" "\<not> bd_deleted bd"
  shows "\<exists>bd'. bst_heap (snd (on_descriptor (RemoveConstraint c) p st)) p = Some bd' \<and> bd_metadata bd' = bd_metadata bd \<and>
    bd_retentionConstraints bd' = filter (\<lambda>e. e \<noteq> c) (bd_retentionConstraints bd)"
  using assms by (auto simp: on_descriptor_def RemoveConstraint_def keep_constraints_eq Let_def delete_ignoring_def
      unsafeDelete_def split: if_splits)

lemma reset_on_descriptor:
  assumes "bst_heap st p = Some bd" "\<not> bd_deleted bd"
  shows "\<exists>bd'. bst_heap (snd (on_descriptor ResetConstraints p st)) p = Some bd' \<and> bd_metadata bd' = bd_metadata bd \<and>
    bd_retentionConstraints bd' = []"
  using assms by (auto simp: on_descriptor_def ResetConstraints_def Let_def delete_ignoring_def unsafeDelete_def split: if_splits)

lemma filter_forward_constraints [simp]:
  "filter (\<lambda>c. c \<noteq> ForwardPending) (forward_constraints bd) =
     filter (\<lambda>c. c \<noteq> DispatchPending \<and> c \<noteq> ForwardPending) (bd_retentionConstraints bd)"
  by (auto simp: forward_constraints_def intro: filter_cong)

context badger
begin

lemma mark_forwarding_inv:
  assumes "store_inv get st" "bst_heap st p = Some bd" "\<not> bd_deleted bd"
  shows "store_inv get (set_heap p (forward_marked bd) st)"
proof -
  obtain st1 where "on_descriptor (AddConstraint ForwardPending) p st = (Inr (), st1)"
    "on_descriptor (RemoveConstraint DispatchPending) p st1 = (Inr (), set_heap p (forward_marked bd) st)"
    using mark_forwarding [OF assms(2,3)] .
  then show ?thesis
    using remove_op.on_descriptor_inv [OF add_op.on_descriptor_inv [OF assms(1)], of DispatchPending p ForwardPending p]
    by simp
qed

lemma sending_inv:
  assumes "store_inv get (nd_store nd)" "dm_db dm = D"
  shows "store_inv get (nd_store (fold (forwardBundleToPeer dm p b) cs nd))"
  using assms(1)
proof (induction cs arbitrary: nd)
  case (Cons c cs)
  then show ?case using AddKnownHolder_inv [OF Cons.prems] assms(2)
    by (cases "dm_send dm c") (simp_all add: forwardBundleToPeer_def)
qed simp

text \<open>What a returned forwarding has done, for any algorithm that fulfils the contract of routing.\<close>

lemma forwardingAsync_effect:
  assumes "store_inv get (nd_store nd)" "bst_heap (nd_store nd) p = Some bd" "\<not> bd_deleted bd" "dm_db dm = D"
    "forwardingAsync dm p nd = (Inr (), nd')" "\<And>cs. set (dm_schedule dm cs) = set cs"
  obtains cs b bd' where "store_inv get (nd_store nd')" "nd_sent nd' = nd_sent nd @ map (\<lambda>c. (c, b)) cs"
    "\<forall>c \<in> set cs. c \<in> set (filterPeers bd (GetSenders (nd_manager nd))) \<and> dm_send dm c"
    "bst_heap (nd_store nd') p = Some bd'"
    "md_KnownHolders (bd_metadata bd') = md_KnownHolders (bd_metadata bd) @ map cla_PeerEndpointID cs"
    "bd_retentionConstraints bd' = [] \<or>
     bd_retentionConstraints bd' = filter (\<lambda>c. c \<noteq> DispatchPending \<and> c \<noteq> ForwardPending) (bd_retentionConstraints bd) \<or>
     (bd_retentionConstraints bd' = forward_constraints bd \<and> cs = [] \<and> (\<exists>e. load_bundle (dm_runtime dm) p (nd_store nd) = Inl e))"
proof -
  let ?st1 = "set_heap p (forward_marked bd) (nd_store nd)"
  let ?select = "SelectPeersForForwarding (dm_runtime dm) (dm_algorithm dm)"
  have ra: "routing_algorithm get ?select" using assms(4) by (rule algorithms_routing)
  have h1: "bst_heap ?st1 p = Some (forward_marked bd)" "\<not> bd_deleted (forward_marked bd)" using assms(3) by simp_all
  obtain sel b st2 where s: "?select p (GetSenders (nd_manager nd)) ?st1 = (Inr (sel, b), st2)" and
    c: "(sel = [] \<and> nd' = bundleContraindicated p (nd\<lparr>nd_store := st2\<rparr>)) \<or>
     (sel \<noteq> [] \<and> b = None \<and> (\<exists>e. load_bundle (dm_runtime dm) p st2 = Inl e) \<and> nd' = nd\<lparr>nd_store := st2\<rparr>) \<or>
     (\<exists>b2. (nd' = (sending dm p b2 sel (nd\<lparr>nd_store := st2\<rparr>))\<lparr>nd_store :=
          snd (on_descriptor (RemoveConstraint ForwardPending) p (nd_store (sending dm p b2 sel (nd\<lparr>nd_store := st2\<rparr>))))\<rparr>))"
    using forwardingAsync_returns [OF assms(2,3,5)] by metis
  have sub: "set sel \<subseteq> set (filterPeers (forward_marked bd) (GetSenders (nd_manager nd)))"
    using routing_algorithm.select_peers [OF ra h1(1) s] .
  have fp: "set (filterPeers (forward_marked bd) cs) = set (filterPeers bd cs)" for cs by (simp add: set_filterPeers)
  have fr: "misc_only p ?st1 st2" using routing_algorithm.select_frame [OF ra h1(1), of "GetSenders (nd_manager nd)"] s by simp
  have inv2: "store_inv get st2"
    using routing_algorithm.select_inv [OF ra mark_forwarding_inv [OF assms(1-3)] h1, of "GetSenders (nd_manager nd)"] s by simp
  obtain bd2 where bd2: "bst_heap st2 p = Some bd2" "\<not> bd_deleted bd2" "bd_retentionConstraints bd2 = forward_constraints bd"
    "md_KnownHolders (bd_metadata bd2) = md_KnownHolders (bd_metadata bd)"
    using misc_onlyD [OF fr h1(1)] assms(3) by (metis forward_marked_simps(1,2,5))
  have "load_bundle (dm_runtime dm) p st2 = load_bundle (dm_runtime dm) p ?st1" by (rule load_bundle_misc [OF fr])
  also have "\<dots> = load_bundle (dm_runtime dm) p (nd_store nd)" using assms(2)
    by (intro load_bundle_cong [of _ _ bd _ "forward_marked bd"]) simp_all
  finally have load: "load_bundle (dm_runtime dm) p st2 = load_bundle (dm_runtime dm) p (nd_store nd)" .
  from c show thesis
  proof (elim disjE conjE exE)
    assume n: "nd' = bundleContraindicated p (nd\<lparr>nd_store := st2\<rparr>)"
    obtain bd' where "bst_heap (nd_store nd') p = Some bd'" "bd_metadata bd' = bd_metadata bd2" "bd_retentionConstraints bd' = []"
      using reset_on_descriptor [OF bd2(1,2)] n by (auto simp: bundleContraindicated_def)
    then show thesis using n bd2 reset_op.on_descriptor_inv [OF inv2, of p]
      by (intro that [where cs = "[]" and bd' = bd']) (auto simp: bundleContraindicated_def)
  next
    fix e assume n: "nd' = nd\<lparr>nd_store := st2\<rparr>" "load_bundle (dm_runtime dm) p st2 = Inl e"
    then show thesis using bd2 inv2 load by (intro that [where cs = "[]" and bd' = bd2]) auto
  next
    fix b2 assume n: "nd' = (sending dm p b2 sel (nd\<lparr>nd_store := st2\<rparr>))\<lparr>nd_store :=
          snd (on_descriptor (RemoveConstraint ForwardPending) p (nd_store (sending dm p b2 sel (nd\<lparr>nd_store := st2\<rparr>))))\<rparr>"
    let ?nd = "sending dm p b2 sel (nd\<lparr>nd_store := st2\<rparr>)" and ?cs = "filter (dm_send dm) (dm_schedule dm sel)"
    have "bst_heap (nd_store (nd\<lparr>nd_store := st2\<rparr>)) p = Some bd2" using bd2(1) by simp
    note ff = forward_fold [OF this bd2(2), of dm b2 "dm_schedule dm sel"]
    have live: "bst_heap (nd_store ?nd) p = Some (add_holders (map cla_PeerEndpointID ?cs) bd2)"
      "\<not> bd_deleted (add_holders (map cla_PeerEndpointID ?cs) bd2)" using ff bd2(2) by simp_all
    obtain bd' where bd': "bst_heap (nd_store nd') p = Some bd'" "bd_metadata bd' = bd_metadata (add_holders (map cla_PeerEndpointID ?cs) bd2)"
      "bd_retentionConstraints bd' = filter (\<lambda>e. e \<noteq> ForwardPending) (forward_constraints bd)"
      using remove_on_descriptor [OF live, of ForwardPending] bd2(3) n by auto
    have "store_inv get (nd_store ?nd)" by (rule sending_inv) (use inv2 assms(4) in simp_all)
    then have "store_inv get (nd_store nd')" using remove_op.on_descriptor_inv n by simp
    moreover have "nd_sent nd' = nd_sent nd @ map (\<lambda>c. (c, b2)) ?cs" using ff n by simp
    moreover have "\<forall>c \<in> set ?cs. c \<in> set (filterPeers bd (GetSenders (nd_manager nd))) \<and> dm_send dm c"
      using sub fp assms(6) [of sel] by auto
    moreover have "md_KnownHolders (bd_metadata bd') = md_KnownHolders (bd_metadata bd) @ map cla_PeerEndpointID ?cs"
      using bd'(2) bd2(4) by simp
    moreover have "bd_retentionConstraints bd' = filter (\<lambda>c. c \<noteq> DispatchPending \<and> c \<noteq> ForwardPending) (bd_retentionConstraints bd)"
      using bd'(3) by simp
    ultimately show thesis using that bd'(1) by blast
  qed
qed

end

subsection \<open>The previous node block\<close>

lemma replace_previous_node_total:
  assumes "distinct (block_numbers b)" "length (bndl_ExtensionBlocks b) < 2 ^ 64"
  shows "\<exists>b'. replace_previous_node own b = Inr b'"
proof -
  let ?b = "case ExtensionBlockByType b BlockTypePreviousNodeBlock of Inl _ \<Rightarrow> b
    | Inr i \<Rightarrow> RemoveExtensionBlockByBlockNumber (cb_BlockNumber (bndl_ExtensionBlocks b ! i)) b"
  have "length (bndl_ExtensionBlocks ?b) < 2 ^ 64"
    using assms(2) le_less_trans [OF length_remove_number]
    by (auto simp: RemoveExtensionBlockByBlockNumber_def split: sum.split)
  then show ?thesis
    using AddExtensionBlock_total [of ?b "NewCanonicalBlock 0 0 (NewPreviousNodeBlock own)"]
    by (auto simp: replace_previous_node_def Let_def)
qed

lemma replace_previous_node_frame:
  assumes "replace_previous_node own b = Inr b'"
  shows "bndl_PrimaryBlock b' = bndl_PrimaryBlock b" "bndl_PayloadBlock b' = bndl_PayloadBlock b"
  using assms AddExtensionBlock_frame(1,2)
  by (fastforce simp: replace_previous_node_def RemoveExtensionBlockByBlockNumber_def Let_def split: sum.splits if_splits)+

lemma replace_previous_node_blocks:
  assumes "replace_previous_node own b = Inr b'" "distinct (block_numbers b)" "length (bndl_ExtensionBlocks b) < 2 ^ 64"
    "\<not> HasExtensionBlock b BlockTypePreviousNodeBlock \<or> (\<exists>i. ExtensionBlockByType b BlockTypePreviousNodeBlock = Inr i)"
  shows "\<exists>no. set (bndl_ExtensionBlocks b') =
      insert (NewCanonicalBlock no 0 (PreviousNodeBlock own)) (without_type BlockTypePreviousNodeBlock b)"
    "distinct (block_numbers b')" "bndl_PrimaryBlock b' = bndl_PrimaryBlock b" "bndl_PayloadBlock b' = bndl_PayloadBlock b"
proof -
  let ?T = BlockTypePreviousNodeBlock and ?cb = "NewCanonicalBlock 0 0 (NewPreviousNodeBlock own)"
  define b1 where "b1 = (case ExtensionBlockByType b ?T of Inl _ \<Rightarrow> b
    | Inr i \<Rightarrow> RemoveExtensionBlockByBlockNumber (cb_BlockNumber (bndl_ExtensionBlocks b ! i)) b)"
  have b1: "set (bndl_ExtensionBlocks b1) = without_type ?T b \<and> distinct (block_numbers b1) \<and>
    length (bndl_ExtensionBlocks b1) < 2 ^ 64 \<and> bndl_PrimaryBlock b1 = bndl_PrimaryBlock b \<and> bndl_PayloadBlock b1 = bndl_PayloadBlock b"
  proof (cases "ExtensionBlockByType b ?T")
    case (Inl e)
    then have "\<not> HasExtensionBlock b ?T" using assms(4) by auto
    then have "without_type ?T b = set (bndl_ExtensionBlocks b)" by (auto simp: without_type_def HasExtensionBlock_iff)
    then show ?thesis using Inl assms(2,3) by (simp add: b1_def)
  next
    case (Inr i)
    then show ?thesis using remove_single_type [OF assms(2) Inr] assms(2,3) le_less_trans [OF length_remove_number]
      by (simp add: b1_def RemoveExtensionBlockByBlockNumber_def block_numbers_def distinct_remove_number)
  qed
  have "length (bndl_ExtensionBlocks b1) < 2 ^ 64" using b1 by blast
  then obtain b2 where b2: "AddExtensionBlock ?cb b1 = Inr b2" using AddExtensionBlock_total by blast
  then have eq: "b' = b2" using assms(1) by (simp add: replace_previous_node_def Let_def b1_def [symmetric])
  note f = AddExtensionBlock_frame [OF b2 [folded eq]]
  have "?cb\<lparr>cb_BlockNumber := no\<rparr> = NewCanonicalBlock no 0 (PreviousNodeBlock own)" for no by (simp add: NewCanonicalBlock_def)
  then show "\<exists>no. set (bndl_ExtensionBlocks b') = insert (NewCanonicalBlock no 0 (PreviousNodeBlock own)) (without_type ?T b)"
    using f(4) b1 by metis
  show "distinct (block_numbers b')" "bndl_PrimaryBlock b' = bndl_PrimaryBlock b" "bndl_PayloadBlock b' = bndl_PayloadBlock b"
    using f b1 by auto
qed

subsection \<open>Reception\<close>

lemma notify_misc:
  assumes "bst_heap st p = Some bd"
  shows "misc_only p st (snd (NotifyNewBundle D alg p b st))" "misc_only p st (snd (NotifyReceivedBundle D alg p b st))"
  using misc_only_refl [OF assms] setSprayCopies_misc [OF assms]
  by (cases alg; auto split: sum.split ExtensionBlock.split)+

lemma NotifyNewBundle_ok: "\<exists>st'. NotifyNewBundle D alg p b st = (Inr (), st')"
  by (cases alg) simp_all

lemma InsertBundle_heap:
  assumes "InsertBundle L D env b st = (Inr p, st')" "previous_node b = Inr (Some e)"
  obtains bd where "bst_heap st' p = Some bd" "e \<in> set (md_KnownHolders (bd_metadata bd))" "bd_deleted bd = False"
proof (cases "bst_bundles st (Bundle_ID b)")
  case None
  then show thesis using assms that
    by (auto simp: InsertBundle_def insertNewBundleUnsafe_def Let_def new_metadata_def NewBundleDescriptor_def
        split: sum.splits prod.splits if_splits)
next
  case (Some q)
  then have a: "AddKnownHolder D [e] q st = (Inr (), st')" "q = p"
    using assms by (auto simp: InsertBundle_def split: sum.splits prod.splits)
  then obtain bd where bd: "bst_heap st p = Some bd" "\<not> bd_deleted bd"
    by (auto simp: AddKnownHolder_def Let_def split: option.splits if_splits)
  have "bst_heap st' = (bst_heap st)(p \<mapsto> add_holders [e] bd)" using AddKnownHolder_live(1) [OF bd, of D "[e]"] a by simp
  then show thesis using that [of "add_holders [e] bd"] bd(2) by simp
qed

text \<open>Epidemic forwarding of a bundle that can be loaded, with at least one eligible peer.\<close>

lemma epidemic_forwarding:
  assumes "bst_heap (nd_store nd) p = Some bd" "\<not> bd_deleted bd" "dm_algorithm dm = EpidemicRouting"
    "filterPeers bd (GetSenders (nd_manager nd)) \<noteq> []" "load_bundle (dm_runtime dm) p (nd_store nd) = Inr b"
    "replace_previous_node (dm_ownNodeID dm) b = Inr b'"
  shows "\<exists>nd'. forwardingAsync dm p nd = (Inr (), nd') \<and>
    nd_sent nd' = nd_sent nd @ map (\<lambda>c. (c, b')) (filter (dm_send dm) (dm_schedule dm (filterPeers bd (GetSenders (nd_manager nd)))))"
proof -
  let ?st1 = "set_heap p (forward_marked bd) (nd_store nd)" and ?sel = "filterPeers bd (GetSenders (nd_manager nd))"
  obtain st1 where m: "on_descriptor (AddConstraint ForwardPending) p (nd_store nd) = (Inr (), st1)"
    "on_descriptor (RemoveConstraint DispatchPending) p st1 = (Inr (), ?st1)"
    using mark_forwarding [OF assms(1,2)] .
  have sel: "filterPeers (forward_marked bd) cs = filterPeers bd cs" for cs
    by (simp add: filterPeers_def GetKnownHolders_def)
  have load: "load_bundle (dm_runtime dm) p ?st1 = Inr b"
    using load_bundle_cong [of "nd_store nd" p bd ?st1 "forward_marked bd"] assms(1,5) by simp
  let ?nd = "sending dm p b' ?sel (nd\<lparr>nd_store := ?st1\<rparr>)"
  have "bst_heap (nd_store (nd\<lparr>nd_store := ?st1\<rparr>)) p = Some (forward_marked bd)" by simp
  note ff = forward_fold [OF this, of dm b' "dm_schedule dm ?sel"]
  have live: "\<exists>bd3. bst_heap (nd_store ?nd) p = Some bd3 \<and> \<not> bd_deleted bd3" using ff assms(2) by simp
  then have "\<exists>st3. on_descriptor (RemoveConstraint ForwardPending) p (nd_store ?nd) = (Inr (), st3)"
    by (auto simp: on_descriptor_def RemoveConstraint_def keep_constraints_eq Let_def split: sum.splits prod.splits)
  then obtain st3 where "on_descriptor (RemoveConstraint ForwardPending) p (nd_store ?nd) = (Inr (), st3)" ..
  then have "forwardingAsync dm p nd = (Inr (), ?nd\<lparr>nd_store := st3\<rparr>)"
    unfolding forwardingAsync_def m(1) prod.case sum.case m(2)
    using assms(3,4,6) sel load by (simp add: Let_def)
  then show ?thesis using ff assms(2) by simp
qed

context badger
begin

lemma InsertBundle_in_map:
  assumes "store_inv get st" "InsertBundle L D env b st = (Inr p, st')"
  obtains bd where "bst_heap st' p = Some bd" "bst_bundles st' (bd_ID bd) = Some p" "bd_ID bd = Bundle_ID b"
proof -
  have inv: "store_inv get st'" using InsertBundle_inv [OF assms(1), of L env b] assms(2) by simp
  have "bst_bundles st' (Bundle_ID b) = Some p"
  proof (cases "bst_bundles st (Bundle_ID b)")
    case None
    then show ?thesis using assms(2)
      by (auto simp: InsertBundle_def insertNewBundleUnsafe_def Let_def split: sum.splits prod.splits if_splits)
  next
    case (Some q)
    have "bst_bundles (snd (AddKnownHolder D es q st)) = bst_bundles st" for es
      by (auto simp: AddKnownHolder_def Let_def set_metadata_def updateBundleMetadata_def bindR_def split: option.splits sum.splits)
    then show ?thesis using Some assms(2)
      by (auto simp: InsertBundle_def split: sum.splits prod.splits option.splits) (metis snd_conv)
  qed
  then show thesis using that inv by (auto simp: store_inv_def elim!: inv_mapE)
qed

lemma setSprayCopies_inv_map:
  assumes "store_inv get st" "bst_heap st p = Some bd" "bst_bundles st (bd_ID bd) = Some p"
  shows "store_inv get (setSprayCopies D p c st)"
  using SetMiscData_inv(1) [OF assms] by (simp add: setSprayCopies_def)

lemma receiveAsync_inv:
  assumes "store_inv get (nd_store nd)" "dm_db dm = D"
  shows "store_inv get (nd_store (snd (receiveAsync dm b new nd)))"
proof -
  obtain r st where i: "InsertBundle (rt_cboring (dm_runtime dm)) D (dm_io dm) b (nd_store nd) = (r, st)" by (metis surj_pair)
  have inv: "store_inv get st" using InsertBundle_inv [OF assms(1)] i by (metis snd_conv)
  show ?thesis
  proof (cases r)
    case (Inl e)
    then show ?thesis using i inv assms(2) by (simp add: receiveAsync_def)
  next
    case (Inr p)
    then obtain bd where bd: "bst_heap st p = Some bd" "bst_bundles st (bd_ID bd) = Some p"
      using InsertBundle_in_map [OF assms(1)] i by metis
    have n: "store_inv get (snd (NotifyNewBundle D alg p b st))" "store_inv get (snd (NotifyReceivedBundle D alg p b st))" for alg
      using setSprayCopies_inv_map [OF inv bd] inv by (cases alg; auto split: sum.split ExtensionBlock.split)+
    have "nd_store (snd (receiveAsync dm b new nd)) =
        snd (if new then NotifyNewBundle D (dm_algorithm dm) p b st else NotifyReceivedBundle D (dm_algorithm dm) p b st)"
      using i Inr bd(1) assms(2) by (auto simp: receiveAsync_def BundleForwarding_def Let_def
          simp del: NotifyNewBundle.simps NotifyReceivedBundle.simps split: prod.splits sum.splits option.splits)
    then show ?thesis using n by simp
  qed
qed

end

text \<open>A reception that returns has stored the bundle, with its previous node among the holders.\<close>

lemma receiveAsync_holder:
  assumes "receiveAsync dm b new nd = (Inr (), nd')" "InsertBundle (rt_cboring (dm_runtime dm)) (dm_db dm) (dm_io dm) b (nd_store nd) = (Inr p, st)"
    "previous_node b = Inr (Some e)"
  obtains bd where "bst_heap (nd_store nd') p = Some bd" "e \<in> set (md_KnownHolders (bd_metadata bd))" "\<not> bd_deleted bd"
    "misc_only p st (nd_store nd')" "nd_sent nd' = nd_sent nd"
proof -
  obtain bd where bd: "bst_heap st p = Some bd" "e \<in> set (md_KnownHolders (bd_metadata bd))" "bd_deleted bd = False"
    using InsertBundle_heap [OF assms(2,3)] .
  let ?n = "if new then NotifyNewBundle (dm_db dm) (dm_algorithm dm) p b st else NotifyReceivedBundle (dm_db dm) (dm_algorithm dm) p b st"
  have m: "misc_only p st (snd ?n)" using notify_misc [OF bd(1)] by simp
  have "nd_store nd' = snd ?n \<and> nd_sent nd' = nd_sent nd"
    using assms(1,2) bd(1) by (auto simp: receiveAsync_def BundleForwarding_def Let_def simp del: NotifyNewBundle.simps NotifyReceivedBundle.simps
        split: prod.splits sum.splits option.splits if_splits)
  then show thesis using that misc_onlyD [OF m bd(1)] bd(2,3) m by metis
qed

lemma receiveAsync_epidemic:
  assumes "InsertBundle (rt_cboring (dm_runtime dm)) (dm_db dm) (dm_io dm) b (nd_store nd) = (Inr p, st)"
    "bst_heap st p = Some bd" "dm_algorithm dm = EpidemicRouting"
  shows "receiveAsync dm b new nd =
    (Inr (), (if HasConstraint DispatchPending bd = Inr True then BundleForwarding p else id)
       (nd\<lparr>nd_agents := Delivery (dm_agents dm) bd st (nd_agents nd), nd_store := st\<rparr>))"
  using assms by (simp add: receiveAsync_def Let_def)

lemma epidemic_no_peer:
  assumes "bst_heap (nd_store nd) p = Some bd" "\<not> bd_deleted bd" "dm_algorithm dm = EpidemicRouting"
    "filterPeers bd (GetSenders (nd_manager nd)) = []"
  shows "forwardingAsync dm p nd = (Inr (), bundleContraindicated p (nd\<lparr>nd_store := set_heap p (forward_marked bd) (nd_store nd)\<rparr>))"
proof -
  obtain st1 where m: "on_descriptor (AddConstraint ForwardPending) p (nd_store nd) = (Inr (), st1)"
    "on_descriptor (RemoveConstraint DispatchPending) p st1 = (Inr (), set_heap p (forward_marked bd) (nd_store nd))"
    using mark_forwarding [OF assms(1,2)] .
  have "filterPeers (forward_marked bd) cs = filterPeers bd cs" for cs by (simp add: filterPeers_def GetKnownHolders_def)
  then show ?thesis unfolding forwardingAsync_def m(1) prod.case sum.case m(2) using assms(3,4) by (simp add: Let_def)
qed

lemma misc_only_lookup:
  assumes "misc_only p st st'" "GetBundleDescriptor bid st = Inr p"
  shows "GetBundleDescriptor bid st' = Inr p"
proof -
  obtain bd where bd: "bst_heap st p = Some bd" "\<not> bd_deleted bd" "bst_bundles st bid = Some p"
    using assms(2) by (auto simp: GetBundleDescriptor_Inr)
  then show ?thesis using misc_onlyD [OF assms(1) bd(1)] by (metis GetBundleDescriptor_Inr)
qed

lemma GetDispatchable_iff:
  "p \<in> set (GetDispatchable order st) \<longleftrightarrow>
     (\<exists>bid \<in> set order. bst_bundles st bid = Some p \<and> (\<exists>bd. bst_heap st p = Some bd \<and> Dispatch bd))"
proof (induction order)
  case (Cons a order)
  then show ?case
    by (cases "bst_bundles st a"; cases "bst_heap st (the (bst_bundles st a))")
      (auto simp: GetDispatchable_def descriptors_def map_filter_simps)
qed (simp add: GetDispatchable_def descriptors_def map_filter_simps)

text \<open>Epidemic forwarding of a bundle that cannot be loaded.\<close>

lemma epidemic_unloadable:
  assumes "bst_heap (nd_store nd) p = Some bd" "\<not> bd_deleted bd" "dm_algorithm dm = EpidemicRouting"
    "filterPeers bd (GetSenders (nd_manager nd)) \<noteq> []" "load_bundle (dm_runtime dm) p (nd_store nd) = Inl e" "\<not> store_panic e"
  shows "forwardingAsync dm p nd = (Inr (), nd\<lparr>nd_store := set_heap p (forward_marked bd) (nd_store nd)\<rparr>)"
proof -
  let ?st1 = "set_heap p (forward_marked bd) (nd_store nd)"
  obtain st1 where m: "on_descriptor (AddConstraint ForwardPending) p (nd_store nd) = (Inr (), st1)"
    "on_descriptor (RemoveConstraint DispatchPending) p st1 = (Inr (), ?st1)"
    using mark_forwarding [OF assms(1,2)] .
  have "filterPeers (forward_marked bd) cs = filterPeers bd cs" for cs by (simp add: filterPeers_def GetKnownHolders_def)
  moreover have "load_bundle (dm_runtime dm) p ?st1 = Inl e"
    using load_bundle_cong [of "nd_store nd" p bd ?st1 "forward_marked bd"] assms(1,5) by simp
  ultimately show ?thesis unfolding forwardingAsync_def m(1) prod.case sum.case m(2)
    using assms(3,4,6) by (simp add: Let_def crash_def)
qed

section \<open>Examples\<close>

definition example_daemon :: "(string \<times> BundleMetadata) list daemon" where
  "example_daemon = \<lparr>dm_runtime = example_runtime, dm_algorithm = EpidemicRouting, dm_ownNodeID = Some (Ipn \<lparr>Node = 9, Service = 1\<rparr>),
     dm_send = (\<lambda>_. True), dm_schedule = (\<lambda>cs. cs), dm_io = example_env, dm_agents = [''REST'']\<rparr>"

definition example_node :: "(string \<times> BundleMetadata) list BundleStore \<Rightarrow> (string \<times> BundleMetadata) list Node" where
  "example_node st = \<lparr>nd_store = st, nd_manager = InitialiseCLAManager\<lparr>mgr_senders := [example_peer]\<rparr>,
     nd_agents = [''REST'' \<mapsto> snd (Bank_Register (pb_Destination example_primary) NewMailboxBank)], nd_sent = [], nd_forwarding = []\<rparr>"

lemma example_daemon_simps [simp]:
  "dm_runtime example_daemon = example_runtime" "dm_algorithm example_daemon = EpidemicRouting"
  "dm_send example_daemon = (\<lambda>_. True)" "dm_schedule example_daemon = (\<lambda>cs. cs)" "dm_io example_daemon = example_env"
  "dm_agents example_daemon = [''REST'']" "rt_badgerhold example_runtime = alist_db" "rt_cboring example_runtime = rfc8949"
  "nd_store (example_node st) = st" "nd_sent (example_node st) = []" "GetSenders (nd_manager (example_node st)) = [example_peer]"
  by (simp_all add: example_daemon_def example_node_def example_runtime_def GetSenders_def)

lemma example_filterPeers:
  "filterPeers (NewBundleDescriptor (new_metadata DtnNone b None)) [example_peer] = [example_peer]"
  by (simp add: new_descriptor_simps example_peer_def DtnNone_def)

text \<open>The example node forwards the bundle it holds to its peer.\<close>

lemma example_forwarding:
  obtains st nd' b bd where "store_inv map_of st" "bst_heap st 0 = Some bd" "\<not> bd_deleted bd"
    "forwardingAsync example_daemon 0 (example_node st) = (Inr (), nd')" "nd_sent nd' = [(example_peer, b)]"
proof -
  let ?bd = "NewBundleDescriptor (new_metadata DtnNone example_bundle None)"
  obtain st b where st: "store_inv map_of st" "bst_heap st 0 = Some ?bd" "load_bundle example_runtime 0 st = Inr b"
    "strip_crc b = strip_crc example_bundle"
    using example_holds [OF example_bundle_wf example_bundle_valid example_previous_node] by metis
  have n: "distinct (block_numbers b)" "length (block_numbers b) = 1"
    using strip_crc_numbers [OF st(4)] by (simp_all add: example_bundle_def block_numbers_def NewCanonicalBlock_def)
  then have "length (bndl_ExtensionBlocks b) < 2 ^ 64" by (simp add: block_numbers_def)
  then obtain b' where "replace_previous_node (dm_ownNodeID example_daemon) b = Inr b'"
    using replace_previous_node_total n(1) by blast
  then obtain nd' where "forwardingAsync example_daemon 0 (example_node st) = (Inr (), nd')" "nd_sent nd' = [(example_peer, b')]"
    using epidemic_forwarding [of "example_node st" 0 ?bd example_daemon b b'] st(2,3)
    by (auto simp: example_filterPeers new_descriptor_simps(3))
  then show thesis using that st(1,2) new_descriptor_simps(3) by blast
qed

section \<open>Correctness\<close>

text \<open>
  C7. A forwarding that returns keeps the store consistent, hands one and the same bundle to some of the
  connected peers that were not known to hold it, records exactly the peers it was sent to as new
  holders, and leaves no trace of the dispatching or forwarding constraint unless the bundle could not
  be loaded.
\<close>

theorem forwardingAsync_correct:
  assumes "badger D get" "store_inv get (nd_store nd)" "bst_heap (nd_store nd) p = Some bd" "\<not> bd_deleted bd"
    "dm_db dm = D" "forwardingAsync dm p nd = (Inr (), nd')" "\<And>cs. set (dm_schedule dm cs) = set cs"
  shows "\<exists>cs b bd'. store_inv get (nd_store nd') \<and> nd_sent nd' = nd_sent nd @ map (\<lambda>c. (c, b)) cs \<and>
    (\<forall>c \<in> set cs. c \<in> set (GetSenders (nd_manager nd)) \<and> cla_PeerEndpointID c \<notin> set (md_KnownHolders (bd_metadata bd))) \<and>
    bst_heap (nd_store nd') p = Some bd' \<and>
    md_KnownHolders (bd_metadata bd') = md_KnownHolders (bd_metadata bd) @ map cla_PeerEndpointID cs \<and>
    ((\<exists>e. load_bundle (dm_runtime dm) p (nd_store nd) = Inl e) \<or>
     set (bd_retentionConstraints bd') \<subseteq> set (bd_retentionConstraints bd) - {DispatchPending, ForwardPending})"
proof -
  obtain cs b bd' where e: "store_inv get (nd_store nd')" "nd_sent nd' = nd_sent nd @ map (\<lambda>c. (c, b)) cs"
    "\<forall>c \<in> set cs. c \<in> set (filterPeers bd (GetSenders (nd_manager nd))) \<and> dm_send dm c"
    "bst_heap (nd_store nd') p = Some bd'"
    "md_KnownHolders (bd_metadata bd') = md_KnownHolders (bd_metadata bd) @ map cla_PeerEndpointID cs"
    and c: "bd_retentionConstraints bd' = [] \<or>
     bd_retentionConstraints bd' = filter (\<lambda>c. c \<noteq> DispatchPending \<and> c \<noteq> ForwardPending) (bd_retentionConstraints bd) \<or>
     (bd_retentionConstraints bd' = forward_constraints bd \<and> cs = [] \<and> (\<exists>e. load_bundle (dm_runtime dm) p (nd_store nd) = Inl e))"
    by (rule badger.forwardingAsync_effect [OF assms])
  have holders: "\<forall>c \<in> set cs. c \<in> set (GetSenders (nd_manager nd)) \<and> cla_PeerEndpointID c \<notin> set (md_KnownHolders (bd_metadata bd))"
    using e(3) assms(4) by (simp add: set_filterPeers)
  have constraints: "(\<exists>e. load_bundle (dm_runtime dm) p (nd_store nd) = Inl e) \<or>
     set (bd_retentionConstraints bd') \<subseteq> set (bd_retentionConstraints bd) - {DispatchPending, ForwardPending}"
    using c by auto
  show ?thesis
    by (rule exI [of _ cs], rule exI [of _ b], rule exI [of _ bd'], intro conjI)
      (fact e(1), fact e(2), fact holders, fact e(4), fact e(5), fact constraints)
qed

theorem forwardingAsync_correct_witness:
  "\<exists>(st :: (string \<times> BundleMetadata) list BundleStore) nd' bd' b. nd_sent nd' = [(example_peer, b)] \<and>
     forwardingAsync example_daemon 0 (example_node st) = (Inr (), nd') \<and> store_inv map_of (nd_store nd') \<and>
     bst_heap (nd_store nd') 0 = Some bd' \<and> cla_PeerEndpointID example_peer \<in> set (md_KnownHolders (bd_metadata bd'))"
proof -
  obtain st nd' b bd where e: "store_inv map_of st" "bst_heap st 0 = Some bd" "\<not> bd_deleted bd"
    "forwardingAsync example_daemon 0 (example_node st) = (Inr (), nd')" "nd_sent nd' = [(example_peer, b)]" by (rule example_forwarding)
  obtain cs b2 bd' where "store_inv map_of (nd_store nd')" "nd_sent nd' = map (\<lambda>c. (c, b2)) cs" "bst_heap (nd_store nd') 0 = Some bd'"
    "md_KnownHolders (bd_metadata bd') = md_KnownHolders (bd_metadata bd) @ map cla_PeerEndpointID cs"
    using forwardingAsync_correct [OF alist.badger_axioms, of "example_node st" 0 bd example_daemon nd'] e(1-4) by auto
  then show ?thesis using e(4,5) by (intro exI conjI) auto
qed

text \<open>
  What is sent carries this node as the only previous node: all other extension blocks, the primary
  block and the payload are those of the stored bundle, and block numbers stay distinct.
\<close>

lemma replace_previous_node_correct:
  assumes "distinct (block_numbers b)" "length (bndl_ExtensionBlocks b) < 2 ^ 64"
    "\<not> HasExtensionBlock b BlockTypePreviousNodeBlock \<or> (\<exists>i. ExtensionBlockByType b BlockTypePreviousNodeBlock = Inr i)"
  shows "\<exists>b' no. replace_previous_node own b = Inr b' \<and> distinct (block_numbers b') \<and>
    set (bndl_ExtensionBlocks b') =
      insert (NewCanonicalBlock no 0 (PreviousNodeBlock own)) (without_type BlockTypePreviousNodeBlock b) \<and>
    bndl_PrimaryBlock b' = bndl_PrimaryBlock b \<and> bndl_PayloadBlock b' = bndl_PayloadBlock b"
  using replace_previous_node_total [OF assms(1,2), of own] replace_previous_node_blocks [OF _ assms, of own] by metis

text \<open>
  C20. Epidemic forwarding reaches everybody: if the bundle can be loaded and every transmission works, all
  connected peers that did not have the bundle have been sent it and are known holders afterwards.
\<close>

theorem epidemic_forwarding_reaches_all:
  assumes "badger D get" "store_inv get (nd_store nd)" "bst_heap (nd_store nd) p = Some bd" "\<not> bd_deleted bd"
    "dm_db dm = D" "dm_algorithm dm = EpidemicRouting" "\<And>c. dm_send dm c" "\<And>cs. set (dm_schedule dm cs) = set cs"
    "load_bundle (dm_runtime dm) p (nd_store nd) = Inr b" "replace_previous_node (dm_ownNodeID dm) b = Inr b'"
    "c \<in> set (GetSenders (nd_manager nd))" "cla_PeerEndpointID c \<notin> set (md_KnownHolders (bd_metadata bd))"
  shows "\<exists>nd' bd'. forwardingAsync dm p nd = (Inr (), nd') \<and> (c, b') \<in> set (nd_sent nd') \<and>
    bst_heap (nd_store nd') p = Some bd' \<and> cla_PeerEndpointID c \<in> set (md_KnownHolders (bd_metadata bd'))"
proof -
  let ?ps = "filterPeers bd (GetSenders (nd_manager nd))"
  have c: "c \<in> set ?ps" using assms(4,11,12) by (simp add: set_filterPeers)
  then have ne: "?ps \<noteq> []" by auto
  obtain nd' where nd': "forwardingAsync dm p nd = (Inr (), nd')"
    "nd_sent nd' = nd_sent nd @ map (\<lambda>c. (c, b')) (filter (dm_send dm) (dm_schedule dm ?ps))"
    using epidemic_forwarding [OF assms(3,4,6) ne assms(9,10)] by blast
  obtain cs b2 bd' where e: "nd_sent nd' = nd_sent nd @ map (\<lambda>c. (c, b2)) cs" "bst_heap (nd_store nd') p = Some bd'"
    "md_KnownHolders (bd_metadata bd') = md_KnownHolders (bd_metadata bd) @ map cla_PeerEndpointID cs"
    using badger.forwardingAsync_effect [OF assms(1-5) nd'(1) assms(8)] by metis
  have "map (\<lambda>c. (c, b2)) cs = map (\<lambda>c. (c, b')) (filter (dm_send dm) (dm_schedule dm ?ps))" using e(1) nd'(2) by simp
  then have "map fst (map (\<lambda>c. (c, b2)) cs) = map fst (map (\<lambda>c. (c, b')) (filter (dm_send dm) (dm_schedule dm ?ps)))" by simp
  then have cs: "cs = filter (dm_send dm) (dm_schedule dm ?ps)" by (simp add: comp_def)
  have "c \<in> set cs" unfolding cs using c assms(7,8) by simp
  then have "(c, b') \<in> set (nd_sent nd')" "cla_PeerEndpointID c \<in> set (md_KnownHolders (bd_metadata bd'))"
    using nd'(2) e(3) cs by auto
  then show ?thesis using nd'(1) e(2) by metis
qed

theorem epidemic_forwarding_reaches_all_witness:
  "\<exists>(st :: (string \<times> BundleMetadata) list BundleStore) nd' b. forwardingAsync example_daemon 0 (example_node st) = (Inr (), nd') \<and>
     (example_peer, b) \<in> set (nd_sent nd')"
proof -
  let ?bd = "NewBundleDescriptor (new_metadata DtnNone example_bundle None)"
  obtain st b where st: "store_inv map_of st" "bst_heap st 0 = Some ?bd" "load_bundle example_runtime 0 st = Inr b"
    "strip_crc b = strip_crc example_bundle"
    using example_holds [OF example_bundle_wf example_bundle_valid example_previous_node] by metis
  have n: "distinct (block_numbers b)" "length (block_numbers b) = 1"
    using strip_crc_numbers [OF st(4)] by (simp_all add: example_bundle_def block_numbers_def NewCanonicalBlock_def)
  then have "length (bndl_ExtensionBlocks b) < 2 ^ 64" by (simp add: block_numbers_def)
  then obtain b' where b': "replace_previous_node (dm_ownNodeID example_daemon) b = Inr b'"
    using replace_previous_node_total n(1) by blast
  have "cla_PeerEndpointID example_peer \<notin> set (md_KnownHolders (bd_metadata ?bd))"
    by (simp add: NewBundleDescriptor_def new_metadata_def Let_def example_peer_def DtnNone_def)
  then show ?thesis
    using epidemic_forwarding_reaches_all [OF alist.badger_axioms, of "example_node st" 0 ?bd example_daemon b b' example_peer]
      st b' new_descriptor_simps(3) by auto
qed

text \<open>
  C28. A bundle is not sent back: when a received bundle names its previous node and is forwarded next,
  nothing is sent to that node.
\<close>

theorem received_bundle_not_sent_back:
  assumes "badger D get" "store_inv get (nd_store nd)" "dm_db dm = D" "previous_node b = Inr (Some e)"
    "InsertBundle (rt_cboring (dm_runtime dm)) (dm_db dm) (dm_io dm) b (nd_store nd) = (Inr p, st)"
    "receiveAsync dm b new nd = (Inr (), nd1)" "forwardingAsync dm' p (nd1\<lparr>nd_manager := m\<rparr>) = (Inr (), nd2)"
    "dm_db dm' = D" "\<And>cs. set (dm_schedule dm' cs) = set cs"
  shows "\<exists>new. nd_sent nd2 = nd_sent nd @ new \<and> (\<forall>(c, b') \<in> set new. cla_PeerEndpointID c \<noteq> e)"
proof -
  obtain bd where bd: "bst_heap (nd_store nd1) p = Some bd" "e \<in> set (md_KnownHolders (bd_metadata bd))" "\<not> bd_deleted bd"
    "nd_sent nd1 = nd_sent nd" using receiveAsync_holder [OF assms(6,5,4)] by metis
  let ?nd = "nd1\<lparr>nd_manager := m\<rparr>"
  have h: "store_inv get (nd_store ?nd)" "bst_heap (nd_store ?nd) p = Some bd" 
    using badger.receiveAsync_inv [OF assms(1-3), of b new] assms(6) bd(1) by simp_all
  obtain cs b' where e: "nd_sent nd2 = nd_sent ?nd @ map (\<lambda>c. (c, b')) cs"
    "\<forall>c \<in> set cs. c \<in> set (filterPeers bd (GetSenders (nd_manager ?nd))) \<and> dm_send dm' c"
    using badger.forwardingAsync_effect [OF assms(1) h bd(3) assms(8,7,9)] by metis
  have "\<forall>c \<in> set cs. cla_PeerEndpointID c \<noteq> e" using e(2) bd(2,3) by (auto simp: set_filterPeers)
  then show ?thesis using e(1) bd(4) by (intro exI [of _ "map (\<lambda>c. (c, b')) cs"]) auto
qed

definition example_received :: Bundle where
  "example_received = example_bundle\<lparr>bndl_ExtensionBlocks := [NewCanonicalBlock 2 0 (PreviousNodeBlock (cla_PeerEndpointID example_peer))]\<rparr>"

lemma example_received_wf: "wf_bundle GetExtensionBlockManager example_received"
  by (simp add: example_wf_simps example_received_def example_peer_def)

theorem received_bundle_not_sent_back_witness:
  "\<exists>nd1 nd2. receiveAsync example_daemon example_received False (example_node example_store) = (Inr (), nd1) \<and>
     forwardingAsync example_daemon 0 nd1 = (Inr (), nd2) \<and> nd_sent nd2 = []"
proof -
  let ?e = "cla_PeerEndpointID example_peer" and ?nd = "example_node example_store"
  have v: "previous_node example_received = Inr (Some ?e)" "Bundle_CheckValid 0 example_received = Inr []" by code_simp+
  obtain p st where i: "InsertBundle rfc8949 alist_db example_env example_received example_store = (Inr p, st)"
    using alist.insert_load [OF rfc.cboring_lib_axioms example_store_inv example_received_wf example_fresh(1,2) v(1)
        example_fresh(3,4) v(2)] by blast
  let ?bd = "NewBundleDescriptor (new_metadata DtnNone example_received (Some ?e))"
  have p: "p = 0" "bst_heap st 0 = Some ?bd"
    using i v(1) by (auto simp: InsertBundle_def insertNewBundleUnsafe_def example_store_def Let_def alist_db_def
        example_env_def split: sum.splits prod.splits)
  obtain nd1 where r: "receiveAsync example_daemon example_received False ?nd = (Inr (), nd1)" "nd_store nd1 = st"
    "nd_manager nd1 = nd_manager ?nd"
    using receiveAsync_epidemic [of example_daemon example_received ?nd p st ?bd False] i p
    by (auto simp: BundleForwarding_def)
  have "filterPeers ?bd (GetSenders (nd_manager nd1)) = []"
    using r(3) by (simp add: filterPeers_def GetKnownHolders_def NewBundleDescriptor_def new_metadata_def Let_def)
  then obtain nd2 where f: "forwardingAsync example_daemon 0 nd1 = (Inr (), nd2)"
    using epidemic_no_peer [of nd1 0 ?bd example_daemon] r(2) p(2) new_descriptor_simps(3) by auto
  have "\<exists>new. nd_sent nd2 = nd_sent ?nd @ new \<and> (\<forall>(c, b') \<in> set new. cla_PeerEndpointID c \<noteq> ?e)"
    by (rule received_bundle_not_sent_back [OF alist.badger_axioms, of ?nd example_daemon example_received ?e p st False nd1
          example_daemon "nd_manager nd1" nd2])
      (use example_store_inv v(1) i r(1) f p(1) in simp_all)
  moreover have "nd_sent nd2 = []"
    using f epidemic_no_peer [of nd1 0 ?bd example_daemon] r p(2) new_descriptor_simps(3) \<open>filterPeers ?bd (GetSenders (nd_manager nd1)) = []\<close>
      receiveAsync_epidemic [of example_daemon example_received ?nd p st ?bd False] i p(1)
    by (auto simp: bundleContraindicated_def BundleForwarding_def)
  ultimately show ?thesis using r(1) f by blast
qed

text \<open>Rounds of garbage collection at any times leave a bundle alone that is waiting to be forwarded.\<close>

lemma gc_rounds_keep:
  assumes "badger D get" "store_inv get st" "bst_bundles st bid = Some p" "bst_heap st p = Some bd" "bd_retentionConstraints bd \<noteq> []"
  shows "bst_heap (fold (\<lambda>(now, order). GarbageCollect now order) rounds st) p = Some bd"
  using assms(2-4)
proof (induction rounds arbitrary: st)
  case (Cons r rounds)
  obtain now order where r: "r = (now, order)" by (cases r)
  have "gc_descriptor now bd = bd" using assms(5) by (simp add: gc_descriptor_def collected_def)
  then have "bst_heap (GarbageCollect now order st) p = Some bd" "bst_bundles (GarbageCollect now order st) bid = Some p"
    using badger.GarbageCollect_heap [OF assms(1) Cons.prems, of now order] Cons.prems(2) by simp_all
  then show ?case using Cons.IH [OF badger.GarbageCollect_inv [OF assms(1) Cons.prems(1)]] r by simp
qed simp

text \<open>
  C38. With epidemic routing, forwarding a bundle that cannot be loaded although there is a peer to send it to leaves it stuck until
  the next start: nothing is sent and the forwarding constraint stays, so that however many garbage collections run, at
  whatever times, its descriptor stays as it is and dispatching does not select it. Only a restart, which gives
  every bundle in the database a new descriptor, makes it dispatchable again. (Without an eligible peer the bundle is not loaded
  and its constraints are reset.)
\<close>

theorem forwarding_load_failure_stuck:
  assumes "badger D get" "store_inv get (nd_store nd)" "bst_heap (nd_store nd) p = Some bd" "\<not> bd_deleted bd" "dm_db dm = D"
    "dm_algorithm dm = EpidemicRouting" "filterPeers bd (GetSenders (nd_manager nd)) \<noteq> []"
    "load_bundle (dm_runtime dm) p (nd_store nd) = Inl e" "\<not> store_panic e"
  shows "\<exists>nd' bd'. forwardingAsync dm p nd = (Inr (), nd') \<and> nd_sent nd' = nd_sent nd \<and>
    ForwardPending \<in> set (bd_retentionConstraints bd') \<and>
    (\<forall>rounds order. let st = fold (\<lambda>(now, order). GarbageCollect now order) rounds (nd_store nd')
       in bst_heap st p = Some bd' \<and> p \<notin> set (GetDispatchable order st)) \<and>
    (\<exists>st' p'. InitialiseStore D n (bst_metadataStore (nd_store nd')) (bst_files (nd_store nd')) = Inr st' \<and>
       GetBundleDescriptor (bd_ID bd) st' = Inr p' \<and> (\<forall>order. bd_ID bd \<in> set order \<longrightarrow> p' \<in> set (GetDispatchable order st')))"
proof -
  let ?st1 = "set_heap p (forward_marked bd) (nd_store nd)"
  have inv: "store_inv get ?st1" using badger.mark_forwarding_inv [OF assms(1-4)] .
  have heap: "bst_heap ?st1 p = Some (forward_marked bd)" by simp
  have fc: "ForwardPending \<in> set (forward_constraints bd)" by (simp add: forward_constraints_def)
  then have cs: "bd_retentionConstraints (forward_marked bd) \<noteq> []" by auto
  have map: "bst_bundles ?st1 (bd_ID bd) = Some p"
    using inv_heapD(4) [of ?st1 p "forward_marked bd"] inv heap assms(4) by (simp add: store_inv_def)
  have stay: "bst_heap (fold (\<lambda>(now, order). GarbageCollect now order) rounds ?st1) p = Some (forward_marked bd)" for rounds
    by (rule gc_rounds_keep [OF assms(1) inv map heap cs])
  then have "p \<notin> set (GetDispatchable order (fold (\<lambda>(now, order). GarbageCollect now order) rounds ?st1))" for order rounds
    by (auto simp: GetDispatchable_iff Dispatch_def forward_marked_def)
  moreover obtain st' where st': "InitialiseStore D n (bst_metadataStore ?st1) (bst_files ?st1) = Inr st'"
    using badger.InitialiseStore_succeeds [OF assms(1)] by blast
  obtain p' where p': "GetBundleDescriptor (bd_ID bd) st' = Inr p'"
    "bst_heap st' p' = Some (NewBundleDescriptor (bd_metadata (forward_marked bd)))"
    using badger.restart_keeps [OF assms(1) inv map heap st'] by blast
  moreover have "p' \<in> set (GetDispatchable order st')" if "bd_ID bd \<in> set order" for order
    using that p' by (auto simp: GetDispatchable_iff GetBundleDescriptor_Inr Dispatch_def NewBundleDescriptor_def)
  ultimately show ?thesis using epidemic_unloadable [OF assms(3,4,6-9)] fc stay st'
    by (intro exI [of _ "nd\<lparr>nd_store := ?st1\<rparr>"] exI [of _ "forward_marked bd"]) (auto simp: Let_def)
qed

theorem forwarding_load_failure_stuck_witness:
  "\<exists>(st :: (string \<times> BundleMetadata) list BundleStore) nd' bd'. forwardingAsync example_daemon 0 (example_node st) = (Inr (), nd') \<and>
     ForwardPending \<in> set (bd_retentionConstraints bd') \<and>
     bst_heap (GarbageCollect 2000000000000000000 [Bundle_ID example_bundle] (nd_store nd')) 0 = Some bd'"
proof -
  let ?bd = "NewBundleDescriptor (new_metadata DtnNone example_bundle None)"
  obtain st0 where st0: "store_inv map_of st0" "bst_heap st0 0 = Some ?bd"
    using example_holds [OF example_bundle_wf example_bundle_valid example_previous_node] by metis
  let ?st = "st0\<lparr>bst_files := Map.empty\<rparr>"
  have inv: "store_inv map_of ?st" using st0(1) by (intro alist.store_inv_cong [OF st0(1)]) (simp_all add: store_inv_def)
  have load: "load_bundle example_runtime 0 ?st = Inl (OtherError (Errorf ''no such file''))"
    using st0(2) new_descriptor_simps(3) by (simp add: load_bundle_def Load_def loadEntireBundle_def)
  obtain nd' bd' where "forwardingAsync example_daemon 0 (example_node ?st) = (Inr (), nd')"
    "ForwardPending \<in> set (bd_retentionConstraints bd')"
    and stay: "\<forall>rounds order. let st = fold (\<lambda>(now, order). GarbageCollect now order) rounds (nd_store nd')
       in bst_heap st 0 = Some bd' \<and> 0 \<notin> set (GetDispatchable order st)"
    using forwarding_load_failure_stuck [OF alist.badger_axioms, of "example_node ?st" 0 ?bd example_daemon
        "OtherError (Errorf ''no such file'')" DtnNone] st0(2) inv load new_descriptor_simps(3) example_filterPeers
    by (simp add: store_panic_def) blast
  moreover have "bst_heap (GarbageCollect 2000000000000000000 [Bundle_ID example_bundle] (nd_store nd')) 0 = Some bd'"
    using stay [rule_format, of "[(2000000000000000000, [Bundle_ID example_bundle])]"] by (simp add: Let_def)
  ultimately show ?thesis by blast
qed

lemma receive_delivered:
  assumes "cboring_lib (rt_cboring (dm_runtime dm))" "badger (dm_db dm) get" "store_inv get (nd_store nd)"
    "wf_bundle (rt_ebm (dm_runtime dm)) b" "bst_bundles (nd_store nd) (Bundle_ID b) = None"
    "get (bst_metadataStore (nd_store nd)) (Bundle_String b) = None" "previous_node b = Inr prev"
    "create_ok (dm_io dm)" "flush_ok (dm_io dm)" "Bundle_CheckValid (rt_now (dm_runtime dm)) b = Inr errs"
    "receiveAsync dm b new nd = (Inr (), nd')" "distinct (dm_agents dm)" "n \<in> set (dm_agents dm)" "nd_agents nd n = Some bank"
    "GetMailbox (pb_Destination (bndl_PrimaryBlock b)) bank = Inr m" "m (Bundle_ID b) = None"
  shows "\<exists>bank' m' b'. nd_agents nd' n = Some bank' \<and>
    GetMailbox (pb_Destination (bndl_PrimaryBlock b)) bank' = Inr m' \<and> m' (Bundle_ID b) = Some False \<and>
    Mailbox_Get (dm_runtime dm) (Bundle_ID b) True (nd_store nd') m' = (Inr b', m'(Bundle_ID b := None)) \<and>
    strip_crc b' = strip_crc b \<and> m' = m(Bundle_ID b \<mapsto> False)"
proof -
  let ?rt = "dm_runtime dm"
  obtain p st b' where i: "InsertBundle (rt_cboring ?rt) (dm_db dm) (dm_io dm) b (nd_store nd) = (Inr p, st)"
    "GetBundleDescriptor (Bundle_ID b) st = Inr p" "Load (rt_cboring ?rt) (rt_ebm ?rt) (rt_now ?rt) p st = Inr (Some b')"
    "strip_crc b' = strip_crc b"
    using badger.insert_load [OF assms(2,1,3-10)] by blast
  have hp: "bst_heap st p = Some (NewBundleDescriptor (new_metadata (bst_nodeID (nd_store nd)) b prev))" (is "_ = Some ?bd")
    using i(1) assms(5,7-9) by (auto simp: InsertBundle_def insertNewBundleUnsafe_def Let_def split: sum.splits prod.splits if_splits)
  have bd: "bd_ID ?bd = Bundle_ID b" "md_Destination (bd_metadata ?bd) = pb_Destination (bndl_PrimaryBlock b)" "\<not> bd_deleted ?bd"
    by (simp_all add: bd_ID_def NewBundleDescriptor_def new_metadata_def Let_def)
  let ?n = "if new then NotifyNewBundle (dm_db dm) (dm_algorithm dm) p b st else NotifyReceivedBundle (dm_db dm) (dm_algorithm dm) p b st"
  have ms: "misc_only p st (snd ?n)" using notify_misc [OF hp] by simp
  have nd': "nd_store nd' = snd ?n \<and> nd_agents nd' = Delivery (dm_agents dm) ?bd st (nd_agents nd)"
    using assms(11) i(1) hp by (auto simp: receiveAsync_def BundleForwarding_def Let_def simp del: NotifyNewBundle.simps NotifyReceivedBundle.simps
        split: prod.splits sum.splits option.splits if_splits)
  have "nd_agents nd' n = Some (delivered (pb_Destination (bndl_PrimaryBlock b)) (Bundle_ID b) bank)"
    using nd' Delivery_stored [of ?bd st p "dm_agents dm" "nd_agents nd" n] bd i(2) assms(12-14) by simp
  moreover have "GetMailbox (pb_Destination (bndl_PrimaryBlock b)) (delivered (pb_Destination (bndl_PrimaryBlock b)) (Bundle_ID b) bank) =
      Inr (m(Bundle_ID b \<mapsto> False))"
    using assms(15,16) by (auto simp: delivered_def GetMailbox_def split: option.splits)
  moreover have "load_message ?rt (Bundle_ID b) (nd_store nd') = Inr b'"
    using misc_only_lookup [OF ms i(2)] load_bundle_misc [OF ms, of ?rt] nd' i(3) by (simp add: load_message_def load_bundle_def)
  ultimately show ?thesis using i(4) by (auto simp: Mailbox_Get_def)
qed

text \<open>
  C8. End to end on one node: a well-formed bundle that is received, is new, and is addressed to an
  endpoint some agent has registered can be retrieved from the agent's mailbox, unread, and is the bundle
  that was received, up to checksums.
\<close>

theorem received_bundle_retrievable:
  assumes "cboring_lib (rt_cboring (dm_runtime dm))" "badger (dm_db dm) get" "store_inv get (nd_store nd)"
    "wf_bundle (rt_ebm (dm_runtime dm)) b" "bst_bundles (nd_store nd) (Bundle_ID b) = None"
    "get (bst_metadataStore (nd_store nd)) (Bundle_String b) = None" "previous_node b = Inr prev"
    "create_ok (dm_io dm)" "flush_ok (dm_io dm)" "Bundle_CheckValid (rt_now (dm_runtime dm)) b = Inr errs"
    "receiveAsync dm b new nd = (Inr (), nd')" "distinct (dm_agents dm)" "n \<in> set (dm_agents dm)" "nd_agents nd n = Some bank"
    "GetMailbox (pb_Destination (bndl_PrimaryBlock b)) bank = Inr m" "m (Bundle_ID b) = None"
  shows "\<exists>bank' m' b'. nd_agents nd' n = Some bank' \<and>
    GetMailbox (pb_Destination (bndl_PrimaryBlock b)) bank' = Inr m' \<and> m' (Bundle_ID b) = Some False \<and>
    Mailbox_Get (dm_runtime dm) (Bundle_ID b) True (nd_store nd') m' = (Inr b', m'(Bundle_ID b := None)) \<and>
    strip_crc b' = strip_crc b"
  using receive_delivered [OF assms] by blast

theorem received_bundle_retrievable_witness:
  "\<exists>nd' bank' m' b'. receiveAsync example_daemon example_bundle False (example_node example_store) = (Inr (), nd') \<and>
     nd_agents nd' ''REST'' = Some bank' \<and> GetMailbox (pb_Destination example_primary) bank' = Inr m' \<and>
     fst (Mailbox_Get example_runtime (Bundle_ID example_bundle) True (nd_store nd') m') = Inr b' \<and> strip_crc b' = strip_crc example_bundle"
proof -
  let ?nd = "example_node example_store" and ?bd = "NewBundleDescriptor (new_metadata DtnNone example_bundle None)"
  obtain st where i: "InsertBundle rfc8949 alist_db example_env example_bundle example_store = (Inr 0, st)" "bst_heap st 0 = Some ?bd"
    using example_inserted by metis
  obtain nd' where r: "receiveAsync example_daemon example_bundle False ?nd = (Inr (), nd')"
    using receiveAsync_epidemic [of example_daemon example_bundle ?nd 0 st ?bd False] i by auto
  have rt: "rt_ebm example_runtime = GetExtensionBlockManager" "rt_now example_runtime = 0" by (simp_all add: example_runtime_def)
  let ?bank = "snd (Bank_Register (pb_Destination example_primary) NewMailboxBank)"
  have a: "nd_agents ?nd ''REST'' = Some ?bank" "GetMailbox (pb_Destination example_primary) ?bank = Inr Map.empty"
    "bndl_PrimaryBlock example_bundle = example_primary"
    by (simp_all add: example_node_def GetMailbox_def Bank_Register_def NewMailboxBank_def NewMailbox_def example_bundle_def)
  have "\<exists>bank' m' b'. nd_agents nd' ''REST'' = Some bank' \<and>
    GetMailbox (pb_Destination (bndl_PrimaryBlock example_bundle)) bank' = Inr m' \<and> m' (Bundle_ID example_bundle) = Some False \<and>
    Mailbox_Get (dm_runtime example_daemon) (Bundle_ID example_bundle) True (nd_store nd') m' = (Inr b', m'(Bundle_ID example_bundle := None)) \<and>
    strip_crc b' = strip_crc example_bundle"
    by (rule received_bundle_retrievable [where get = map_of and nd = ?nd and bank = ?bank and m = Map.empty and prev = None and errs = "[]" and new = False])
      (use r a rt rfc.cboring_lib_axioms alist.badger_axioms example_store_inv example_bundle_wf example_fresh example_previous_node
        example_bundle_valid in simp_all)
  then show ?thesis using r a(3) by auto
qed

end
