(* ===== verification/Agents.thy ===== *)
theory Agents
  imports Processing Builder
begin

text \<open>
  What the three application agents share (\<open>pkg/application_agent/agent_manager.go\<close>, \<open>agent.go\<close>, and the
  connection handlers of \<open>unix_agent.go\<close> and \<open>rec_agent.go\<close>): sending a new bundle through the manager,
  the list of local endpoints, access to mailboxes through the bank, and the framing of messages on a
  UNIX socket. A handler runs on decoded messages; the texts of the errors in a reply are kept as the
  error values they are made from.
\<close>

section \<open>The manager\<close>

text \<open>\<open>Send\<close>: the sequence number is assigned, the callback gets the bundle, its identifier is returned.\<close>

definition Send :: "Bundle \<Rightarrow> IdKeeper \<Rightarrow> BundleID \<times> Bundle \<times> IdKeeper" where
  "Send bndl idKeeper = (case IdKeeper_Update idKeeper bndl of (idKeeper, bndl) \<Rightarrow> (Bundle_ID bndl, bndl, idKeeper))"

definition GetEndpoints :: "string list \<Rightarrow> (string \<rightharpoonup> EndpointID list) \<Rightarrow> EndpointID list" where
  "GetEndpoints order endpoints =
     concat (map (\<lambda>name. case endpoints name of None \<Rightarrow> [] | Some eids \<Rightarrow> eids) order)"

definition bagContainsEndpoint :: "EndpointID list \<Rightarrow> EndpointID list \<Rightarrow> bool" where
  "bagContainsEndpoint bag eids \<longleftrightarrow> list_ex (\<lambda>eid. eid \<in> set eids) bag"

section \<open>Replies\<close>

datatype reply_err =
    DecodeError err
  | EndpointError err
  | BundleIDError err
  | BuildError err
  | MailboxError agent_err
  | UuidError err
  | TextError string

text \<open>A panic of the store while a bundle is loaded is not a reply: it ends the handler.\<close>

definition agent_panic :: "agent_err \<Rightarrow> bool" where
  "agent_panic e = (case e of StoreError e \<Rightarrow> store_panic e | _ \<Rightarrow> False)"

definition set_mailbox :: "EndpointID \<Rightarrow> Mailbox \<Rightarrow> MailboxBank \<Rightarrow> MailboxBank" where
  "set_mailbox eid mailbox bank = bank\<lparr>bank_mailboxes := (bank_mailboxes bank)(eid \<mapsto> mailbox)\<rparr>"

text \<open>Run an operation on the mailbox of an endpoint; the bank refers to the changed mailbox afterwards.\<close>

definition with_mailbox :: "EndpointID \<Rightarrow> (Mailbox \<Rightarrow> (agent_err + 'a) \<times> Mailbox) \<Rightarrow> MailboxBank \<Rightarrow> (agent_err + 'a) \<times> MailboxBank" where
  "with_mailbox eid f bank =
     (case GetMailbox eid bank of
        Inl e \<Rightarrow> (Inl e, bank)
      | Inr mailbox \<Rightarrow> (case f mailbox of (r, mailbox') \<Rightarrow> (r, set_mailbox eid mailbox' bank)))"

text \<open>\<open>GetAll\<close> and \<open>GetNew\<close> as the agents use them: with an error the bundles are dropped.\<close>

definition fetch_all ::
    "'db runtime \<Rightarrow> bool \<Rightarrow> bool \<Rightarrow> BundleID list \<Rightarrow> 'db BundleStore \<Rightarrow> Mailbox \<Rightarrow> (agent_err + Bundle list) \<times> Mailbox" where
  "fetch_all rt new remove order st mailbox =
     (case (if new then Mailbox_GetNew rt remove order st mailbox else Mailbox_GetAll rt remove order st mailbox) of
        ((bundles, None), mailbox) \<Rightarrow> (Inr bundles, mailbox)
      | ((bundles, Some e), mailbox) \<Rightarrow> (Inl e, mailbox))"

section \<open>Messages on a socket\<close>

text \<open>
  \<open>handleConnection\<close> before and after its switch: eight bytes of length, the message, and a reply with its
  length. \<open>make\<close> of a byte slice above the address space of \<open>2^48\<close> bytes panics. \<open>Inr None\<close> is a
  connection that is given up without a reply.
\<close>

definition read_message :: "bytes \<Rightarrow> bytes option res" where
  "read_message input =
     (if length input < 8 then Inr None
      else let msgLen = unbe (take 8 input); rest = drop 8 input
           in if 281474976710656 < msgLen then Inl (Panic ''makeslice: len out of range'')
              else if int (length rest) < msgLen then Inr None
              else Inr (Some (take (nat msgLen) rest)))"

definition write_message :: "bytes \<Rightarrow> bytes" where
  "write_message reply = be 8 (int (length reply)) @ reply"

section \<open>Properties\<close>

lemma unbe_8_bounds: "unbe bs < 256 ^ length bs \<and> 0 \<le> unbe bs"
proof (induction bs rule: rev_induct)
  case (snoc b bs)
  have "uint b < 256" "0 \<le> uint b" using unsigned_less [of b] by (simp_all)
  then show ?case using snoc by (auto simp: unbe_snoc)
qed (simp add: unbe_def)

lemma read_write_message:
  assumes "length reply \<le> 281474976710656"
  shows "read_message (write_message reply @ rest) = Inr (Some reply)"
proof -
  have "int (length reply) \<le> 281474976710656" using assms by linarith
  then have "unbe (be 8 (int (length reply))) = int (length reply)" by (intro unbe_be) simp_all
  then show ?thesis using assms by (simp add: read_message_def write_message_def Let_def)
qed

lemma read_message_panics:
  assumes "281474976710656 < unbe (take 8 input)" "8 \<le> length input"
  shows "read_message input = Inl (Panic ''makeslice: len out of range'')"
  using assms by (simp add: read_message_def)

lemma bank_inv_set_mailbox: "bank_inv bank \<Longrightarrow> GetMailbox eid bank = Inr m \<Longrightarrow> bank_inv (set_mailbox eid m' bank)"
  by (auto simp: bank_inv_def set_mailbox_def GetMailbox_def split: option.splits)

lemma with_mailbox_inv: "bank_inv bank \<Longrightarrow> bank_inv (snd (with_mailbox eid f bank))"
  by (auto simp: with_mailbox_def bank_inv_set_mailbox split: sum.split prod.split)

lemma register_inv:
  "bank_inv bank \<Longrightarrow> bank_inv (snd (Bank_Register eid bank))"
  "bank_inv bank \<Longrightarrow> bank_inv (snd (Bank_Unregister eid bank))"
  by (auto simp: bank_inv_def Bank_Register_def Bank_Unregister_def)

text \<open>Fetching and removing: all messages come back and the mailbox is empty, when each can be loaded.\<close>

lemma fetch_all_complete:
  assumes "distinct order" "dom mailbox \<subseteq> set order" "\<And>bid. bid \<in> dom mailbox \<Longrightarrow> \<exists>b. load_message rt bid st = Inr b"
  shows "fetch_all rt False True order st mailbox =
    (Inr (map (\<lambda>bid. projr (load_message rt bid st)) (Mailbox_List order mailbox)), Map.empty)"
proof -
  let ?o = "Mailbox_List order mailbox"
  have "Mailbox_GetAll rt True order st mailbox = Mailbox_GetAll rt True ?o st mailbox"
    by (simp add: Mailbox_GetAll_def get_messages_def Mailbox_List_def)
  moreover have "distinct ?o" "dom mailbox = set ?o" using assms(1,2) by (auto simp: Mailbox_List_def)
  then have "Mailbox_GetAll rt True ?o st mailbox = ((map (\<lambda>bid. projr (load_message rt bid st)) ?o, None), Map.empty)"
    using get_all_complete [of ?o mailbox rt st True] assms(3) by auto
  ultimately show ?thesis by (simp add: fetch_all_def)
qed

lemma fetch_all_empty: "fetch_all rt new True order st Map.empty = (Inr [], Map.empty)"
  by (simp add: fetch_all_def Mailbox_GetAll_def Mailbox_GetNew_def get_messages_def Mailbox_List_def)

lemma fetch_new_one:
  assumes "mailbox = [bid \<mapsto> False]" "load_message rt bid st = Inr b"
  shows "fst (fetch_all rt True remove [bid] st mailbox) = Inr [b]"
  using assms by (auto simp: fetch_all_def Mailbox_GetNew_def get_messages_def Mailbox_List_def load_message_def
      split: sum.splits)

lemma with_mailbox_found:
  "GetMailbox eid bank = Inr m \<Longrightarrow> f m = (r, m') \<Longrightarrow> with_mailbox eid f bank = (r, set_mailbox eid m' bank)"
  by (simp add: with_mailbox_def)

lemma GetMailbox_set [simp]:
  "GetMailbox eid (set_mailbox eid' m bank) = (if eid = eid' then Inr m else GetMailbox eid bank)"
  by (simp add: GetMailbox_def set_mailbox_def)

text \<open>Bundles that differ in checksums only carry the same payload and identifiers.\<close>

lemma strip_crc_content:
  assumes "strip_crc b' = strip_crc b"
  shows "Bundle_Payload b' = Bundle_Payload b" "Bundle_ID b' = Bundle_ID b"
    "pb_SourceNode (bndl_PrimaryBlock b') = pb_SourceNode (bndl_PrimaryBlock b)"
    "pb_Destination (bndl_PrimaryBlock b') = pb_Destination (bndl_PrimaryBlock b)"
proof -
  have "Bundle_Payload (strip_crc b) = Bundle_Payload b \<and> Bundle_ID (strip_crc b) = Bundle_ID b \<and>
      pb_SourceNode (bndl_PrimaryBlock (strip_crc b)) = pb_SourceNode (bndl_PrimaryBlock b) \<and>
      pb_Destination (bndl_PrimaryBlock (strip_crc b)) = pb_Destination (bndl_PrimaryBlock b)" for b
    by (auto simp: Bundle_Payload_def strip_crc_def Bundle_ID_def split: option.split ExtensionBlock.split)
  then show "Bundle_Payload b' = Bundle_Payload b" "Bundle_ID b' = Bundle_ID b"
    "pb_SourceNode (bndl_PrimaryBlock b') = pb_SourceNode (bndl_PrimaryBlock b)"
    "pb_Destination (bndl_PrimaryBlock b') = pb_Destination (bndl_PrimaryBlock b)"
    using assms by metis+
qed

subsection \<open>Numbering keeps a bundle well-formed and valid\<close>

lemma set_sequence_bundle [simp]:
  "bndl_ExtensionBlocks (set_sequence n b) = bndl_ExtensionBlocks b" "bndl_PayloadBlock (set_sequence n b) = bndl_PayloadBlock b"
  "pb_Destination (bndl_PrimaryBlock (set_sequence n b)) = pb_Destination (bndl_PrimaryBlock b)"
  "pb_SourceNode (bndl_PrimaryBlock (set_sequence n b)) = pb_SourceNode (bndl_PrimaryBlock b)"
  "Bundle_Payload (set_sequence n b) = Bundle_Payload b"
  by (simp_all add: set_sequence_def Bundle_Payload_def)

lemma wf_set_sequence [simp]: "wf_bundle ebm (set_sequence n b) = wf_bundle ebm b"
  by (simp add: wf_bundle_def set_sequence_def wf_primary_def PrimaryBlock_HasFragmentation_def PrimaryBlock_HasCRC_def)

lemma ExtensionBlockByType_sequence [simp]:
  "ExtensionBlockByType (set_sequence n b) t = ExtensionBlockByType b t"
  "HasExtensionBlock (set_sequence n b) t = HasExtensionBlock b t"
  by (simp_all add: ExtensionBlockByType_def HasExtensionBlock_def ExtensionBlocksByType_def)

lemma check_blocks_sequence [simp]: "check_blocks (set_sequence n b) S is = check_blocks b S is"
proof (induction "is" arbitrary: S)
  case (Cons i "is")
  have "CheckContextValid (set_sequence n b) i = CheckContextValid b i"
    by (simp add: CheckContextValid_def unique_context_def split: ExtensionBlock.split)
  then show ?case using Cons by (simp add: Let_def)
qed simp

lemma valid_set_sequence [simp]: "Bundle_CheckValid now (set_sequence n b) = Bundle_CheckValid now b"
proof -
  have "IsLifetimeExceeded now (set_sequence n b) = IsLifetimeExceeded now b"
    by (simp add: IsLifetimeExceeded_def Let_def split: sum.split ExtensionBlock.split)
       (simp add: set_sequence_def IsZeroTime_def CreationTimestamp_DtnTime_def)
  moreover have "PrimaryBlock_CheckValid (bndl_PrimaryBlock (set_sequence n b)) = PrimaryBlock_CheckValid (bndl_PrimaryBlock b)"
    "IsZeroTime (pb_CreationTimestamp (bndl_PrimaryBlock (set_sequence n b))) = IsZeroTime (pb_CreationTimestamp (bndl_PrimaryBlock b))"
    by (simp_all add: set_sequence_def PrimaryBlock_CheckValid_def IsZeroTime_def CreationTimestamp_DtnTime_def)
  ultimately show ?thesis unfolding Bundle_CheckValid_def by (cases "bndl_PayloadBlock b") simp_all
qed

lemma Send_sequence: "Send b idk = (bid, b', idk') \<Longrightarrow> bid = Bundle_ID b' \<and> (\<exists>n. b' = set_sequence n b)"
  by (auto simp: Send_def IdKeeper_Update_def Let_def)

lemma wf_payload:
  assumes "wf_bundle GetExtensionBlockManager b"
  shows "\<exists>payload. Bundle_Payload b = Inr payload"
proof -
  obtain cb where cb: "bndl_PayloadBlock b = Some cb" "wf_ext GetExtensionBlockManager (cb_Value cb)" "TypeCode cb = BlockTypePayloadBlock"
    using assms unfolding wf_bundle_def wf_canonical_def by blast
  then have "kind_of (cb_Value cb) = KPayload" by (auto simp: wf_ext_def TypeCode_def split: if_splits)
  then show ?thesis using cb(1) by (cases "cb_Value cb") (simp_all add: Bundle_Payload_def)
qed

end
