(* ===== verification/Unix_Agent.thy ===== *)
theory Unix_Agent
  imports Agents
begin

text \<open>
  The agent on a UNIX socket (\<open>pkg/application_agent/unix_agent/unix_agent.go\<close>, \<open>messages.go\<close>): its request
  handlers and the handling of a connection. The msgpack coding of messages is third-party code and a
  parameter, the record \<open>unix_msgpack\<close>.
\<close>

section \<open>Messages\<close>

definition MsgTypeRegisterEID :: u8 where "MsgTypeRegisterEID = 2"
definition MsgTypeUnregisterEID :: u8 where "MsgTypeUnregisterEID = 3"
definition MsgTypeBundleCreate :: u8 where "MsgTypeBundleCreate = 4"
definition MsgTypeListBundles :: u8 where "MsgTypeListBundles = 6"
definition MsgTypeFetchBundle :: u8 where "MsgTypeFetchBundle = 8"
definition MsgTypeFetchAllBundles :: u8 where "MsgTypeFetchAllBundles = 10"

lemmas msg_type_defs = MsgTypeRegisterEID_def MsgTypeUnregisterEID_def MsgTypeBundleCreate_def MsgTypeListBundles_def
  MsgTypeFetchBundle_def MsgTypeFetchAllBundles_def

record BundleContent =
  bc_BundleID :: string
  bc_SourceID :: string
  bc_DestinationID :: string
  bc_Payload :: bytes

definition empty_content :: BundleContent where
  "empty_content = \<lparr>bc_BundleID = [], bc_SourceID = [], bc_DestinationID = [], bc_Payload = []\<rparr>"

datatype unix_reply =
    GeneralResponse "reply_err option"
  | BundleCreateResponse "reply_err option" string
  | ListResponse "reply_err option" "string list"
  | FetchBundleResponse "reply_err option" BundleContent
  | FetchAllBundlesResponse "reply_err option" "BundleContent list"

record unix_msgpack =
  um_type :: "bytes \<Rightarrow> u8 res"
  um_register :: "bytes \<Rightarrow> string res"
  um_create :: "bytes \<Rightarrow> (string \<times> arg) list res"
  um_list :: "bytes \<Rightarrow> (string \<times> bool) res"
  um_fetch :: "bytes \<Rightarrow> (string \<times> string \<times> bool) res"
  um_fetchAll :: "bytes \<Rightarrow> (string \<times> bool \<times> bool) res"
  um_marshal :: "unix_reply \<Rightarrow> bytes res"

section \<open>Handlers\<close>

definition handleRegisterUnregister :: "string \<Rightarrow> bool \<Rightarrow> MailboxBank \<Rightarrow> unix_reply \<times> MailboxBank" where
  "handleRegisterUnregister endpointID register bank =
     (case NewEndpointID endpointID of
        Inl e \<Rightarrow> (GeneralResponse (Some (EndpointError e)), bank)
      | Inr eid \<Rightarrow> (case (if register then Bank_Register eid bank else Bank_Unregister eid bank) of
          ([], bank) \<Rightarrow> (GeneralResponse None, bank)
        | (e # _, bank) \<Rightarrow> (GeneralResponse (Some (MailboxError e)), bank)))"

definition handleBundleCreate ::
    "cboring \<Rightarrow> (u64 \<Rightarrow> u64) \<Rightarrow> time \<Rightarrow> (string \<times> arg) list \<Rightarrow> IdKeeper \<Rightarrow> (unix_reply \<times> Bundle option \<times> IdKeeper) res" where
  "handleBundleCreate L conv now args idk =
     (case BuildFromMap L conv now args of
        Inl e \<Rightarrow> if is_panic e then Inl e else Inr (BundleCreateResponse (Some (BuildError e)) [], None, idk)
      | Inr bundle \<Rightarrow> (case Send bundle idk of (bundleId, bundle, idk) \<Rightarrow>
          Inr (BundleCreateResponse None (BundleID_String bundleId), Some bundle, idk)))"

definition handleMailboxList :: "BundleID list \<Rightarrow> string \<Rightarrow> bool \<Rightarrow> MailboxBank \<Rightarrow> unix_reply" where
  "handleMailboxList order mailboxID new bank =
     (case NewEndpointID mailboxID of
        Inl e \<Rightarrow> ListResponse (Some (EndpointError e)) []
      | Inr eid \<Rightarrow> (case GetMailbox eid bank of
          Inl e \<Rightarrow> ListResponse (Some (MailboxError e)) []
        | Inr mailbox \<Rightarrow> ListResponse None
            (map BundleID_String (if new then Mailbox_ListNew order mailbox else Mailbox_List order mailbox))))"

definition bundle_content :: "Bundle \<Rightarrow> BundleContent res" where
  "bundle_content bundle = bindR (Bundle_Payload bundle) (\<lambda>payload. Inr
     \<lparr>bc_BundleID = BundleID_String (Bundle_ID bundle),
      bc_SourceID = EndpointID_String (pb_SourceNode (bndl_PrimaryBlock bundle)),
      bc_DestinationID = EndpointID_String (pb_Destination (bndl_PrimaryBlock bundle)),
      bc_Payload = payload\<rparr>)"

definition handleGetBundle ::
    "'db runtime \<Rightarrow> string \<Rightarrow> string \<Rightarrow> bool \<Rightarrow> 'db BundleStore \<Rightarrow> MailboxBank \<Rightarrow> unix_reply res \<times> MailboxBank" where
  "handleGetBundle rt mailboxID bundleID remove st bank =
     (case NewEndpointID mailboxID of
        Inl e \<Rightarrow> (Inr (FetchBundleResponse (Some (EndpointError e)) empty_content), bank)
      | Inr mid \<Rightarrow> (case GetMailbox mid bank of
          Inl e \<Rightarrow> (Inr (FetchBundleResponse (Some (MailboxError e)) empty_content), bank)
        | Inr mailbox \<Rightarrow> (case NewBundleID bundleID of
            Inl e \<Rightarrow> (Inr (FetchBundleResponse (Some (BundleIDError e)) empty_content), bank)
          | Inr bid \<Rightarrow> (case Mailbox_Get rt bid remove st mailbox of
              (Inl e, mailbox) \<Rightarrow>
                (if agent_panic e then Inl (Panic ''panic in the store'')
                 else Inr (FetchBundleResponse (Some (MailboxError e)) empty_content), set_mailbox mid mailbox bank)
            | (Inr bundle, mailbox) \<Rightarrow>
                (bindR (bundle_content bundle) (\<lambda>c. Inr (FetchBundleResponse None c)), set_mailbox mid mailbox bank)))))"

fun bundle_contents :: "Bundle list \<Rightarrow> BundleContent list res" where
  "bundle_contents [] = Inr []"
| "bundle_contents (b # bs) = bindR (bundle_content b) (\<lambda>c. bindR (bundle_contents bs) (\<lambda>cs. Inr (c # cs)))"

definition handleGetAllBundles ::
    "'db runtime \<Rightarrow> BundleID list \<Rightarrow> string \<Rightarrow> bool \<Rightarrow> bool \<Rightarrow> 'db BundleStore \<Rightarrow> MailboxBank \<Rightarrow> unix_reply res \<times> MailboxBank" where
  "handleGetAllBundles rt order mailboxID new remove st bank =
     (case NewEndpointID mailboxID of
        Inl e \<Rightarrow> (Inr (FetchAllBundlesResponse (Some (EndpointError e)) []), bank)
      | Inr mid \<Rightarrow> (case with_mailbox mid (fetch_all rt new remove order st) bank of
          (Inl e, bank) \<Rightarrow>
            (if agent_panic e then Inl (Panic ''panic in the store'')
             else Inr (FetchAllBundlesResponse (Some (MailboxError e)) []), bank)
        | (Inr bundles, bank) \<Rightarrow>
            (bindR (bundle_contents bundles) (\<lambda>cs. Inr (FetchAllBundlesResponse None cs)), bank)))"

section \<open>Connections\<close>

text \<open>
  The state a connection works on: the agent's bank and the keeper of sequence numbers. The result is
  the reply, if there is one, and the bundle handed to the manager.
\<close>

record unix_state =
  us_mailboxes :: MailboxBank
  us_idKeeper :: IdKeeper

definition unix_reply_bytes :: "unix_msgpack \<Rightarrow> unix_reply \<Rightarrow> bytes option" where
  "unix_reply_bytes M reply = (case um_marshal M reply of Inl _ \<Rightarrow> None | Inr bs \<Rightarrow> Some (write_message bs))"

definition unix_dispatch ::
    "unix_msgpack \<Rightarrow> 'db runtime \<Rightarrow> (u64 \<Rightarrow> u64) \<Rightarrow> BundleID list \<Rightarrow> 'db BundleStore \<Rightarrow> bytes \<Rightarrow> unix_state \<Rightarrow>
     (bytes option \<times> Bundle option) res \<times> unix_state" where
  "unix_dispatch M rt conv order st msg us =
     (case um_type M msg of
        Inl _ \<Rightarrow> (Inr (None, None), us)
      | Inr t \<Rightarrow>
        if t = MsgTypeRegisterEID \<or> t = MsgTypeUnregisterEID then
          (case um_register M msg of
             Inl _ \<Rightarrow> (Inr (None, None), us)
           | Inr eid \<Rightarrow> (case handleRegisterUnregister eid (t = MsgTypeRegisterEID) (us_mailboxes us) of
               (reply, bank) \<Rightarrow> (Inr (unix_reply_bytes M reply, None), us\<lparr>us_mailboxes := bank\<rparr>)))
        else if t = MsgTypeBundleCreate then
          (case um_create M msg of
             Inl _ \<Rightarrow> (Inr (None, None), us)
           | Inr args \<Rightarrow> (case handleBundleCreate (rt_cboring rt) conv (rt_now rt) args (us_idKeeper us) of
               Inl e \<Rightarrow> (Inl e, us)
             | Inr (reply, sent, idk) \<Rightarrow> (Inr (unix_reply_bytes M reply, sent), us\<lparr>us_idKeeper := idk\<rparr>)))
        else if t = MsgTypeListBundles then
          (case um_list M msg of
             Inl _ \<Rightarrow> (Inr (None, None), us)
           | Inr (mailbox, new) \<Rightarrow> (Inr (unix_reply_bytes M (handleMailboxList order mailbox new (us_mailboxes us)), None), us))
        else if t = MsgTypeFetchBundle then
          (case um_fetch M msg of
             Inl _ \<Rightarrow> (Inr (None, None), us)
           | Inr (mailbox, bid, remove) \<Rightarrow> (case handleGetBundle rt mailbox bid remove st (us_mailboxes us) of
               (r, bank) \<Rightarrow> (bindR r (\<lambda>reply. Inr (unix_reply_bytes M reply, None)), us\<lparr>us_mailboxes := bank\<rparr>)))
        else if t = MsgTypeFetchAllBundles then
          (case um_fetchAll M msg of
             Inl _ \<Rightarrow> (Inr (None, None), us)
           | Inr (mailbox, new, remove) \<Rightarrow> (case handleGetAllBundles rt order mailbox new remove st (us_mailboxes us) of
               (r, bank) \<Rightarrow> (bindR r (\<lambda>reply. Inr (unix_reply_bytes M reply, None)), us\<lparr>us_mailboxes := bank\<rparr>)))
        else (Inr (None, None), us))"

definition unix_handleConnection ::
    "unix_msgpack \<Rightarrow> 'db runtime \<Rightarrow> (u64 \<Rightarrow> u64) \<Rightarrow> BundleID list \<Rightarrow> 'db BundleStore \<Rightarrow> bytes \<Rightarrow> unix_state \<Rightarrow>
     (bytes option \<times> Bundle option) res \<times> unix_state" where
  "unix_handleConnection M rt conv order st input us =
     (case read_message input of
        Inl e \<Rightarrow> (Inl e, us)
      | Inr None \<Rightarrow> (Inr (None, None), us)
      | Inr (Some msg) \<Rightarrow> unix_dispatch M rt conv order st msg us)"

definition NewUNIXAgent :: MailboxBank where
  "NewUNIXAgent = NewMailboxBank"

definition unix_Endpoints :: "MailboxBank \<Rightarrow> EndpointID list" where
  "unix_Endpoints bank = RegisteredIDs bank"

definition unix_Deliver :: "BundleDescriptor \<Rightarrow> 'db BundleStore \<Rightarrow> MailboxBank \<Rightarrow> agent_err list \<times> MailboxBank" where
  "unix_Deliver bd st bank = Bank_Deliver bd st bank"

section \<open>Properties\<close>

text \<open>No request makes the bank inconsistent.\<close>

lemma unix_handlers_inv:
  assumes "bank_inv bank"
  shows "bank_inv (snd (handleRegisterUnregister eid register bank))"
    "bank_inv (snd (handleGetBundle rt mailbox bid remove st bank))"
    "bank_inv (snd (handleGetAllBundles rt order mailbox new remove st bank))"
proof -
  show "bank_inv (snd (handleRegisterUnregister eid register bank))"
  proof (cases "NewEndpointID eid")
    case (Inr e)
    have "bank_inv (snd (if register then Bank_Register e bank else Bank_Unregister e bank))"
      using register_inv [OF assms] by simp
    then show ?thesis
      by (cases "if register then Bank_Register e bank else Bank_Unregister e bank")
         (simp add: handleRegisterUnregister_def Inr split: list.split)
  qed (simp add: handleRegisterUnregister_def assms)
  show "bank_inv (snd (handleGetBundle rt mailbox bid remove st bank))"
    using assms by (auto simp: handleGetBundle_def bank_inv_set_mailbox split: sum.split prod.split)
  show "bank_inv (snd (handleGetAllBundles rt order mailbox new remove st bank))"
  proof (cases "NewEndpointID mailbox")
    case (Inr e)
    show ?thesis
      using with_mailbox_inv [OF assms, of e "fetch_all rt new remove order st"]
      by (cases "with_mailbox e (fetch_all rt new remove order st) bank") (simp add: handleGetAllBundles_def Inr split: sum.split)
  qed (simp add: handleGetAllBundles_def assms)
qed

lemma handleBundleCreate_sent:
  assumes "distinct (map fst args)" "\<forall>(k, a) \<in> set args. small_arg a"
    "handleBundleCreate L conv now args idk = Inr (BundleCreateResponse None bid, Some b, idk')"
  shows "bid = BundleID_String (Bundle_ID b)" "wf_bundle GetExtensionBlockManager b" "Bundle_CheckValid now b = Inr []"
    "\<exists>a. map_of args ''payload_block'' = Some a \<and> payload_arg a = Bundle_Payload b"
    "\<exists>a. map_of args ''source'' = Some a \<and> bldrParseEndpoint a = Inr (pb_SourceNode (bndl_PrimaryBlock b))"
    "\<exists>a. map_of args ''destination'' = Some a \<and> bldrParseEndpoint a = Inr (pb_Destination (bndl_PrimaryBlock b))"
proof -
  obtain b0 where b0: "BuildFromMap L conv now args = Inr b0" "Send b0 idk = (Bundle_ID b, b, idk')" "bid = BundleID_String (Bundle_ID b)"
  proof -
    obtain b0 where 1: "BuildFromMap L conv now args = Inr b0"
      using assms(3) by (auto simp: handleBundleCreate_def split: sum.splits if_splits)
    obtain i b1 k where 2: "Send b0 idk = (i, b1, k)" by (metis prod_cases3)
    have "i = Bundle_ID b1" "b1 = b" "k = idk'" "bid = BundleID_String (Bundle_ID b)"
      using Send_sequence [OF 2] assms(3) 2 by (auto simp: handleBundleCreate_def 1)
    then show thesis using that [OF 1] 2 by simp
  qed
  obtain n where n: "b = set_sequence n b0" using Send_sequence [OF b0(2)] by blast
  note f = BuildFromMap_facts [OF assms(1,2) b0(1)]
  show "bid = BundleID_String (Bundle_ID b)" by (rule b0(3))
  show "wf_bundle GetExtensionBlockManager b" "Bundle_CheckValid now b = Inr []"
    "\<exists>a. map_of args ''payload_block'' = Some a \<and> payload_arg a = Bundle_Payload b"
    "\<exists>a. map_of args ''source'' = Some a \<and> bldrParseEndpoint a = Inr (pb_SourceNode (bndl_PrimaryBlock b))"
    "\<exists>a. map_of args ''destination'' = Some a \<and> bldrParseEndpoint a = Inr (pb_Destination (bndl_PrimaryBlock b))"
    using f by (simp_all add: n)
qed

text \<open>A created bundle, once processed, is what a fetch of the new bundles returns.\<close>

lemma create_fetch:
  assumes "cboring_lib (rt_cboring (dm_runtime dm))" "badger (dm_db dm) get" "store_inv get (nd_store nd)"
    "rt_ebm (dm_runtime dm) = GetExtensionBlockManager" "distinct (map fst args)" "\<forall>(k, a) \<in> set args. small_arg a"
    "handleBundleCreate (rt_cboring (dm_runtime dm)) conv (rt_now (dm_runtime dm)) args idk = Inr (BundleCreateResponse None bid, Some b, idk')"
    "bst_bundles (nd_store nd) (Bundle_ID b) = None" "get (bst_metadataStore (nd_store nd)) (Bundle_String b) = None"
    "create_ok (dm_io dm)" "flush_ok (dm_io dm)" "NewBundle_created dm b nd = (Inr (), nd')"
    "distinct (dm_agents dm)" "n \<in> set (dm_agents dm)" "nd_agents nd n = Some bank"
    "NewEndpointID mailbox = Inr (pb_Destination (bndl_PrimaryBlock b))"
    "GetMailbox (pb_Destination (bndl_PrimaryBlock b)) bank = Inr Map.empty"
  shows "\<exists>bank' payload. nd_agents nd' n = Some bank' \<and> Bundle_Payload b = Inr payload \<and> bid = BundleID_String (Bundle_ID b) \<and>
    fst (handleGetAllBundles (dm_runtime dm) [Bundle_ID b] mailbox True remove (nd_store nd') bank') =
      Inr (FetchAllBundlesResponse None [\<lparr>bc_BundleID = bid, bc_SourceID = EndpointID_String (pb_SourceNode (bndl_PrimaryBlock b)),
        bc_DestinationID = EndpointID_String (pb_Destination (bndl_PrimaryBlock b)), bc_Payload = payload\<rparr>])"
proof -
  let ?rt = "dm_runtime dm" and ?dst = "pb_Destination (bndl_PrimaryBlock b)"
  note sent = handleBundleCreate_sent [OF assms(5-7)]
  obtain prev where prev: "previous_node b = Inr prev" using wf_previous_node [OF sent(2)] by blast
  have wf: "wf_bundle (rt_ebm ?rt) b" using sent(2) assms(4) by simp
  have empty_map: "Map.empty (Bundle_ID b) = None" by simp
  obtain bank' m' b' where r: "nd_agents nd' n = Some bank'" "GetMailbox ?dst bank' = Inr m'"
    "Mailbox_Get ?rt (Bundle_ID b) True (nd_store nd') m' = (Inr b', m'(Bundle_ID b := None))" "strip_crc b' = strip_crc b"
    "m' = [Bundle_ID b \<mapsto> False]"
    using receive_delivered [OF assms(1-3) wf assms(8,9) prev assms(10,11) sent(3) assms(12) [unfolded NewBundle_created_def]
      assms(13-15) assms(17) empty_map] by blast
  have load: "load_message ?rt (Bundle_ID b) (nd_store nd') = Inr b'"
    using r(3) by (auto simp: Mailbox_Get_def split: if_splits sum.splits)
  obtain payload where pay: "Bundle_Payload b = Inr payload" using wf_payload [OF sent(2)] by blast
  have c: "bundle_content b' = Inr \<lparr>bc_BundleID = bid, bc_SourceID = EndpointID_String (pb_SourceNode (bndl_PrimaryBlock b)),
      bc_DestinationID = EndpointID_String ?dst, bc_Payload = payload\<rparr>" (is "_ = Inr ?c")
    using strip_crc_content [OF r(4)] pay sent(1) by (simp add: bundle_content_def)
  have "fst (handleGetAllBundles ?rt [Bundle_ID b] mailbox True remove (nd_store nd') bank') = Inr (FetchAllBundlesResponse None [?c])"
    using fetch_new_one [OF r(5) load, of remove] c
    by (cases "fetch_all ?rt True remove [Bundle_ID b] (nd_store nd') m'")
       (simp add: handleGetAllBundles_def assms(16) with_mailbox_def r(2))
  then show ?thesis using r(1) pay sent(1) by blast
qed

section \<open>Correctness\<close>

text \<open>
  From one client of the UNIX socket to another, on one node: the bundle that a create request
  builds, once the processing has taken it, is what a client that fetches the new bundles of the
  destination's mailbox gets: one bundle, under the identifier the sender was told, with the source and the
  payload of the create request.
\<close>

lemma unix_create_fetch:
  assumes "cboring_lib (rt_cboring (dm_runtime dm))" "badger (dm_db dm) get" "store_inv get (nd_store nd)"
    "rt_ebm (dm_runtime dm) = GetExtensionBlockManager" "distinct (map fst args)" "\<forall>(k, a) \<in> set args. small_arg a"
    "handleBundleCreate (rt_cboring (dm_runtime dm)) conv (rt_now (dm_runtime dm)) args idk = Inr (BundleCreateResponse None bid, Some b, idk')"
    "bst_bundles (nd_store nd) (Bundle_ID b) = None" "get (bst_metadataStore (nd_store nd)) (Bundle_String b) = None"
    "create_ok (dm_io dm)" "flush_ok (dm_io dm)" "NewBundle_created dm b nd = (Inr (), nd')"
    "distinct (dm_agents dm)" "n \<in> set (dm_agents dm)" "nd_agents nd n = Some bank"
    "NewEndpointID mailbox = Inr (pb_Destination (bndl_PrimaryBlock b))"
    "GetMailbox (pb_Destination (bndl_PrimaryBlock b)) bank = Inr Map.empty"
  shows "\<exists>bank' c payload source. nd_agents nd' n = Some bank' \<and>
    fst (handleGetAllBundles (dm_runtime dm) [Bundle_ID b] mailbox True remove (nd_store nd') bank') = Inr (FetchAllBundlesResponse None [c]) \<and>
    bc_BundleID c = bid \<and>
    map_of args ''payload_block'' = Some payload \<and> payload_arg payload = Inr (bc_Payload c) \<and>
    map_of args ''source'' = Some source \<and> map_sum id EndpointID_String (bldrParseEndpoint source) = Inr (bc_SourceID c)"
proof -
  note sent = handleBundleCreate_sent [OF assms(5-7)]
  obtain a src where "map_of args ''payload_block'' = Some a" "payload_arg a = Bundle_Payload b" "map_of args ''source'' = Some src"
    "bldrParseEndpoint src = Inr (pb_SourceNode (bndl_PrimaryBlock b))" using sent(4,5) by blast
  then show ?thesis using create_fetch [OF assms, of remove] by (metis BundleContent.select_convs id_apply map_sum.simps(2))
qed

definition unix_daemon :: "(string \<times> BundleMetadata) list daemon" where
  "unix_daemon = example_daemon\<lparr>dm_runtime := example_runtime\<lparr>rt_now := example_now\<rparr>, dm_agents := [''UNIX'']\<rparr>"

definition unix_node :: "(string \<times> BundleMetadata) list Node" where
  "unix_node = (example_node example_store)\<lparr>nd_agents := [''UNIX'' \<mapsto> snd (Bank_Register example_dst NewUNIXAgent)]\<rparr>"

lemma unix_daemon_simps [simp]:
  "rt_cboring (dm_runtime unix_daemon) = rfc8949" "dm_db unix_daemon = alist_db" "nd_store unix_node = example_store"
  "rt_ebm (dm_runtime unix_daemon) = GetExtensionBlockManager" "rt_now (dm_runtime unix_daemon) = example_now"
  "dm_io unix_daemon = example_env" "dm_agents unix_daemon = [''UNIX'']" "dm_algorithm unix_daemon = EpidemicRouting"
  by (simp_all add: unix_daemon_def unix_node_def example_runtime_def)

lemma unix_example_create:
  obtains bid b idk where "handleBundleCreate rfc8949 (\<lambda>_. 0) example_now example_map InitializeIdKeeper =
    Inr (BundleCreateResponse None bid, Some b, idk)"
proof -
  obtain b0 where "BuildFromMap rfc8949 (\<lambda>_. 0) example_now example_map = Inr b0" using example_build by blast
  then show thesis using that by (cases "Send b0 InitializeIdKeeper") (simp add: handleBundleCreate_def)
qed

text \<open>
  C40. A client of the socket can end the daemon: a message length above the address space, and a create
  request without a payload block (with the source and destination it needs), panic in the goroutine of the
  connection, which nothing recovers.
\<close>

theorem unix_connection_panics:
  assumes "read_message input = Inr (Some msg)" "um_type M msg = Inr MsgTypeBundleCreate" "um_create M msg = Inr args"
    "map_effects conv (rt_now rt) args es" "distinct (map fst args)" "\<forall>(k, a) \<in> set args. small_arg a"
    "{''source'', ''destination''} \<subseteq> set (map fst args)" "''payload_block'' \<notin> set (map fst args)"
    "8 \<le> length input'" "281474976710656 < unbe (take 8 input')"
  shows "fst (unix_handleConnection M rt conv order st input us) = Inl nil_value \<and>
    fst (unix_handleConnection M rt conv order st input' us) = Inl (Panic ''makeslice: len out of range'')"
proof -
  have "BuildFromMap (rt_cboring rt) conv (rt_now rt) args = Inl nil_value"
    using BuildFromMap_without_payload_panics [OF assms(4-8)] .
  then show ?thesis
    using assms(1-3) read_message_panics [OF assms(10,9)]
    by (simp add: unix_handleConnection_def unix_dispatch_def handleBundleCreate_def msg_type_defs nil_value_def)
qed

definition example_msgpack :: "(string \<times> arg) list \<Rightarrow> unix_msgpack" where
  "example_msgpack args = \<lparr>um_type = (\<lambda>_. Inr MsgTypeBundleCreate), um_register = (\<lambda>_. Inl err_syntax), um_create = (\<lambda>_. Inr args),
     um_list = (\<lambda>_. Inl err_syntax), um_fetch = (\<lambda>_. Inl err_syntax), um_fetchAll = (\<lambda>_. Inl err_syntax), um_marshal = (\<lambda>_. Inr [])\<rparr>"

theorem unix_connection_panics_witness:
  "fst (unix_handleConnection (example_msgpack [(''destination'', ArgString ''dtn://d/x''), (''source'', ArgString ''dtn://s/'')])
     example_runtime (\<lambda>_. 0) [] example_store [0, 0, 0, 0, 0, 0, 0, 0] \<lparr>us_mailboxes = NewUNIXAgent, us_idKeeper = InitializeIdKeeper\<rparr>) =
       Inl nil_value \<and>
   fst (unix_handleConnection (example_msgpack [(''destination'', ArgString ''dtn://d/x''), (''source'', ArgString ''dtn://s/'')])
     example_runtime (\<lambda>_. 0) [] example_store [1, 0, 0, 0, 0, 0, 0, 0] \<lparr>us_mailboxes = NewUNIXAgent, us_idKeeper = InitializeIdKeeper\<rparr>) =
       Inl (Panic ''makeslice: len out of range'')"
  by (rule unix_connection_panics [where es = "[SetDestination example_dst, SetSource example_src]" and msg = "[]" and
        args = "[(''destination'', ArgString ''dtn://d/x''), (''source'', ArgString ''dtn://s/'')]"])
     (simp_all add: example_msgpack_def call_effect_def bldrParseEndpoint_def example_endpoints small_arg_def read_message_def unbe_def)

text \<open>
  A bundle whose source contains a hyphen is listed under an identifier that a fetch request cannot name:
  the identifier does not parse.
\<close>

lemma unix_fetch_hyphen_fails:
  assumes "NewEndpointID mailbox = Inr eid" "GetMailbox eid bank = Inr m"
    "bid = \<lparr>bid_SourceNode = Some (Dtn \<lparr>NodeName = ''a-b'', Demux = [], IsDtnNone = False\<rparr>), bid_Timestamp = (5, 0),
       bid_IsFragment = False, bid_FragmentOffset = 0, bid_TotalDataLength = 0\<rparr>" "m bid \<noteq> None"
  shows "handleMailboxList [bid] mailbox False bank = ListResponse None [''dtn://a-b/-5-0''] \<and>
    fst (handleGetBundle rt mailbox ''dtn://a-b/-5-0'' remove st bank) =
      Inr (FetchBundleResponse (Some (BundleIDError (Errorf ''is not a valid BundleID''))) empty_content)"
proof -
  have "BundleID_String bid = ''dtn://a-b/-5-0''" unfolding assms(3) by code_simp
  moreover have "NewBundleID ''dtn://a-b/-5-0'' = Inl (Errorf ''is not a valid BundleID'')" by code_simp
  ultimately show ?thesis using assms by (simp add: handleMailboxList_def handleGetBundle_def Mailbox_List_def)
qed

end
