(* ===== verification/Rec_Agent.thy ===== *)
theory Rec_Agent
  imports Agents
begin

text \<open>
  The agent of the remote execution protocol (\<open>pkg/application_agent/rec_agent/rec_agent.go\<close>, \<open>messages.go\<close>):
  clients fetch the bundles of their own endpoint, of the multicast address of their kind of node, and of
  the broadcast address. The msgpack coding is a parameter, the record \<open>rec_msgpack\<close>.
\<close>

section \<open>Messages\<close>

definition NTypeBroker :: u8 where "NTypeBroker = 1"
definition NTypeExecutor :: u8 where "NTypeExecutor = 2"
definition NTypeDataStore :: u8 where "NTypeDataStore = 3"
definition NTypeClient :: u8 where "NTypeClient = 4"

definition RecMsgTypeRegister :: u8 where "RecMsgTypeRegister = 2"
definition RecMsgTypeFetch :: u8 where "RecMsgTypeFetch = 3"
definition RecMsgTypeBundleCreate :: u8 where "RecMsgTypeBundleCreate = 5"

lemmas rec_type_defs = NTypeBroker_def NTypeExecutor_def NTypeDataStore_def NTypeClient_def
  RecMsgTypeRegister_def RecMsgTypeFetch_def RecMsgTypeBundleCreate_def

record BundleData =
  bdt_Type :: u8
  bdt_Source :: string
  bdt_Destination :: string
  bdt_Payload :: bytes
  bdt_Success :: bool
  bdt_Error :: string
  bdt_NodeType :: u8
  bdt_Submitter :: string
  bdt_NamedData :: string

text \<open>\<open>Success\<close> of a reply holds exactly when it carries no error.\<close>

datatype rec_reply = Reply "reply_err option" | FetchReply "reply_err option" "BundleData list"

record rec_msgpack =
  rm_type :: "bytes \<Rightarrow> u8 res"
  rm_register :: "bytes \<Rightarrow> string res"
  rm_fetch :: "bytes \<Rightarrow> (string \<times> u8) res"
  rm_create :: "bytes \<Rightarrow> BundleData res"
  rm_data :: "BundleData \<Rightarrow> bytes res"
  rm_undata :: "bytes \<Rightarrow> BundleData res"
  rm_marshal :: "rec_reply \<Rightarrow> bytes res"

section \<open>The agent\<close>

definition rec_address :: "string \<Rightarrow> EndpointID" where
  "rec_address name = Some (Dtn \<lparr>NodeName = name, Demux = ''~'', IsDtnNone = False\<rparr>)"

definition broadcastAddress :: EndpointID where "broadcastAddress = rec_address ''rec.all''"

definition multicastAddresses :: "u8 \<rightharpoonup> EndpointID" where
  "multicastAddresses =
     [NTypeBroker \<mapsto> rec_address ''rec.broker'', NTypeExecutor \<mapsto> rec_address ''rec.executor'',
      NTypeDataStore \<mapsto> rec_address ''rec.store'', NTypeClient \<mapsto> rec_address ''rec.client'']"

text \<open>The addresses are the parsed constants of the source.\<close>

lemma rec_addresses:
  "NewEndpointID ''dtn://rec.all/~'' = Inr broadcastAddress"
  "NewEndpointID ''dtn://rec.broker/~'' = Inr (rec_address ''rec.broker'')"
  "NewEndpointID ''dtn://rec.store/~'' = Inr (rec_address ''rec.store'')"
  "NewEndpointID ''dtn://rec.executor/~'' = Inr (rec_address ''rec.executor'')"
  "NewEndpointID ''dtn://rec.client/~'' = Inr (rec_address ''rec.client'')"
  by code_simp+

definition NewRECAgent :: MailboxBank where
  "NewRECAgent =
     fold (\<lambda>eid bank. snd (Bank_Register eid bank))
       [broadcastAddress, rec_address ''rec.broker'', rec_address ''rec.store'', rec_address ''rec.executor'', rec_address ''rec.client'']
       NewMailboxBank"

definition rec_handleRegister :: "string \<Rightarrow> MailboxBank \<Rightarrow> rec_reply \<times> MailboxBank" where
  "rec_handleRegister endpointID bank =
     (case NewEndpointID endpointID of
        Inl e \<Rightarrow> (Reply (Some (EndpointError e)), bank)
      | Inr eid \<Rightarrow> (case Bank_Register eid bank of
          ([], bank) \<Rightarrow> (Reply None, bank)
        | (e # _, bank) \<Rightarrow> (Reply (Some (MailboxError e)), bank)))"

text \<open>One of the three fetches: all bundles of a mailbox, which is emptied.\<close>

definition rec_take :: "'db runtime \<Rightarrow> BundleID list \<Rightarrow> 'db BundleStore \<Rightarrow> EndpointID \<Rightarrow> MailboxBank \<Rightarrow> (agent_err + Bundle list) \<times> MailboxBank" where
  "rec_take rt order st address bank = with_mailbox address (fetch_all rt False True order st) bank"

text \<open>A node type without multicast address reads the zero \<open>EndpointID\<close> from the map.\<close>

definition multicast_address :: "u8 \<Rightarrow> EndpointID" where
  "multicast_address nodeType = (case multicastAddresses nodeType of None \<Rightarrow> None | Some eid \<Rightarrow> eid)"

fun rec_takes :: "'db runtime \<Rightarrow> BundleID list \<Rightarrow> 'db BundleStore \<Rightarrow> EndpointID list \<Rightarrow> Bundle list \<Rightarrow> MailboxBank \<Rightarrow> (agent_err + Bundle list) \<times> MailboxBank" where
  "rec_takes rt order st [] allBundles bank = (Inr allBundles, bank)"
| "rec_takes rt order st (address # addresses) allBundles bank =
     (case rec_take rt order st address bank of
        (Inl e, bank) \<Rightarrow> (Inl e, bank)
      | (Inr bundles, bank) \<Rightarrow> rec_takes rt order st addresses (allBundles @ bundles) bank)"

text \<open>Payloads that do not decode are logged and left out.\<close>

fun bundle_data :: "rec_msgpack \<Rightarrow> Bundle list \<Rightarrow> BundleData list res" where
  "bundle_data M [] = Inr []"
| "bundle_data M (b # bs) = bindR (Bundle_Payload b) (\<lambda>payload. bindR (bundle_data M bs) (\<lambda>ds.
     Inr (case rm_undata M payload of Inl _ \<Rightarrow> ds | Inr d \<Rightarrow> d # ds)))"

definition rec_handleFetch ::
    "rec_msgpack \<Rightarrow> 'db runtime \<Rightarrow> BundleID list \<Rightarrow> string \<Rightarrow> u8 \<Rightarrow> 'db BundleStore \<Rightarrow> MailboxBank \<Rightarrow> rec_reply res \<times> MailboxBank" where
  "rec_handleFetch M rt order endpointID nodeType st bank =
     (case NewEndpointID endpointID of
        Inl e \<Rightarrow> (Inr (FetchReply (Some (EndpointError e)) []), bank)
      | Inr address \<Rightarrow> (case rec_takes rt order st [address, multicast_address nodeType, broadcastAddress] [] bank of
          (Inl e, bank) \<Rightarrow>
            (if agent_panic e then Inl (Panic ''panic in the store'') else Inr (FetchReply (Some (MailboxError e)) []), bank)
        | (Inr allBundles, bank) \<Rightarrow> (bindR (bundle_data M allBundles) (\<lambda>ds. Inr (FetchReply None ds)), bank)))"

definition rec_handleCreate ::
    "rec_msgpack \<Rightarrow> cboring \<Rightarrow> (u64 \<Rightarrow> u64) \<Rightarrow> time \<Rightarrow> BundleData \<Rightarrow> IdKeeper \<Rightarrow> (rec_reply \<times> Bundle option \<times> IdKeeper) res" where
  "rec_handleCreate M L conv now bundle idk =
     (case NewEndpointID (bdt_Source bundle) of
        Inl e \<Rightarrow> Inr (Reply (Some (EndpointError e)), None, idk)
      | Inr srcAddress \<Rightarrow> (case NewEndpointID (bdt_Destination bundle) of
          Inl e \<Rightarrow> Inr (Reply (Some (EndpointError e)), None, idk)
        | Inr dstAddress \<Rightarrow> (case rm_data M bundle of
            Inl e \<Rightarrow> Inr (Reply (Some (DecodeError e)), None, idk)
          | Inr payload \<Rightarrow>
              let typeBlock = NewRECBundleTypeBlock (bdt_Type bundle);
                  bldr = Builder_Lifetime conv (ArgString ''1h'') (Builder_CreationTimestampNow now
                    (Builder_Destination (ArgEndpointID dstAddress) (Builder_Source (ArgEndpointID srcAddress) Builder)))
              in bindR (Builder_PayloadBlock [ArgBytes payload] bldr) (\<lambda>bldr.
                 case Builder_Build L now (Builder_Canonical [ArgExtensionBlock typeBlock] bldr) of
                   Inl e \<Rightarrow> if is_panic e then Inl e else Inr (Reply (Some (BuildError e)), None, idk)
                 | Inr bndl \<Rightarrow> (case Send bndl idk of (_, bndl, idk) \<Rightarrow> Inr (Reply None, Some bndl, idk))))))"

section \<open>Connections\<close>

record rec_state =
  rs_mailboxes :: MailboxBank
  rs_idKeeper :: IdKeeper

definition rec_reply_bytes :: "rec_msgpack \<Rightarrow> rec_reply \<Rightarrow> bytes option" where
  "rec_reply_bytes M reply = (case rm_marshal M reply of Inl _ \<Rightarrow> None | Inr bs \<Rightarrow> Some (write_message bs))"

definition rec_handleConnection ::
    "rec_msgpack \<Rightarrow> 'db runtime \<Rightarrow> (u64 \<Rightarrow> u64) \<Rightarrow> BundleID list \<Rightarrow> 'db BundleStore \<Rightarrow> bytes \<Rightarrow> rec_state \<Rightarrow>
     (bytes option \<times> Bundle option) res \<times> rec_state" where
  "rec_handleConnection M rt conv order st input rs =
     (case read_message input of
        Inl e \<Rightarrow> (Inl e, rs)
      | Inr None \<Rightarrow> (Inr (None, None), rs)
      | Inr (Some msg) \<Rightarrow>
     (case rm_type M msg of
        Inl _ \<Rightarrow> (Inr (None, None), rs)
      | Inr t \<Rightarrow>
        if t = RecMsgTypeRegister then
          (case rm_register M msg of
             Inl _ \<Rightarrow> (Inr (None, None), rs)
           | Inr eid \<Rightarrow> (case rec_handleRegister eid (rs_mailboxes rs) of
               (reply, bank) \<Rightarrow> (Inr (rec_reply_bytes M reply, None), rs\<lparr>rs_mailboxes := bank\<rparr>)))
        else if t = RecMsgTypeFetch then
          (case rm_fetch M msg of
             Inl _ \<Rightarrow> (Inr (None, None), rs)
           | Inr (eid, nodeType) \<Rightarrow> (case rec_handleFetch M rt order eid nodeType st (rs_mailboxes rs) of
               (r, bank) \<Rightarrow> (bindR r (\<lambda>reply. Inr (rec_reply_bytes M reply, None)), rs\<lparr>rs_mailboxes := bank\<rparr>)))
        else if t = RecMsgTypeBundleCreate then
          (case rm_create M msg of
             Inl _ \<Rightarrow> (Inr (None, None), rs)
           | Inr bundle \<Rightarrow> (case rec_handleCreate M (rt_cboring rt) conv (rt_now rt) bundle (rs_idKeeper rs) of
               Inl e \<Rightarrow> (Inl e, rs)
             | Inr (reply, sent, idk) \<Rightarrow> (Inr (rec_reply_bytes M reply, sent), rs\<lparr>rs_idKeeper := idk\<rparr>)))
        else (Inr (None, None), rs)))"

section \<open>Properties\<close>

lemma rec_take_found:
  assumes "GetMailbox address bank = Inr m" "distinct order" "dom m \<subseteq> set order" "\<And>bid. bid \<in> dom m \<Longrightarrow> \<exists>b. load_message rt bid st = Inr b"
  shows "rec_take rt order st address bank =
    (Inr (map (\<lambda>bid. projr (load_message rt bid st)) (Mailbox_List order m)), set_mailbox address Map.empty bank)"
  using assms(1) fetch_all_complete [OF assms(2-4)] by (simp add: rec_take_def with_mailbox_def)

text \<open>The bundles of a mailbox, loaded in the order of its traversal.\<close>

definition messages :: "'db runtime \<Rightarrow> BundleID list \<Rightarrow> 'db BundleStore \<Rightarrow> Mailbox \<Rightarrow> Bundle list" where
  "messages rt order st m = map (\<lambda>bid. projr (load_message rt bid st)) (Mailbox_List order m)"

definition loadable :: "'db runtime \<Rightarrow> BundleID list \<Rightarrow> 'db BundleStore \<Rightarrow> Mailbox \<Rightarrow> bool" where
  "loadable rt order st m \<longleftrightarrow> dom m \<subseteq> set order \<and> (\<forall>bid \<in> dom m. \<exists>b. load_message rt bid st = Inr b)"

lemma loadable_empty [simp]: "loadable rt order st Map.empty" "messages rt order st Map.empty = []"
  by (simp_all add: loadable_def messages_def Mailbox_List_def)

lemma rec_take_loadable:
  assumes "GetMailbox address bank = Inr m" "distinct order" "loadable rt order st m"
  shows "rec_take rt order st address bank = (Inr (messages rt order st m), set_mailbox address Map.empty bank)"
  using rec_take_found [OF assms(1,2), of rt st] assms(3) by (auto simp: loadable_def messages_def)

definition emptied :: "EndpointID list \<Rightarrow> MailboxBank \<Rightarrow> MailboxBank" where
  "emptied addresses bank = fold (\<lambda>a. set_mailbox a Map.empty) addresses bank"

lemma GetMailbox_emptied:
  "GetMailbox a (emptied addresses bank) = (if a \<in> set addresses then Inr Map.empty else GetMailbox a bank)"
  unfolding emptied_def by (induction addresses arbitrary: bank) auto

lemma rec_takes_loadable:
  assumes "distinct order" "distinct addresses" "list_all2 (\<lambda>a m. GetMailbox a bank = Inr m \<and> loadable rt order st m) addresses ms"
  shows "rec_takes rt order st addresses acc bank = (Inr (acc @ concat (map (messages rt order st) ms)), emptied addresses bank)"
  using assms(2,3)
proof (induction addresses arbitrary: ms acc bank)
  case (Cons a addresses)
  obtain m ms' where ms: "ms = m # ms'" "GetMailbox a bank = Inr m" "loadable rt order st m"
    "list_all2 (\<lambda>a m. GetMailbox a bank = Inr m \<and> loadable rt order st m) addresses ms'"
    using Cons.prems(2) by (auto simp: list_all2_Cons1)
  have "list_all2 (\<lambda>a m. GetMailbox a (set_mailbox a' Map.empty bank) = Inr m \<and> loadable rt order st m) addresses ms'"
    if "a' = a" for a'
    using ms(4) Cons.prems(1) that unfolding list_all2_conv_all_nth by (auto dest: nth_mem)
  then have "rec_takes rt order st addresses (acc @ messages rt order st m) (set_mailbox a Map.empty bank) =
      (Inr ((acc @ messages rt order st m) @ concat (map (messages rt order st) ms')), emptied addresses (set_mailbox a Map.empty bank))"
    using Cons.prems(1) by (intro Cons.IH) auto
  then show ?case by (simp add: ms(1) rec_take_loadable [OF ms(2) assms(1) ms(3)] emptied_def)
qed (simp add: emptied_def)

lemma multicast_known: "nodeType \<in> {NTypeBroker, NTypeExecutor, NTypeDataStore, NTypeClient} \<Longrightarrow>
    multicast_address nodeType \<noteq> broadcastAddress \<and> (\<exists>name. multicast_address nodeType = rec_address name)"
  by (auto simp: multicast_address_def multicastAddresses_def rec_type_defs broadcastAddress_def rec_address_def)

section \<open>Correctness\<close>

text \<open>
  C25. A fetch collects everything addressed to a client, in order: when the client's own mailbox, the
  one of its kind of node and the broadcast mailbox exist, are different and all their bundles load, the
  reply carries the decoded data of the own, the multicast and the broadcast bundles, and exactly these
  three mailboxes are emptied. So a broadcast or multicast bundle reaches only the client that fetches first:
  a second client of the same kind with an empty mailbox of its own gets nothing.
\<close>

theorem rec_fetch_complete:
  assumes "NewEndpointID uri = Inr address" "distinct order"
    "distinct [address, multicast_address nodeType, broadcastAddress]"
    "GetMailbox address bank = Inr m1" "GetMailbox (multicast_address nodeType) bank = Inr m2" "GetMailbox broadcastAddress bank = Inr m3"
    "loadable rt order st m1" "loadable rt order st m2" "loadable rt order st m3"
    "bundle_data M (messages rt order st m1 @ messages rt order st m2 @ messages rt order st m3) = Inr ds"
    "NewEndpointID uri' = Inr address'" "address' \<notin> {address, multicast_address nodeType, broadcastAddress}"
    "GetMailbox address' bank = Inr Map.empty"
  shows "\<exists>bank'. rec_handleFetch M rt order uri nodeType st bank = (Inr (FetchReply None ds), bank') \<and>
    (\<forall>a. GetMailbox a bank' = (if a \<in> {address, multicast_address nodeType, broadcastAddress} then Inr Map.empty else GetMailbox a bank)) \<and>
    fst (rec_handleFetch M rt order uri' nodeType st bank') = Inr (FetchReply None [])"
proof -
  let ?as = "[address, multicast_address nodeType, broadcastAddress]" and ?as' = "[address', multicast_address nodeType, broadcastAddress]"
  let ?bank = "emptied ?as bank"
  have 1: "rec_takes rt order st ?as [] bank = (Inr ([] @ concat (map (messages rt order st) [m1, m2, m3])), ?bank)"
    using assms(4-9) by (intro rec_takes_loadable [OF assms(2,3)]) simp
  have 2: "rec_takes rt order st ?as' [] ?bank = (Inr ([] @ concat (map (messages rt order st) [Map.empty, Map.empty, Map.empty])), emptied ?as' ?bank)"
    using assms(3,12,13) by (intro rec_takes_loadable [OF assms(2)]) (auto simp: GetMailbox_emptied)
  show ?thesis using assms(1,10,11) 1 2
    by (auto simp: rec_handleFetch_def GetMailbox_emptied simp del: rec_takes.simps)
qed

definition example_data :: BundleData where
  "example_data = \<lparr>bdt_Type = 1, bdt_Source = ''dtn://s/'', bdt_Destination = ''dtn://rec.all/~'', bdt_Payload = [], bdt_Success = True,
     bdt_Error = [], bdt_NodeType = 0, bdt_Submitter = [], bdt_NamedData = []\<rparr>"

definition example_rec_msgpack :: rec_msgpack where
  "example_rec_msgpack = \<lparr>rm_type = (\<lambda>_. Inr RecMsgTypeFetch), rm_register = (\<lambda>_. Inl err_syntax), rm_fetch = (\<lambda>_. Inl err_syntax),
     rm_create = (\<lambda>_. Inl err_syntax), rm_data = (\<lambda>_. Inr []), rm_undata = (\<lambda>_. Inr example_data), rm_marshal = (\<lambda>_. Inr [])\<rparr>"

definition example_rec_bank :: MailboxBank where
  "example_rec_bank = set_mailbox broadcastAddress [Bundle_ID example_bundle \<mapsto> False]
     (snd (Bank_Register example_dst (snd (Bank_Register example_src NewRECAgent))))"

lemma example_rec_mailboxes:
  "GetMailbox example_src example_rec_bank = Inr Map.empty" "GetMailbox example_dst example_rec_bank = Inr Map.empty"
  "GetMailbox (multicast_address NTypeBroker) example_rec_bank = Inr Map.empty"
  "GetMailbox broadcastAddress example_rec_bank = Inr [Bundle_ID example_bundle \<mapsto> False]"
  "distinct [example_src, multicast_address NTypeBroker, broadcastAddress]"
  "example_dst \<notin> {example_src, multicast_address NTypeBroker, broadcastAddress}"
  by (simp_all add: example_rec_bank_def GetMailbox_def set_mailbox_def Bank_Register_def NewRECAgent_def NewMailboxBank_def NewMailbox_def
      example_src_def example_dst_def broadcastAddress_def rec_address_def multicast_address_def multicastAddresses_def rec_type_defs)

lemma example_load:
  obtains st :: "(string \<times> BundleMetadata) list BundleStore" and b where
    "load_message example_runtime (Bundle_ID example_bundle) st = Inr b" "strip_crc b = strip_crc example_bundle"
proof -
  obtain p b and st :: "(string \<times> BundleMetadata) list BundleStore" where i: "GetBundleDescriptor (Bundle_ID example_bundle) st = Inr p"
    "Load rfc8949 GetExtensionBlockManager 0 p st = Inr (Some b)" "strip_crc b = strip_crc example_bundle"
    using alist.insert_load [OF rfc.cboring_lib_axioms example_store_inv example_bundle_wf example_fresh(1,2)
        example_previous_node example_fresh(3,4) example_bundle_valid] by blast
  then have "load_message example_runtime (Bundle_ID example_bundle) st = Inr b"
    by (simp add: load_message_def load_bundle_def example_runtime_def)
  then show thesis using that i(3) by blast
qed

theorem rec_fetch_complete_witness:
  "\<exists>(st :: (string \<times> BundleMetadata) list BundleStore) bank'.
     rec_handleFetch example_rec_msgpack example_runtime [Bundle_ID example_bundle] ''dtn://s/'' NTypeBroker st example_rec_bank =
       (Inr (FetchReply None [example_data]), bank') \<and>
     fst (rec_handleFetch example_rec_msgpack example_runtime [Bundle_ID example_bundle] ''dtn://d/x'' NTypeBroker st bank') =
       Inr (FetchReply None [])"
proof -
  let ?m = "[Bundle_ID example_bundle \<mapsto> False]" and ?o = "[Bundle_ID example_bundle]"
  obtain st :: "(string \<times> BundleMetadata) list BundleStore" and b where
    st: "load_message example_runtime (Bundle_ID example_bundle) st = Inr b" "strip_crc b = strip_crc example_bundle"
    by (rule example_load)
  have l: "loadable example_runtime ?o st ?m" "messages example_runtime ?o st ?m = [b]"
    using st(1) by (auto simp: loadable_def messages_def Mailbox_List_def)
  have "Bundle_Payload b = Bundle_Payload example_bundle" using strip_crc_content(1) [OF st(2)] .
  then have d: "bundle_data example_rec_msgpack (messages example_runtime ?o st Map.empty @
      messages example_runtime ?o st Map.empty @ messages example_runtime ?o st ?m) = Inr [example_data]"
    unfolding l(2) by (simp add: example_bundle_def Bundle_Payload_def NewCanonicalBlock_def example_rec_msgpack_def)
  from rec_fetch_complete [OF example_endpoints(2) _ example_rec_mailboxes(5,1,3,4) loadable_empty(1) loadable_empty(1) l(1) d
      example_endpoints(1) example_rec_mailboxes(6,2)]
  show ?thesis by auto
qed

text \<open>
  A fetch that fails half-way loses bundles: with a node type that has no multicast address, the
  client's own mailbox has already been emptied when the lookup of the multicast mailbox fails, and the reply
  reports an error and carries none of its bundles.
\<close>

lemma rec_fetch_unknown_type_loses:
  assumes "NewEndpointID uri = Inr address" "multicastAddresses nodeType = None" "bank_mailboxes bank None = None"
    "distinct order" "GetMailbox address bank = Inr m" "loadable rt order st m"
  shows "\<exists>bank'. rec_handleFetch M rt order uri nodeType st bank =
      (Inr (FetchReply (Some (MailboxError (NoSuchIDError None))) []), bank') \<and> GetMailbox address bank' = Inr Map.empty"
proof -
  have "address \<noteq> None" using NewEndpointID_wf [OF assms(1)] wf_eid_Some by blast
  then have "rec_take rt order st None (set_mailbox address Map.empty bank) = (Inl (NoSuchIDError None), set_mailbox address Map.empty bank)"
    using assms(3) by (auto simp: rec_take_def with_mailbox_def GetMailbox_def set_mailbox_def)
  then show ?thesis
    using assms(1,2) rec_take_loadable [OF assms(5,4,6)]
    by (simp add: rec_handleFetch_def multicast_address_def agent_panic_def)
qed

end
