(* ===== verification/Rest_Agent.thy ===== *)
theory Rest_Agent
  imports Agents
begin

text \<open>
  The RESTful agent (\<open>pkg/application_agent/rest_agent/rest_agent.go\<close>, \<open>messages.go\<close>). Clients are known by
  a random identifier. A request is the result of decoding its JSON body, the identifier the result of
  \<open>randomUuid\<close>. A panic in a handler, \<open>Inl\<close>, is recovered by the HTTP server, which drops the connection.
\<close>

record RestAgent =
  ra_clients :: "string \<rightharpoonup> EndpointID"
  ra_mailboxes :: MailboxBank

definition NewRestAgent :: RestAgent where
  "NewRestAgent = \<lparr>ra_clients = Map.empty, ra_mailboxes = NewMailboxBank\<rparr>"

definition rest_Deliver :: "BundleDescriptor \<Rightarrow> 'db BundleStore \<Rightarrow> RestAgent \<Rightarrow> agent_err list \<times> RestAgent" where
  "rest_Deliver bd st ra =
     (case Bank_Deliver bd st (ra_mailboxes ra) of (e, bank) \<Rightarrow> (e, ra\<lparr>ra_mailboxes := bank\<rparr>))"

text \<open>Sixteen random bytes in hexadecimal digits, in groups.\<close>

definition hex_digit :: "nat \<Rightarrow> char" where
  "hex_digit d = (if d < 10 then char_of (48 + d) else char_of (87 + d))"

definition fmt_x :: "bytes \<Rightarrow> string" where
  "fmt_x bs = concat (map (\<lambda>b. [hex_digit (unat b div 16), hex_digit (unat b mod 16)]) bs)"

definition randomUuid :: "bytes res \<Rightarrow> string res" where
  "randomUuid rand = bindR rand (\<lambda>u. Inr
     (fmt_x (take 4 u) @ ''-'' @ fmt_x (take 2 (drop 4 u)) @ ''-'' @ fmt_x (take 2 (drop 6 u)) @ ''-'' @
      fmt_x (take 2 (drop 8 u)) @ ''-'' @ fmt_x (take 6 (drop 10 u))))"

text \<open>Replies: the error, and the identifier of a new client or the fetched bundles.\<close>

definition rest_handleRegister :: "string res \<Rightarrow> bytes res \<Rightarrow> RestAgent \<Rightarrow> (reply_err option \<times> string) \<times> RestAgent" where
  "rest_handleRegister request rand ra =
     (case request of
        Inl e \<Rightarrow> ((Some (DecodeError e), []), ra)
      | Inr endpointId \<Rightarrow> (case NewEndpointID endpointId of
          Inl e \<Rightarrow> ((Some (EndpointError e), []), ra)
        | Inr eid \<Rightarrow> (case randomUuid rand of
            Inl e \<Rightarrow> ((Some (UuidError e), []), ra)
          | Inr uuid \<Rightarrow> ((None, uuid),
              ra\<lparr>ra_mailboxes := snd (Bank_Register eid (ra_mailboxes ra)), ra_clients := (ra_clients ra)(uuid \<mapsto> eid)\<rparr>))))"

definition unknown_client :: reply_err where
  "unknown_client = TextError ''REST client does not know client''"

definition rest_handleUnregister :: "string res \<Rightarrow> RestAgent \<Rightarrow> reply_err option \<times> RestAgent" where
  "rest_handleUnregister request ra =
     (case request of
        Inl _ \<Rightarrow> (None, ra)
      | Inr uuid \<Rightarrow> (case ra_clients ra uuid of
          None \<Rightarrow> (Some unknown_client, ra\<lparr>ra_clients := (ra_clients ra)(uuid := None)\<rparr>)
        | Some eid \<Rightarrow> (case Bank_Unregister eid (ra_mailboxes ra) of
            ([], bank) \<Rightarrow> (None, ra\<lparr>ra_mailboxes := bank, ra_clients := (ra_clients ra)(uuid := None)\<rparr>)
          | (e # _, bank) \<Rightarrow> (Some (MailboxError e), ra\<lparr>ra_mailboxes := bank, ra_clients := (ra_clients ra)(uuid := None)\<rparr>))))"

definition rest_handleFetch ::
    "'db runtime \<Rightarrow> BundleID list \<Rightarrow> string res \<Rightarrow> 'db BundleStore \<Rightarrow> RestAgent \<Rightarrow>
     (reply_err option \<times> Bundle list) res \<times> RestAgent" where
  "rest_handleFetch rt order request st ra =
     (case request of
        Inl e \<Rightarrow> (Inr (Some (DecodeError e), []), ra)
      | Inr uuid \<Rightarrow> (case ra_clients ra uuid of
          None \<Rightarrow> (Inr (Some unknown_client, []), ra)
        | Some eid \<Rightarrow> (case GetMailbox eid (ra_mailboxes ra) of
            Inl _ \<Rightarrow> (Inr (Some (TextError ''No mailbox registered for this eid''), []), ra)
          | Inr mailbox \<Rightarrow> (case fetch_all rt False True order st mailbox of
              (Inr bundles, mailbox) \<Rightarrow> (Inr (None, bundles), ra\<lparr>ra_mailboxes := set_mailbox eid mailbox (ra_mailboxes ra)\<rparr>)
            | (Inl e, mailbox) \<Rightarrow>
                (if agent_panic e then Inl (Panic ''panic in the store'') else Inr (Some (MailboxError e), []),
                 ra\<lparr>ra_mailboxes := set_mailbox eid mailbox (ra_mailboxes ra)\<rparr>)))))"

definition rest_handleBuild ::
    "cboring \<Rightarrow> (u64 \<Rightarrow> u64) \<Rightarrow> time \<Rightarrow> (string \<times> (string \<times> arg) list) res \<Rightarrow> IdKeeper \<Rightarrow> RestAgent \<Rightarrow>
     (reply_err option \<times> Bundle option \<times> IdKeeper) res" where
  "rest_handleBuild L conv now request idk ra =
     (case request of
        Inl e \<Rightarrow> Inr (Some (DecodeError e), None, idk)
      | Inr (uuid, args) \<Rightarrow> (case ra_clients ra uuid of
          None \<Rightarrow> Inr (Some (TextError ''Invalid UUID''), None, idk)
        | Some eid \<Rightarrow> (case BuildFromMap L conv now args of
            Inl e \<Rightarrow> if is_panic e then Inl e else Inr (Some (BuildError e), None, idk)
          | Inr b \<Rightarrow>
              if pb_SourceNode (bndl_PrimaryBlock b) \<noteq> eid \<and> pb_ReportTo (bndl_PrimaryBlock b) \<noteq> eid
              then Inr (Some (TextError ''REST client's endpoint is neither the source nor the report_to field''), None, idk)
              else (case Send b idk of (_, b, idk) \<Rightarrow> Inr (None, Some b, idk)))))"

text \<open>The callback of \<open>Range\<close> returns false, which ends the traversal after the first client.\<close>

definition rest_Endpoints :: "string list \<Rightarrow> RestAgent \<Rightarrow> EndpointID list" where
  "rest_Endpoints order ra =
     (case filter (\<lambda>uuid. ra_clients ra uuid \<noteq> None) order of
        [] \<Rightarrow> []
      | uuid # _ \<Rightarrow> (case ra_clients ra uuid of None \<Rightarrow> [] | Some eid \<Rightarrow> [eid]))"

section \<open>Properties\<close>

text \<open>Every client is registered under a well-formed endpoint.\<close>

definition rest_inv :: "RestAgent \<Rightarrow> bool" where
  "rest_inv ra \<longleftrightarrow> bank_inv (ra_mailboxes ra) \<and> (\<forall>eid \<in> ran (ra_clients ra). wf_eid eid)"

text \<open>The handlers that change the state of the agent, in any order.\<close>

inductive rest_reach :: "'db itself \<Rightarrow> RestAgent \<Rightarrow> bool" for T :: "'db itself" where
  rest_new: "rest_reach T NewRestAgent"
| rest_register: "rest_reach T ra \<Longrightarrow> rest_reach T (snd (rest_handleRegister request rand ra))"
| rest_unregister: "rest_reach T ra \<Longrightarrow> rest_reach T (snd (rest_handleUnregister request ra))"
| rest_fetch: "rest_reach T ra \<Longrightarrow> rest_reach T (snd (rest_handleFetch (rt :: 'db runtime) order request st ra))"
| rest_deliver: "rest_reach T ra \<Longrightarrow> rest_reach T (snd (rest_Deliver bd (st :: 'db BundleStore) ra))"

lemma ran_upd_subset: "ran (m(k \<mapsto> v)) \<subseteq> insert v (ran m)"
  by (auto simp: ran_def)

lemma rest_register_inv: "rest_inv ra \<Longrightarrow> rest_inv (snd (rest_handleRegister request rand ra))"
  using ran_upd_subset NewEndpointID_wf
  by (fastforce simp: rest_inv_def rest_handleRegister_def register_inv split: sum.splits)

lemma rest_unregister_inv: "rest_inv ra \<Longrightarrow> rest_inv (snd (rest_handleUnregister request ra))"
proof -
  assume inv: "rest_inv ra"
  have ran: "ran ((ra_clients ra)(uuid := None)) \<subseteq> ran (ra_clients ra)" for uuid by (auto simp: ran_def)
  show ?thesis
  proof (cases request)
    case (Inr uuid)
    show ?thesis
    proof (cases "ra_clients ra uuid")
      case None
      then show ?thesis using inv ran by (auto simp: Inr rest_inv_def rest_handleUnregister_def)
    next
      case (Some eid)
      obtain es bank where b: "Bank_Unregister eid (ra_mailboxes ra) = (es, bank)" by (cases "Bank_Unregister eid (ra_mailboxes ra)")
      then have "bank_inv bank" using register_inv(2) [of "ra_mailboxes ra" eid] inv by (simp add: rest_inv_def)
      then show ?thesis using inv ran [of uuid] b Some by (cases es) (auto simp: Inr rest_inv_def rest_handleUnregister_def)
    qed
  qed (simp add: rest_handleUnregister_def inv)
qed

lemma rest_fetch_inv: "rest_inv ra \<Longrightarrow> rest_inv (snd (rest_handleFetch rt order request st ra))"
  by (auto simp: rest_inv_def rest_handleFetch_def bank_inv_set_mailbox split: sum.split option.split prod.split)

lemma rest_deliver_inv: "rest_inv ra \<Longrightarrow> rest_inv (snd (rest_Deliver bd st ra))"
  by (auto simp: rest_inv_def rest_Deliver_def bank_inv_def Bank_Deliver_def split: sum.splits option.splits prod.splits)

lemma rest_reach_inv: "rest_reach T ra \<Longrightarrow> rest_inv ra"
  by (induction rule: rest_reach.induct)
     (simp_all add: rest_register_inv rest_unregister_inv rest_fetch_inv rest_deliver_inv,
      simp add: rest_inv_def NewRestAgent_def bank_inv_def NewMailboxBank_def)

section \<open>Correctness\<close>

text \<open>
  C21. Sending over the REST interface is tied to the registration: a bundle is handed to the manager only
  for a known client whose endpoint is the source or the report-to address of the bundle. It is the bundle the arguments of
  the request describe: destination, source, report-to address (the source when it is not given), lifetime, payload, extension
  blocks and creation time are those of their keys. It is valid, and its sequence number is the one after the last
  number the keeper has issued for its source and creation time, 0 for the first; the keeper records it. A client
  that is not known, or a failed build, sends nothing and changes nothing.
\<close>

theorem rest_build_authorised:
  assumes "rest_handleBuild L conv now request idk ra = Inr (reply, sent, idk')"
    "\<And>uuid args. request = Inr (uuid, args) \<Longrightarrow> distinct (map fst args) \<and> (\<forall>(k, a) \<in> set args. small_arg a)"
  shows "case sent of
      None \<Rightarrow> reply \<noteq> None \<and> idk' = idk
    | Some b \<Rightarrow> reply = None \<and> (\<exists>uuid args eid n. request = Inr (uuid, args) \<and> ra_clients ra uuid = Some eid \<and>
        (pb_SourceNode (bndl_PrimaryBlock b) = eid \<or> pb_ReportTo (bndl_PrimaryBlock b) = eid) \<and>
        (\<exists>a. map_of args ''destination'' = Some a \<and> bldrParseEndpoint a = Inr (pb_Destination (bndl_PrimaryBlock b))) \<and>
        (\<exists>a. map_of args ''source'' = Some a \<and> bldrParseEndpoint a = Inr (pb_SourceNode (bndl_PrimaryBlock b))) \<and>
        endpoint_field (map_of args ''report_to'') (pb_SourceNode (bndl_PrimaryBlock b)) (pb_ReportTo (bndl_PrimaryBlock b)) \<and>
        lifetime_field conv (map_of args ''lifetime'') (pb_Lifetime (bndl_PrimaryBlock b)) \<and>
        (\<exists>a. map_of args ''payload_block'' = Some a \<and> payload_arg a = Bundle_Payload b) \<and>
        cb_Value ` set (bndl_ExtensionBlocks b) = {eb. \<exists>(k, a) \<in> set args. block_of_key conv k a eb} \<and>
        Bundle_CheckValid now b = Inr [] \<and> wf_bundle GetExtensionBlockManager b \<and>
        n = (case idk (newIdTuple b) of None \<Rightarrow> 0 | Some l \<Rightarrow> l + 1) \<and> idk' = idk(newIdTuple b \<mapsto> n) \<and>
        pb_CreationTimestamp (bndl_PrimaryBlock b) = (case map_timestamp now args of None \<Rightarrow> 0 | Some t \<Rightarrow> t, n))"
proof (cases sent)
  case None
  then show ?thesis using assms(1)
    by (auto simp: rest_handleBuild_def Send_def split: sum.splits option.splits if_splits prod.splits)
next
  case (Some b)
  then obtain uuid args eid b0 i where r: "request = Inr (uuid, args)" "ra_clients ra uuid = Some eid"
    "BuildFromMap L conv now args = Inr b0" "pb_SourceNode (bndl_PrimaryBlock b0) = eid \<or> pb_ReportTo (bndl_PrimaryBlock b0) = eid"
    "Send b0 idk = (i, b, idk')" "reply = None"
    using assms(1) by (auto simp: rest_handleBuild_def split: sum.splits option.splits if_splits prod.splits)
  define n where "n = (case idk (newIdTuple b0) of None \<Rightarrow> 0 | Some l \<Rightarrow> l + 1)"
  have n: "b = set_sequence n b0" "idk' = idk(newIdTuple b0 \<mapsto> n)"
    using r(5) by (auto simp: Send_def IdKeeper_Update_def Let_def n_def)
  have same: "newIdTuple b = newIdTuple b0" by (simp add: n(1))
  have pb: "pb_ReportTo (bndl_PrimaryBlock b) = pb_ReportTo (bndl_PrimaryBlock b0)" "pb_Destination (bndl_PrimaryBlock b) = pb_Destination (bndl_PrimaryBlock b0)"
    "pb_Lifetime (bndl_PrimaryBlock b) = pb_Lifetime (bndl_PrimaryBlock b0)" "bndl_ExtensionBlocks b = bndl_ExtensionBlocks b0"
    "pb_CreationTimestamp (bndl_PrimaryBlock b) = (fst (pb_CreationTimestamp (bndl_PrimaryBlock b0)), n)"
    by (simp_all add: n(1) set_sequence_def)
  have f: "distinct (map fst args)" "\<forall>(k, a) \<in> set args. small_arg a" using assms(2) [OF r(1)] by auto
  have "n = (case idk (newIdTuple b) of None \<Rightarrow> 0 | Some l \<Rightarrow> l + 1)" by (simp add: same n_def)
  moreover have "pb_CreationTimestamp (bndl_PrimaryBlock b) = (case map_timestamp now args of None \<Rightarrow> 0 | Some t \<Rightarrow> t, n)"
    unfolding pb(5) BuildFromMap_timestamp(1) [OF r(3)] by simp
  ultimately show ?thesis unfolding Some option.case
    using r(1,2,4,6) n(2) BuildFromMap_facts [OF f r(3)] pb(1-4) same n(1)
    by (intro conjI exI [of _ uuid] exI [of _ args] exI [of _ eid] exI [of _ n]) auto
qed

theorem rest_build_authorised_witness:
  "\<exists>b idk'. rest_handleBuild rfc8949 (\<lambda>_. 0) example_now (Inr (''u'', example_map)) [(example_src, 1000) \<mapsto> 6]
       (NewRestAgent\<lparr>ra_clients := [''u'' \<mapsto> example_src]\<rparr>) = Inr (None, Some b, idk') \<and>
     pb_Destination (bndl_PrimaryBlock b) = example_dst \<and> pb_SourceNode (bndl_PrimaryBlock b) = example_src \<and>
     pb_Lifetime (bndl_PrimaryBlock b) = 3600000 \<and> pb_CreationTimestamp (bndl_PrimaryBlock b) = (1000, 7) \<and>
     Bundle_CheckValid example_now b = Inr [] \<and> Bundle_Payload b = Inr (bytes_of ''hi'') \<and> idk' (example_src, 1000) = Some 7"
proof -
  let ?ra = "NewRestAgent\<lparr>ra_clients := [''u'' \<mapsto> example_src]\<rparr>"
  let ?idk = "[(example_src, 1000) \<mapsto> 6] :: IdKeeper"
  have m: "distinct (map fst example_map)" "\<forall>(k, a) \<in> set example_map. small_arg a"
    by (simp_all add: example_map_def small_arg_def)
  obtain b0 where b0: "BuildFromMap rfc8949 (\<lambda>_. 0) example_now example_map = Inr b0" using example_build by blast
  have src: "pb_SourceNode (bndl_PrimaryBlock b0) = example_src"
    using BuildFromMap_facts [OF m b0] by (auto simp: example_map_def bldrParseEndpoint_def example_endpoints)
  obtain i b idk' where s: "Send b0 ?idk = (i, b, idk')" by (metis prod_cases3)
  have h: "rest_handleBuild rfc8949 (\<lambda>_. 0) example_now (Inr (''u'', example_map)) ?idk ?ra = Inr (None, Some b, idk')"
    using b0 src s by (simp add: rest_handleBuild_def)
  have t: "map_timestamp example_now example_map = Some 1000" by (simp add: example_map_def key_timestamp_def example_time)
  note * = rest_build_authorised [OF h, unfolded option.case]
  have b: "pb_Destination (bndl_PrimaryBlock b) = example_dst" "pb_SourceNode (bndl_PrimaryBlock b) = example_src"
    "pb_Lifetime (bndl_PrimaryBlock b) = 3600000" "Bundle_CheckValid example_now b = Inr []" "Bundle_Payload b = Inr (bytes_of ''hi'')"
    using * m by (auto simp: example_map_def payload_arg_def binary_Write_def bldrParseEndpoint_def example_endpoints lifetime_field_def
        bldrParseLifetime_def ParseDuration_hours quot_def u64_of_int_def)
  obtain n where n: "n = (case ?idk (newIdTuple b) of None \<Rightarrow> 0 | Some l \<Rightarrow> l + 1)" "idk' = ?idk(newIdTuple b \<mapsto> n)"
    "pb_CreationTimestamp (bndl_PrimaryBlock b) = (1000, n)" using * m t by auto
  then have "newIdTuple b = (example_src, 1000)" using b(2) by (simp add: newIdTuple_def CreationTimestamp_DtnTime_def)
  then show ?thesis using h b n by auto
qed

text \<open>
  Clients of one endpoint share its mailbox without knowing: a second registration succeeds under an
  identifier of its own, because the error of the bank is dropped; when the first client unregisters, the
  mailbox is gone, and the second, still registered, can no longer fetch.
\<close>

lemma rest_shared_endpoint:
  assumes "NewEndpointID uri = Inr eid" "bank_mailboxes (ra_mailboxes ra) eid = None"
    "randomUuid r1 = Inr u1" "randomUuid r2 = Inr u2" "u1 \<noteq> u2"
    "rest_handleRegister (Inr uri) r1 ra = (reply1, ra1)" "rest_handleRegister (Inr uri) r2 ra1 = (reply2, ra2)"
    "rest_handleUnregister (Inr u1) ra2 = (reply3, ra3)"
  shows "reply1 = (None, u1) \<and> reply2 = (None, u2) \<and> reply3 = None \<and> ra_clients ra3 u2 = Some eid \<and>
    fst (rest_handleFetch rt order (Inr u2) st ra3) = Inr (Some (TextError ''No mailbox registered for this eid''), [])"
proof -
  have 1: "reply1 = (None, u1)" "bank_mailboxes (ra_mailboxes ra1) eid = Some NewMailbox" "ra_clients ra1 u1 = Some eid"
    using assms(1-3,6) by (auto simp: rest_handleRegister_def Bank_Register_def)
  have 2: "reply2 = (None, u2)" "bank_mailboxes (ra_mailboxes ra2) eid \<noteq> None" "ra_clients ra2 u1 = Some eid" "ra_clients ra2 u2 = Some eid"
    using assms(1,4,5,7) 1 by (auto simp: rest_handleRegister_def Bank_Register_def)
  have 3: "reply3 = None" "bank_mailboxes (ra_mailboxes ra3) eid = None" "ra_clients ra3 u2 = Some eid"
    using assms(5,8) 2 by (auto simp: rest_handleUnregister_def Bank_Unregister_def)
  show ?thesis using 1 2 3 by (simp add: rest_handleFetch_def GetMailbox_def)
qed

text \<open>However many clients are registered, the agent reports at most one endpoint.\<close>

lemma rest_Endpoints_at_most_one: "length (rest_Endpoints order ra) \<le> 1"
  by (simp add: rest_Endpoints_def split: list.split option.split)

end
