(* ===== verification/Agent_Server.thy ===== *)
theory Agent_Server
  imports Unix_Agent Rec_Agent Rest_Agent
begin

text \<open>
  Starting, running and stopping the application agents (\<open>Start\<close>, \<open>listen\<close>, \<open>Shutdown\<close> and \<open>GC\<close> of
  \<open>unix_agent.go\<close>, \<open>rec_agent.go\<close> and \<open>rest_agent.go\<close>). The agents on UNIX sockets run a goroutine that
  accepts connections; its points between two calls are the states of a step relation, in which a
  shutdown by another goroutine may come in at any point. The socket is a library object: whether it can
  be opened, whether setting a deadline fails and which connection arrives within it are arguments.
\<close>

section \<open>Agents on a socket\<close>

datatype loop_point = Unstarted | Selecting | SettingDeadline | AcceptingConn | Ended

text \<open>
  The fields of an agent that the loop shares with \<open>Shutdown\<close>: whether the stop channel is closed, the
  listener, which is nil before \<open>Start\<close> and open or closed afterwards, the loop itself, and the
  connections handed to \<open>handleConnection\<close>.
\<close>

record 'conn agent_server =
  as_stopChan :: bool
  as_listener :: "bool option"
  as_loop :: loop_point
  as_handled :: "'conn list"

definition new_server :: "'conn agent_server" where
  "new_server = \<lparr>as_stopChan = False, as_listener = None, as_loop = Unstarted, as_handled = []\<rparr>"

definition closed_channel :: err where
  "closed_channel = Panic ''close of closed channel''"

definition close_stopChan :: "'conn agent_server \<Rightarrow> 'conn agent_server res" where
  "close_stopChan s = (if as_stopChan s then Inl closed_channel else Inr (s\<lparr>as_stopChan := True\<rparr>))"

text \<open>Closing a nil or closed listener returns an error, which is dropped.\<close>

definition close_listener :: "'conn agent_server \<Rightarrow> 'conn agent_server" where
  "close_listener s = s\<lparr>as_listener := map_option (\<lambda>_. False) (as_listener s)\<rparr>"

definition UNIXAgent_Start :: "unit res \<Rightarrow> 'conn agent_server \<Rightarrow> 'conn agent_server res" where
  "UNIXAgent_Start ListenUnix agent =
     bindR ListenUnix (\<lambda>_. Inr (agent\<lparr>as_listener := Some True, as_loop := Selecting\<rparr>))"

definition UNIXAgent_Shutdown :: "'conn agent_server \<Rightarrow> 'conn agent_server res" where
  "UNIXAgent_Shutdown agent = bindR (close_stopChan agent) (\<lambda>agent. Inr (close_listener agent))"

text \<open>
  What \<open>listen\<close> does up to its next call: the select statement, \<open>SetDeadline\<close>, which fails on a closed
  listener, and \<open>Accept\<close>, which returns an error on a closed listener and after the deadline.
\<close>

definition UNIXAgent_listen :: "bool \<Rightarrow> 'conn option \<Rightarrow> 'conn agent_server \<Rightarrow> 'conn agent_server res" where
  "UNIXAgent_listen deadline_ok accepted agent =
     (case as_loop agent of
        Selecting \<Rightarrow>
          Inr (if as_stopChan agent then agent\<lparr>as_loop := Ended\<rparr> else agent\<lparr>as_loop := SettingDeadline\<rparr>)
      | SettingDeadline \<Rightarrow>
          if as_listener agent = Some True \<and> deadline_ok then Inr (agent\<lparr>as_loop := AcceptingConn\<rparr>)
          else bindR (UNIXAgent_Shutdown agent) (\<lambda>agent. Inr (agent\<lparr>as_loop := Selecting\<rparr>))
      | AcceptingConn \<Rightarrow>
          Inr (case (if as_listener agent = Some True then accepted else None) of
                 Some conn \<Rightarrow> agent\<lparr>as_handled := as_handled agent @ [conn], as_loop := Selecting\<rparr>
               | None \<Rightarrow> agent\<lparr>as_loop := Selecting\<rparr>)
      | _ \<Rightarrow> Inr agent)"

definition RECAgent_Start :: "unit res \<Rightarrow> 'conn agent_server \<Rightarrow> 'conn agent_server res" where
  "RECAgent_Start ListenUnix agent =
     bindR ListenUnix (\<lambda>_. Inr (agent\<lparr>as_listener := Some True, as_loop := Selecting\<rparr>))"

definition RECAgent_Shutdown :: "'conn agent_server \<Rightarrow> 'conn agent_server res" where
  "RECAgent_Shutdown agent = bindR (close_stopChan agent) (\<lambda>agent. Inr (close_listener agent))"

definition RECAgent_listen :: "bool \<Rightarrow> 'conn option \<Rightarrow> 'conn agent_server \<Rightarrow> 'conn agent_server res" where
  "RECAgent_listen deadline_ok accepted agent =
     (case as_loop agent of
        Selecting \<Rightarrow>
          Inr (if as_stopChan agent then agent\<lparr>as_loop := Ended\<rparr> else agent\<lparr>as_loop := SettingDeadline\<rparr>)
      | SettingDeadline \<Rightarrow>
          if as_listener agent = Some True \<and> deadline_ok then Inr (agent\<lparr>as_loop := AcceptingConn\<rparr>)
          else bindR (RECAgent_Shutdown agent) (\<lambda>agent. Inr (agent\<lparr>as_loop := Selecting\<rparr>))
      | AcceptingConn \<Rightarrow>
          Inr (case (if as_listener agent = Some True then accepted else None) of
                 Some conn \<Rightarrow> agent\<lparr>as_handled := as_handled agent @ [conn], as_loop := Selecting\<rparr>
               | None \<Rightarrow> agent\<lparr>as_loop := Selecting\<rparr>)
      | _ \<Rightarrow> Inr agent)"

text \<open>\<open>GC\<close> of an agent is that of its mailboxes, which starts a goroutine for each of them.\<close>

definition Bank_GC_all :: "BundleID list \<Rightarrow> 'db BundleStore \<Rightarrow> MailboxBank \<Rightarrow> MailboxBank" where
  "Bank_GC_all order st bank = fold (\<lambda>eid. Bank_GC eid order st) (bank_registeredIDs bank) bank"

definition UNIXAgent_GC :: "BundleID list \<Rightarrow> 'db BundleStore \<Rightarrow> MailboxBank \<Rightarrow> MailboxBank" where
  "UNIXAgent_GC order st mailboxes = Bank_GC_all order st mailboxes"

definition RECAgent_GC :: "BundleID list \<Rightarrow> 'db BundleStore \<Rightarrow> MailboxBank \<Rightarrow> MailboxBank" where
  "RECAgent_GC order st mailboxes = Bank_GC_all order st mailboxes"

text \<open>\<open>GC\<close> of the manager: one goroutine for every agent, all of which have run.\<close>

definition Manager_GC :: "BundleID list \<Rightarrow> 'db BundleStore \<Rightarrow> Agents \<Rightarrow> Agents" where
  "Manager_GC order st agents = (\<lambda>name. map_option (Bank_GC_all order st) (agents name))"

section \<open>The REST agent\<close>

text \<open>\<open>Start\<close> returns before the server listens, the error of which is dropped; \<open>Shutdown\<close> does nothing.\<close>

definition RestAgent_Start :: "bool \<Rightarrow> bool \<Rightarrow> unit res \<times> bool" where
  "RestAgent_Start listen_ok serving = (Inr (), serving \<or> listen_ok)"

definition RestAgent_Shutdown :: "bool \<Rightarrow> bool" where
  "RestAgent_Shutdown serving = serving"

definition RestAgent_GC :: "BundleID list \<Rightarrow> 'db BundleStore \<Rightarrow> RestAgent \<Rightarrow> RestAgent" where
  "RestAgent_GC order st ra = ra\<lparr>ra_mailboxes := Bank_GC_all order st (ra_mailboxes ra)\<rparr>"

section \<open>Interleaving with a shutdown\<close>

text \<open>
  A step of an agent: the loop goes on, or another goroutine is at one of the two effects of \<open>Shutdown\<close>.
  \<open>Inl\<close> is a panic, which ends the daemon.
\<close>

inductive server_step ::
    "(bool \<Rightarrow> 'conn option \<Rightarrow> 'conn agent_server \<Rightarrow> 'conn agent_server res) \<Rightarrow> 'conn agent_server \<Rightarrow> 'conn agent_server res \<Rightarrow> bool"
    for listen where
  loops: "server_step listen s (listen deadline_ok accepted s)"
| stops: "server_step listen s (close_stopChan s)"
| closes: "as_stopChan s \<Longrightarrow> server_step listen s (Inr (close_listener s))"

inductive server_reach ::
    "(bool \<Rightarrow> 'conn option \<Rightarrow> 'conn agent_server \<Rightarrow> 'conn agent_server res) \<Rightarrow> 'conn agent_server \<Rightarrow> 'conn agent_server \<Rightarrow> bool"
    for listen s0 where
  start: "server_reach listen s0 s0"
| step: "server_reach listen s0 s \<Longrightarrow> server_step listen s (Inr s') \<Longrightarrow> server_reach listen s0 s'"

text \<open>Rounds of the loop alone, each with what the socket does in it.\<close>

fun rounds ::
    "(bool \<Rightarrow> 'conn option \<Rightarrow> 'conn agent_server \<Rightarrow> 'conn agent_server res) \<Rightarrow> (bool \<times> 'conn option) list \<Rightarrow>
     'conn agent_server \<Rightarrow> 'conn agent_server res" where
  "rounds listen [] s = Inr s"
| "rounds listen ((deadline_ok, accepted) # es) s = bindR (listen deadline_ok accepted s) (rounds listen es)"

definition server_inv :: "'conn agent_server \<Rightarrow> bool" where
  "server_inv s \<longleftrightarrow> as_loop s \<noteq> Unstarted \<and> as_listener s \<noteq> None \<and> (as_loop s = Ended \<longrightarrow> as_stopChan s) \<and>
     (\<not> as_stopChan s \<longrightarrow> as_listener s = Some True)"

definition taken :: "'conn option \<Rightarrow> 'conn agent_server \<Rightarrow> 'conn list" where
  "taken conn s = (if as_listener s = Some True then (case conn of None \<Rightarrow> [] | Some c \<Rightarrow> [c]) else [])"

text \<open>The contract of an agent with such a loop, from which the following lemmas are proved for all of them.\<close>

locale socket_agent =
  fixes start_agent :: "unit res \<Rightarrow> 'conn agent_server \<Rightarrow> 'conn agent_server res"
    and shutdown_agent :: "'conn agent_server \<Rightarrow> 'conn agent_server res"
    and listen :: "bool \<Rightarrow> 'conn option \<Rightarrow> 'conn agent_server \<Rightarrow> 'conn agent_server res"
  assumes start_inv: "\<not> as_stopChan s \<Longrightarrow> start_agent (Inr ()) s = Inr s' \<Longrightarrow>
      server_inv s' \<and> as_loop s' = Selecting \<and> \<not> as_stopChan s' \<and> as_handled s' = as_handled s"
    and shutdown_open: "\<not> as_stopChan s \<Longrightarrow> shutdown_agent s = Inr (close_listener (s\<lparr>as_stopChan := True\<rparr>))"
    and shutdown_closed: "as_stopChan s \<Longrightarrow> shutdown_agent s = Inl closed_channel"
    and listen_selecting: "as_loop s = Selecting \<Longrightarrow>
      listen ok conn s = Inr (s\<lparr>as_loop := if as_stopChan s then Ended else SettingDeadline\<rparr>)"
    and listen_deadline: "as_loop s = SettingDeadline \<Longrightarrow> as_listener s = Some True \<Longrightarrow>
      listen True conn s = Inr (s\<lparr>as_loop := AcceptingConn\<rparr>)"
    and listen_fails: "as_loop s = SettingDeadline \<Longrightarrow> \<not> (as_listener s = Some True \<and> ok) \<Longrightarrow>
      listen ok conn s = bindR (shutdown_agent s) (\<lambda>s. Inr (s\<lparr>as_loop := Selecting\<rparr>))"
    and listen_takes: "as_loop s = AcceptingConn \<Longrightarrow>
      listen ok conn s = Inr (s\<lparr>as_loop := Selecting, as_handled := as_handled s @ taken conn s\<rparr>)"
    and listen_ended: "as_loop s = Ended \<Longrightarrow> listen ok conn s = Inr s"
begin

lemma listen_accepts:
  "as_loop s = AcceptingConn \<Longrightarrow>
    \<exists>cs. listen ok conn s = Inr (s\<lparr>as_loop := Selecting, as_handled := as_handled s @ cs\<rparr>) \<and>
      length cs \<le> (if as_listener s = Some True then 1 else 0)"
  using listen_takes [of s ok conn] by (intro exI [of _ "taken conn s"]) (auto simp: taken_def split: option.split)

lemma listen_inv:
  assumes "server_inv s" "listen ok conn s = Inr s'"
  shows "server_inv s' \<and> (as_stopChan s \<longrightarrow> as_stopChan s')"
proof (cases "as_loop s")
  case SettingDeadline
  show ?thesis
  proof (cases "as_listener s = Some True \<and> ok")
    case True
    then show ?thesis using assms SettingDeadline listen_deadline [of s conn] by (auto simp: server_inv_def)
  next
    case False
    then show ?thesis using assms SettingDeadline listen_fails [of s ok conn] shutdown_open [of s] shutdown_closed [of s]
      by (cases "as_stopChan s") (auto simp: server_inv_def close_listener_def)
  qed
next
  case AcceptingConn
  then show ?thesis using assms listen_accepts [of s ok conn] by (auto simp: server_inv_def)
qed (use assms listen_selecting [of s ok conn] listen_ended [of s ok conn] in \<open>auto simp: server_inv_def split: if_splits\<close>)

lemma step_inv:
  assumes "server_inv s" "server_step listen s (Inr s')"
  shows "server_inv s'"
  using assms(2)
proof cases
  case (loops ok conn)
  then show ?thesis using listen_inv [OF assms(1), of ok conn] by simp
qed (use assms(1) in \<open>auto simp: server_inv_def close_stopChan_def close_listener_def split: if_splits\<close>)

lemma reach_inv: "server_reach listen s0 s \<Longrightarrow> server_inv s0 \<Longrightarrow> server_inv s"
  by (induction rule: server_reach.induct) (auto intro: step_inv)

text \<open>The loop panics only where it finds the listener unusable after the stop channel was closed.\<close>

lemma listen_panics:
  assumes "server_inv s" "listen ok conn s = Inl e"
  shows "e = closed_channel \<and> as_loop s = SettingDeadline \<and> as_stopChan s"
proof (cases "as_loop s")
  case SettingDeadline
  then have f: "\<not> (as_listener s = Some True \<and> ok)" using assms(2) listen_deadline [of s conn] by auto
  then show ?thesis using assms(2) SettingDeadline listen_fails [OF SettingDeadline f, of conn] shutdown_open [of s] shutdown_closed [of s]
    by (cases "as_stopChan s") auto
next
  case AcceptingConn
  then show ?thesis using assms listen_accepts [of s ok conn] by auto
qed (use assms listen_selecting [of s ok conn] listen_ended [of s ok conn] in \<open>auto simp: server_inv_def\<close>)

lemma ended_rounds: "as_loop s = Ended \<Longrightarrow> rounds listen es s = Inr s"
  by (induction es) (auto simp: listen_ended)

lemma selecting_rounds:
  assumes "as_loop s = Selecting" "as_stopChan s" "es \<noteq> []"
  shows "rounds listen es s = Inr (s\<lparr>as_loop := Ended\<rparr>)"
proof (cases es)
  case (Cons e es')
  then show ?thesis using assms listen_selecting [OF assms(1)] by (cases e) (simp add: ended_rounds)
qed (use assms in simp)

lemma accepting_rounds:
  assumes "as_loop s = AcceptingConn" "as_stopChan s" "2 \<le> length es"
  shows "\<exists>cs. rounds listen es s = Inr (s\<lparr>as_loop := Ended, as_handled := as_handled s @ cs\<rparr>) \<and>
    length cs \<le> (if as_listener s = Some True then 1 else 0)"
proof -
  obtain ok conn es' where es: "es = (ok, conn) # es'" "es' \<noteq> []" using assms(3) by (cases es) force+
  show ?thesis using assms listen_accepts [OF assms(1), of ok conn] selecting_rounds [OF _ _ es(2)] by (force simp: es(1))
qed

text \<open>
  Once the stop channel is closed, three rounds end the loop, with at most one more connection and with
  none if the listener is closed, or the second call of \<open>Shutdown\<close> panics.
\<close>

lemma stopped_ends:
  assumes "server_inv s" "as_stopChan s" "3 \<le> length es"
  shows "case rounds listen es s of
      Inr s' \<Rightarrow> as_loop s' = Ended \<and> (\<exists>cs. as_handled s' = as_handled s @ cs \<and> length cs \<le> (if as_listener s = Some True then 1 else 0))
    | Inl e \<Rightarrow> e = closed_channel \<and> as_loop s = SettingDeadline"
proof (cases "as_loop s")
  case SettingDeadline
  obtain ok conn es' where es: "es = (ok, conn) # es'" "2 \<le> length es'" using assms(3) by (cases es) force+
  show ?thesis
  proof (cases "as_listener s = Some True \<and> ok")
    case True
    then have "listen ok conn s = Inr (s\<lparr>as_loop := AcceptingConn\<rparr>)" using SettingDeadline listen_deadline by simp
    moreover obtain cs where "rounds listen es' (s\<lparr>as_loop := AcceptingConn\<rparr>) =
        Inr (s\<lparr>as_loop := Ended, as_handled := as_handled s @ cs\<rparr>)" "length cs \<le> 1"
      using accepting_rounds [of "s\<lparr>as_loop := AcceptingConn\<rparr>" es'] assms(2) es(2) True by auto
    ultimately show ?thesis using True by (simp add: es(1))
  next
    case False
    then have "listen ok conn s = Inl closed_channel"
      using listen_fails [OF SettingDeadline False] shutdown_closed [OF assms(2)] by simp
    then show ?thesis using SettingDeadline by (simp add: es(1))
  qed
next
  case AcceptingConn
  then show ?thesis using accepting_rounds [OF AcceptingConn assms(2), of es] assms(3) by auto
next
  case Selecting
  then show ?thesis using selecting_rounds [OF Selecting assms(2), of es] assms(3) by force
qed (use assms(1) in \<open>auto simp: server_inv_def ended_rounds\<close>)

text \<open>A shutdown between the select statement and \<open>SetDeadline\<close> makes the loop panic.\<close>

lemma shutdown_race:
  assumes "as_loop s = Selecting" "\<not> as_stopChan s"
  shows "\<exists>s1 s2 s3. server_step listen s (Inr s1) \<and> server_step listen s1 (Inr s2) \<and> server_step listen s2 (Inr s3) \<and>
    shutdown_agent s1 = Inr s3 \<and> listen True None s3 = Inl closed_channel"
proof -
  let ?s1 = "s\<lparr>as_loop := SettingDeadline\<rparr>"
  let ?s2 = "?s1\<lparr>as_stopChan := True\<rparr>"
  have "server_step listen s (Inr ?s1)" using server_step.loops [of listen s True None] listen_selecting [OF assms(1)] assms(2) by simp
  moreover have "server_step listen ?s1 (Inr ?s2)" using server_step.stops [of listen ?s1] assms(2) by (simp add: close_stopChan_def)
  moreover have "server_step listen ?s2 (Inr (close_listener ?s2))" by (rule server_step.closes) simp
  moreover have "shutdown_agent ?s1 = Inr (close_listener ?s2)" using shutdown_open [of ?s1] assms(2) by simp
  moreover have "listen True None (close_listener ?s2) = Inl closed_channel"
    using listen_fails [of "close_listener ?s2" True None] shutdown_closed [of "close_listener ?s2"] by (simp add: close_listener_def)
  ultimately show ?thesis by blast
qed

end

interpretation unix_server: socket_agent UNIXAgent_Start UNIXAgent_Shutdown UNIXAgent_listen
  by unfold_locales
    (auto simp: UNIXAgent_Start_def UNIXAgent_Shutdown_def UNIXAgent_listen_def close_stopChan_def server_inv_def taken_def split: option.splits)

interpretation rec_server: socket_agent RECAgent_Start RECAgent_Shutdown RECAgent_listen
  by unfold_locales
    (auto simp: RECAgent_Start_def RECAgent_Shutdown_def RECAgent_listen_def close_stopChan_def server_inv_def taken_def split: option.splits)

section \<open>Correctness\<close>

text \<open>How the loop goes on, alone, from a state in which the stop channel is closed.\<close>

definition stop_outcome ::
    "(bool \<Rightarrow> 'conn option \<Rightarrow> 'conn agent_server \<Rightarrow> 'conn agent_server res) \<Rightarrow> (bool \<times> 'conn option) list \<Rightarrow> 'conn agent_server \<Rightarrow> bool" where
  "stop_outcome listen es s =
     (case rounds listen es s of
        Inr s' \<Rightarrow> as_loop s' = Ended \<and> take (length (as_handled s)) (as_handled s') = as_handled s \<and>
          length (as_handled s') \<le> length (as_handled s) + (if as_listener s = Some True then 1 else 0)
      | Inl e \<Rightarrow> e = closed_channel \<and> as_loop s = SettingDeadline)"

lemma stop_outcomeI:
  assumes "case rounds listen es s of
      Inr s' \<Rightarrow> as_loop s' = Ended \<and> (\<exists>cs. as_handled s' = as_handled s @ cs \<and> length cs \<le> (if as_listener s = Some True then 1 else 0))
    | Inl e \<Rightarrow> e = closed_channel \<and> as_loop s = SettingDeadline"
  shows "stop_outcome listen es s"
  using assms by (auto simp: stop_outcome_def split: sum.splits)

text \<open>
  C34. The agents on UNIX sockets stop: in every state that a started agent reaches, under any
  interleaving of its loop with calls of \<open>Shutdown\<close>, the listener is open and the loop runs as long as the
  stop channel is open. Once it is closed, three rounds of the loop end it whatever the socket does; it
  takes at most one more connection, and none if the listener is closed as well. The only other outcome
  is the panic of a loop that was between its select statement and \<open>SetDeadline\<close>, where it calls
  \<open>Shutdown\<close> once more.
\<close>

theorem agents_stop:
  assumes "UNIXAgent_Start (Inr ()) new_server = Inr u0" "server_reach UNIXAgent_listen u0 u"
    "RECAgent_Start (Inr ()) new_server = Inr r0" "server_reach RECAgent_listen r0 r" "3 \<le> length es"
  shows "(if as_stopChan u then stop_outcome UNIXAgent_listen es u else as_listener u = Some True \<and> as_loop u \<noteq> Ended) \<and>
    (if as_stopChan r then stop_outcome RECAgent_listen es r else as_listener r = Some True \<and> as_loop r \<noteq> Ended)"
proof -
  have "server_inv u" "server_inv r"
    using unix_server.reach_inv [OF assms(2)] unix_server.start_inv [OF _ assms(1)]
      rec_server.reach_inv [OF assms(4)] rec_server.start_inv [OF _ assms(3)] by (simp_all add: new_server_def)
  then show ?thesis
    using unix_server.stopped_ends [of u es, THEN stop_outcomeI] rec_server.stopped_ends [of r es, THEN stop_outcomeI] assms(5)
    by (auto simp: server_inv_def)
qed

theorem agents_stop_witness:
  "\<exists>s :: nat agent_server. server_reach UNIXAgent_listen \<lparr>as_stopChan = False, as_listener = Some True, as_loop = Selecting, as_handled = []\<rparr> s \<and>
     as_stopChan s \<and> stop_outcome UNIXAgent_listen [(True, Some 7), (True, None), (False, Some 8)] s \<and>
     rounds UNIXAgent_listen [(True, Some 7), (True, None), (False, Some 8)] s =
       Inr \<lparr>as_stopChan = True, as_listener = Some False, as_loop = Ended, as_handled = []\<rparr>"
proof -
  let ?a = "\<lparr>as_stopChan = False, as_listener = Some True, as_loop = Selecting, as_handled = []\<rparr> :: nat agent_server"
  let ?b = "?a\<lparr>as_stopChan := True\<rparr>"
  let ?c = "close_listener ?b"
  have "server_reach UNIXAgent_listen ?a ?b"
    by (rule server_reach.step [OF server_reach.start]) (use server_step.stops [of UNIXAgent_listen ?a] in \<open>simp add: close_stopChan_def\<close>)
  then have r: "server_reach UNIXAgent_listen ?a ?c"
    by (rule server_reach.step) (rule server_step.closes, simp)
  have "stop_outcome UNIXAgent_listen [(True, Some 7), (True, None), (False, Some 8)] ?c"
    using agents_stop [OF _ r _ server_reach.start, of ?a "[(True, Some 7), (True, None), (False, Some 8)]"]
    by (simp add: UNIXAgent_Start_def RECAgent_Start_def new_server_def close_listener_def)
  then show ?thesis
    using r by (intro exI [of _ ?c]) (simp add: UNIXAgent_listen_def close_listener_def)
qed

text \<open>The race is reachable: a started agent that is shut down right after its first select statement panics.\<close>

lemma unix_shutdown_race:
  assumes "UNIXAgent_Start (Inr ()) new_server = Inr s0"
  shows "\<exists>s1 s3. server_reach UNIXAgent_listen s0 s1 \<and> UNIXAgent_Shutdown s1 = Inr s3 \<and>
    server_reach UNIXAgent_listen s0 s3 \<and> UNIXAgent_listen True None s3 = Inl closed_channel"
proof -
  have "as_loop s0 = Selecting" "\<not> as_stopChan s0" using unix_server.start_inv [OF _ assms] by (simp_all add: new_server_def)
  from unix_server.shutdown_race [OF this] show ?thesis by (meson server_reach.intros)
qed

lemma rec_shutdown_race:
  assumes "RECAgent_Start (Inr ()) new_server = Inr s0"
  shows "\<exists>s1 s3. server_reach RECAgent_listen s0 s1 \<and> RECAgent_Shutdown s1 = Inr s3 \<and>
    server_reach RECAgent_listen s0 s3 \<and> RECAgent_listen True None s3 = Inl closed_channel"
proof -
  have "as_loop s0 = Selecting" "\<not> as_stopChan s0" using rec_server.start_inv [OF _ assms] by (simp_all add: new_server_def)
  from rec_server.shutdown_race [OF this] show ?thesis by (meson server_reach.intros)
qed

text \<open>A REST agent that cannot listen starts successfully, and one that serves goes on after its shutdown.\<close>

lemma rest_agent_lifecycle:
  "RestAgent_Start False False = (Inr (), False)"
  "RestAgent_Start True False = (Inr (), True) \<and> RestAgent_Shutdown (snd (RestAgent_Start True False))"
  by (simp_all add: RestAgent_Start_def RestAgent_Shutdown_def)

end
