(* ===== verification/Daemon.thy ===== *)
theory Daemon
  imports Config Agent_Server
begin

text \<open>
  Starting and stopping the daemon (\<open>cmd/dtnd/main.go\<close>): the components are initialised in the order of
  \<open>startDtnd\<close>, and errors are collected. What the operating system and third-party packages do is a
  record of outcomes. The result is the state the daemon starts with; \<open>Inl\<close> stands for a panic or
  \<open>log.Fatal\<close>, which end the process.
\<close>

section \<open>The environment\<close>

record 'db start_env =
  sv_db :: "'db res"
  sv_files :: "string \<rightharpoonup> bytes"
  sv_rest_start :: bool
  sv_unix_resolve :: bool
  sv_unix_start :: bool
  sv_rec_resolve :: bool
  sv_rec_start :: bool
  sv_listen :: "string \<Rightarrow> bool"
  sv_discover :: "string \<Rightarrow> err option"
  sv_scheduler :: bool
  sv_job :: "int \<Rightarrow> bool"

record 'db started =
  sd_store :: "'db BundleStore option"
  sd_idKeeper :: IdKeeper
  sd_algorithm :: Algorithm
  sd_agents :: Agents
  sd_manager :: Manager
  sd_discovery :: "DiscoveryManager option"
  sd_jobs :: "(string \<times> int) list"

section \<open>Steps\<close>

definition start_store :: "'db badgerhold \<Rightarrow> 'db start_env \<Rightarrow> EndpointID \<Rightarrow> err list \<times> 'db BundleStore option" where
  "start_store D env nodeID =
     (case bindR (sv_db env) (\<lambda>db. InitialiseStore D nodeID db (sv_files env)) of
        Inl e \<Rightarrow> ([Wrapf ''Error initialising store'' e], None)
      | Inr st \<Rightarrow> ([], Some st))"

text \<open>An unknown algorithm leaves the interface nil, and initialising the singleton with nil is fatal.\<close>

definition InitialiseAlgorithm :: "Algorithm option \<Rightarrow> Algorithm option \<Rightarrow> Algorithm res" where
  "InitialiseAlgorithm algorithmSingleton algorithm =
     (if algorithmSingleton \<noteq> None then Inl (Panic ''log.Fatalf: Attempting to initialise an already initialised algorithm'')
      else case algorithm of
        None \<Rightarrow> Inl (Panic ''log.Fatalf: Attempting to initialise algorithm with nil'')
      | Some algorithm \<Rightarrow> Inr algorithm)"

definition start_algorithm :: "'level config \<Rightarrow> Algorithm res" where
  "start_algorithm conf = InitialiseAlgorithm None
     (if cfg_Algorithm conf = AlgorithmEpidemic then Some EpidemicRouting
      else if cfg_Algorithm conf = AlgorithmSprayAndWait
      then Some (NewSprayAndWait (rsc_Copies (cfg_Spray conf)) (rsc_Binary (cfg_Spray conf)))
      else None)"

definition agent_name :: "string \<Rightarrow> string \<Rightarrow> string" where
  "agent_name kind address = kind @ ''('' @ address @ '')''"

definition registration_errors :: "string \<Rightarrow> agent_err list \<Rightarrow> err list" where
  "registration_errors msg es = map (\<lambda>_. Errorf msg) es"

definition start_rest :: "'db start_env \<Rightarrow> string \<Rightarrow> Agents \<Rightarrow> err list \<times> Agents" where
  "start_rest env address agents =
     (if address = [] then ([], agents)
      else (case RegisterAgent (sv_rest_start env) (agent_name ''RestAgent'' address) (ra_mailboxes NewRestAgent) agents of
        (es, agents) \<Rightarrow> (registration_errors ''Error registering REST application agent'' es, agents)))"

text \<open>After a failed constructor the nil agent is registered all the same, and its name is read.\<close>

definition start_unix :: "'db start_env \<Rightarrow> string \<Rightarrow> Agents \<Rightarrow> (err list \<times> Agents) res" where
  "start_unix env socket agents =
     (if socket = [] then Inr ([], agents)
      else if \<not> sv_unix_resolve env then Inl (Panic ''nil pointer dereference: listenAddress'')
      else (case RegisterAgent (sv_unix_start env) (agent_name ''UNIXAgent'' socket) NewUNIXAgent agents of
        (es, agents) \<Rightarrow> Inr (registration_errors ''Error registering UNIX application agent'' es, agents)))"

definition start_rec :: "'db start_env \<Rightarrow> string \<Rightarrow> Agents \<Rightarrow> Agents res" where
  "start_rec env socket agents =
     (if socket = [] then Inr agents
      else if \<not> sv_rec_resolve env then Inl (Panic ''log.Fatal: Error creating REC application agent'')
      else (case RegisterAgent (sv_rec_start env) (agent_name ''RECAgent'' socket) NewRECAgent agents of
        (es, agents) \<Rightarrow> if es = [] then Inr agents else Inl (Panic ''log.Fatal: Error registering REC application agent'')))"

definition server_cla :: "string \<Rightarrow> Convergence" where
  "server_cla address = \<lparr>cla_Address = MTCPServer_Address address, cla_IsReceiver = True, cla_IsSender = False,
     cla_PeerEndpointID = None\<rparr>"

definition start_listener :: "'db start_env \<Rightarrow> ListenerConfig \<Rightarrow> Manager \<Rightarrow> err list \<times> Manager" where
  "start_listener env lstConf manager =
     (let address = lc_Address lstConf;
          register = (\<lambda>ok m. case RegisterListener ok address m of
            (es, m) \<Rightarrow> (map (Wrapf ''Error starting convergence listener'') es, m))
      in if lc_Type lstConf = Dummy then register True manager
         else if lc_Type lstConf = MTCP then
           (case RegisterListener (sv_listen env address) (MTCPServer_Address address) (Register (server_cla address) manager) of
              (es, m) \<Rightarrow> (map (Wrapf ''Error starting convergence listener'') es, m))
         else if lc_Type lstConf = QUICL then register (sv_listen env address) manager
         else ([Errorf ''not valid convergence listener type''], manager))"

fun start_listeners :: "'db start_env \<Rightarrow> ListenerConfig list \<Rightarrow> Manager \<Rightarrow> err list \<times> Manager" where
  "start_listeners env [] manager = ([], manager)"
| "start_listeners env (l # ls) manager =
     (case start_listener env l manager of (es, manager) \<Rightarrow>
      (case start_listeners env ls manager of (es', manager) \<Rightarrow> (es @ es', manager)))"

text \<open>Without a scheduler the function returns before the jobs.\<close>

definition start_jobs :: "'db start_env \<Rightarrow> 'level config \<Rightarrow> err list \<times> (string \<times> int) list" where
  "start_jobs env conf =
     (if \<not> sv_scheduler env then ([Errorf ''Error initializing cron scheduler''], [])
      else ((if sv_job env (cfg_Dispatch conf) then [] else [Errorf ''Error initializing dispatching cronjob'']) @
            (if sv_job env (cfg_GC conf) then [] else [Errorf ''Error initializing garbage collection cronjob'']),
            (if sv_job env (cfg_Dispatch conf) then [(''DispatchPending'', cfg_Dispatch conf)] else []) @
            (if sv_job env (cfg_GC conf) then [(''gc'', cfg_GC conf)] else [])))"

definition startDtnd ::
    "cboring \<Rightarrow> 'db badgerhold \<Rightarrow> 'db start_env \<Rightarrow> 'level config \<Rightarrow> (err list \<times> 'db started) res" where
  "startDtnd L D env conf =
     (case start_store D env (cfg_NodeID conf) of (e1, st) \<Rightarrow>
      bindR (start_algorithm conf) (\<lambda>algorithm.
      case start_rest env (cfg_REST conf) InitialiseApplicationAgentManager of (e2, agents) \<Rightarrow>
      bindR (start_unix env (cfg_UNIX conf) agents) (\<lambda>(e3, agents).
      bindR (start_rec env (cfg_REC conf) agents) (\<lambda>agents.
      case start_listeners env (cfg_Listener conf) InitialiseCLAManager of (e4, manager) \<Rightarrow>
      case (case InitialiseManager L None (cfg_NodeID conf) (cfg_Discovery conf) True False (sv_discover env) of
              Inl e \<Rightarrow> ([Wrapf ''Error starting discovery manager'' e], None) | Inr d \<Rightarrow> ([], Some d)) of (e5, disc) \<Rightarrow>
      case start_jobs env conf of (e6, jobs) \<Rightarrow>
        Inr (e1 @ e2 @ e3 @ e4 @ e5 @ e6,
             \<lparr>sd_store = st, sd_idKeeper = InitializeIdKeeper, sd_algorithm = algorithm, sd_agents = agents,
              sd_manager = manager, sd_discovery = disc, sd_jobs = jobs\<rparr>)))))"

text \<open>
  \<open>gc\<close>: the job that cleans the store and then starts a goroutine for every mailbox of every agent; here
  they have run, over the keys of a mailbox in the order given.
\<close>

definition daemon_gc :: "time \<Rightarrow> BundleID list \<Rightarrow> 'db BundleStore \<Rightarrow> Agents \<Rightarrow> 'db BundleStore \<times> Agents" where
  "daemon_gc now order st agents =
     (let st = GarbageCollect now order st in (st, Manager_GC order st agents))"

text \<open>
  \<open>stopDtnd\<close> on the singletons, which are absent before initialisation and after shutdown. The first
  component are the addresses whose \<open>Close\<close> is started and the names of the agents that are shut down.
\<close>

record 'db singletons =
  sg_discovery :: "DiscoveryManager option"
  sg_manager :: "Manager option"
  sg_agents :: "Agents option"
  sg_algorithm :: "Algorithm option"
  sg_idKeeper :: "IdKeeper option"
  sg_store :: "'db BundleStore option"

definition singletons_of :: "'db started \<Rightarrow> 'db singletons" where
  "singletons_of sd = \<lparr>sg_discovery = sd_discovery sd, sg_manager = Some (sd_manager sd), sg_agents = Some (sd_agents sd),
     sg_algorithm = Some (sd_algorithm sd), sg_idKeeper = Some (sd_idKeeper sd), sg_store = sd_store sd\<rparr>"

text \<open>Access to an absent singleton ends the process through \<open>log.Fatalf\<close>.\<close>

definition uninitialised :: "string \<Rightarrow> err" where
  "uninitialised what = Panic (''log.Fatalf: Attempting to access an uninitialised '' @ what)"

definition GetStoreSingleton :: "'db singletons \<Rightarrow> 'db BundleStore res" where
  "GetStoreSingleton sg = (case sg_store sg of None \<Rightarrow> Inl (uninitialised ''store'') | Some st \<Rightarrow> Inr st)"

definition GetAlgorithmSingleton :: "'db singletons \<Rightarrow> Algorithm res" where
  "GetAlgorithmSingleton sg = (case sg_algorithm sg of None \<Rightarrow> Inl (uninitialised ''algorithm'') | Some algorithm \<Rightarrow> Inr algorithm)"

definition GetIdKeeperSingleton :: "'db singletons \<Rightarrow> IdKeeper res" where
  "GetIdKeeperSingleton sg = (case sg_idKeeper sg of None \<Rightarrow> Inl (uninitialised ''IdKeeper'') | Some idKeeper \<Rightarrow> Inr idKeeper)"

definition GetAAManagerSingleton :: "'db singletons \<Rightarrow> Agents res" where
  "GetAAManagerSingleton sg = (case sg_agents sg of None \<Rightarrow> Inl (uninitialised ''agent manager'') | Some agents \<Rightarrow> Inr agents)"

definition GetCLAManagerSingleton :: "'db singletons \<Rightarrow> Manager res" where
  "GetCLAManagerSingleton sg = (case sg_manager sg of None \<Rightarrow> Inl fatal | Some manager \<Rightarrow> Inr manager)"

definition GetDiscoveryManagerSingleton :: "'db singletons \<Rightarrow> DiscoveryManager res" where
  "GetDiscoveryManagerSingleton sg = (case sg_discovery sg of None \<Rightarrow> Inl (uninitialised ''discovery manager'') | Some manager \<Rightarrow> Inr manager)"

text \<open>Whether the shutdown of the discovery returns, and the singletons after it.\<close>

definition ShutdownDiscoveryManager :: "(string \<Rightarrow> bool) \<Rightarrow> 'db singletons \<Rightarrow> bool \<times> 'db singletons" where
  "ShutdownDiscoveryManager receives sg =
     (case sg_discovery sg of
        None \<Rightarrow> (True, sg)
      | Some manager \<Rightarrow> (discovery_shutdown receives manager, sg\<lparr>sg_discovery := None\<rparr>))"

definition mgr_closes :: "Manager \<Rightarrow> string list" where
  "mgr_closes manager = map cla_Address (mgr_receivers manager) @ map cla_Address (mgr_senders manager) @ mgr_listeners manager"

definition ShutdownCLAManager :: "'db singletons \<Rightarrow> string list \<times> 'db singletons" where
  "ShutdownCLAManager sg =
     (case sg_manager sg of None \<Rightarrow> ([], sg) | Some manager \<Rightarrow> (mgr_closes manager, sg\<lparr>sg_manager := None\<rparr>))"

definition ShutdownAAManager :: "'db singletons \<Rightarrow> string set \<times> 'db singletons" where
  "ShutdownAAManager sg =
     (case sg_agents sg of None \<Rightarrow> ({}, sg) | Some agents \<Rightarrow> (dom agents, sg\<lparr>sg_agents := None\<rparr>))"

definition ShutdownAlgorithm :: "'db singletons \<Rightarrow> 'db singletons" where
  "ShutdownAlgorithm sg = sg\<lparr>sg_algorithm := None\<rparr>"

definition ShutdownIdKeeper :: "'db singletons \<Rightarrow> 'db singletons" where
  "ShutdownIdKeeper sg = sg\<lparr>sg_idKeeper := None\<rparr>"

text \<open>The result of closing the metadata store is passed on, and only logged by the caller.\<close>

definition ShutdownStore :: "unit res \<Rightarrow> 'db singletons \<Rightarrow> unit res \<times> 'db singletons" where
  "ShutdownStore close sg =
     (case sg_store sg of None \<Rightarrow> (Inr (), sg) | Some _ \<Rightarrow> (close, sg\<lparr>sg_store := None\<rparr>))"

text \<open>\<open>None\<close>: the shutdown of the discovery does not return.\<close>

definition stopDtnd ::
    "(string \<Rightarrow> bool) \<Rightarrow> unit res \<Rightarrow> 'db singletons \<Rightarrow> ((string list \<times> string set) \<times> 'db singletons) option" where
  "stopDtnd receives close sg =
     (case ShutdownDiscoveryManager receives sg of (returns, sg) \<Rightarrow>
      if \<not> returns then None
      else case ShutdownCLAManager sg of (closes, sg) \<Rightarrow>
        case ShutdownAAManager sg of (names, sg) \<Rightarrow>
        let sg = ShutdownIdKeeper (ShutdownAlgorithm sg)
        in Some ((closes, names), snd (ShutdownStore close sg)))"

text \<open>The garbage collection as the scheduler runs it, on the singletons.\<close>

definition gc_job :: "time \<Rightarrow> BundleID list \<Rightarrow> 'db singletons \<Rightarrow> 'db singletons res" where
  "gc_job now order sg =
     bindR (GetStoreSingleton sg) (\<lambda>st.
     let st = GarbageCollect now order st; sg = sg\<lparr>sg_store := Some st\<rparr>
     in bindR (GetAAManagerSingleton sg) (\<lambda>agents. Inr (sg\<lparr>sg_agents := Some (Manager_GC order st agents)\<rparr>)))"

text \<open>
  \<open>main\<close>: how the process ends. A started daemon is stopped after a signal, one that reports errors at
  once; the deferred stop may hang, then the last component is \<open>None\<close>.
\<close>

datatype dtnd_end =
    UsageFatal
  | BadConfig err
  | Crash err
  | Stopped "err list" "(string list \<times> string set) option"

definition dtnd_main ::
    "cboring \<Rightarrow> 'db badgerhold \<Rightarrow> 'db start_env \<Rightarrow> (string \<Rightarrow> 'level config res) \<Rightarrow> (string \<Rightarrow> bool) \<Rightarrow> unit res \<Rightarrow> string list \<Rightarrow> dtnd_end" where
  "dtnd_main L D env parse_file receives close argv =
     (if length argv \<noteq> 2 then UsageFatal
      else case parse_file (argv ! 1) of
        Inl e \<Rightarrow> BadConfig e
      | Inr conf \<Rightarrow> (case startDtnd L D env conf of
          Inl e \<Rightarrow> Crash e
        | Inr (errs, sd) \<Rightarrow> Stopped errs (map_option fst (stopDtnd receives close (singletons_of sd)))))"

section \<open>Correctness\<close>

text \<open>A start where everything outside the daemon works; the scheduler accepts jobs with a positive interval only.\<close>

definition env_works :: "'db start_env \<Rightarrow> bool" where
  "env_works env \<longleftrightarrow> sv_rest_start env \<and> sv_unix_resolve env \<and> sv_unix_start env \<and> sv_rec_resolve env \<and> sv_rec_start env \<and>
     (\<forall>a. sv_listen env a) \<and> (\<forall>a. sv_discover env a = None) \<and> sv_scheduler env \<and> (\<forall>d > 0. sv_job env d)"

definition listener_address :: "ListenerConfig \<Rightarrow> string" where
  "listener_address c = (if lc_Type c = MTCP then MTCPServer_Address (lc_Address c) else lc_Address c)"

lemma start_listener_ok:
  assumes "env_works env" "lc_Type l \<in> {MTCP, QUICL}" "mgr_reach m"
  shows "\<exists>m'. start_listener env l m = ([], m') \<and> mgr_reach m' \<and> mgr_listeners m' = mgr_listeners m @ [listener_address l] \<and>
    mgr_registering m' = mgr_registering m @ (if lc_Type l = MTCP then [server_cla (lc_Address l)] else [])"
proof -
  have listen: "mgr_reach (m\<lparr>mgr_listeners := mgr_listeners m @ [a]\<rparr>)" if "mgr_reach m" for m a
    using mgr_reach_step [OF that mgr_listen [of m True a]] by (simp add: RegisterListener_def)
  have "mgr_reach (Register (server_cla (lc_Address l)) m)" by (rule mgr_reach_step [OF assms(3) mgr_register])
  from listen [OF this] have "mgr_reach ((Register (server_cla (lc_Address l)) m)\<lparr>mgr_listeners := mgr_listeners m @ [a]\<rparr>)" for a
    by (simp add: Register_def)
  then show ?thesis using assms listen
    by (auto simp: start_listener_def env_works_def Let_def RegisterListener_def listener_address_def Register_def
        MTCP_def QUICL_def Dummy_def)
qed

lemma start_listeners_ok:
  assumes "env_works env" "\<forall>l \<in> set ls. lc_Type l \<in> {MTCP, QUICL}" "mgr_reach m"
  shows "\<exists>m'. start_listeners env ls m = ([], m') \<and> mgr_reach m' \<and> mgr_listeners m' = mgr_listeners m @ map listener_address ls \<and>
    mgr_registering m' = mgr_registering m @ map (server_cla \<circ> lc_Address) (filter (\<lambda>l. lc_Type l = MTCP) ls)"
  using assms(2,3)
proof (induction ls arbitrary: m)
  case (Cons l ls)
  obtain m1 where m1: "start_listener env l m = ([], m1)" "mgr_reach m1" "mgr_listeners m1 = mgr_listeners m @ [listener_address l]"
    "mgr_registering m1 = mgr_registering m @ (if lc_Type l = MTCP then [server_cla (lc_Address l)] else [])"
    using start_listener_ok [OF assms(1) _ Cons.prems(2)] Cons.prems(1) by auto
  then show ?case using Cons.IH [OF _ m1(2)] Cons.prems(1) by auto
qed simp

lemma agent_names_differ:
  "agent_name ''RestAgent'' a \<noteq> agent_name ''UNIXAgent'' b" "agent_name ''RestAgent'' a \<noteq> agent_name ''RECAgent'' b"
  "agent_name ''UNIXAgent'' a \<noteq> agent_name ''RECAgent'' b"
  by (simp_all add: agent_name_def)

definition configured_agents :: "'level config \<Rightarrow> string set" where
  "configured_agents conf =
     (if cfg_REST conf = [] then {} else {agent_name ''RestAgent'' (cfg_REST conf)}) \<union>
     (if cfg_UNIX conf = [] then {} else {agent_name ''UNIXAgent'' (cfg_UNIX conf)}) \<union>
     (if cfg_REC conf = [] then {} else {agent_name ''RECAgent'' (cfg_REC conf)})"

lemma NewRECAgent_inv: "bank_inv NewRECAgent"
proof -
  have "bank_inv (fold (\<lambda>eid bank. snd (Bank_Register eid bank)) eids bank)" if "bank_inv bank" for eids bank
    using that by (induction eids arbitrary: bank) (auto intro: register_inv)
  moreover have "bank_inv NewMailboxBank" by (simp add: bank_inv_def NewMailboxBank_def)
  ultimately show ?thesis unfolding NewRECAgent_def by blast
qed

lemma start_agents_ok:
  assumes "env_works env"
  shows "\<exists>a1 a2 a3. start_rest env (cfg_REST conf) InitialiseApplicationAgentManager = ([], a1) \<and>
    start_unix env (cfg_UNIX conf) a1 = Inr ([], a2) \<and> start_rec env (cfg_REC conf) a2 = Inr a3 \<and>
    dom a3 = configured_agents conf \<and> (\<forall>bank \<in> ran a3. bank_inv bank)"
proof -
  let ?add = "\<lambda>name address bank (agents :: Agents). if address = [] then agents else agents(agent_name name address \<mapsto> bank)"
  let ?a1 = "?add ''RestAgent'' (cfg_REST conf) NewMailboxBank Map.empty"
  let ?a2 = "?add ''UNIXAgent'' (cfg_UNIX conf) NewMailboxBank ?a1"
  let ?a3 = "?add ''RECAgent'' (cfg_REC conf) NewRECAgent ?a2"
  have "start_rest env (cfg_REST conf) InitialiseApplicationAgentManager = ([], ?a1)"
    using assms by (simp add: env_works_def start_rest_def RegisterAgent_def InitialiseApplicationAgentManager_def registration_errors_def
        NewRestAgent_def)
  moreover have "start_unix env (cfg_UNIX conf) ?a1 = Inr ([], ?a2)"
    using assms agent_names_differ(1) [symmetric] by (simp add: env_works_def start_unix_def RegisterAgent_def registration_errors_def NewUNIXAgent_def)
  moreover have "start_rec env (cfg_REC conf) ?a2 = Inr ?a3"
    using assms agent_names_differ(2,3) [symmetric] by (simp add: env_works_def start_rec_def RegisterAgent_def)
  moreover have "dom ?a3 = configured_agents conf" by (simp add: configured_agents_def insert_commute)
  moreover have "bank_inv bank" if "?a3 name = Some bank" for name bank
    using that NewRECAgent_inv by (auto simp: bank_inv_def NewMailboxBank_def split: if_splits)
  then have "\<forall>bank \<in> ran ?a3. bank_inv bank" unfolding ran_def by blast
  ultimately show ?thesis by blast
qed

text \<open>
  C11. A parsed configuration starts: when the environment works, both intervals of the periodic jobs are positive and no
  listener is of the type TCPCLv4 (which the configuration accepts and the start refuses), the daemon starts without an error, with the configured algorithm and exactly the configured agents; the
  store invariant holds and every agent's mailboxes are consistent, the manager of the convergence
  layers is in a state it can reach, listens on every configured address in order and registers the MTCP
  servers, discovery multicasts the announcements of exactly these listeners, and both periodic jobs run.
\<close>

theorem startDtnd_correct:
  assumes "cboring_lib L" "badger D get" "sv_db env = Inr db" "inv_db get db" "env_works env"
    "parse ParseLevel (Inr toml) = Inr conf" "length (tc_NodeID toml) < 2 ^ 62" "length (tc_Listener toml) * 32 \<le> 2 ^ 48"
    "\<forall>l \<in> set (cfg_Listener conf). lc_Type l \<noteq> TCPCLv4" "0 < cfg_Dispatch conf" "0 < cfg_GC conf"
  shows "\<exists>s st d msg. startDtnd L D env conf = Inr ([], s) \<and> sd_store s = Some st \<and> store_inv get st \<and>
    sd_algorithm s = (if cfg_Algorithm conf = AlgorithmEpidemic then EpidemicRouting
      else SprayAndWait (rsc_Copies (tc_Spray toml)) (rsc_Binary (tc_Spray toml))) \<and>
    dom (sd_agents s) = configured_agents conf \<and> (\<forall>bank \<in> ran (sd_agents s). bank_inv bank) \<and>
    mgr_reach (sd_manager s) \<and> mgr_listeners (sd_manager s) = map listener_address (cfg_Listener conf) \<and>
    mgr_registering (sd_manager s) = map (server_cla \<circ> lc_Address) (filter (\<lambda>l. lc_Type l = MTCP) (cfg_Listener conf)) \<and>
    sd_discovery s = Some d \<and> disc_NodeId d = cfg_NodeID conf \<and> map set_Payload (disc_running d) = [msg] \<and>
    UnmarshalAnnouncements L msg = Inr (cfg_Discovery conf) \<and>
    sd_jobs s = [(''DispatchPending'', cfg_Dispatch conf), (''gc'', cfg_GC conf)]"
proof -
  note conf = parse_correct [OF assms(6,7)] and lst = parse_listeners_Inr [OF parse_Inr(3) [OF assms(6)]]
  obtain st where st: "InitialiseStore D (cfg_NodeID conf) db (sv_files env) = Inr st"
    using badger.find_all [OF assms(2), of db] by (auto simp: InitialiseStore_def)
  have inv: "store_inv get st" by (rule badger.InitialiseStore_inv(1) [OF assms(2,4) st])
  obtain a1 a2 a3 where agents: "start_rest env (cfg_REST conf) InitialiseApplicationAgentManager = ([], a1)"
    "start_unix env (cfg_UNIX conf) a1 = Inr ([], a2)" "start_rec env (cfg_REC conf) a2 = Inr a3"
    "dom a3 = configured_agents conf" "\<forall>bank \<in> ran a3. bank_inv bank" using start_agents_ok [OF assms(5)] by blast
  have types: "\<forall>l \<in> set (cfg_Listener conf). lc_Type l \<in> {MTCP, QUICL}" using lst(2) assms(9) by (auto simp: list_all_iff)
  obtain m where m: "start_listeners env (cfg_Listener conf) InitialiseCLAManager = ([], m)" "mgr_reach m"
    "mgr_listeners m = map listener_address (cfg_Listener conf)"
    "mgr_registering m = map (server_cla \<circ> lc_Address) (filter (\<lambda>l. lc_Type l = MTCP) (cfg_Listener conf))"
    using start_listeners_ok [OF assms(5) types mgr_reach_init] by (auto simp: InitialiseCLAManager_def)
  have "length (cfg_Discovery conf) = length (tc_Listener toml)"
    using list_all2_lengthD [OF conf(4)] arg_cong [OF conf(3), of length] by simp
  then obtain msg where msg: "MarshalAnnouncements L (cfg_Discovery conf) = Inr msg" "UnmarshalAnnouncements L msg = Inr (cfg_Discovery conf)"
    using announcements_sent [OF assms(1) conf(5)] assms(8) by auto
  let ?set = "\<lparr>set_MulticastAddress = address4, set_Port = discovery_port, set_Payload = msg\<rparr>"
  have disc: "InitialiseManager L None (cfg_NodeID conf) (cfg_Discovery conf) True False (sv_discover env) =
      Inr \<lparr>disc_NodeId = cfg_NodeID conf, disc_running = [?set]\<rparr>"
    using msg(1) assms(5) by (simp add: InitialiseManager_def env_works_def)
  have alg: "start_algorithm conf = Inr (if cfg_Algorithm conf = AlgorithmEpidemic then EpidemicRouting
      else SprayAndWait (rsc_Copies (tc_Spray toml)) (rsc_Binary (tc_Spray toml)))"
    using conf(2) parse_Inr(4) [OF assms(6)] by (auto simp: start_algorithm_def InitialiseAlgorithm_def NewSprayAndWait_def)
  have jobs: "start_jobs env conf = ([], [(''DispatchPending'', cfg_Dispatch conf), (''gc'', cfg_GC conf)])"
    using assms(5,10,11) by (simp add: start_jobs_def env_works_def)
  show ?thesis unfolding startDtnd_def
    using st inv agents m msg(2) assms(3) by (simp add: start_store_def alg disc jobs)
qed

definition example_toml :: tomlConfig where
  "example_toml = \<lparr>tc_NodeID = ''dtn://node/'', tc_LogLevel = ''info'', tc_StorePath = ''/tmp/store'', tc_Algorithm = ''epidemic'',
     tc_Spray = \<lparr>rsc_Binary = False, rsc_Copies = 0\<rparr>, tc_Listener = [\<lparr>lt_Type = ''MTCP'', lt_Address = '':4556''\<rparr>],
     tc_REST = '':8080'', tc_UNIX = [], tc_REC = [], tc_Dispatch = ''1h'', tc_GC = ''24h''\<rparr>"

definition example_start_env :: "(string \<times> BundleMetadata) list start_env" where
  "example_start_env = \<lparr>sv_db = Inr [], sv_files = Map.empty, sv_rest_start = True, sv_unix_resolve = True, sv_unix_start = True,
     sv_rec_resolve = True, sv_rec_start = True, sv_listen = (\<lambda>_. True), sv_discover = (\<lambda>_. None), sv_scheduler = True,
     sv_job = (\<lambda>d. 0 < d)\<rparr>"

lemma example_parse:
  "\<exists>conf. parse Inr (Inr example_toml) = Inr conf \<and> map lc_Type (cfg_Listener conf) = [MTCP] \<and> cfg_REST conf = '':8080'' \<and>
     cfg_Dispatch conf = 3600000000000 \<and> cfg_GC conf = 86400000000000"
proof -
  have "\<exists>eid. NewEndpointID ''dtn://node/'' = Inr eid" by (rule exI, code_simp)
  moreover have "TypeFromString ''MTCP'' = Inr MTCP" "AlgorithmEnumFromString ''epidemic'' = Inr AlgorithmEpidemic" by code_simp+
  moreover have "parseListenPort '':4556'' = Inr 4556"
    by (simp add: parseListenPort_def SplitHostPort_def Atoi_def Let_def is_digit_def digit_val_def)
  moreover have "ParseDuration ''1h'' = Inr 3600000000000" "ParseDuration ''24h'' = Inr 86400000000000"
    by (rule ParseDuration_hours)+
  ultimately show ?thesis by (auto simp: parse_def ConfigError_def example_toml_def)
qed

theorem startDtnd_correct_witness:
  "\<exists>conf s. parse Inr (Inr example_toml) = Inr conf \<and> startDtnd rfc8949 alist_db example_start_env conf = Inr ([], s) \<and>
     mgr_listeners (sd_manager s) = [''mtcp://:4556''] \<and> sd_agents s ''RestAgent(:8080)'' \<noteq> None \<and>
     sd_jobs s = [(''DispatchPending'', 3600000000000), (''gc'', 86400000000000)]"
proof -
  obtain conf where conf: "parse Inr (Inr example_toml) = Inr conf" "map lc_Type (cfg_Listener conf) = [MTCP]" "cfg_REST conf = '':8080''"
    "cfg_Dispatch conf = 3600000000000" "cfg_GC conf = 86400000000000"
    by (rule exE [OF example_parse]) (elim conjE)
  have env: "sv_db example_start_env = Inr []" "env_works example_start_env" by (simp_all add: example_start_env_def env_works_def)
  have t: "length (tc_NodeID example_toml) < 2 ^ 62" "length (tc_Listener example_toml) * 32 \<le> 2 ^ 48" by (simp_all add: example_toml_def)
  have types: "\<forall>l \<in> set (cfg_Listener conf). lc_Type l \<noteq> TCPCLv4" using conf(2) by (auto simp: MTCP_def TCPCLv4_def)
  obtain s where s: "startDtnd rfc8949 alist_db example_start_env conf = Inr ([], s)" "dom (sd_agents s) = configured_agents conf"
    "mgr_listeners (sd_manager s) = map listener_address (cfg_Listener conf)"
    "sd_jobs s = [(''DispatchPending'', cfg_Dispatch conf), (''gc'', cfg_GC conf)]"
    using startDtnd_correct [OF rfc.cboring_lib_axioms alist.badger_axioms env(1) example_db env(2) conf(1) t types] conf(4,5) by auto
  have "map lc_Address (cfg_Listener conf) = ['':4556'']" using parse_correct(3) [OF conf(1) t(1)] by (simp add: example_toml_def)
  then have "map listener_address (cfg_Listener conf) = [''mtcp://:4556'']"
    using conf(2) by (auto simp: listener_address_def MTCPServer_Address_def map_eq_Cons_conv)
  moreover have "''RestAgent(:8080)'' \<in> dom (sd_agents s)" using s(2) conf(3) by (simp add: configured_agents_def agent_name_def)
  ultimately show ?thesis using conf(1,4,5) s(1,3,4) by auto
qed

text \<open>
  A listener of type TCPCLv4 is accepted by the configuration but refused at the start, and a UNIX socket
  address that cannot be resolved panics instead of being reported.
\<close>

lemma tcpclv4_listener_refused:
  assumes "lc_Type l = TCPCLv4"
  shows "start_listener env l m = ([Errorf ''not valid convergence listener type''], m)"
  using assms by (simp add: start_listener_def Let_def TCPCLv4_def MTCP_def QUICL_def Dummy_def)

lemma unix_agent_nil_panics:
  assumes "socket \<noteq> []" "\<not> sv_unix_resolve env"
  shows "start_unix env socket agents = Inl (Panic ''nil pointer dereference: listenAddress'')"
  using assms by (simp add: start_unix_def)

section \<open>Garbage collection\<close>

lemma Bank_GC_mailboxes:
  "bank_mailboxes (Bank_GC eid order st bank) =
     (bank_mailboxes bank)(eid := map_option (\<lambda>mb. Mailbox_GC (filter (\<lambda>bid. mb bid \<noteq> None) order) st mb) (bank_mailboxes bank eid))"
  "bank_registeredIDs (Bank_GC eid order st bank) = bank_registeredIDs bank"
  by (auto simp: Bank_GC_def split: option.split)

lemma fold_Bank_GC:
  "distinct eids \<Longrightarrow> bank_mailboxes (fold (\<lambda>eid. Bank_GC eid order st) eids bank) eid =
     (if eid \<in> set eids then map_option (\<lambda>mb. Mailbox_GC (filter (\<lambda>bid. mb bid \<noteq> None) order) st mb) (bank_mailboxes bank eid)
      else bank_mailboxes bank eid) \<and>
   bank_registeredIDs (fold (\<lambda>eid. Bank_GC eid order st) eids bank) = bank_registeredIDs bank"
  by (induction eids arbitrary: bank) (auto simp: Bank_GC_mailboxes)

text \<open>
  C27. A garbage collection removes exactly the expired bundles that nothing retains, and leaves no dangling message: the
  descriptors of these bundles are marked as deleted and every other descriptor of the store is unchanged, so that afterwards
  the store finds exactly the bundles it found before that are not both expired and without retention constraint;
  every message in a mailbox refers to a bundle that the store still finds, no message of such a bundle is lost or
  changes its state, the registered endpoints stay, and the store invariant holds.
\<close>

theorem daemon_gc_correct:
  assumes "badger D get" "store_inv get st" "dom (bst_bundles st) \<subseteq> set order"
    "agents name = Some bank" "bank_inv bank" "bank_mailboxes bank eid = Some mb"
    "dom mb \<subseteq> set order" "daemon_gc now order st agents = (st', agents')"
  shows "store_inv get st' \<and> bst_bundles st' = bst_bundles st \<and>
    (\<forall>bid p bd. bst_bundles st bid = Some p \<and> bst_heap st p = Some bd \<longrightarrow>
       bst_heap st' p = Some (if Expired now bd \<and> bd_retentionConstraints bd = [] then bd\<lparr>bd_deleted := True\<rparr> else bd)) \<and>
    (\<forall>bid p. GetBundleDescriptor bid st' = Inr p \<longleftrightarrow> GetBundleDescriptor bid st = Inr p \<and>
       (\<exists>bd. bst_heap st p = Some bd \<and> \<not> (Expired now bd \<and> bd_retentionConstraints bd = []))) \<and>
    (\<exists>bank' mb'. agents' name = Some bank' \<and> bank_mailboxes bank' eid = Some mb' \<and>
       bank_registeredIDs bank' = bank_registeredIDs bank \<and>
       (\<forall>bid. mb' bid = (if \<exists>p. GetBundleDescriptor bid st' = Inr p then mb bid else None)))"
proof -
  have st': "st' = GarbageCollect now order st" using assms(8) by (auto simp: daemon_gc_def Let_def)
  have heap: "bst_heap st' p = Some (gc_descriptor now bd) \<and> bst_bundles st' = bst_bundles st"
    if "bst_bundles st bid = Some p" "bst_heap st p = Some bd" for bid p bd
    using badger.GarbageCollect_heap [OF assms(1,2) that, of now order] assms(3) that(1) unfolding st' by auto
  have bundles: "bst_bundles st' = bst_bundles st" unfolding st' by (induction order arbitrary: st) (auto split: option.splits)
  have find: "GetBundleDescriptor bid st' = Inr p \<longleftrightarrow> GetBundleDescriptor bid st = Inr p \<and>
       (\<exists>bd. bst_heap st p = Some bd \<and> \<not> (Expired now bd \<and> bd_retentionConstraints bd = []))" for bid p
  proof (cases "bst_bundles st bid = Some p")
    case True
    then obtain bd where "bst_heap st p = Some bd" using assms(2) by (auto simp: store_inv_def elim!: inv_mapE)
    then show ?thesis using True heap [OF True] bundles
      by (auto simp: GetBundleDescriptor_Inr gc_descriptor_def collected_def)
  qed (simp add: GetBundleDescriptor_Inr bundles)
  let ?bank = "fold (\<lambda>eid. Bank_GC eid order st') (bank_registeredIDs bank) bank"
  let ?mb = "Mailbox_GC (filter (\<lambda>bid. mb bid \<noteq> None) order) st' mb"
  have "agents' name = Some ?bank" using assms(4,8) st' by (auto simp: daemon_gc_def Let_def Manager_GC_def Bank_GC_all_def)
  moreover have "eid \<in> set (bank_registeredIDs bank)" "distinct (bank_registeredIDs bank)" using assms(5,6) by (auto simp: bank_inv_def)
  then have "bank_mailboxes ?bank eid = Some ?mb" "bank_registeredIDs ?bank = bank_registeredIDs bank"
    using fold_Bank_GC [of "bank_registeredIDs bank" order st' bank eid] assms(6) by simp_all
  moreover have "?mb bid = (if \<exists>p. GetBundleDescriptor bid st' = Inr p then mb bid else None)" for bid
    using assms(7) by (auto simp: Mailbox_GC_eq)
  moreover have "store_inv get st'" using badger.GarbageCollect_inv [OF assms(1,2)] st' by simp
  moreover have "\<forall>bid p bd. bst_bundles st bid = Some p \<and> bst_heap st p = Some bd \<longrightarrow>
       bst_heap st' p = Some (if Expired now bd \<and> bd_retentionConstraints bd = [] then bd\<lparr>bd_deleted := True\<rparr> else bd)"
    using heap by (auto simp: gc_descriptor_def collected_def)
  ultimately show ?thesis using bundles find by blast
qed

text \<open>
  The example: the bundle is in the store and in a mailbox. Long after its expiry it is kept as long as its dispatching is
  pending; when no constraint is left, a collection removes it, and its message.
\<close>

theorem daemon_gc_correct_witness:
  "\<exists>(st :: (string \<times> BundleMetadata) list BundleStore) bank mb.
     GetBundleDescriptor (Bundle_ID example_bundle) st = Inr 0 \<and> bank_mailboxes bank DtnNone = Some mb \<and>
     mb (Bundle_ID example_bundle) = Some False \<and>
     (\<exists>now st' agents' bank' mb'. daemon_gc now [Bundle_ID example_bundle] st [''agent'' \<mapsto> bank] = (st', agents') \<and>
        GetBundleDescriptor (Bundle_ID example_bundle) st' = Inr 0 \<and>
        agents' ''agent'' = Some bank' \<and> bank_mailboxes bank' DtnNone = Some mb' \<and> mb' (Bundle_ID example_bundle) = Some False) \<and>
     (\<exists>now st' agents' bank' mb'. daemon_gc now [Bundle_ID example_bundle] (snd (on_descriptor ResetConstraints 0 st)) [''agent'' \<mapsto> bank] =
          (st', agents') \<and> (\<forall>p. GetBundleDescriptor (Bundle_ID example_bundle) st' \<noteq> Inr p) \<and>
        agents' ''agent'' = Some bank' \<and> bank_mailboxes bank' DtnNone = Some mb' \<and> mb' (Bundle_ID example_bundle) = None)"
proof -
  let ?id = "Bundle_ID example_bundle"
  let ?mb = "[?id \<mapsto> False]"
  let ?bank = "NewMailboxBank\<lparr>bank_registeredIDs := [DtnNone], bank_mailboxes := [DtnNone \<mapsto> ?mb]\<rparr>"
  let ?bd = "NewBundleDescriptor (new_metadata DtnNone example_bundle None)"
  let ?now = "md_Expires (new_metadata DtnNone example_bundle None) + 1"
  obtain st where ins: "InsertBundle rfc8949 alist_db example_env example_bundle example_store = (Inr 0, st)"
    "store_inv map_of st" "GetBundleDescriptor ?id st = Inr 0" "bst_heap st 0 = Some ?bd" by (rule example_inserted)
  let ?st1 = "snd (on_descriptor ResetConstraints 0 st)"
  have dom: "dom (bst_bundles st) \<subseteq> set [?id]"
    using ins(1) by (auto simp: InsertBundle_def insertNewBundleUnsafe_def example_store_def example_previous_node Let_def
        alist_db_def example_env_def split: sum.splits prod.splits if_splits)
  have inv1: "store_inv map_of ?st1" by (rule reset_op.on_descriptor_inv [OF ins(2)])
  have heap1: "bst_heap ?st1 0 = Some (?bd\<lparr>bd_retentionConstraints := [], bd_retain := False, bd_dispatch := True\<rparr>)"
    using ins(4) by (simp add: on_descriptor_def ResetConstraints_def Let_def NewBundleDescriptor_def)
  have bank: "bank_inv ?bank" by (simp add: bank_inv_def)
  obtain s a where gc: "daemon_gc ?now [?id] st [''agent'' \<mapsto> ?bank] = (s, a)" by (meson surj_pair)
  obtain s1 a1 where gc1: "daemon_gc ?now [?id] ?st1 [''agent'' \<mapsto> ?bank] = (s1, a1)" by (meson surj_pair)
  note c = daemon_gc_correct [OF alist.badger_axioms ins(2) dom _ bank _ _ gc, of "''agent''" DtnNone ?mb]
  have k: "GetBundleDescriptor ?id s = Inr 0"
    using c ins(3,4) by (simp add: NewBundleDescriptor_def)
  have dom1: "dom (bst_bundles ?st1) \<subseteq> set [?id]" using dom by simp
  note c1 = daemon_gc_correct [OF alist.badger_axioms inv1 dom1 _ bank _ _ gc1, of "''agent''" DtnNone ?mb]
  have k1: "GetBundleDescriptor ?id s1 \<noteq> Inr p" for p
  proof
    assume "GetBundleDescriptor ?id s1 = Inr p"
    then have "GetBundleDescriptor ?id ?st1 = Inr p" "\<exists>bd. bst_heap ?st1 p = Some bd \<and> \<not> (Expired ?now bd \<and> bd_retentionConstraints bd = [])"
      using c1 by simp_all
    moreover have "p = 0" using calculation(1) ins(3) by (simp add: GetBundleDescriptor_Inr)
    ultimately show False using heap1 by (simp add: Expired_def NewBundleDescriptor_def)
  qed
  obtain b0 m0 where 0: "a ''agent'' = Some b0" "bank_mailboxes b0 DtnNone = Some m0" "m0 ?id = Some False"
    using c k by auto
  obtain b1 m1 where 1: "a1 ''agent'' = Some b1" "bank_mailboxes b1 DtnNone = Some m1" "m1 ?id = None"
    using c1 k1 by auto
  have r0: "\<exists>now st' agents' bank' mb'. daemon_gc now [?id] st [''agent'' \<mapsto> ?bank] = (st', agents') \<and>
      GetBundleDescriptor ?id st' = Inr 0 \<and> agents' ''agent'' = Some bank' \<and> bank_mailboxes bank' DtnNone = Some mb' \<and> mb' ?id = Some False"
    using gc k 0 by (intro exI [of _ ?now] exI [of _ s] exI [of _ a] exI [of _ b0] exI [of _ m0] conjI)
  have r1: "\<exists>now st' agents' bank' mb'. daemon_gc now [?id] ?st1 [''agent'' \<mapsto> ?bank] = (st', agents') \<and>
      (\<forall>p. GetBundleDescriptor ?id st' \<noteq> Inr p) \<and> agents' ''agent'' = Some bank' \<and> bank_mailboxes bank' DtnNone = Some mb' \<and> mb' ?id = None"
    using gc1 k1 1 by (intro exI [of _ ?now] exI [of _ s1] exI [of _ a1] exI [of _ b1] exI [of _ m1] conjI allI)
  show ?thesis by (intro exI [of _ st] exI [of _ ?bank] exI [of _ ?mb] conjI ins(3) r0 r1) simp_all
qed

section \<open>Shutdown\<close>

text \<open>
  A server for the minimal TCP convergence layer is registered as an adapter and as a listener: once it is
  activated, stopping the daemon closes it twice, and whichever call comes second closes a closed channel.
\<close>

lemma start_listener_mtcp:
  assumes "lc_Type l = MTCP" "sv_listen env (lc_Address l)" "start_listener env l m = (es, m')"
  shows "es = [] \<and> server_cla (lc_Address l) \<in> set (mgr_registering m') \<and> MTCPServer_Address (lc_Address l) \<in> set (mgr_listeners m')"
  using assms
  by (auto simp: start_listener_def RegisterListener_def Register_def Dummy_def MTCP_def Let_def)

lemma stopDtnd_eq:
  "stopDtnd receives close sg =
     (if \<forall>m. sg_discovery sg = Some m \<longrightarrow> discovery_shutdown receives m
      then Some ((case sg_manager sg of None \<Rightarrow> [] | Some m \<Rightarrow> mgr_closes m, case sg_agents sg of None \<Rightarrow> {} | Some agents \<Rightarrow> dom agents),
        sg\<lparr>sg_discovery := None, sg_manager := None, sg_agents := None, sg_algorithm := None, sg_idKeeper := None, sg_store := None\<rparr>)
      else None)"
  by (cases sg)
    (auto simp: stopDtnd_def ShutdownDiscoveryManager_def ShutdownCLAManager_def ShutdownAAManager_def ShutdownAlgorithm_def
      ShutdownIdKeeper_def ShutdownStore_def Let_def split: option.splits)

lemma mtcp_server_closed_twice:
  assumes "mgr_listeners m = xs @ MTCPServer_Address addr # ys" "server_cla addr \<in> set (mgr_receivers m)"
    "sg_manager sg = Some m" "MTCPServer_Start (Inr ()) (NewMTCPServer addr eid) = Inr serv"
    "stopDtnd receives close sg = Some ((closes, names), sg')"
  shows "count_list closes (MTCPServer_Address addr) \<ge> 2 \<and>
    (\<exists>msg. bindR (MTCPServer_Close serv) MTCPServer_Close = Inl (Panic msg))"
proof -
  have "MTCPServer_Address addr \<in> set (map cla_Address (mgr_receivers m))"
    using assms(2) by (auto simp: server_cla_def intro!: image_eqI)
  then have "count_list (map cla_Address (mgr_receivers m)) (MTCPServer_Address addr) \<ge> 1"
    using count_notin by (metis count_list_0_iff leI less_one)
  moreover have "\<exists>msg. bindR (MTCPServer_Close serv) MTCPServer_Close = Inl (Panic msg)"
    using MTCPServer_Close_stops [OF assms(4), of True] by auto
  moreover have "closes = mgr_closes m" using assms(3,5) by (auto simp: stopDtnd_eq split: if_splits)
  ultimately show ?thesis using assms(1) by (simp add: mgr_closes_def)
qed

text \<open>
  The daemon stops exactly when its discoveries still receive: one that has ended with an error after
  its first second leaves the daemon waiting, with nothing else shut down.
\<close>

lemma stop_hangs:
  assumes "sd_discovery sd = Some m" "d \<in> set (disc_running m)" "\<not> receives (set_MulticastAddress d)"
  shows "stopDtnd receives close (singletons_of sd) = None"
  using assms by (auto simp: stopDtnd_eq singletons_of_def discovery_shutdown_def list_all_iff)

text \<open>
  The scheduler is not stopped: a job that runs while or after the daemon stops finds no singleton, which
  ends the process. Before, it is the garbage collection of the store and the agents.
\<close>

lemma gc_job_eq:
  assumes "sg_store sg = Some st" "sg_agents sg = Some agents" "daemon_gc now order st agents = (st', agents')"
  shows "gc_job now order sg = Inr (sg\<lparr>sg_store := Some st', sg_agents := Some agents'\<rparr>)"
  using assms by (auto simp: gc_job_def GetStoreSingleton_def GetAAManagerSingleton_def daemon_gc_def Let_def)

lemma job_after_stop:
  assumes "stopDtnd receives close sg = Some (r, sg')"
  shows "gc_job now order sg' = Inl (uninitialised ''store'') \<and> GetAlgorithmSingleton sg' = Inl (uninitialised ''algorithm'') \<and> GetIdKeeperSingleton sg' = Inl (uninitialised ''IdKeeper'') \<and>
    GetCLAManagerSingleton sg' = Inl fatal \<and> GetDiscoveryManagerSingleton sg' = Inl (uninitialised ''discovery manager'')"
  using assms
  by (auto simp: stopDtnd_eq gc_job_def GetStoreSingleton_def GetAlgorithmSingleton_def GetIdKeeperSingleton_def
      GetCLAManagerSingleton_def GetDiscoveryManagerSingleton_def split: if_splits)

text \<open>A second stop, as the deferred one after a failed start may be, does nothing.\<close>

lemma stop_twice:
  assumes "stopDtnd receives close sg = Some (r, sg')"
  shows "stopDtnd receives close sg' = Some (([], {}), sg')"
  using assms by (auto simp: stopDtnd_eq split: if_splits)

text \<open>Every run of the program that gets a usable configuration stops what it started.\<close>

lemma dtnd_main_stops:
  assumes "parse_file path = Inr conf" "startDtnd L D env conf = Inr (errs, sd)" "\<forall>address. receives address"
  shows "dtnd_main L D env parse_file receives close [name, path] = Stopped errs (Some (mgr_closes (sd_manager sd), dom (sd_agents sd)))"
  using assms by (simp add: dtnd_main_def stopDtnd_eq singletons_of_def discovery_shutdown_def list_all_iff)

end
