(* ===== verification/Client.thy ===== *)
theory Client
  imports Unix_Agent "HOL-Library.Multiset"
begin

text \<open>
  The command line client of the UNIX socket agent (\<open>cmd/dtnclient/main.go\<close>). Parsing the command line
  is third-party code: a command is a value. A connection to the agent is a function from the bytes the
  client writes to the bytes it can read afterwards, or an error. A run of the client ends with an exit
  code, what it printed on its standard output, and the files it wrote; the texts of error messages are
  left out. A panic exits with code 2.
\<close>

section \<open>Messages\<close>

datatype unix_request =
    RegisterUnregisterMessage u8 string
  | BundleCreateMessage "(string \<times> arg) list"
  | ListBundles string bool
  | FetchBundle string string bool
  | FetchAllBundles string bool bool

fun request_type :: "unix_request \<Rightarrow> u8" where
  "request_type (RegisterUnregisterMessage t _) = t"
| "request_type (BundleCreateMessage _) = MsgTypeBundleCreate"
| "request_type (ListBundles _ _) = MsgTypeListBundles"
| "request_type (FetchBundle _ _ _) = MsgTypeFetchBundle"
| "request_type (FetchAllBundles _ _ _) = MsgTypeFetchAllBundles"

text \<open>What the client uses of msgpack; every decoded response starts with the text of its error.\<close>

record client_msgpack =
  cm_marshal :: "unix_request \<Rightarrow> bytes res"
  cm_general :: "bytes \<Rightarrow> (string \<times> unit) res"
  cm_created :: "bytes \<Rightarrow> (string \<times> string) res"
  cm_listed :: "bytes \<Rightarrow> (string \<times> string list) res"
  cm_fetched :: "bytes \<Rightarrow> (string \<times> BundleContent) res"
  cm_fetchedAll :: "bytes \<Rightarrow> (string \<times> BundleContent list) res"

record client_env =
  cl_stdin :: bytes
  cl_files :: "string \<rightharpoonup> bytes"
  cl_create :: "string \<Rightarrow> bool"
  cl_write :: "string \<Rightarrow> nat option"

record client_exit =
  ce_code :: nat
  ce_stdout :: bytes
  ce_files :: "(string \<times> bytes) list"

definition failed :: "nat \<Rightarrow> client_exit" where
  "failed code = \<lparr>ce_code = code, ce_stdout = [], ce_files = []\<rparr>"

definition printed :: "string \<Rightarrow> client_exit" where
  "printed s = \<lparr>ce_code = 0, ce_stdout = bytes_of s @ [10], ce_files = []\<rparr>"

section \<open>Exchanging messages\<close>

text \<open>
  The error of reading the message is overwritten before it is looked at: the rest of a truncated message
  is the zeros the buffer was made with.
\<close>

definition read_reply :: "bytes \<Rightarrow> bytes res" where
  "read_reply input =
     (if length input < 8 then Inl eof
      else let msgLen = unbe (take 8 input); rest = drop 8 input
           in if 281474976710656 < msgLen then Inl (Panic ''makeslice: len out of range'')
              else Inr (take (nat msgLen) rest @ replicate (nat msgLen - length rest) 0))"

definition exchange :: "client_msgpack \<Rightarrow> (bytes \<Rightarrow> bytes res) \<Rightarrow> unix_request \<Rightarrow> bytes res" where
  "exchange K conn msg = bindR (cm_marshal K msg) (\<lambda>msgBytes. bindR (conn (write_message msgBytes)) read_reply)"

definition conclude :: "bytes res \<Rightarrow> (bytes \<Rightarrow> (string \<times> 'a) res) \<Rightarrow> ('a \<Rightarrow> client_exit) \<Rightarrow> client_exit" where
  "conclude r decode finish =
     (case r of
        Inl e \<Rightarrow> failed (if is_panic e then 2 else 1)
      | Inr msgBytes \<Rightarrow> (case decode msgBytes of
          Inl _ \<Rightarrow> failed 1
        | Inr (error, reply) \<Rightarrow> if error \<noteq> [] then failed 1 else finish reply))"

section \<open>Commands\<close>

definition client_handleRegisterUnregister :: "client_msgpack \<Rightarrow> (bytes \<Rightarrow> bytes res) \<Rightarrow> string \<Rightarrow> bool \<Rightarrow> client_exit" where
  "client_handleRegisterUnregister K conn eid register =
     conclude (exchange K conn (RegisterUnregisterMessage (if register then MsgTypeRegisterEID else MsgTypeUnregisterEID) eid))
       (cm_general K) (\<lambda>_. printed ''Success'')"

text \<open>The payload: the first line of the standard input, which must be complete, or a file.\<close>

definition client_payload :: "client_env \<Rightarrow> string \<Rightarrow> bytes res" where
  "client_payload env payload =
     (if payload = ''stdin'' then
        (if 10 \<in> set (cl_stdin env) then Inr (takeWhile (\<lambda>b. b \<noteq> 10) (cl_stdin env) @ [10]) else Inl eof)
      else (case cl_files env payload of None \<Rightarrow> Inl (Errorf ''no such file or directory'') | Some data \<Rightarrow> Inr data))"

definition create_args :: "string \<Rightarrow> string \<Rightarrow> string \<Rightarrow> string \<Rightarrow> string \<Rightarrow> bytes \<Rightarrow> (string \<times> arg) list" where
  "create_args sourceID destinationID reportTo creationTimestamp lifetime payloadBytes =
     [(''source'', ArgString sourceID), (''destination'', ArgString destinationID)] @
     (if reportTo \<noteq> [] then [(''report_to'', ArgString reportTo)] else []) @
     (if creationTimestamp = ''now'' then [(''creation_timestamp_now'', ArgBool True)]
      else if creationTimestamp = ''epoch'' then [(''creation_timestamp_epoch'', ArgBool True)]
      else [(''creation_timestamp_time'', ArgString creationTimestamp)]) @
     [(''lifetime'', ArgString lifetime), (''payload_block'', ArgBytes payloadBytes)]"

definition client_handleCreate ::
    "client_env \<Rightarrow> client_msgpack \<Rightarrow> (bytes \<Rightarrow> bytes res) \<Rightarrow> string \<Rightarrow> string \<Rightarrow> string \<Rightarrow> string \<Rightarrow> string \<Rightarrow> string \<Rightarrow> client_exit" where
  "client_handleCreate env K conn sourceID destinationID reportTo creationTimestamp lifetime payload =
     (case client_payload env payload of
        Inl _ \<Rightarrow> failed 1
      | Inr payloadBytes \<Rightarrow>
          conclude (exchange K conn (BundleCreateMessage (create_args sourceID destinationID reportTo creationTimestamp lifetime payloadBytes)))
            (cm_created K) printed)"

definition show_list :: "string list \<Rightarrow> string" where
  "show_list xs = ''['' @ (case xs of [] \<Rightarrow> [] | x # xs \<Rightarrow> x @ concat (map (\<lambda>y. '' '' @ y) xs)) @ '']''"

definition client_handleList :: "client_msgpack \<Rightarrow> (bytes \<Rightarrow> bytes res) \<Rightarrow> string \<Rightarrow> bool \<Rightarrow> client_exit" where
  "client_handleList K conn mailboxID new =
     conclude (exchange K conn (ListBundles mailboxID new)) (cm_listed K) (\<lambda>bundles. printed (show_list bundles))"

text \<open>Creating and writing files, up to the first failure.\<close>

fun write_files :: "client_env \<Rightarrow> (string \<times> bytes) list \<Rightarrow> nat \<times> (string \<times> bytes) list" where
  "write_files env [] = (0, [])"
| "write_files env ((filename, data) # fs) =
     (if \<not> cl_create env filename then (1, [])
      else (case cl_write env filename of
        Some k \<Rightarrow> (1, [(filename, take k data)])
      | None \<Rightarrow> (case write_files env fs of (code, written) \<Rightarrow> (code, (filename, data) # written))))"

definition client_handleGetBundle ::
    "client_env \<Rightarrow> client_msgpack \<Rightarrow> (bytes \<Rightarrow> bytes res) \<Rightarrow> string \<Rightarrow> string \<Rightarrow> string \<Rightarrow> bool \<Rightarrow> client_exit" where
  "client_handleGetBundle env K conn mailboxID bundleID output remove =
     conclude (exchange K conn (FetchBundle mailboxID bundleID remove)) (cm_fetched K) (\<lambda>content.
       if output = ''stdout'' then \<lparr>ce_code = 0, ce_stdout = bc_Payload content, ce_files = []\<rparr>
       else (case write_files env [(output, bc_Payload content)] of
         (code, written) \<Rightarrow> \<lparr>ce_code = code, ce_stdout = [], ce_files = written\<rparr>))"

definition client_filename :: "string \<Rightarrow> string" where
  "client_filename bundleID = filter (\<lambda>c. c \<noteq> CHR '':'') (filter (\<lambda>c. c \<noteq> CHR ''/'') bundleID)"

definition client_handleGetAllBundles ::
    "client_env \<Rightarrow> client_msgpack \<Rightarrow> (bytes \<Rightarrow> bytes res) \<Rightarrow> string \<Rightarrow> bool \<Rightarrow> bool \<Rightarrow> client_exit" where
  "client_handleGetAllBundles env K conn mailboxID new remove =
     conclude (exchange K conn (FetchAllBundles mailboxID new remove)) (cm_fetchedAll K) (\<lambda>bundles.
       case write_files env (map (\<lambda>bundle. (client_filename (bc_BundleID bundle), bc_Payload bundle)) bundles) of
         (code, written) \<Rightarrow> \<lparr>ce_code = code, ce_stdout = [], ce_files = written\<rparr>)"

datatype command =
    CmdRegister string
  | CmdUnregister string
  | CmdCreate string string string string string string
  | CmdList string bool
  | CmdGetBundle string string string bool
  | CmdGetAllBundles string bool bool

text \<open>\<open>main\<close> behind the parser of the command line: resolving and dialling the socket, and the command.\<close>

fun run_command :: "client_env \<Rightarrow> client_msgpack \<Rightarrow> (bytes \<Rightarrow> bytes res) \<Rightarrow> command \<Rightarrow> client_exit" where
  "run_command env K conn (CmdRegister eid) = client_handleRegisterUnregister K conn eid True"
| "run_command env K conn (CmdUnregister eid) = client_handleRegisterUnregister K conn eid False"
| "run_command env K conn (CmdCreate sourceID destinationID reportTo creationTimestamp lifetime payload) =
     client_handleCreate env K conn sourceID destinationID reportTo creationTimestamp lifetime payload"
| "run_command env K conn (CmdList mailboxID new) = client_handleList K conn mailboxID new"
| "run_command env K conn (CmdGetBundle mailboxID bundleID output remove) =
     client_handleGetBundle env K conn mailboxID bundleID output remove"
| "run_command env K conn (CmdGetAllBundles mailboxID new remove) = client_handleGetAllBundles env K conn mailboxID new remove"

definition client_main :: "client_env \<Rightarrow> client_msgpack \<Rightarrow> (bytes \<Rightarrow> bytes res) res \<Rightarrow> command \<Rightarrow> client_exit" where
  "client_main env K dial cmd = (case dial of Inl _ \<Rightarrow> failed 1 | Inr conn \<Rightarrow> run_command env K conn cmd)"

section \<open>The client and the agent\<close>

text \<open>The connection a running agent gives a client, and its end when the agent gives it up.\<close>

definition serve ::
    "unix_msgpack \<Rightarrow> 'db runtime \<Rightarrow> (u64 \<Rightarrow> u64) \<Rightarrow> BundleID list \<Rightarrow> 'db BundleStore \<Rightarrow> unix_state \<Rightarrow> bytes \<Rightarrow> bytes res" where
  "serve M rt conv order st us input =
     Inr (case fst (unix_handleConnection M rt conv order st input us) of Inr (Some reply, _) \<Rightarrow> reply | _ \<Rightarrow> [])"

definition error_text :: "(reply_err \<Rightarrow> string) \<Rightarrow> reply_err option \<Rightarrow> string" where
  "error_text text e = (case e of None \<Rightarrow> [] | Some e \<Rightarrow> text e)"

text \<open>
  What msgpack promises to both sides: decoding inverts encoding, where a map may come back in another
  order, and an encoded message fits into the address space. Errors have a text.
\<close>

definition unix_codec :: "unix_msgpack \<Rightarrow> client_msgpack \<Rightarrow> (reply_err \<Rightarrow> string) \<Rightarrow> bool" where
  "unix_codec M K text \<longleftrightarrow>
     (\<forall>e. text e \<noteq> []) \<and>
     (\<forall>req bs. cm_marshal K req = Inr bs \<longrightarrow> length bs \<le> 281474976710656 \<and> um_type M bs = Inr (request_type req) \<and>
        (case req of
           RegisterUnregisterMessage _ eid \<Rightarrow> um_register M bs = Inr eid
         | BundleCreateMessage args \<Rightarrow> \<exists>args'. um_create M bs = Inr args' \<and> mset args' = mset args
         | ListBundles mailbox new \<Rightarrow> um_list M bs = Inr (mailbox, new)
         | FetchBundle mailbox bid remove \<Rightarrow> um_fetch M bs = Inr (mailbox, bid, remove)
         | FetchAllBundles mailbox new remove \<Rightarrow> um_fetchAll M bs = Inr (mailbox, new, remove))) \<and>
     (\<forall>reply bs. um_marshal M reply = Inr bs \<longrightarrow> length bs \<le> 281474976710656 \<and>
        (case reply of
           GeneralResponse e \<Rightarrow> cm_general K bs = Inr (error_text text e, ())
         | BundleCreateResponse e bid \<Rightarrow> cm_created K bs = Inr (error_text text e, bid)
         | ListResponse e bids \<Rightarrow> cm_listed K bs = Inr (error_text text e, bids)
         | FetchBundleResponse e c \<Rightarrow> cm_fetched K bs = Inr (error_text text e, c)
         | FetchAllBundlesResponse e cs \<Rightarrow> cm_fetchedAll K bs = Inr (error_text text e, cs)))"

lemma codec_text: "unix_codec M K text \<Longrightarrow> error_text text e = [] \<longleftrightarrow> e = None"
  by (auto simp: unix_codec_def error_text_def split: option.split)

lemma codec_request:
  assumes "unix_codec M K text" "cm_marshal K req = Inr bs"
  shows "length bs \<le> 281474976710656" "um_type M bs = Inr (request_type req)"
    "req = RegisterUnregisterMessage t eid \<Longrightarrow> um_register M bs = Inr eid"
    "req = BundleCreateMessage args \<Longrightarrow> \<exists>args'. um_create M bs = Inr args' \<and> mset args' = mset args"
    "req = FetchAllBundles mailbox new remove \<Longrightarrow> um_fetchAll M bs = Inr (mailbox, new, remove)"
proof -
  note * = conjunct1 [OF conjunct2 [OF assms(1) [unfolded unix_codec_def]], rule_format, OF assms(2)]
  show "length bs \<le> 281474976710656" "um_type M bs = Inr (request_type req)" using * by blast+
  show "req = RegisterUnregisterMessage t eid \<Longrightarrow> um_register M bs = Inr eid"
    "req = BundleCreateMessage args \<Longrightarrow> \<exists>args'. um_create M bs = Inr args' \<and> mset args' = mset args"
    "req = FetchAllBundles mailbox new remove \<Longrightarrow> um_fetchAll M bs = Inr (mailbox, new, remove)"
    using * by simp_all
qed

lemma codec_reply:
  assumes "unix_codec M K text" "um_marshal M reply = Inr bs"
  shows "length bs \<le> 281474976710656"
    "reply = GeneralResponse e \<Longrightarrow> cm_general K bs = Inr (error_text text e, ())"
    "reply = BundleCreateResponse e bid \<Longrightarrow> cm_created K bs = Inr (error_text text e, bid)"
    "reply = FetchAllBundlesResponse e cs \<Longrightarrow> cm_fetchedAll K bs = Inr (error_text text e, cs)"
proof -
  note * = conjunct2 [OF conjunct2 [OF assms(1) [unfolded unix_codec_def]], rule_format, OF assms(2)]
  show "length bs \<le> 281474976710656" using * by blast
  show "reply = GeneralResponse e \<Longrightarrow> cm_general K bs = Inr (error_text text e, ())"
    "reply = BundleCreateResponse e bid \<Longrightarrow> cm_created K bs = Inr (error_text text e, bid)"
    "reply = FetchAllBundlesResponse e cs \<Longrightarrow> cm_fetchedAll K bs = Inr (error_text text e, cs)"
    using * by simp_all
qed

lemma read_reply_write:
  assumes "length bs \<le> 281474976710656"
  shows "read_reply (write_message bs) = Inr bs"
proof -
  have "int (length bs) \<le> 281474976710656" using assms by linarith
  then have "unbe (be 8 (int (length bs))) = int (length bs)" by (intro unbe_be) simp_all
  then show ?thesis using assms by (simp add: read_reply_def write_message_def Let_def)
qed

text \<open>An exchange gives the client the reply the dispatcher chose for its request.\<close>

lemma exchange_serve:
  assumes "unix_codec M K text" "cm_marshal K req = Inr msg" "um_marshal M reply = Inr bs"
    "fst (unix_dispatch M rt conv order st msg us) = Inr (unix_reply_bytes M reply, sent)"
  shows "exchange K (serve M rt conv order st us) req = Inr bs"
  using read_write_message [OF codec_request(1) [OF assms(1,2)], of "[]"] read_reply_write [OF codec_reply(1) [OF assms(1,3)]]
    assms(2,3,4)
  by (simp add: exchange_def serve_def unix_handleConnection_def unix_reply_bytes_def)

text \<open>Registering: the client reports success exactly when the agent has changed its bank without an error.\<close>

lemma client_register_correct:
  assumes "unix_codec M K text"
    "cm_marshal K (RegisterUnregisterMessage (if register then MsgTypeRegisterEID else MsgTypeUnregisterEID) eid) = Inr msg"
    "handleRegisterUnregister eid register (us_mailboxes us) = (reply, bank)" "um_marshal M reply = Inr bs"
  shows "client_handleRegisterUnregister K (serve M rt conv order st us) eid register =
      (if reply = GeneralResponse None then printed ''Success'' else failed 1)"
proof -
  let ?t = "if register then MsgTypeRegisterEID else MsgTypeUnregisterEID"
  have t: "um_type M msg = Inr ?t" "um_register M msg = Inr eid" "?t = MsgTypeRegisterEID \<or> ?t = MsgTypeUnregisterEID"
    "?t = MsgTypeRegisterEID \<longleftrightarrow> register"
    using codec_request(2,3) [OF assms(1,2)] by (simp_all add: msg_type_defs)
  then have "fst (unix_dispatch M rt conv order st msg us) = Inr (unix_reply_bytes M reply, None)"
    using assms(3) by (simp add: unix_dispatch_def)
  note x = exchange_serve [OF assms(1,2,4) this]
  obtain e where e: "reply = GeneralResponse e"
    using assms(3) by (auto simp: handleRegisterUnregister_def split: sum.splits prod.splits list.splits)
  show ?thesis
    using x codec_reply(2) [OF assms(1,4) e] codec_text [OF assms(1), of e]
    by (simp add: client_handleRegisterUnregister_def conclude_def e)
qed

lemma create_args_keys:
  "distinct (map fst (create_args source destination reportTo timestamp lifetime data))"
  "map_of (create_args source destination reportTo timestamp lifetime data) ''payload_block'' = Some (ArgBytes data)"
  by (simp_all add: create_args_def)

lemma mset_map_of:
  assumes "mset xs = mset ys" "distinct (map fst ys)"
  shows "distinct (map fst xs)" "map_of xs = map_of ys" "set xs = set ys"
proof -
  show d: "distinct (map fst xs)" using assms by (metis mset_map mset_eq_imp_distinct_iff)
  show s: "set xs = set ys" using assms(1) by (rule mset_eq_setD)
  show "map_of xs = map_of ys" using map_of_inject_set [OF d assms(2)] s by blast
qed

lemma dispatch_create:
  assumes "unix_codec M K text" "cm_marshal K (BundleCreateMessage args) = Inr msg"
    "unix_dispatch M rt conv order st msg us = (Inr (Some reply, Some b), us')" "distinct (map fst args)"
    "\<forall>(k, a) \<in> set args. small_arg a"
  obtains args' bs where "mset args' = mset args"
    "handleBundleCreate (rt_cboring rt) conv (rt_now rt) args' (us_idKeeper us) =
       Inr (BundleCreateResponse None (BundleID_String (Bundle_ID b)), Some b, us_idKeeper us')"
    "um_marshal M (BundleCreateResponse None (BundleID_String (Bundle_ID b))) = Inr bs" "reply = write_message bs"
proof -
  obtain args' where a: "um_create M msg = Inr args'" "mset args' = mset args"
    using codec_request(4) [OF assms(1,2)] by blast
  have t: "um_type M msg = Inr MsgTypeBundleCreate" using codec_request(2) [OF assms(1,2)] by simp
  obtain r sent idk where h: "handleBundleCreate (rt_cboring rt) conv (rt_now rt) args' (us_idKeeper us) = Inr (r, sent, idk)"
    "unix_reply_bytes M r = Some reply" "sent = Some b" "us' = us\<lparr>us_idKeeper := idk\<rparr>"
    using assms(3) t a(1) by (auto simp: unix_dispatch_def msg_type_defs split: sum.splits)
  obtain bid where r: "r = BundleCreateResponse None bid"
    using h(1,3) by (auto simp: handleBundleCreate_def split: sum.splits if_splits prod.splits)
  have k: "distinct (map fst args')" "\<forall>(k, a) \<in> set args'. small_arg a"
    using mset_map_of [OF a(2) assms(4)] assms(5) by simp_all
  have "bid = BundleID_String (Bundle_ID b)" using handleBundleCreate_sent(1) [OF k] h(1,3) r by blast
  then show thesis using that a(2) h r by (auto simp: unix_reply_bytes_def split: sum.splits)
qed

lemma dispatch_fetchAll:
  assumes "unix_codec M K text" "cm_marshal K (FetchAllBundles mailbox new remove) = Inr msg"
    "fst (handleGetAllBundles rt order mailbox new remove st (us_mailboxes us)) = Inr reply"
  shows "fst (unix_dispatch M rt conv order st msg us) = Inr (unix_reply_bytes M reply, None)"
  using codec_request(2,5) [OF assms(1,2)] assms(3)
  by (cases "handleGetAllBundles rt order mailbox new remove st (us_mailboxes us)")
     (simp add: unix_dispatch_def msg_type_defs)

text \<open>The files a successful run leaves.\<close>

lemma write_files_ok:
  assumes "\<forall>f. cl_create env f \<and> cl_write env f = None"
  shows "write_files env fs = (0, fs)"
  using assms by (induction fs) auto

section \<open>A codec for evaluation\<close>

text \<open>
  A stand-in for msgpack with its documented behaviour: byte strings are escaped and terminated, so that
  decoding inverts encoding for texts and contents of any length; requests are checked when they are
  encoded, and messages above the address space are refused.
\<close>

fun put_str :: "bytes \<Rightarrow> bytes" where
  "put_str [] = [0]"
| "put_str (b # bs) = 1 # b # put_str bs"

fun get_str :: "bytes \<Rightarrow> bytes \<times> bytes" where
  "get_str (c # b # r) = (if c = 0 then ([], b # r) else case get_str r of (bs, r') \<Rightarrow> (b # bs, r'))"
| "get_str r = ([], drop 1 r)"

lemma get_str_put: "get_str (put_str bs @ r) = (bs, r)"
proof (induction bs)
  case Nil
  then show ?case by (cases r) simp_all
qed simp

fun put_all :: "bytes list \<Rightarrow> bytes" where
  "put_all [] = [0]"
| "put_all (x # xs) = 1 # put_str x @ put_all xs"

fun get_all :: "nat \<Rightarrow> bytes \<Rightarrow> bytes list" where
  "get_all 0 r = []"
| "get_all (Suc n) r = (case r of [] \<Rightarrow> [] | c # r \<Rightarrow> if c = 0 then [] else case get_str r of (x, r) \<Rightarrow> x # get_all n r)"

lemma get_all_put: "length xs < n \<Longrightarrow> get_all n (put_all xs @ r) = xs"
proof (induction xs arbitrary: n)
  case Nil
  then show ?case by (cases n) simp_all
next
  case (Cons x xs)
  then show ?case by (cases n) (simp_all add: get_str_put)
qed

lemma length_put_all: "length xs < length (put_all xs)"
  by (induction xs) simp_all

lemma length_put_simps [simp]:
  "length (put_str bs) = 2 * length bs + 1" "length (put_all []) = 1"
  "length (put_all (x # xs)) = 2 * length x + 2 + length (put_all xs)"
proof -
  show "length (put_str bs) = 2 * length bs + 1" for bs by (induction bs) simp_all
  then show "length (put_all []) = 1" "length (put_all (x # xs)) = 2 * length x + 2 + length (put_all xs)" by simp_all
qed

declare put_all.simps [simp del]

fun arg_fields :: "string \<times> arg \<Rightarrow> bytes list" where
  "arg_fields (k, ArgString v) = [bytes_of k, [0], bytes_of v]"
| "arg_fields (k, ArgBool v) = [bytes_of k, [1], [if v then 1 else 0]]"
| "arg_fields (k, ArgBytes v) = [bytes_of k, [2], v]"
| "arg_fields (k, _) = [bytes_of k, [3], []]"

fun fields_args :: "bytes list \<Rightarrow> (string \<times> arg) list" where
  "fields_args (k # t # v # fs) =
     (string_of k, if t = [0] then ArgString (string_of v) else if t = [1] then ArgBool (v = [1]) else ArgBytes v) # fields_args fs"
| "fields_args _ = []"

fun request_fields :: "unix_request \<Rightarrow> bytes list" where
  "request_fields (RegisterUnregisterMessage t eid) = [[t], bytes_of eid]"
| "request_fields (BundleCreateMessage args) = [MsgTypeBundleCreate] # concat (map arg_fields args)"
| "request_fields (ListBundles mailbox new) = [[MsgTypeListBundles], bytes_of mailbox, [of_bool new]]"
| "request_fields (FetchBundle mailbox bid remove) = [[MsgTypeFetchBundle], bytes_of mailbox, bytes_of bid, [of_bool remove]]"
| "request_fields (FetchAllBundles mailbox new remove) = [[MsgTypeFetchAllBundles], bytes_of mailbox, [of_bool new], [of_bool remove]]"

fun content_fields :: "BundleContent list \<Rightarrow> bytes list" where
  "content_fields [] = []"
| "content_fields (c # cs) =
     [bytes_of (bc_BundleID c), bytes_of (bc_SourceID c), bytes_of (bc_DestinationID c), bc_Payload c] @ content_fields cs"

fun fields_contents :: "bytes list \<Rightarrow> BundleContent list" where
  "fields_contents (i # s # d # p # fs) =
     \<lparr>bc_BundleID = string_of i, bc_SourceID = string_of s, bc_DestinationID = string_of d, bc_Payload = p\<rparr> # fields_contents fs"
| "fields_contents _ = []"

lemma fields_contents [simp]: "fields_contents (content_fields cs) = cs"
  by (induction cs) simp_all

definition example_text :: "reply_err \<Rightarrow> string" where
  "example_text e = ''error''"

fun reply_fields :: "unix_reply \<Rightarrow> bytes list" where
  "reply_fields (GeneralResponse e) = [bytes_of (error_text example_text e)]"
| "reply_fields (BundleCreateResponse e bid) = [bytes_of (error_text example_text e), bytes_of bid]"
| "reply_fields (ListResponse e bids) = bytes_of (error_text example_text e) # map bytes_of bids"
| "reply_fields (FetchBundleResponse e c) = bytes_of (error_text example_text e) # content_fields [c]"
| "reply_fields (FetchAllBundlesResponse e cs) = bytes_of (error_text example_text e) # content_fields cs"

definition msg_fields :: "bytes \<Rightarrow> bytes list" where
  "msg_fields bs = get_all (length bs) bs"

lemma msg_fields_put [simp]: "msg_fields (put_all xs) = xs"
  using get_all_put [OF length_put_all, of xs "[]"] by (simp add: msg_fields_def)

definition encode :: "bytes list \<Rightarrow> bytes res" where
  "encode xs = (if length (put_all xs) \<le> 281474976710656 then Inr (put_all xs) else Inl (Errorf ''message too long''))"

definition stub_msgpack :: unix_msgpack where
  "stub_msgpack =
     \<lparr>um_type = (\<lambda>bs. Inr (hd (hd (msg_fields bs)))),
      um_register = (\<lambda>bs. Inr (string_of (msg_fields bs ! 1))),
      um_create = (\<lambda>bs. Inr (fields_args (tl (msg_fields bs)))),
      um_list = (\<lambda>bs. Inr (string_of (msg_fields bs ! 1), msg_fields bs ! 2 = [1])),
      um_fetch = (\<lambda>bs. Inr (string_of (msg_fields bs ! 1), string_of (msg_fields bs ! 2), msg_fields bs ! 3 = [1])),
      um_fetchAll = (\<lambda>bs. Inr (string_of (msg_fields bs ! 1), msg_fields bs ! 2 = [1], msg_fields bs ! 3 = [1])),
      um_marshal = (\<lambda>reply. encode (reply_fields reply))\<rparr>"

definition stub_client :: client_msgpack where
  "stub_client =
     \<lparr>cm_marshal = (\<lambda>req. case req of
          BundleCreateMessage args \<Rightarrow>
            if fields_args (concat (map arg_fields args)) = args then encode (request_fields req) else Inl (Errorf ''unsupported type'')
        | _ \<Rightarrow> encode (request_fields req)),
      cm_general = (\<lambda>bs. Inr (string_of (hd (msg_fields bs)), ())),
      cm_created = (\<lambda>bs. Inr (string_of (hd (msg_fields bs)), string_of (msg_fields bs ! 1))),
      cm_listed = (\<lambda>bs. Inr (string_of (hd (msg_fields bs)), map string_of (tl (msg_fields bs)))),
      cm_fetched = (\<lambda>bs. Inr (string_of (hd (msg_fields bs)), hd (fields_contents (tl (msg_fields bs))))),
      cm_fetchedAll = (\<lambda>bs. Inr (string_of (hd (msg_fields bs)), fields_contents (tl (msg_fields bs))))\<rparr>"

lemma encode_Inr: "encode xs = Inr bs \<longleftrightarrow> bs = put_all xs \<and> length (put_all xs) \<le> 281474976710656"
  by (auto simp: encode_def)

lemma stub_codec: "unix_codec stub_msgpack stub_client example_text"
  unfolding unix_codec_def
proof (intro conjI allI impI)
  fix req bs assume "cm_marshal stub_client req = Inr bs"
  then have e: "encode (request_fields req) = Inr bs"
    and c: "\<And>args. req = BundleCreateMessage args \<Longrightarrow> fields_args (concat (map arg_fields args)) = args"
    by (auto simp: stub_client_def split: unix_request.splits if_splits)
  have f: "msg_fields bs = request_fields req" using e by (simp add: encode_Inr)
  show "length bs \<le> 281474976710656" using e by (simp add: encode_Inr)
  show "um_type stub_msgpack bs = Inr (request_type req)"
    using f by (cases req) (simp_all add: stub_msgpack_def)
  show "case req of
           RegisterUnregisterMessage _ eid \<Rightarrow> um_register stub_msgpack bs = Inr eid
         | BundleCreateMessage args \<Rightarrow> \<exists>args'. um_create stub_msgpack bs = Inr args' \<and> mset args' = mset args
         | ListBundles mailbox new \<Rightarrow> um_list stub_msgpack bs = Inr (mailbox, new)
         | FetchBundle mailbox bid remove \<Rightarrow> um_fetch stub_msgpack bs = Inr (mailbox, bid, remove)
         | FetchAllBundles mailbox new remove \<Rightarrow> um_fetchAll stub_msgpack bs = Inr (mailbox, new, remove)"
    using f c by (cases req) (simp_all add: stub_msgpack_def)
next
  fix reply bs assume "um_marshal stub_msgpack reply = Inr bs"
  then have e: "encode (reply_fields reply) = Inr bs" by (simp add: stub_msgpack_def)
  then have f: "msg_fields bs = reply_fields reply" by (simp add: encode_Inr)
  show "length bs \<le> 281474976710656" using e by (simp add: encode_Inr)
  show "case reply of
           GeneralResponse e \<Rightarrow> cm_general stub_client bs = Inr (error_text example_text e, ())
         | BundleCreateResponse e bid \<Rightarrow> cm_created stub_client bs = Inr (error_text example_text e, bid)
         | ListResponse e bids \<Rightarrow> cm_listed stub_client bs = Inr (error_text example_text e, bids)
         | FetchBundleResponse e c \<Rightarrow> cm_fetched stub_client bs = Inr (error_text example_text e, c)
         | FetchAllBundlesResponse e cs \<Rightarrow> cm_fetchedAll stub_client bs = Inr (error_text example_text e, cs)"
    using f by (cases reply) (simp_all add: stub_client_def o_def)
qed (simp add: example_text_def)

section \<open>From one client to another\<close>

text \<open>The content of a bundle with a payload, as the agent answers it.\<close>

definition content_of :: "Bundle \<Rightarrow> bytes \<Rightarrow> BundleContent" where
  "content_of b data = \<lparr>bc_BundleID = BundleID_String (Bundle_ID b), bc_SourceID = EndpointID_String (pb_SourceNode (bndl_PrimaryBlock b)),
     bc_DestinationID = EndpointID_String (pb_Destination (bndl_PrimaryBlock b)), bc_Payload = data\<rparr>"

lemma client_create_succeeds:
  assumes "unix_codec M K text" "client_payload env payload = Inr data"
    "\<forall>(k, a) \<in> set (create_args source destination reportTo timestamp lifetime data). small_arg a"
    "cm_marshal K (BundleCreateMessage (create_args source destination reportTo timestamp lifetime data)) = Inr msg"
    "unix_dispatch M rt conv order st msg us = (Inr (Some reply, Some b), us')"
  shows "client_handleCreate env K (serve M rt conv order st us) source destination reportTo timestamp lifetime payload =
    printed (BundleID_String (Bundle_ID b))"
proof -
  obtain args' bs where c: "um_marshal M (BundleCreateResponse None (BundleID_String (Bundle_ID b))) = Inr bs" "reply = write_message bs"
    using dispatch_create [OF assms(1,4,5) create_args_keys(1) assms(3)] by metis
  then have "unix_reply_bytes M (BundleCreateResponse None (BundleID_String (Bundle_ID b))) = Some reply"
    by (simp add: unix_reply_bytes_def)
  then have "fst (unix_dispatch M rt conv order st msg us) =
      Inr (unix_reply_bytes M (BundleCreateResponse None (BundleID_String (Bundle_ID b))), Some b)"
    using assms(5) by simp
  note x = exchange_serve [OF assms(1,4) c(1) this]
  show ?thesis using x codec_reply(3) [OF assms(1) c(1) refl]
    by (simp add: client_handleCreate_def assms(2) conclude_def error_text_def)
qed

lemma client_get_all_succeeds:
  assumes "unix_codec M K text" "cm_marshal K (FetchAllBundles mailbox new remove) = Inr msg"
    "fst (handleGetAllBundles rt order mailbox new remove st (us_mailboxes us)) = Inr (FetchAllBundlesResponse None cs)"
    "um_marshal M (FetchAllBundlesResponse None cs) = Inr bs" "\<forall>f. cl_create env f \<and> cl_write env f = None"
  shows "client_handleGetAllBundles env K (serve M rt conv order st us) mailbox new remove =
    \<lparr>ce_code = 0, ce_stdout = [], ce_files = map (\<lambda>c. (client_filename (bc_BundleID c), bc_Payload c)) cs\<rparr>"
proof -
  note x = exchange_serve [OF assms(1,2,4) dispatch_fetchAll [OF assms(1-3)]]
  show ?thesis using x codec_reply(4) [OF assms(1,4) refl]
    by (simp add: client_handleGetAllBundles_def conclude_def error_text_def write_files_ok [OF assms(5)])
qed

text \<open>
  C9. The command line client, the agent and the daemon together: when the agent accepts a create request,
  the client exits successfully and prints the identifier of the bundle; once the daemon has processed the
  bundle, a client that gets the new bundles of the destination's mailbox exits successfully and leaves one
  file, named after that identifier, with exactly the payload the first client read.
\<close>

theorem dtnclient_create_get:
  assumes "cboring_lib (rt_cboring (dm_runtime dm))" "badger (dm_db dm) get" "store_inv get (nd_store nd)"
    "rt_ebm (dm_runtime dm) = GetExtensionBlockManager" "unix_codec M K text" "client_payload env payload = Inr data"
    "\<forall>(k, a) \<in> set (create_args source destination reportTo timestamp lifetime data). small_arg a"
    "cm_marshal K (BundleCreateMessage (create_args source destination reportTo timestamp lifetime data)) = Inr msg"
    "unix_dispatch M (dm_runtime dm) conv order (nd_store nd) msg us = (Inr (Some reply, Some b), us')"
    "bst_bundles (nd_store nd) (Bundle_ID b) = None" "get (bst_metadataStore (nd_store nd)) (Bundle_String b) = None"
    "create_ok (dm_io dm)" "flush_ok (dm_io dm)" "NewBundle_created dm b nd = (Inr (), nd')"
    "distinct (dm_agents dm)" "n \<in> set (dm_agents dm)" "nd_agents nd n = Some bank"
    "NewEndpointID mailbox = Inr (pb_Destination (bndl_PrimaryBlock b))"
    "GetMailbox (pb_Destination (bndl_PrimaryBlock b)) bank = Inr Map.empty"
    "cm_marshal K (FetchAllBundles mailbox True remove) = Inr msg'"
    "um_marshal M (FetchAllBundlesResponse None [content_of b data]) = Inr bs"
    "\<forall>f. cl_create env' f \<and> cl_write env' f = None"
  shows "client_handleCreate env K (serve M (dm_runtime dm) conv order (nd_store nd) us)
      source destination reportTo timestamp lifetime payload = printed (BundleID_String (Bundle_ID b)) \<and>
    (\<exists>bank'. nd_agents nd' n = Some bank' \<and>
      client_handleGetAllBundles env' K (serve M (dm_runtime dm) conv [Bundle_ID b] (nd_store nd') (us'\<lparr>us_mailboxes := bank'\<rparr>))
        mailbox True remove =
      \<lparr>ce_code = 0, ce_stdout = [], ce_files = [(client_filename (BundleID_String (Bundle_ID b)), data)]\<rparr>)"
proof -
  let ?args = "create_args source destination reportTo timestamp lifetime data"
  obtain args' where c: "mset args' = mset ?args"
    "handleBundleCreate (rt_cboring (dm_runtime dm)) conv (rt_now (dm_runtime dm)) args' (us_idKeeper us) =
       Inr (BundleCreateResponse None (BundleID_String (Bundle_ID b)), Some b, us_idKeeper us')"
    using dispatch_create [OF assms(5,8,9) create_args_keys(1) assms(7)] by metis
  note args = mset_map_of [OF c(1) create_args_keys(1)]
  have small: "\<forall>(k, a) \<in> set args'. small_arg a" using args(3) assms(7) by simp
  have data: "Bundle_Payload b = Inr data"
    using handleBundleCreate_sent(4) [OF args(1) small c(2)] by (simp add: args(2) create_args_keys payload_arg_def binary_Write_def)
  obtain bank' where g: "nd_agents nd' n = Some bank'"
    "fst (handleGetAllBundles (dm_runtime dm) [Bundle_ID b] mailbox True remove (nd_store nd') bank') =
      Inr (FetchAllBundlesResponse None [content_of b data])"
    using create_fetch [OF assms(1-4) args(1) small c(2) assms(10-19), of remove] data by (auto simp: content_of_def)
  have get_all: "client_handleGetAllBundles env' K (serve M (dm_runtime dm) conv [Bundle_ID b] (nd_store nd') (us'\<lparr>us_mailboxes := bank'\<rparr>))
        mailbox True remove =
      \<lparr>ce_code = 0, ce_stdout = [], ce_files = [(client_filename (BundleID_String (Bundle_ID b)), data)]\<rparr>"
    using client_get_all_succeeds [OF assms(5,20) _ assms(21,22), of "dm_runtime dm" "[Bundle_ID b]" "nd_store nd'" "us'\<lparr>us_mailboxes := bank'\<rparr>" conv] g(2)
    by (simp add: content_of_def)
  show ?thesis using client_create_succeeds [OF assms(5-9)] g(1) get_all by simp
qed

subsection \<open>A run\<close>

definition client_example_env :: client_env where
  "client_example_env = \<lparr>cl_stdin = bytes_of ''hi'' @ [10, 65], cl_files = Map.empty, cl_create = (\<lambda>_. True), cl_write = (\<lambda>_. None)\<rparr>"

definition client_example_args :: "(string \<times> arg) list" where
  "client_example_args = create_args ''dtn://s/'' ''dtn://d/x'' [] ''now'' ''1h'' (bytes_of ''hi'' @ [10])"

lemma client_example_args_eq:
  "client_example_args = [(''source'', ArgString ''dtn://s/''), (''destination'', ArgString ''dtn://d/x''),
     (''creation_timestamp_now'', ArgBool True), (''lifetime'', ArgString ''1h''), (''payload_block'', ArgBytes (bytes_of ''hi'' @ [10]))]"
  by (simp add: client_example_args_def create_args_def)

definition client_example_builder :: BundleBuilder where
  "client_example_builder = fold apply_effect [SetSource example_src, SetDestination example_dst, SetTimestamp 1000, SetLifetime 3600000,
     AddBlock 0 (PayloadBlock (bytes_of ''hi'' @ [10]))] Builder"

lemma client_example_valid:
  "Bundle_CheckValid example_now (MustNewBundle (built_primary client_example_builder) (bldr_canonicals client_example_builder)
     (bldr_payload client_example_builder)) = Inr []"
  by code_simp

lemma client_example_create:
  obtains b idk where "handleBundleCreate rfc8949 (\<lambda>_. 0) example_now client_example_args InitializeIdKeeper =
      Inr (BundleCreateResponse None (BundleID_String (Bundle_ID b)), Some b, idk)"
    "BundleID_String (Bundle_ID b) = ''dtn://s/-1000-0''" "pb_Destination (bndl_PrimaryBlock b) = example_dst"
    "pb_SourceNode (bndl_PrimaryBlock b) = example_src"
proof -
  let ?B = client_example_builder
  have "map_effects (\<lambda>_. 0) example_now client_example_args [SetSource example_src, SetDestination example_dst, SetTimestamp 1000,
      SetLifetime 3600000, AddBlock 0 (PayloadBlock (bytes_of ''hi'' @ [10]))]"
    by (simp add: client_example_args_eq call_effect_def bldrParseLifetime_def bldrParseEndpoint_def payload_arg_def
        binary_Write_def ParseDuration_hours example_endpoints example_time quot_def u64_of_int_def)
  then have "build_calls (\<lambda>_. 0) example_now client_example_args Builder = Inr ?B"
    unfolding client_example_builder_def by (subst build_calls_effects) (auto simp: Builder_def)
  moreover have B: "bldr_err ?B = None" "pb_SourceNode (bldr_primary ?B) = example_src" "pb_Destination (bldr_primary ?B) = example_dst"
    "bldr_crcType ?B = CRCNo" "pb_CreationTimestamp (bldr_primary ?B) = (1000, 0)" "pb_BundleControlFlags (bldr_primary ?B) = 0"
    by (simp_all add: client_example_builder_def Builder_def NewCreationTimestamp_def)
  ultimately obtain b0 where build: "BuildFromMap rfc8949 (\<lambda>_. 0) example_now client_example_args = Inr b0"
    and b0: "b0 = Bundle_SetCRCType rfc8949 CRCNo (MustNewBundle (built_primary ?B) (bldr_canonicals ?B) (bldr_payload ?B))"
    using client_example_valid
    by (simp add: BuildFromMap_def Builder_Build_eq NewBundle_def example_src_def example_dst_def)
  obtain c where p: "bndl_PrimaryBlock b0 = (built_primary ?B)\<lparr>pb_CRCType := CRC32, pb_CRC := c\<rparr>"
    using PrimaryBlock_SetCRCType_fields [of rfc8949 CRCNo "built_primary ?B"] by (auto simp: b0 Bundle_SetCRCType_def)
  let ?s = "set_sequence 0 b0"
  have i: "bid_SourceNode (Bundle_ID ?s) = example_src" "bid_Timestamp (Bundle_ID ?s) = (1000, 0)" "\<not> bid_IsFragment (Bundle_ID ?s)"
    by (simp_all add: Bundle_ID_def set_sequence_def p built_primary_def B Has_bit_simps)
  have "BundleID_String (Bundle_ID ?s) = EndpointID_String example_src @ ''-'' @ fmt_d 1000 @ ''-'' @ fmt_d 0"
    by (simp add: BundleID_String_def i)
  also have "\<dots> = ''dtn://s/-1000-0''" by code_simp
  finally have "BundleID_String (Bundle_ID ?s) = ''dtn://s/-1000-0''" .
  moreover obtain idk where "Send b0 InitializeIdKeeper = (Bundle_ID ?s, ?s, idk)"
    by (simp add: Send_def IdKeeper_Update_def InitializeIdKeeper_def Let_def)
  moreover have "pb_Destination (bndl_PrimaryBlock ?s) = example_dst" "pb_SourceNode (bndl_PrimaryBlock ?s) = example_src"
    by (simp_all add: p built_primary_def B)
  ultimately show thesis using that [of ?s idk] build by (simp add: handleBundleCreate_def)
qed

theorem dtnclient_create_get_witness:
  "\<exists>b us' nd' bank'.
    client_handleCreate client_example_env stub_client
      (serve stub_msgpack (dm_runtime unix_daemon) (\<lambda>_. 0) [] example_store
        \<lparr>us_mailboxes = snd (Bank_Register example_dst NewUNIXAgent), us_idKeeper = InitializeIdKeeper\<rparr>)
      ''dtn://s/'' ''dtn://d/x'' [] ''now'' ''1h'' ''stdin'' = printed ''dtn://s/-1000-0'' \<and>
    NewBundle_created unix_daemon b unix_node = (Inr (), nd') \<and> nd_agents nd' ''UNIX'' = Some bank' \<and>
    client_handleGetAllBundles client_example_env stub_client
      (serve stub_msgpack (dm_runtime unix_daemon) (\<lambda>_. 0) [Bundle_ID b] (nd_store nd') (us'\<lparr>us_mailboxes := bank'\<rparr>)) ''dtn://d/x'' True False =
      \<lparr>ce_code = 0, ce_stdout = [], ce_files = [(''dtns-1000-0'', bytes_of ''hi'' @ [10])]\<rparr>"
proof -
  let ?bank = "snd (Bank_Register example_dst NewUNIXAgent)" and ?data = "bytes_of ''hi'' @ [10]"
  let ?us = "\<lparr>us_mailboxes = ?bank, us_idKeeper = InitializeIdKeeper\<rparr>"
  obtain b idk where h: "handleBundleCreate rfc8949 (\<lambda>_. 0) example_now client_example_args InitializeIdKeeper =
      Inr (BundleCreateResponse None (BundleID_String (Bundle_ID b)), Some b, idk)"
    "BundleID_String (Bundle_ID b) = ''dtn://s/-1000-0''" "pb_Destination (bndl_PrimaryBlock b) = example_dst"
    "pb_SourceNode (bndl_PrimaryBlock b) = example_src" by (rule client_example_create)
  have m: "distinct (map fst client_example_args)" "\<forall>(k, a) \<in> set client_example_args. small_arg a"
    by (simp_all add: client_example_args_eq small_arg_def)
  note sent = handleBundleCreate_sent [OF m h(1)]
  obtain msg where msg: "cm_marshal stub_client (BundleCreateMessage client_example_args) = Inr msg"
    by (simp add: stub_client_def encode_def client_example_args_eq)
  have um: "um_type stub_msgpack msg = Inr MsgTypeBundleCreate" "um_create stub_msgpack msg = Inr client_example_args"
    using msg by (simp_all add: stub_client_def stub_msgpack_def encode_Inr client_example_args_eq split: if_splits)
  have "um_marshal stub_msgpack (BundleCreateResponse None ''dtn://s/-1000-0'') =
      Inr (put_all (reply_fields (BundleCreateResponse None ''dtn://s/-1000-0'')))"
    by (simp add: stub_msgpack_def encode_def error_text_def)
  then obtain reply where d: "unix_dispatch stub_msgpack (dm_runtime unix_daemon) (\<lambda>_. 0) [] (nd_store unix_node) msg ?us =
      (Inr (Some reply, Some b), ?us\<lparr>us_idKeeper := idk\<rparr>)"
    using um h(1,2) by (simp add: unix_dispatch_def msg_type_defs unix_reply_bytes_def)
  obtain prev where prev: "previous_node b = Inr prev" using wf_previous_node [OF sent(2)] by blast
  obtain p st b' where i: "InsertBundle rfc8949 alist_db example_env b example_store = (Inr p, st)" "GetBundleDescriptor (Bundle_ID b) st = Inr p"
    using alist.insert_load [OF rfc.cboring_lib_axioms example_store_inv sent(2) example_fresh(1,2) prev example_fresh(3,4) sent(3)] by blast
  obtain bd where bd: "bst_heap st p = Some bd" using i(2) by (auto simp: GetBundleDescriptor_Inr)
  obtain nd' where r: "NewBundle_created unix_daemon b unix_node = (Inr (), nd')"
    using receiveAsync_epidemic [of unix_daemon b unix_node p st bd True] i(1) bd by (simp add: NewBundle_created_def)
  have a: "nd_agents unix_node ''UNIX'' = Some ?bank" "GetMailbox example_dst ?bank = Inr Map.empty"
    by (simp_all add: unix_node_def GetMailbox_def Bank_Register_def NewUNIXAgent_def NewMailboxBank_def NewMailbox_def)
  have e: "EndpointID_String example_src = ''dtn://s/''" "EndpointID_String example_dst = ''dtn://d/x''" by code_simp+
  obtain bs where bs: "um_marshal stub_msgpack (FetchAllBundlesResponse None [content_of b ?data]) = Inr bs"
    by (simp add: stub_msgpack_def encode_def error_text_def content_of_def h e)
  obtain msg' where msg': "cm_marshal stub_client (FetchAllBundles ''dtn://d/x'' True False) = Inr msg'"
    by (simp add: stub_client_def encode_def)
  have data: "client_payload client_example_env ''stdin'' = Inr ?data"
    by (simp add: client_payload_def client_example_env_def bytes_of_def)
  have f: "client_filename ''dtn://s/-1000-0'' = ''dtns-1000-0''" by (simp add: client_filename_def)
  note * = dtnclient_create_get [where dm = unix_daemon and nd = unix_node and get = map_of and n = "''UNIX''" and bank = ?bank and
      M = stub_msgpack and K = stub_client and env = client_example_env and env' = client_example_env and us = ?us and order = "[]"
      and mailbox = "''dtn://d/x''" and remove = False and data = ?data and payload = "''stdin''"
      and source = "''dtn://s/''" and destination = "''dtn://d/x''" and reportTo = "[]" and timestamp = "''now''" and lifetime = "''1h''",
      OF _ _ _ _ stub_codec data m(2) [unfolded client_example_args_def] msg [unfolded client_example_args_def] d _ _ _ _ r _ _ a(1) _ _ msg' bs,
      unfolded h(2,3) f]
  show ?thesis
    by (rule exI [of _ b], rule exI [of _ "?us\<lparr>us_idKeeper := idk\<rparr>"], rule exI [of _ nd'])
       (use * r a rfc.cboring_lib_axioms alist.badger_axioms example_store_inv example_fresh example_endpoints in
         \<open>simp add: client_example_env_def\<close>)
qed

subsection \<open>What does not work\<close>

text \<open>
  A creation timestamp other than \<open>now\<close> and \<open>epoch\<close> is sent as a text, which the builder refuses: the option is
  of no use, whatever order the map arrives in.
\<close>

lemma client_timestamp_refused:
  assumes "mset args = mset (create_args source destination reportTo timestamp lifetime data)" "timestamp \<notin> {''now'', ''epoch''}"
  shows "BuildFromMap L conv now args \<noteq> Inr b"
proof
  assume "BuildFromMap L conv now args = Inr b"
  then obtain es where "map_effects conv now args es"
    by (auto simp: BuildFromMap_def bindR_Inr_iff build_calls_effects Builder_def)
  moreover have "(''creation_timestamp_time'', ArgString timestamp) \<in> set args"
    using mset_eq_setD [OF assms(1)] assms(2) by (simp add: create_args_def)
  ultimately have "\<exists>e. call_effect conv now ''creation_timestamp_time'' (ArgString timestamp) = Inr e"
    unfolding map_effects_def by (fastforce simp: list_all2_conv_all_nth in_set_conv_nth)
  then show False by (simp add: call_effect_def)
qed

text \<open>Removing the separators maps different identifiers to one file, which the later bundle overwrites.\<close>

lemma client_filename_collision:
  "client_filename ''dtn://a/b-5-0'' = client_filename ''dtn://ab/-5-0''"
  by (simp add: client_filename_def)

text \<open>Input without a final line break is refused, and only the first line is sent.\<close>

lemma client_stdin_first_line:
  "10 \<notin> set (cl_stdin env) \<Longrightarrow> client_handleCreate env K conn s d r t l ''stdin'' = failed 1"
  "cl_stdin env = line @ 10 # rest \<Longrightarrow> 10 \<notin> set line \<Longrightarrow> client_payload env ''stdin'' = Inr (line @ [10])"
  by (auto simp: client_handleCreate_def client_payload_def takeWhile_tail)

end
