(* ===== verification/Spec2Isabelle.thy ===== *)
theory Spec2Isabelle
  imports Fragmentation Store_Spec Custom_Blocks Bundle_Json Bundle_Fuzz Dummy_Cla Daemon Client
begin

text \<open>
  \<^bold>\<open>A verification library for dtnd7-go\<close>, the daemon for delay-tolerant networking under
  \<^verbatim>\<open>src/dtnd7-go\<close>: the bundle protocol of RFC 9171 (\<^verbatim>\<open>pkg/bpv7\<close>), the bundle store (\<^verbatim>\<open>pkg/store\<close>),
  routing (\<^verbatim>\<open>pkg/routing\<close>), processing (\<^verbatim>\<open>pkg/processing\<close>), convergence layers (\<^verbatim>\<open>pkg/cla\<close>), neighbour
  discovery (\<^verbatim>\<open>pkg/discovery\<close>), application agents (\<^verbatim>\<open>pkg/application_agent\<close>), the daemon (\<^verbatim>\<open>cmd/dtnd\<close>)
  and its command line client (\<^verbatim>\<open>cmd/dtnclient\<close>).

  \<^bold>\<open>How the parts interact.\<close> An agent builds a bundle from a client's request and hands it to the agent manager,
  which numbers it and passes it to the processing. The processing inserts it into the store, tells the
  routing, delivers it to the mailboxes of local endpoints and forwards it: the routing selects peers from
  the senders of the manager of convergence layers, the processing replaces the previous node block and the
  adapters serialise the bundle. A server decodes what arrives and hands it to the same reception. The
  daemon reads a configuration, starts the parts in order and runs two jobs: dispatching what is
  pending and garbage collection. Discovery registers adapters for announced neighbours.

  \<^bold>\<open>Theories and sources.\<close> Definitions keep the names of the source, with the type in front where methods of
  different types share a name; records have the fields of the structs.
  \<^item> \<open>Prelude\<close>: errors, results, words, decimal numbers, the locale \<open>simulation\<close>. \<open>Cbor_Lib\<close>: the interface of
    the CBOR library with its laws, and RFC 8949 as an instance.
  \<^item> \<^verbatim>\<open>pkg/bpv7\<close>: \<open>Control_Flags\<close>, \<open>Dtn_Time\<close>, \<open>Crc\<close>, \<open>Endpoint\<close>, \<open>Bundle_Id\<close>, \<open>Primary_Block\<close>,
    \<open>Canonical_Block\<close> (with the extension blocks and their manager), \<open>Bundle\<close>, \<open>Fragmentation\<close>,
    \<open>Admin_Record\<close>, \<open>Go_Duration\<close> and \<open>Builder\<close>, \<open>Partial_Bundle\<close> (reading selected blocks of a stored file),
    \<open>Custom_Blocks\<close> (link state, probabilities, signatures), \<open>Go_Date\<close> and \<open>Bundle_Json\<close> (dates
    and the JSON form of bundles), \<open>Bundle_Fuzz\<close> (the entry point for fuzzing).
  \<^item> \<open>Id_Keeper\<close>: \<^verbatim>\<open>pkg/id_keeper\<close>. \<open>Descriptor\<close>, \<open>Sha256\<close>, \<open>Store\<close>: \<^verbatim>\<open>pkg/store\<close>; \<open>Store_Spec\<close>: its abstract
    specification.
  \<^item> \<open>Cla_Manager\<close>, \<open>Mtcp\<close>, \<open>Quicl\<close>, \<open>Dummy_Cla\<close>: \<^verbatim>\<open>pkg/cla\<close>. \<open>Discovery\<close>: \<^verbatim>\<open>pkg/discovery\<close>.
  \<^item> \<open>Routing\<close>: \<^verbatim>\<open>pkg/routing\<close>. \<open>Processing\<close>: \<^verbatim>\<open>pkg/processing\<close>.
  \<^item> \<open>Mailbox\<close>, \<open>Agents\<close>, \<open>Unix_Agent\<close>, \<open>Rest_Agent\<close>, \<open>Rec_Agent\<close> (requests) and
    \<open>Agent_Server\<close> (starting, accepting connections, stopping): \<^verbatim>\<open>pkg/application_agent\<close>.
  \<^item> \<open>Config\<close>, \<open>Daemon\<close>: \<^verbatim>\<open>cmd/dtnd\<close>. \<open>Client\<close>: \<^verbatim>\<open>cmd/dtnclient\<close>.
  This theory imports them all and holds what spans several of them: well-formedness of bundles under every
  operation, and a bundle that crosses a link between two nodes.

  \<^bold>\<open>State and effects.\<close> State is passed explicitly. Errors are values of type \<open>err\<close> in a sum; a panic of the
  Go runtime and a fatal log are the constructor \<open>Panic\<close>, so that a theorem about a result \<open>Inr\<close> also says that
  nothing panicked. Descriptors of the store are shared and mutable: the store has a heap of them, and
  operations take a reference. Goroutines are explicit: a started deletion, registration or disconnection is
  part of the state, and the transition systems \<open>store_step\<close> and \<open>mgr_step\<close> run them in any
  order, crashes and restarts included; \<open>server_step\<close> interleaves the loop of an agent with its shutdown, and
  \<open>dummy_step\<close> the senders and receivers on a channel. The order of a map traversal, the schedule of concurrent
  transmissions, the clock, the outcome of I/O and random numbers are arguments. Machine integers are words;
  conversions between them and to durations wrap as in Go.

  \<^bold>\<open>Code outside the repository\<close> is a parameter, with what is documented of it as hypotheses: CBOR and CRC-16
  (record \<open>cboring\<close>, locale \<open>cboring_lib\<close>, interpreted by RFC 8949), the metadata database (record
  \<open>badgerhold\<close>, locale \<open>badger\<close>, interpreted by an association list), msgpack (records \<open>unix_msgpack\<close>,
  \<open>client_msgpack\<close> and the one of the REC agent; \<open>unix_codec\<close>), ed25519 (\<open>ed25519_correct\<close>), conversions of floating
  point numbers, the QUIC implementation, peer discovery, TOML, the names of log levels and the scheduler. What
  the standard library does with strings, durations, addresses, channels and slices is defined.

  \<^bold>\<open>What the lemmas show.\<close>
  \<^item> Round trips: bundles, blocks, endpoints, identifiers, administrative records, announcements, custom blocks,
    status reports; the JSON form of bundles, with dates by the Gregorian calendar and base64; storing and loading; fragments and reassembly; the streams of the convergence layers.
  \<^item> Invariants: the store under every interleaving, operations on descriptors of deleted bundles included (\<open>store_safe\<close>; \<open>store_inv\<close>
    adds that the database agrees with the map, which such an operation can break and a restart restores), the manager of adapters, descriptors, mailboxes, the
    agents, the well-formedness of bundles. Refinement: \<open>Store_Spec\<close> states the store as a map from identifiers to
    bundles, holders, constraints and deletion marks, with the set of identifiers that a failed write has blocked; every
    operation, failed insertions included, is simulated by the abstract one, whose
    laws are inherited through the locales \<open>refined_op\<close> and \<open>bundle_store\<close>. Termination: decoding, and the loops of
    the agents on sockets, whose contract is the locale \<open>socket_agent\<close>.
  \<^item> Functional behaviour: validity, lifetime, the builder, numbering, peer selection and the conservation of
    copies in spray and wait, forwarding, delivery, signatures, handshake, start and stop of the daemon, clients, and
    which of the accepted bundles can be serialised.
  \<^item> End to end: from one client to another on a node, and from node to node.
  \<^item> Errors: inputs on which the code panics or gets stuck are stated as theorems about the model, so that they are
    exact; most of them are lemmas at the end of their theories.

  \<^bold>\<open>Loops and fuel.\<close> Recursion is structural wherever the source ranges over a slice. Four loops have fuel.
  Running out of it is \<open>None\<close>, or \<open>Diverges\<close> where the loop is inside an operation that can fail, never an error or a panic that a
  caller recovers from, and enough of it is proved to give the result: the decoding loops of a bundle (\<open>unmarshal_blocks\<close>,
  \<open>stream_blocks\<close>) and of a connection (\<open>handleSender_loop\<close>) get one round per byte of input, since every round
  consumes some; the search for a free block number (\<open>next_free\<close>) gets one round more than there are blocks; the reading loop of
  a partial bundle (\<open>partial_blocks\<close>) returns on the files the store writes (\<open>partial_blocks_read\<close>).
  Lengths are bounded where the code converts them: \<open>2^63\<close> for slices and \<open>2^48\<close> for the argument of \<open>make\<close>.

  \<^bold>\<open>Not modelled.\<close> Opening, accepting and closing sockets, TLS configuration, socket options, log output,
  HTTP and the syntax of JSON documents (the strings in them are modelled, with the replacement of invalid UTF-8), signals and command line parsing are I/O or library code: their outcomes
  are arguments. The database is assumed to work: the locale \<open>badger\<close> has no failing reads or writes, while the files of
  the bundles can fail to be created, written and read. The minimum that \<open>Fragment\<close> takes on floating point
  numbers is exact, as it is in Go for lengths up to \<open>2^53\<close>. The constants of the TLS and QUIC configuration and the text form of values for logs
  are not represented. Mutexes are modelled by the granularity of steps; data races inside one operation are not. The Python programs under
  \<^verbatim>\<open>src/rec\<close> are separate clients of the agents.
\<close>

section \<open>Well-formed bundles stay well-formed\<close>

lemma remove_number_subset: "set (remove_number no cbs) \<subseteq> set cbs"
  by (induction cbs) auto

lemma wf_bundle_blocks:
  assumes "wf_bundle ebm b" "bndl_PrimaryBlock b' = bndl_PrimaryBlock b" "bndl_PayloadBlock b' = bndl_PayloadBlock b"
    "\<And>cb. cb \<in> set (bndl_ExtensionBlocks b') \<Longrightarrow> cb \<in> set (bndl_ExtensionBlocks b) \<or> wf_canonical ebm cb \<and> TypeCode cb \<noteq> BlockTypePayloadBlock"
  shows "wf_bundle ebm b'"
  using assms unfolding wf_bundle_def by metis

lemma wf_AddExtensionBlock:
  assumes "wf_bundle ebm b" "AddExtensionBlock cb b = Inr b'" "wf_canonical ebm cb" "TypeCode cb \<noteq> BlockTypePayloadBlock"
  shows "wf_bundle ebm b'"
proof (rule wf_bundle_blocks [OF assms(1)])
  have n: "wf_canonical ebm (cb\<lparr>cb_BlockNumber := no\<rparr>) \<and> TypeCode (cb\<lparr>cb_BlockNumber := no\<rparr>) \<noteq> BlockTypePayloadBlock" for no
    using assms(3,4) by (simp add: wf_canonical_def CanonicalBlock_HasCRC_def TypeCode_def)
  fix c assume "c \<in> set (bndl_ExtensionBlocks b')"
  then show "c \<in> set (bndl_ExtensionBlocks b) \<or> wf_canonical ebm c \<and> TypeCode c \<noteq> BlockTypePayloadBlock"
    using AddExtensionBlock_frame(4) [OF assms(2)] n by auto
qed (use AddExtensionBlock_frame [OF assms(2)] in simp_all)

lemma wf_RemoveExtensionBlock: "wf_bundle ebm b \<Longrightarrow> wf_bundle ebm (RemoveExtensionBlockByBlockNumber no b)"
  by (rule wf_bundle_blocks, assumption) (use remove_number_subset in \<open>auto simp: RemoveExtensionBlockByBlockNumber_def\<close>)

lemma wf_replace_previous_node:
  assumes "wf_bundle GetExtensionBlockManager b" "replace_previous_node own b = Inr b'" "wf_eid own" "short_eid own"
  shows "wf_bundle GetExtensionBlockManager b'"
proof -
  let ?b = "case ExtensionBlockByType b BlockTypePreviousNodeBlock of Inl _ \<Rightarrow> b
    | Inr i \<Rightarrow> RemoveExtensionBlockByBlockNumber (cb_BlockNumber (bndl_ExtensionBlocks b ! i)) b"
  let ?cb = "NewCanonicalBlock 0 0 (NewPreviousNodeBlock own)"
  have b: "wf_bundle GetExtensionBlockManager ?b" using wf_RemoveExtensionBlock [OF assms(1)] assms(1) by (simp split: sum.split)
  have cb: "wf_canonical GetExtensionBlockManager ?cb" "TypeCode ?cb \<noteq> BlockTypePayloadBlock"
    using assms(3,4)
    by (simp_all add: NewCanonicalBlock_def NewPreviousNodeBlock_def wf_canonical_def wf_ext_def known_crc_def CanonicalBlock_HasCRC_def
        TypeCode_def block_type_defs default_manager)
  show ?thesis
  proof (cases "AddExtensionBlock ?cb ?b")
    case (Inl e)
    then show ?thesis using assms(2) b by (simp add: replace_previous_node_def Let_def split: if_splits)
  next
    case (Inr b'')
    then show ?thesis using assms(2) wf_AddExtensionBlock [OF b Inr cb] by (simp add: replace_previous_node_def Let_def)
  qed
qed

lemma wf_SetCRCType:
  assumes "wf_bundle ebm b" "crc = CRC16 \<or> crc = CRC32"
  shows "wf_bundle ebm (Bundle_SetCRCType L crc b)"
proof -
  have k: "known_crc crc" "crc \<noteq> CRCNo" using assms(2) by (auto simp: known_crc_def crc_type_defs)
  have c: "wf_canonical ebm (CanonicalBlock_SetCRCType crc cb)" "TypeCode (CanonicalBlock_SetCRCType crc cb) = TypeCode cb"
    if "wf_canonical ebm cb" for cb
    using that k by (simp_all add: wf_canonical_def CanonicalBlock_SetCRCType_def CanonicalBlock_HasCRC_def TypeCode_def)
  obtain v where "PrimaryBlock_SetCRCType L crc (bndl_PrimaryBlock b) = (bndl_PrimaryBlock b)\<lparr>pb_CRCType := crc, pb_CRC := v\<rparr>"
    using PrimaryBlock_SetCRCType_fields [of L crc "bndl_PrimaryBlock b"] k(2) by auto
  then have p: "wf_primary (PrimaryBlock_SetCRCType L crc (bndl_PrimaryBlock b))"
    using assms(1) k by (simp add: wf_bundle_def wf_primary_def PrimaryBlock_HasFragmentation_def PrimaryBlock_HasCRC_def)
  show ?thesis using assms(1) p c unfolding wf_bundle_def Bundle_SetCRCType_def by auto
qed

text \<open>The bundle the example node forwards: the example bundle behind its own node.\<close>

definition link_bundle :: Bundle where
  "link_bundle = example_bundle\<lparr>bndl_ExtensionBlocks :=
     [NewCanonicalBlock 2 1 (HopCountBlock 5 1), NewCanonicalBlock 3 0 (PreviousNodeBlock (Some (Ipn \<lparr>Node = 9, Service = 1\<rparr>)))]\<rparr>"

lemma link_bundle_eq: "replace_previous_node (Some (Ipn \<lparr>Node = 9, Service = 1\<rparr>)) example_bundle = Inr link_bundle"
  by code_simp

text \<open>
  C17. Bundles keep the form the decoder can rebuild: serialising, numbering, adding and removing blocks, replacing
  the previous node, and setting a checksum type turn a well-formed bundle into a well-formed
  one, and a bundle that is built from a map of arguments is well-formed.
\<close>

theorem bundles_stay_well_formed:
  assumes "wf_bundle GetExtensionBlockManager b" "distinct (map fst args)" "\<forall>(k, a) \<in> set args. small_arg a"
  shows "(\<forall>bs b'. Bundle_MarshalCbor L b = Inr (bs, b') \<longrightarrow> wf_bundle GetExtensionBlockManager b') \<and>
    (\<forall>idk. wf_bundle GetExtensionBlockManager (snd (IdKeeper_Update idk b))) \<and>
    (\<forall>cb b'. AddExtensionBlock cb b = Inr b' \<and> wf_canonical GetExtensionBlockManager cb \<and> TypeCode cb \<noteq> BlockTypePayloadBlock \<longrightarrow>
       wf_bundle GetExtensionBlockManager b') \<and>
    (\<forall>no. wf_bundle GetExtensionBlockManager (RemoveExtensionBlockByBlockNumber no b)) \<and>
    (\<forall>own b'. replace_previous_node own b = Inr b' \<and> wf_eid own \<and> short_eid own \<longrightarrow> wf_bundle GetExtensionBlockManager b') \<and>
    (\<forall>crc. crc = CRC16 \<or> crc = CRC32 \<longrightarrow> wf_bundle GetExtensionBlockManager (Bundle_SetCRCType L crc b)) \<and>
    (\<forall>b'. BuildFromMap L conv now args = Inr b' \<longrightarrow> wf_bundle GetExtensionBlockManager b')"
proof (intro conjI allI impI)
  show "wf_bundle GetExtensionBlockManager (snd (IdKeeper_Update idk b))" for idk
    using assms(1) by (simp add: IdKeeper_Update_def Let_def)
  show "BuildFromMap L conv now args = Inr b' \<Longrightarrow> wf_bundle GetExtensionBlockManager b'" for b'
    using BuildFromMap_facts [OF assms(2,3)] by blast
qed (use assms(1) marshal_wf wf_AddExtensionBlock wf_RemoveExtensionBlock wf_replace_previous_node wf_SetCRCType in blast)+

theorem bundles_stay_well_formed_witness:
  "wf_bundle GetExtensionBlockManager (Bundle_SetCRCType rfc8949 CRC32 example_bundle) \<and> wf_bundle GetExtensionBlockManager link_bundle"
proof -
  have e: "wf_eid (Some (Ipn \<lparr>Node = 9, Service = 1\<rparr>))" "short_eid (Some (Ipn \<lparr>Node = 9, Service = 1\<rparr>))"
    by (simp_all add: wf_eid_def wf_ipn_def short_eid_def)
  have no_args: "distinct (map fst ([] :: (string \<times> arg) list))" "\<forall>(k, a) \<in> set ([] :: (string \<times> arg) list). small_arg a" by simp_all
  show ?thesis using bundles_stay_well_formed [OF example_bundle_wf no_args, of rfc8949] link_bundle_eq e by blast
qed

section \<open>From node to node\<close>

text \<open>A received bundle is stored and delivered: reception ends without an error under epidemic routing.\<close>

lemma receive_total:
  assumes "cboring_lib (rt_cboring (dm_runtime dm))" "badger (dm_db dm) get" "store_inv get (nd_store nd)"
    "wf_bundle GetExtensionBlockManager b" "bst_bundles (nd_store nd) (Bundle_ID b) = None"
    "get (bst_metadataStore (nd_store nd)) (Bundle_String b) = None" "create_ok (dm_io dm)" "flush_ok (dm_io dm)"
    "Bundle_CheckValid now b = Inr errs" "dm_algorithm dm = EpidemicRouting"
  shows "\<exists>nd'. receiveAsync dm b new nd = (Inr (), nd')"
proof -
  obtain prev where prev: "previous_node b = Inr prev" using wf_previous_node [OF assms(4)] by blast
  obtain p st where i: "InsertBundle (rt_cboring (dm_runtime dm)) (dm_db dm) (dm_io dm) b (nd_store nd) = (Inr p, st)"
    "GetBundleDescriptor (Bundle_ID b) st = Inr p"
    using badger.insert_load [OF assms(2,1,3-6) prev assms(7-9)] by blast
  then obtain bd where "bst_heap st p = Some bd" by (auto simp: GetBundleDescriptor_Inr)
  then show ?thesis using receiveAsync_epidemic [OF i(1) _ assms(10)] by blast
qed

text \<open>
  C4. A bundle crosses a link: a node that holds a bundle and forwards it to a peer that does not have it,
  over a connection of the minimal TCP convergence layer, and the peer that decodes the connection,
  receives the bundle and delivers it, together bring it to the application: what the application takes
  from its mailbox has the identifier, the source and the payload of the bundle the first node held, and is
  the forwarded bundle up to checksums.
\<close>

theorem bundle_crosses_link:
  assumes "cboring_lib (rt_cboring (dm_runtime dm'))" "bst_heap (nd_store nd) p = Some bd" "\<not> bd_deleted bd"
    "dm_algorithm dm = EpidemicRouting" "\<And>c. dm_send dm c" "\<And>cs. set (dm_schedule dm cs) = set cs"
    "load_bundle (dm_runtime dm) p (nd_store nd) = Inr b" "replace_previous_node (dm_ownNodeID dm) b = Inr b1"
    "mtcp_cla client \<in> set (GetSenders (nd_manager nd))" "mc_peer client \<notin> set (md_KnownHolders (bd_metadata bd))"
    "mc_active client" "mc_written client = []"
    "sendable (rt_cboring (dm_runtime dm')) GetExtensionBlockManager (\<lambda>_. rt_now (dm_runtime dm')) b1"
    "rt_ebm (dm_runtime dm') = GetExtensionBlockManager" "badger (dm_db dm') get" "store_inv get (nd_store nd')"
    "dm_algorithm dm' = EpidemicRouting" "bst_bundles (nd_store nd') (Bundle_ID b) = None"
    "get (bst_metadataStore (nd_store nd')) (Bundle_String b) = None" "create_ok (dm_io dm')" "flush_ok (dm_io dm')"
    "distinct (dm_agents dm')" "n \<in> set (dm_agents dm')" "nd_agents nd' n = Some bank"
    "GetMailbox (pb_Destination (bndl_PrimaryBlock b)) bank = Inr m" "m (Bundle_ID b) = None"
  shows "\<exists>nd1 client' b2 e nd2 bank' m' b3. forwardingAsync dm p nd = (Inr (), nd1) \<and> (mtcp_cla client, b1) \<in> set (nd_sent nd1) \<and>
    MTCPClient_Send (rt_cboring (dm_runtime dm')) None None b1 client mgr = (Inr (), client', mgr) \<and>
    handleSender (rt_cboring (dm_runtime dm')) GetExtensionBlockManager (\<lambda>_. rt_now (dm_runtime dm')) (mc_written client') = Some ([b2], e) \<and>
    receiveAsync dm' b2 False nd' = (Inr (), nd2) \<and> nd_agents nd2 n = Some bank' \<and>
    GetMailbox (pb_Destination (bndl_PrimaryBlock b)) bank' = Inr m' \<and>
    fst (Mailbox_Get (dm_runtime dm') (Bundle_ID b) True (nd_store nd2) m') = Inr b3 \<and> strip_crc b3 = strip_crc b1 \<and>
    Bundle_ID b3 = Bundle_ID b \<and> Bundle_Payload b3 = Bundle_Payload b \<and>
    pb_SourceNode (bndl_PrimaryBlock b3) = pb_SourceNode (bndl_PrimaryBlock b)"
proof -
  let ?L = "rt_cboring (dm_runtime dm')" and ?ps = "filterPeers bd (GetSenders (nd_manager nd))"
  have peer: "mtcp_cla client \<in> set ?ps" using assms(3,9,10) by (simp add: set_filterPeers mtcp_cla_def)
  then have ne: "?ps \<noteq> []" by auto
  obtain nd1 where f: "forwardingAsync dm p nd = (Inr (), nd1)" "(mtcp_cla client, b1) \<in> set (nd_sent nd1)"
    using epidemic_forwarding [OF assms(2,3,4) ne assms(7,8)] peer assms(5,6) by fastforce
  obtain client' bs b2 e where t: "MTCPClient_Send ?L None None b1 client mgr = (Inr (), client', mgr)"
    "Bundle_MarshalCbor ?L b1 = Inr (bs, b2)" "strip_crc b2 = strip_crc b1"
    "handleSender ?L GetExtensionBlockManager (\<lambda>_. rt_now (dm_runtime dm')) (mc_written client') = Some ([b2], e)"
    using cboring_lib.mtcp_single [OF assms(1,11-13)] by blast
  have b1: "wf_bundle GetExtensionBlockManager b1" "Bundle_CheckValid (rt_now (dm_runtime dm')) b1 = Inr []"
    using assms(13) by (simp_all add: sendable_def)
  have wf: "wf_bundle GetExtensionBlockManager b2" by (rule marshal_wf [OF t(2) b1(1)])
  have valid: "Bundle_CheckValid (rt_now (dm_runtime dm')) b2 = Inr []" using Bundle_CheckValid_crc [OF t(3)] b1(2) by simp
  have same: "Bundle_ID b1 = Bundle_ID b" "Bundle_Payload b1 = Bundle_Payload b" "bndl_PrimaryBlock b1 = bndl_PrimaryBlock b"
    using replace_previous_node_frame [OF assms(8)] by (simp_all add: Bundle_ID_def Bundle_Payload_def)
  have b2: "Bundle_ID b2 = Bundle_ID b" "Bundle_String b2 = Bundle_String b" "pb_Destination (bndl_PrimaryBlock b2) = pb_Destination (bndl_PrimaryBlock b)"
    using strip_crc_content [OF t(3)] same by (simp_all add: Bundle_String_def)
  have fresh: "bst_bundles (nd_store nd') (Bundle_ID b2) = None" "get (bst_metadataStore (nd_store nd')) (Bundle_String b2) = None"
    using assms(18,19) b2 by simp_all
  obtain nd2 where r: "receiveAsync dm' b2 False nd' = (Inr (), nd2)"
    using receive_total [OF assms(1,15,16) wf fresh assms(20,21) valid assms(17)] by blast
  obtain prev where prev: "previous_node b2 = Inr prev" using wf_previous_node [OF wf] by blast
  obtain bank' m' b3 where d: "nd_agents nd2 n = Some bank'" "GetMailbox (pb_Destination (bndl_PrimaryBlock b2)) bank' = Inr m'"
    "Mailbox_Get (dm_runtime dm') (Bundle_ID b2) True (nd_store nd2) m' = (Inr b3, m'(Bundle_ID b2 := None))" "strip_crc b3 = strip_crc b2"
    using receive_delivered [OF assms(1,15,16) _ fresh prev assms(20,21) valid r assms(22-24), of m] wf assms(14,25,26) b2 by fastforce
  have "strip_crc b3 = strip_crc b1" using d(4) t(3) by simp
  then show ?thesis using f t(1,4) r d(1-3) b2 strip_crc_content [of b3 b1] same by (intro exI) auto
qed

definition link_client :: MTCPClient where
  "link_client = snd (snd (MTCPClient_Activate True (NewMTCPClient ''10.0.0.2:4556'' (Some (Ipn \<lparr>Node = 2, Service = 1\<rparr>)))))"

lemma link_client_simps [simp]:
  "mc_active link_client" "mc_written link_client = []" "mc_peer link_client = Some (Ipn \<lparr>Node = 2, Service = 1\<rparr>)"
  by (simp_all add: link_client_def MTCPClient_Activate_def NewMTCPClient_def)

lemma link_sendable: "sendable rfc8949 GetExtensionBlockManager (\<lambda>_. 0) link_bundle"
proof -
  have "(case Bundle_MarshalCbor rfc8949 link_bundle of Inr (bs, _) \<Rightarrow> length bs < 100 | _ \<Rightarrow> False)" by code_simp
  moreover have "wf_bundle GetExtensionBlockManager link_bundle" by (simp add: example_wf_simps link_bundle_def)
  moreover have "Bundle_CheckValid 0 link_bundle = Inr []" by code_simp
  ultimately show ?thesis by (auto simp: sendable_def)
qed

theorem bundle_crosses_link_witness:
  "\<exists>(st :: (string \<times> BundleMetadata) list BundleStore) nd1 client' b2 e nd2 bank' m' b3.
    forwardingAsync example_daemon 0 ((example_node st)\<lparr>nd_manager := InitialiseCLAManager\<lparr>mgr_senders := [mtcp_cla link_client]\<rparr>\<rparr>) = (Inr (), nd1) \<and>
    (mtcp_cla link_client, link_bundle) \<in> set (nd_sent nd1) \<and>
    MTCPClient_Send rfc8949 None None link_bundle link_client None = (Inr (), client', None) \<and>
    handleSender rfc8949 GetExtensionBlockManager (\<lambda>_. 0) (mc_written client') = Some ([b2], e) \<and>
    receiveAsync example_daemon b2 False (example_node example_store) = (Inr (), nd2) \<and> nd_agents nd2 ''REST'' = Some bank' \<and>
    GetMailbox (pb_Destination example_primary) bank' = Inr m' \<and>
    fst (Mailbox_Get example_runtime (Bundle_ID example_bundle) True (nd_store nd2) m') = Inr b3 \<and> strip_crc b3 = strip_crc link_bundle \<and>
    Bundle_Payload b3 = Inr [1, 2, 3, 4, 5, 6, 7, 8]"
proof -
  let ?bd = "NewBundleDescriptor (new_metadata DtnNone example_bundle None)"
  obtain st b where st: "bst_heap st 0 = Some ?bd" "load_bundle example_runtime 0 st = Inr b"
    "\<exists>bs. Bundle_MarshalCbor rfc8949 example_bundle = Inr (bs, b)"
    using example_holds_marshalled [OF example_bundle_wf example_bundle_valid example_previous_node] by metis
  have "map_sum id snd (Bundle_MarshalCbor rfc8949 example_bundle) = Inr example_bundle" by code_simp
  then have b: "b = example_bundle" using st(3) by auto
  let ?nd = "(example_node st)\<lparr>nd_manager := InitialiseCLAManager\<lparr>mgr_senders := [mtcp_cla link_client]\<rparr>\<rparr>"
  have nd: "nd_store ?nd = st" "mtcp_cla link_client \<in> set (GetSenders (nd_manager ?nd))"
    "mc_peer link_client \<notin> set (md_KnownHolders (bd_metadata ?bd))"
    by (simp_all add: example_node_def GetSenders_def NewBundleDescriptor_def new_metadata_def Let_def DtnNone_def)
  have dm: "dm_ownNodeID example_daemon = Some (Ipn \<lparr>Node = 9, Service = 1\<rparr>)" "dm_runtime example_daemon = example_runtime"
    "rt_cboring example_runtime = rfc8949" "rt_ebm example_runtime = GetExtensionBlockManager" "rt_now example_runtime = 0"
    by (simp_all add: example_daemon_def example_runtime_def)
  let ?bank = "snd (Bank_Register (pb_Destination example_primary) NewMailboxBank)"
  have a: "nd_agents (example_node example_store) ''REST'' = Some ?bank" "GetMailbox (pb_Destination example_primary) ?bank = Inr Map.empty"
    "bndl_PrimaryBlock example_bundle = example_primary" "Bundle_Payload example_bundle = Inr [1, 2, 3, 4, 5, 6, 7, 8]"
    by (simp_all add: example_node_def GetMailbox_def Bank_Register_def NewMailboxBank_def NewMailbox_def example_bundle_def
        Bundle_Payload_def NewCanonicalBlock_def)
  have "\<exists>nd1 client' b2 e nd2 bank' m' b3. forwardingAsync example_daemon 0 ?nd = (Inr (), nd1) \<and> (mtcp_cla link_client, link_bundle) \<in> set (nd_sent nd1) \<and>
    MTCPClient_Send (rt_cboring (dm_runtime example_daemon)) None None link_bundle link_client None = (Inr (), client', None) \<and>
    handleSender (rt_cboring (dm_runtime example_daemon)) GetExtensionBlockManager (\<lambda>_. rt_now (dm_runtime example_daemon)) (mc_written client') = Some ([b2], e) \<and>
    receiveAsync example_daemon b2 False (example_node example_store) = (Inr (), nd2) \<and> nd_agents nd2 ''REST'' = Some bank' \<and>
    GetMailbox (pb_Destination (bndl_PrimaryBlock example_bundle)) bank' = Inr m' \<and>
    fst (Mailbox_Get (dm_runtime example_daemon) (Bundle_ID example_bundle) True (nd_store nd2) m') = Inr b3 \<and> strip_crc b3 = strip_crc link_bundle \<and>
    Bundle_ID b3 = Bundle_ID example_bundle \<and> Bundle_Payload b3 = Bundle_Payload example_bundle \<and>
    pb_SourceNode (bndl_PrimaryBlock b3) = pb_SourceNode (bndl_PrimaryBlock example_bundle)"
    by (rule bundle_crosses_link [where dm = example_daemon and dm' = example_daemon and get = map_of and bank = ?bank and m = Map.empty
          and b = example_bundle and bd = ?bd])
       (use st nd dm a b link_bundle_eq link_sendable rfc.cboring_lib_axioms alist.badger_axioms example_store_inv example_fresh
         new_descriptor_simps(3) in simp_all)
  then show ?thesis unfolding dm a(3,4) by (intro exI [of _ st]) blast
qed

end
